(* ===== verification/Prelude.thy ===== *)
theory Prelude
  imports Complex_Main "HOL-Library.AList" "HOL-Library.Char_ord" "HOL-Library.List_Lexorder"
    "HOL-Library.Product_Lexorder" "HOL-Library.Sublist"
begin

text \<open>
  Shared vocabulary of the development: errors as values, the text cells Redis holds, the
  pieces of Python's standard library the source uses on them (\<open>float\<close>, \<open>int\<close>, truthiness,
  \<open>str.strip\<close>, \<open>str.split\<close>, \<open>str(int)\<close>, \<open>round\<close>, UTC calendar dates), and the lemma
  collections the component theories use.

  Amounts in USD are exact rationals: the source computes them with binary floating point, so
  every statement here is about the arithmetic the code intends, not about its rounding error.
  Python integers are \<open>int\<close>. Strings are \<open>string\<close>, one \<open>char\<close> per byte.
\<close>

named_theorems store_simps "what a read returns after a write of the store"
named_theorems res_simps "evaluation of the error monad"
named_theorems key_simps "shapes and distinctness of Redis keys"

section \<open>Errors as values\<close>

datatype err =
    ValueError
  | KeyError
  | RedisError
  | BudgetNotFound
  | InvalidBudget
  | RuntimeError
  | CustodyOverloaded
  | KafkaUnavailable bool
  | HTTPException nat
  | TypeError
  | AttributeError
  | IndexError

type_synonym 'a res = "err + 'a"

definition bindE :: "'a res \<Rightarrow> ('a \<Rightarrow> 'b res) \<Rightarrow> 'b res" where
  "bindE m f = (case m of Inl e \<Rightarrow> Inl e | Inr v \<Rightarrow> f v)"

lemma bindE_simps [simp, res_simps]:
  "bindE (Inl e) f = Inl e"
  "bindE (Inr v) f = f v"
  by (simp_all add: bindE_def)

lemma bindE_Inr_iff: "bindE m f = Inr w \<longleftrightarrow> (\<exists>v. m = Inr v \<and> f v = Inr w)"
  by (cases m) simp_all

lemma bindE_InrE [elim!]:
  assumes "bindE m f = Inr w"
  obtains v where "m = Inr v" and "f v = Inr w"
  using assms by (auto simp: bindE_Inr_iff)

lemma bindE_cong [fundef_cong]:
  "m = m' \<Longrightarrow> (\<And>v. m' = Inr v \<Longrightarrow> f v = f' v) \<Longrightarrow> bindE m f = bindE m' f'"
  by (cases m') simp_all

text \<open>Did the computation return, and what it returned.\<close>

definition isOk :: "'a res \<Rightarrow> bool" where
  "isOk m = (case m of Inl _ \<Rightarrow> False | Inr _ \<Rightarrow> True)"

definition ok_or :: "'a \<Rightarrow> 'a res \<Rightarrow> 'a" where
  "ok_or d m = (case m of Inl _ \<Rightarrow> d | Inr v \<Rightarrow> v)"

lemma isOk_simps [simp]: "isOk (Inr v)" "\<not> isOk (Inl e)" "ok_or d (Inr v) = v" "ok_or d (Inl e) = d"
  by (simp_all add: isOk_def ok_or_def)

lemma isOk_iff: "isOk m \<longleftrightarrow> (\<exists>v. m = Inr v)"
  by (cases m) simp_all

lemma isOk_ok_or: "isOk m \<Longrightarrow> m = Inr (ok_or d m)"
  by (cases m) simp_all

text \<open>A Python loop whose body may raise: stops at the first exception.\<close>

fun mapE :: "('a \<Rightarrow> 'b res) \<Rightarrow> 'a list \<Rightarrow> 'b list res" where
  "mapE f [] = Inr []"
| "mapE f (x # xs) = bindE (f x) (\<lambda>y. bindE (mapE f xs) (\<lambda>ys. Inr (y # ys)))"

lemma mapE_length: "mapE f xs = Inr ys \<Longrightarrow> length ys = length xs"
  by (induction xs arbitrary: ys) auto

lemma mapE_nth: "mapE f xs = Inr ys \<Longrightarrow> i < length xs \<Longrightarrow> f (xs ! i) = Inr (ys ! i)"
  by (induction xs arbitrary: ys i) (auto simp: nth_Cons split: nat.splits)

lemma mapE_map: "(\<And>x. x \<in> set xs \<Longrightarrow> f x = Inr (g x)) \<Longrightarrow> mapE f xs = Inr (map g xs)"
  by (induction xs) auto

lemma mapE_set:
  assumes "mapE f xs = Inr ys" and "y \<in> set ys"
  shows "\<exists>x \<in> set xs. f x = Inr y"
  using assms by (induction xs arbitrary: ys) auto

section \<open>JSON values and the text a Redis value holds\<close>

text \<open>
  A value of type \<open>json\<close> is what \<open>json.loads\<close> returns. A Redis string is one of: the decimal
  text of a Python integer, the decimal text of a number that is not written as an integer, the
  text \<open>json.dumps\<close> writes for an object, or any other text.
\<close>

datatype json =
    JNull
  | JBool bool
  | JInt int
  | JFlt rat
  | JStr string
  | JArr "json list"
  | JObj "(string \<times> json) list"

datatype cell =
    CInt int
  | CFlt rat
  | CTxt string
  | CJson json

definition cell_num :: "cell \<Rightarrow> rat option" where
  "cell_num c = (case c of CInt i \<Rightarrow> Some (of_int i) | CFlt q \<Rightarrow> Some q | CTxt _ \<Rightarrow> None | CJson _ \<Rightarrow> None)"

lemma cell_num_simps [simp]:
  "cell_num (CInt i) = Some (of_int i)"
  "cell_num (CFlt q) = Some q"
  "cell_num (CTxt t) = None"
  "cell_num (CJson j) = None"
  by (simp_all add: cell_num_def)

text \<open>The text INCRBYFLOAT and INCRBY leave behind: no fraction when there is none.\<close>

definition num_cell :: "rat \<Rightarrow> cell" where
  "num_cell q = (if of_int \<lfloor>q\<rfloor> = q then CInt \<lfloor>q\<rfloor> else CFlt q)"

lemma cell_num_num_cell [simp]: "cell_num (num_cell q) = Some q"
  by (simp add: num_cell_def)

text \<open>Python's \<open>float(text)\<close>, \<open>int(text)\<close> and the truth value of a reply.\<close>

definition py_float :: "cell \<Rightarrow> rat res" where
  "py_float c = (case cell_num c of Some q \<Rightarrow> Inr q | None \<Rightarrow> Inl ValueError)"

definition py_int :: "cell \<Rightarrow> int res" where
  "py_int c = (case c of CInt i \<Rightarrow> Inr i | _ \<Rightarrow> Inl ValueError)"

definition cell_true :: "cell option \<Rightarrow> bool" where
  "cell_true c = (case c of None \<Rightarrow> False | Some (CTxt t) \<Rightarrow> t \<noteq> [] | Some _ \<Rightarrow> True)"

lemma py_float_simps [simp]:
  "py_float (CInt i) = Inr (of_int i)"
  "py_float (CFlt q) = Inr q"
  "py_float (num_cell q) = Inr q"
  by (simp_all add: py_float_def)

lemma py_int_simps [simp]: "py_int (CInt i) = Inr i"
  by (simp add: py_int_def)

lemma cell_true_simps [simp]:
  "\<not> cell_true None"
  "cell_true (Some (CInt i))"
  "cell_true (Some (CFlt q))"
  "cell_true (Some (CJson j))"
  "cell_true (Some (CTxt t)) \<longleftrightarrow> t \<noteq> []"
  by (simp_all add: cell_true_def)

lemma cell_true_num: "cell_num c = Some q \<Longrightarrow> cell_true (Some c)"
  by (cases c) simp_all

lemma cell_true_num_cell [simp]: "cell_true (Some (num_cell q))"
  by (rule cell_true_num) simp

text \<open>\<open>float(x or 0)\<close> and \<open>int(x or 0)\<close> on a reply that may be missing.\<close>

definition float_or0 :: "cell option \<Rightarrow> rat res" where
  "float_or0 c = (case c of Some v \<Rightarrow> (if cell_true c then py_float v else Inr 0) | None \<Rightarrow> Inr 0)"

definition int_or0 :: "cell option \<Rightarrow> int res" where
  "int_or0 c = (case c of Some v \<Rightarrow> (if cell_true c then py_int v else Inr 0) | None \<Rightarrow> Inr 0)"

text \<open>The number a cell stands for, 0 when it is missing or not a number.\<close>

definition num0 :: "cell option \<Rightarrow> rat" where
  "num0 c = (case c of None \<Rightarrow> 0 | Some v \<Rightarrow> (case cell_num v of None \<Rightarrow> 0 | Some q \<Rightarrow> q))"

definition is_num :: "cell option \<Rightarrow> bool" where
  "is_num c = (case c of None \<Rightarrow> True | Some v \<Rightarrow> cell_num v \<noteq> None)"

lemma num0_simps [simp]:
  "num0 None = 0"
  "num0 (Some (CInt i)) = of_int i"
  "num0 (Some (CFlt q)) = q"
  "num0 (Some (num_cell q)) = q"
  by (simp_all add: num0_def)

lemma is_num_simps [simp]:
  "is_num None"
  "is_num (Some (CInt i))"
  "is_num (Some (CFlt q))"
  "is_num (Some (num_cell q))"
  by (simp_all add: is_num_def)

lemma cell_num_is_num: "is_num (Some v) \<Longrightarrow> cell_num v = Some (num0 (Some v))"
  by (auto simp: is_num_def num0_def)

lemma float_or0_num [simp]: "is_num c \<Longrightarrow> float_or0 c = Inr (num0 c)"
  by (cases c) (auto simp: float_or0_def py_float_def is_num_def num0_def dest: cell_true_num)

lemma float_or0_None [simp]: "float_or0 None = Inr 0"
  by (simp add: float_or0_def)

lemma int_or0_simps [simp]:
  "int_or0 None = Inr 0"
  "int_or0 (Some (CInt i)) = Inr i"
  by (simp_all add: int_or0_def)

section \<open>Strings\<close>

definition is_space :: "char \<Rightarrow> bool" where
  "is_space c \<longleftrightarrow> c \<in> set [CHR '' '', CHR 0x09, CHR 0x0A, CHR 0x0B, CHR 0x0C, CHR 0x0D,
     CHR 0x1C, CHR 0x1D, CHR 0x1E, CHR 0x1F]"

definition py_lstrip :: "string \<Rightarrow> string" where
  "py_lstrip s = dropWhile is_space s"

definition py_strip :: "string \<Rightarrow> string" where
  "py_strip s = rev (dropWhile is_space (rev (dropWhile is_space s)))"

lemma py_strip_Nil [simp]: "py_strip [] = []"
  by (simp add: py_strip_def)

lemma py_strip_eq_Nil: "py_strip s = [] \<longleftrightarrow> (\<forall>c \<in> set s. is_space c)"
proof -
  have "set (dropWhile is_space s) \<subseteq> Collect is_space \<longleftrightarrow> (\<forall>c \<in> set s. is_space c)"
    by (induction s) auto
  then show ?thesis
    by (auto simp: py_strip_def dropWhile_eq_Nil_conv subset_iff)
qed

text \<open>\<open>str.lower\<close> on ASCII text.\<close>

definition lower_char :: "char \<Rightarrow> char" where
  "lower_char c = (let n = of_char c :: nat in if 65 \<le> n \<and> n \<le> 90 then char_of (n + 32) else c)"

definition py_lower :: "string \<Rightarrow> string" where
  "py_lower s = map lower_char s"

fun split_on :: "char \<Rightarrow> string \<Rightarrow> string list" where
  "split_on d [] = [[]]"
| "split_on d (c # cs) =
     (if c = d then [] # split_on d cs
      else (case split_on d cs of [] \<Rightarrow> [[c]] | w # ws \<Rightarrow> (c # w) # ws))"

lemma split_on_nonempty [simp]: "split_on d s \<noteq> []"
  by (induction s) (auto split: list.splits)

lemma split_on_none: "d \<notin> set s \<Longrightarrow> split_on d s = [s]"
  by (induction s) auto

lemma split_on_append: "d \<notin> set s \<Longrightarrow> split_on d (s @ d # t) = s # split_on d t"
  by (induction s) auto

lemma split_on_pieces: "w \<in> set (split_on d s) \<Longrightarrow> d \<notin> set w"
  by (induction s arbitrary: w) (auto split: if_splits list.splits)

definition startswith :: "string \<Rightarrow> string \<Rightarrow> bool" where
  "startswith s p \<longleftrightarrow> prefix p s"

definition join :: "string \<Rightarrow> string list \<Rightarrow> string" where
  "join sep ws = (case ws of [] \<Rightarrow> [] | w # rest \<Rightarrow> w @ concat (map (\<lambda>v. sep @ v) rest))"

text \<open>Decimal text of an integer, \<open>str(n)\<close>.\<close>

definition digit_char :: "nat \<Rightarrow> char" where
  "digit_char d = char_of (48 + d)"

fun nat_str :: "nat \<Rightarrow> string" where
  "nat_str n = (if n < 10 then [digit_char n] else nat_str (n div 10) @ [digit_char (n mod 10)])"

declare nat_str.simps [simp del]

definition int_str :: "int \<Rightarrow> string" where
  "int_str i = (if i < 0 then ''-'' @ nat_str (nat (- i)) else nat_str (nat i))"

definition pad0 :: "nat \<Rightarrow> string \<Rightarrow> string" where
  "pad0 w s = replicate (w - length s) (CHR ''0'') @ s"

lemma digit_char_inj: "a < 10 \<Longrightarrow> b < 10 \<Longrightarrow> digit_char a = digit_char b \<Longrightarrow> a = b"
  by (simp add: digit_char_def char_of_eq_iff take_bit_eq_mod of_char_of)

lemma digit_char_plain: "d < 10 \<Longrightarrow> digit_char d \<noteq> CHR '':'' \<and> digit_char d \<noteq> CHR ''-''"
  by (auto simp: digit_char_def char_of_eq_iff take_bit_eq_mod)

lemma nat_str_nonempty [simp]: "nat_str n \<noteq> []"
  by (subst nat_str.simps) simp

lemma nat_str_plain: "c \<in> set (nat_str n) \<Longrightarrow> c \<noteq> CHR '':'' \<and> c \<noteq> CHR ''-''"
proof (induction n rule: nat_str.induct)
  case (1 n)
  then show ?case
    by (cases "n < 10") (auto simp: nat_str.simps [of n] digit_char_plain)
qed

lemma nat_str_inj: "nat_str m = nat_str n \<Longrightarrow> m = n"
proof (induction m arbitrary: n rule: nat_str.induct)
  case (1 m)
  show ?case
  proof (cases "m < 10"; cases "n < 10")
    assume "\<not> m < 10" "\<not> n < 10"
    then have "nat_str (m div 10) = nat_str (n div 10)"
      and d: "digit_char (m mod 10) = digit_char (n mod 10)"
      using "1.prems" by (simp_all add: nat_str.simps [of m] nat_str.simps [of n])
    then have "m div 10 = n div 10" using "1.IH" \<open>\<not> m < 10\<close> by blast
    moreover have "m mod 10 = n mod 10" using d by (auto intro: digit_char_inj)
    ultimately show ?thesis by (metis div_mult_mod_eq)
  qed (use "1.prems" in \<open>auto simp: nat_str.simps [of m] nat_str.simps [of n] intro: digit_char_inj
        dest: sym [of "[]"]\<close>)
qed

lemma nat_str_no_sign [simp]: "nat_str n \<noteq> CHR ''-'' # t" "CHR ''-'' # t \<noteq> nat_str n"
  using nat_str_plain [of "CHR ''-''" n] by (metis list.set_intros(1))+

lemma int_str_inj: "int_str i = int_str j \<Longrightarrow> i = j"
  by (auto simp: int_str_def split: if_splits dest!: nat_str_inj)

text \<open>Text of a field that is always written as text.\<close>

definition cell_text :: "cell option \<Rightarrow> string" where
  "cell_text c = (case c of Some (CTxt t) \<Rightarrow> t | Some (CInt i) \<Rightarrow> int_str i | _ \<Rightarrow> [])"

lemma cell_text_simps [simp]: "cell_text None = []" "cell_text (Some (CTxt t)) = t"
  by (simp_all add: cell_text_def)

text \<open>The truth value of an optional string argument.\<close>

definition truthy :: "string option \<Rightarrow> string option" where
  "truthy x = (case x of Some [] \<Rightarrow> None | _ \<Rightarrow> x)"

definition text_or_empty :: "string option \<Rightarrow> string" where
  "text_or_empty x = (case x of None \<Rightarrow> [] | Some v \<Rightarrow> v)"

text \<open>
  The number a piece of text stands for: an optional sign, digits with an optional fraction, an
  optional decimal exponent. \<open>float(text)\<close> also reads \<open>inf\<close>, \<open>nan\<close> and digit separators, which
  this model takes for text that is no number.
\<close>

definition digit_val :: "char \<Rightarrow> nat option" where
  "digit_val c = (let n = of_char c :: nat in if 48 \<le> n \<and> n \<le> 57 then Some (n - 48) else None)"

fun parse_digits :: "nat \<Rightarrow> string \<Rightarrow> nat option" where
  "parse_digits acc [] = Some acc"
| "parse_digits acc (c # cs) =
     (case digit_val c of None \<Rightarrow> None | Some d \<Rightarrow> parse_digits (10 * acc + d) cs)"

definition parse_nat :: "string \<Rightarrow> nat option" where
  "parse_nat s = (if s = [] then None else parse_digits 0 s)"

definition unsign :: "string \<Rightarrow> int \<times> string" where
  "unsign s = (case s of
     [] \<Rightarrow> (1, s)
   | c # cs \<Rightarrow> if c = CHR ''-'' then (- 1, cs) else if c = CHR ''+'' then (1, cs) else (1, s))"

definition parse_int :: "string \<Rightarrow> int option" where
  "parse_int t = (case unsign (py_strip t) of (sg, ds) \<Rightarrow> map_option (\<lambda>n. sg * int n) (parse_nat ds))"

definition parse_decimal :: "string \<Rightarrow> rat option" where
  "parse_decimal s =
     (let whole = takeWhile (\<lambda>c. c \<noteq> CHR ''.'') s; rest = dropWhile (\<lambda>c. c \<noteq> CHR ''.'') s; frac = drop 1 rest in
      if whole = [] \<and> frac = [] then None
      else (case (parse_digits 0 whole, parse_digits 0 frac) of
              (Some w, Some f) \<Rightarrow> Some (of_nat w + of_nat f / 10 ^ length frac)
            | _ \<Rightarrow> None))"

definition parse_float :: "string \<Rightarrow> rat option" where
  "parse_float t =
     (case unsign (py_strip t) of (sg, body) \<Rightarrow>
        let is_e = (\<lambda>c. c = CHR ''e'' \<or> c = CHR ''E'');
            mant = takeWhile (\<lambda>c. \<not> is_e c) body; tail = dropWhile (\<lambda>c. \<not> is_e c) body in
        (case parse_decimal mant of
           None \<Rightarrow> None
         | Some q \<Rightarrow>
             if tail = [] then Some (of_int sg * q)
             else (case unsign (drop 1 tail) of (esg, ds) \<Rightarrow>
               (case parse_nat ds of
                  None \<Rightarrow> None
                | Some e \<Rightarrow> Some (of_int sg * (if esg < 0 then q / 10 ^ e else q * 10 ^ e))))))"

section \<open>JSON values in Python\<close>

definition json_true :: "json \<Rightarrow> bool" where
  "json_true j = (case j of JNull \<Rightarrow> False | JBool b \<Rightarrow> b | JInt i \<Rightarrow> i \<noteq> 0 | JFlt q \<Rightarrow> q \<noteq> 0
     | JStr t \<Rightarrow> t \<noteq> [] | JArr xs \<Rightarrow> xs \<noteq> [] | JObj o' \<Rightarrow> o' \<noteq> [])"

definition json_float :: "json \<Rightarrow> rat res" where
  "json_float j = (case j of JInt i \<Rightarrow> Inr (of_int i) | JFlt q \<Rightarrow> Inr q
     | JBool b \<Rightarrow> Inr (if b then 1 else 0)
     | JStr t \<Rightarrow> (case parse_float t of None \<Rightarrow> Inl ValueError | Some q \<Rightarrow> Inr q)
     | _ \<Rightarrow> Inl TypeError)"

definition json_int :: "json \<Rightarrow> int res" where
  "json_int j = (case j of JInt i \<Rightarrow> Inr i | JFlt q \<Rightarrow> Inr (if 0 \<le> q then \<lfloor>q\<rfloor> else \<lceil>q\<rceil>)
     | JBool b \<Rightarrow> Inr (if b then 1 else 0)
     | JStr t \<Rightarrow> (case parse_int t of None \<Rightarrow> Inl ValueError | Some i \<Rightarrow> Inr i)
     | _ \<Rightarrow> Inl TypeError)"

text \<open>\<open>node.get(field)\<close>: only an object has it.\<close>

definition json_field :: "json \<Rightarrow> string \<Rightarrow> json option res" where
  "json_field j f = (case j of JObj kvs \<Rightarrow> Inr (map_of kvs f) | _ \<Rightarrow> Inl AttributeError)"

definition json_get :: "json \<Rightarrow> string \<Rightarrow> json \<Rightarrow> json res" where
  "json_get j f d = bindE (json_field j f) (\<lambda>v. Inr (case v of None \<Rightarrow> d | Some x \<Rightarrow> x))"

text \<open>\<open>node[field]\<close>.\<close>

definition json_index :: "json \<Rightarrow> string \<Rightarrow> json res" where
  "json_index j f = (case j of
     JObj kvs \<Rightarrow> (case map_of kvs f of None \<Rightarrow> Inl KeyError | Some v \<Rightarrow> Inr v) | _ \<Rightarrow> Inl TypeError)"

text \<open>\<open>node[field] = value\<close>, and the text an f-string gives a key id (ids are text or integers).\<close>

definition json_set :: "json \<Rightarrow> string \<Rightarrow> json \<Rightarrow> json res" where
  "json_set j f v = (case j of JObj kvs \<Rightarrow> Inr (JObj (AList.update f v kvs)) | _ \<Rightarrow> Inl TypeError)"

definition json_text :: "json \<Rightarrow> string res" where
  "json_text j = (case j of JStr t \<Rightarrow> Inr t | JInt i \<Rightarrow> Inr (int_str i)
     | JBool b \<Rightarrow> Inr (if b then ''True'' else ''False'') | JNull \<Rightarrow> Inr ''None'' | _ \<Rightarrow> Inl TypeError)"

text \<open>Iterating a value.\<close>

definition json_iter :: "json \<Rightarrow> json list res" where
  "json_iter j = (case j of JArr xs \<Rightarrow> Inr xs | JObj kvs \<Rightarrow> Inr (map (JStr \<circ> fst) kvs)
     | JStr t \<Rightarrow> Inr (map (\<lambda>c. JStr [c]) t) | _ \<Rightarrow> Inl TypeError)"

text \<open>\<open>json.loads\<close> of what a key holds.\<close>

definition json_loads :: "cell \<Rightarrow> json res" where
  "json_loads c = (case c of CJson j \<Rightarrow> Inr j | CInt i \<Rightarrow> Inr (JInt i) | CFlt q \<Rightarrow> Inr (JFlt q)
     | CTxt _ \<Rightarrow> Inl ValueError)"

lemma json_simps [simp]:
  "json_float (JInt i) = Inr (of_int i)" "json_float (JFlt q) = Inr q"
  "json_field (JObj kvs) f = Inr (map_of kvs f)"
  "json_loads (CJson j) = Inr j"
  by (simp_all add: json_float_def json_field_def json_loads_def)

lemma json_get_obj [simp]: "json_get (JObj kvs) f d = Inr (case map_of kvs f of None \<Rightarrow> d | Some x \<Rightarrow> x)"
  by (simp add: json_get_def)

section \<open>Rounding\<close>

text \<open>Python's \<open>round(x)\<close>: to the nearest integer, ties to the even one; \<open>int(x)\<close>: towards zero.\<close>

definition py_round :: "rat \<Rightarrow> int" where
  "py_round x =
     (let f = \<lfloor>x\<rfloor>; d = x - of_int f in
      if d < 1 / 2 then f else if d > 1 / 2 then f + 1 else if even f then f else f + 1)"

definition trunc_int :: "rat \<Rightarrow> int" where
  "trunc_int x = (if 0 \<le> x then \<lfloor>x\<rfloor> else \<lceil>x\<rceil>)"

lemma py_round_error: "\<bar>of_int (py_round x) - x\<bar> \<le> (1 / 2 :: rat)"
proof -
  have "of_int \<lfloor>x\<rfloor> \<le> x" "x < of_int \<lfloor>x\<rfloor> + 1" by linarith+
  then show ?thesis by (auto simp: py_round_def Let_def)
qed

lemma py_round_of_int [simp]: "py_round (of_int i) = i"
  by (simp add: py_round_def)

lemma py_round_0 [simp]: "py_round 0 = 0"
  by (simp add: py_round_def)

lemma py_round_nonneg: "0 \<le> x \<Longrightarrow> 0 \<le> py_round x"
  using zero_le_floor [of x] by (auto simp: py_round_def Let_def)

lemma py_round_mono:
  assumes "x \<le> y"
  shows "py_round x \<le> py_round y"
proof (cases "\<lfloor>x\<rfloor> = \<lfloor>y\<rfloor>")
  case True
  with assms show ?thesis by (auto simp: py_round_def Let_def)
next
  case False
  with assms have "\<lfloor>x\<rfloor> + 1 \<le> \<lfloor>y\<rfloor>" using floor_mono [of x y] by linarith
  moreover have "py_round x \<le> \<lfloor>x\<rfloor> + 1" "\<lfloor>y\<rfloor> \<le> py_round y"
    by (auto simp: py_round_def Let_def)
  ultimately show ?thesis by linarith
qed

lemma trunc_int_of_int [simp]: "trunc_int (of_int i) = i"
  by (simp add: trunc_int_def)

text \<open>\<open>round(x, n)\<close>.\<close>

definition round_to :: "nat \<Rightarrow> rat \<Rightarrow> rat" where
  "round_to n x = of_int (py_round (x * 10 ^ n)) / 10 ^ n"

lemma round_to_error: "\<bar>round_to n x - x\<bar> \<le> 1 / 2 / 10 ^ n"
proof -
  have "\<bar>of_int (py_round (x * 10 ^ n)) - x * 10 ^ n\<bar> / 10 ^ n \<le> 1 / 2 / 10 ^ n"
    by (rule divide_right_mono [OF py_round_error]) simp
  moreover have "round_to n x - x = (of_int (py_round (x * 10 ^ n)) - x * 10 ^ n) / 10 ^ n"
    by (simp add: round_to_def diff_divide_distrib)
  ultimately show ?thesis by (simp add: abs_divide)
qed

end
