(* ===== verification/Redis_Store.thy ===== *)
theory Redis_Store
  imports Prelude
begin

text \<open>
  The persistent state every component shares. The source keeps all of it in one Redis
  database, so the store is an explicit record passed through every operation: string keys,
  hashes, sorted sets, lists, sets, and the expiry deadlines of keys together with the server
  clock. Each command the source sends is its documented effect on that record; a Lua script or
  a MULTI pipeline is the composition of its commands. The value types have separate name
  spaces here, while Redis rejects a command on a key of another type; the source never reuses a
  key across types.

  The interface the components rely on is the locale \<open>map_store\<close>, interpreted on the
  string keys and on the fields of hashes.
\<close>

type_synonym key = string

record store =
  kv :: "(key \<times> cell) list"
  hashes :: "(key \<times> (string \<times> cell) list) list"
  zsets :: "key \<Rightarrow> (string \<times> rat) list"
  lists :: "key \<Rightarrow> cell list"
  sets :: "key \<Rightarrow> string list"
  ttl :: "key \<Rightarrow> rat option"
  clk :: rat

definition empty_store :: store where
  "empty_store = \<lparr>kv = [], hashes = [], zsets = (\<lambda>_. []), lists = (\<lambda>_. []), sets = (\<lambda>_. []),
     ttl = (\<lambda>_. None), clk = 0\<rparr>"

section \<open>Commands\<close>

definition rget :: "store \<Rightarrow> key \<Rightarrow> cell option" where
  "rget s k = map_of (kv s) k"

definition rset :: "store \<Rightarrow> key \<Rightarrow> cell \<Rightarrow> store" where
  "rset s k v = s\<lparr>kv := AList.update k v (kv s), ttl := (ttl s)(k := None)\<rparr>"

definition hash_of :: "store \<Rightarrow> key \<Rightarrow> (string \<times> cell) list" where
  "hash_of s k = (case map_of (hashes s) k of None \<Rightarrow> [] | Some h \<Rightarrow> h)"

definition hget :: "store \<Rightarrow> key \<Rightarrow> string \<Rightarrow> cell option" where
  "hget s k f = map_of (hash_of s k) f"

definition put_hash :: "store \<Rightarrow> key \<Rightarrow> (string \<times> cell) list \<Rightarrow> store" where
  "put_hash s k h =
     s\<lparr>hashes := (if h = [] then AList.delete k (hashes s) else AList.update k h (hashes s))\<rparr>"

definition hset :: "store \<Rightarrow> key \<Rightarrow> string \<Rightarrow> cell \<Rightarrow> store" where
  "hset s k f v = put_hash s k (AList.update f v (hash_of s k))"

definition hdel :: "store \<Rightarrow> key \<Rightarrow> string \<Rightarrow> store" where
  "hdel s k f = put_hash s k (AList.delete f (hash_of s k))"

text \<open>EXISTS on a string key or a hash, and on a sorted set; DEL on any of the types the source deletes.\<close>

definition rexists :: "store \<Rightarrow> key \<Rightarrow> bool" where
  "rexists s k \<longleftrightarrow> rget s k \<noteq> None \<or> hash_of s k \<noteq> []"

definition zexists :: "store \<Rightarrow> key \<Rightarrow> bool" where
  "zexists s k \<longleftrightarrow> zsets s k \<noteq> []"

definition rdel :: "store \<Rightarrow> key \<Rightarrow> store" where
  "rdel s k = s\<lparr>kv := AList.delete k (kv s), hashes := AList.delete k (hashes s),
     ttl := (ttl s)(k := None)\<rparr>"

definition incrbyfloat :: "store \<Rightarrow> key \<Rightarrow> rat \<Rightarrow> store res" where
  "incrbyfloat s k x =
     (if is_num (rget s k)
      then Inr (s\<lparr>kv := AList.update k (num_cell (num0 (rget s k) + x)) (kv s)\<rparr>)
      else Inl RedisError)"

definition incrby :: "store \<Rightarrow> key \<Rightarrow> int \<Rightarrow> store res" where
  "incrby s k n =
     (case int_or0 (rget s k) of
        Inl _ \<Rightarrow> Inl RedisError
      | Inr i \<Rightarrow> Inr (s\<lparr>kv := AList.update k (CInt (i + n)) (kv s)\<rparr>))"

definition expire :: "store \<Rightarrow> key \<Rightarrow> rat \<Rightarrow> store" where
  "expire s k secs =
     (if rexists s k \<or> zsets s k \<noteq> [] then s\<lparr>ttl := (ttl s)(k \<mapsto> clk s + secs)\<rparr> else s)"

text \<open>Sorted sets are kept in the order of ZRANGE: by score, then by member.\<close>

definition zadd :: "store \<Rightarrow> key \<Rightarrow> rat \<Rightarrow> string \<Rightarrow> store" where
  "zadd s k sc m = s\<lparr>zsets := (zsets s)
     (k := insort_key (\<lambda>(m, sc). (sc, m)) (m, sc) (filter (\<lambda>e. fst e \<noteq> m) (zsets s k)))\<rparr>"

definition zrem :: "store \<Rightarrow> key \<Rightarrow> string \<Rightarrow> store" where
  "zrem s k m = s\<lparr>zsets := (zsets s)(k := filter (\<lambda>e. fst e \<noteq> m) (zsets s k))\<rparr>"

definition zscore :: "store \<Rightarrow> key \<Rightarrow> string \<Rightarrow> rat option" where
  "zscore s k m = map_of (zsets s k) m"

definition rpush :: "store \<Rightarrow> key \<Rightarrow> cell \<Rightarrow> store" where
  "rpush s k v = s\<lparr>lists := (lists s)(k := lists s k @ [v])\<rparr>"

definition lpop :: "store \<Rightarrow> key \<Rightarrow> store" where
  "lpop s k = s\<lparr>lists := (lists s)(k := tl (lists s k))\<rparr>"

definition sadd :: "store \<Rightarrow> key \<Rightarrow> string \<Rightarrow> store" where
  "sadd s k m = s\<lparr>sets := (sets s)(k := (if m \<in> set (sets s k) then sets s k else sets s k @ [m]))\<rparr>"

definition srem :: "store \<Rightarrow> key \<Rightarrow> string \<Rightarrow> store" where
  "srem s k m = s\<lparr>sets := (sets s)(k := filter (\<lambda>x. x \<noteq> m) (sets s k))\<rparr>"

text \<open>SCAN with a MATCH pattern whose only special character is \<open>*\<close>.\<close>

fun glob :: "string \<Rightarrow> string \<Rightarrow> bool" where
  "glob [] s = (s = [])"
| "glob (p # ps) [] = (p = CHR ''*'' \<and> glob ps [])"
| "glob (p # ps) (c # cs) =
     (if p = CHR ''*'' then glob ps (c # cs) \<or> glob (p # ps) cs else p = c \<and> glob ps cs)"

definition scan :: "store \<Rightarrow> string \<Rightarrow> key list" where
  "scan s pat = filter (glob pat) (map fst (kv s) @ map fst (hashes s))"

text \<open>HSET with several fields; a pipeline of SETs, in order.\<close>

definition hset_all :: "store \<Rightarrow> key \<Rightarrow> (string \<times> cell) list \<Rightarrow> store" where
  "hset_all s k fs = fold (\<lambda>(f, v) s. hset s k f v) fs s"

definition set_all :: "store \<Rightarrow> (key \<times> cell) list \<Rightarrow> store" where
  "set_all s kvs = fold (\<lambda>(k, v) s. rset s k v) kvs s"

definition del_all :: "store \<Rightarrow> key list \<Rightarrow> store" where
  "del_all s ks = fold (\<lambda>k s. rdel s k) ks s"

text \<open>
  A transactional pipeline (MULTI) of commands that may fail: every command runs, and the first
  error is raised at the end.
\<close>

fun multi :: "(store \<Rightarrow> store res) list \<Rightarrow> store \<Rightarrow> unit res \<times> store" where
  "multi [] s = (Inr (), s)"
| "multi (c # cs) s =
     (case c s of Inl e \<Rightarrow> (Inl e, snd (multi cs s)) | Inr s' \<Rightarrow> multi cs s')"

lemma multi_append:
  "multi (cs @ ds) s = (Inr (), s') \<longleftrightarrow> (\<exists>s1. multi cs s = (Inr (), s1) \<and> multi ds s1 = (Inr (), s'))"
  by (induction cs arbitrary: s) (auto split: sum.splits)

section \<open>The interface: a map with reads after writes\<close>

locale map_store =
  fixes get :: "'s \<Rightarrow> 'k \<Rightarrow> 'v option"
    and put :: "'s \<Rightarrow> 'k \<Rightarrow> 'v \<Rightarrow> 's"
    and del :: "'s \<Rightarrow> 'k \<Rightarrow> 's"
  assumes get_put: "get (put s k v) k' = (if k' = k then Some v else get s k')"
    and get_del: "get (del s k) k' = (if k' = k then None else get s k')"
begin

lemma get_puts:
  "get (fold (\<lambda>(k, v) s. put s k v) kvs s) k =
     (case map_of (rev kvs) k of Some v \<Rightarrow> Some v | None \<Rightarrow> get s k)"
  by (induction kvs arbitrary: s) (auto simp: get_put map_add_def split: option.splits)

lemma get_puts_other:
  "k \<notin> fst ` set kvs \<Longrightarrow> get (fold (\<lambda>(k, v) s. put s k v) kvs s) k = get s k"
  by (induction kvs arbitrary: s) (auto simp: get_put)

lemma get_dels:
  "get (fold (\<lambda>k s. del s k) ks s) k = (if k \<in> set ks then None else get s k)"
  by (induction ks arbitrary: s) (auto simp: get_del)

lemma put_put_same: "get (put (put s k v) k w) = get (put s k w)"
  by (auto simp: get_put)

lemma put_swap: "k \<noteq> k' \<Longrightarrow> get (put (put s k v) k' w) = get (put (put s k' w) k v)"
  by (auto simp: get_put)

end

lemma rget_rset [simp, store_simps]: "rget (rset s k v) k' = (if k' = k then Some v else rget s k')"
  by (simp add: rget_def rset_def update_conv')

lemma rget_rdel [simp, store_simps]: "rget (rdel s k) k' = (if k' = k then None else rget s k')"
  by (simp add: rget_def rdel_def delete_conv')

lemma hash_of_put_hash [simp]: "hash_of (put_hash s k h) k' = (if k' = k then h else hash_of s k')"
  by (auto simp: hash_of_def put_hash_def update_conv' delete_conv')

lemma hget_hset [simp, store_simps]:
  "hget (hset s k f v) k' f' = (if k' = k \<and> f' = f then Some v else hget s k' f')"
  by (simp add: hget_def hset_def update_conv')

lemma hget_hdel [simp, store_simps]:
  "hget (hdel s k f) k' f' = (if k' = k \<and> f' = f then None else hget s k' f')"
  by (simp add: hget_def hdel_def delete_conv')

interpretation string_keys: map_store rget rset rdel
  by unfold_locales simp_all

interpretation hash_fields: map_store "\<lambda>s (k, f). hget s k f" "\<lambda>s (k, f) v. hset s k f v"
    "\<lambda>s (k, f). hdel s k f"
  by unfold_locales (auto split: if_splits)

lemma rget_set_all:
  "rget (set_all s kvs) k = (case map_of (rev kvs) k of Some v \<Rightarrow> Some v | None \<Rightarrow> rget s k)"
  unfolding set_all_def by (rule string_keys.get_puts)

lemma rget_set_all_other: "k \<notin> fst ` set kvs \<Longrightarrow> rget (set_all s kvs) k = rget s k"
  unfolding set_all_def by (rule string_keys.get_puts_other)

lemma rget_del_all: "rget (del_all s ks) k = (if k \<in> set ks then None else rget s k)"
  unfolding del_all_def by (rule string_keys.get_dels)

section \<open>Frames: what each command leaves alone\<close>

lemma rget_frame [simp, store_simps]:
  "rget (put_hash s h al) k = rget s k"
  "rget (hset s h f v) k = rget s k"
  "rget (hdel s h f) k = rget s k"
  "rget (zadd s z sc m) k = rget s k"
  "rget (zrem s z m) k = rget s k"
  "rget (rpush s l v) k = rget s k"
  "rget (lpop s l) k = rget s k"
  "rget (sadd s l x) k = rget s k"
  "rget (srem s l x) k = rget s k"
  "rget (expire s e secs) k = rget s k"
  by (simp_all add: rget_def put_hash_def hset_def hdel_def zadd_def zrem_def rpush_def lpop_def
      sadd_def srem_def expire_def)

lemma hash_frame [simp, store_simps]:
  "hash_of (rset s k v) h = hash_of s h"
  "hash_of (hset s k f v) h = (if h = k then AList.update f v (hash_of s k) else hash_of s h)"
  "hash_of (zadd s z sc m) h = hash_of s h"
  "hash_of (zrem s z m) h = hash_of s h"
  "hash_of (rpush s l v) h = hash_of s h"
  "hash_of (lpop s l) h = hash_of s h"
  "hash_of (sadd s l x) h = hash_of s h"
  "hash_of (srem s l x) h = hash_of s h"
  "hash_of (expire s e secs) h = hash_of s h"
  "hash_of (rdel s k) h = (if h = k then [] else hash_of s h)"
  by (auto simp: hash_of_def rset_def zadd_def zrem_def rpush_def lpop_def
      sadd_def srem_def expire_def rdel_def delete_conv')
     (simp_all add: hset_def flip: hash_of_def)

lemma hget_frame [simp, store_simps]:
  "hget (rset s k v) h f = hget s h f"
  "hget (zadd s z sc m) h f = hget s h f"
  "hget (zrem s z m) h f = hget s h f"
  "hget (rpush s l v) h f = hget s h f"
  "hget (lpop s l) h f = hget s h f"
  "hget (sadd s l x) h f = hget s h f"
  "hget (srem s l x) h f = hget s h f"
  "hget (expire s e secs) h f = hget s h f"
  "hget (rdel s k) h f = (if h = k then None else hget s h f)"
  by (simp_all add: hget_def)

lemma zsets_frame [simp, store_simps]:
  "zsets (rset s k v) = zsets s"
  "zsets (put_hash s h al) = zsets s"
  "zsets (hset s h f v) = zsets s"
  "zsets (hdel s h f) = zsets s"
  "zsets (rdel s k) = zsets s"
  "zsets (rpush s l v) = zsets s"
  "zsets (lpop s l) = zsets s"
  "zsets (sadd s l x) = zsets s"
  "zsets (srem s l x) = zsets s"
  "zsets (expire s e secs) = zsets s"
  by (simp_all add: rset_def put_hash_def hset_def hdel_def rdel_def rpush_def lpop_def
      sadd_def srem_def expire_def)

lemma lists_frame [simp, store_simps]:
  "lists (rset s k v) = lists s"
  "lists (put_hash s h al) = lists s"
  "lists (hset s h f v) = lists s"
  "lists (hdel s h f) = lists s"
  "lists (rdel s k) = lists s"
  "lists (zadd s z sc m) = lists s"
  "lists (zrem s z m) = lists s"
  "lists (sadd s l x) = lists s"
  "lists (srem s l x) = lists s"
  "lists (expire s e secs) = lists s"
  "lists (rpush s k c) l = (if l = k then lists s k @ [c] else lists s l)"
  "lists (lpop s k) l = (if l = k then tl (lists s k) else lists s l)"
  by (simp_all add: rset_def put_hash_def hset_def hdel_def rdel_def zadd_def zrem_def
      sadd_def srem_def expire_def rpush_def lpop_def)

lemma sets_frame [simp, store_simps]:
  "sets (rset s k v) = sets s"
  "sets (put_hash s h al) = sets s"
  "sets (hset s h f v) = sets s"
  "sets (hdel s h f) = sets s"
  "sets (rdel s k) = sets s"
  "sets (zadd s z sc m) = sets s"
  "sets (zrem s z m) = sets s"
  "sets (rpush s k c) = sets s"
  "sets (lpop s k) = sets s"
  "sets (expire s e secs) = sets s"
  by (simp_all add: rset_def put_hash_def hset_def hdel_def rdel_def zadd_def zrem_def
      rpush_def lpop_def expire_def)

lemma rget_incrbyfloat:
  "incrbyfloat s k x = Inr s' \<Longrightarrow>
     rget s' k' = (if k' = k then Some (num_cell (num0 (rget s k) + x)) else rget s k')"
  by (auto simp: incrbyfloat_def rget_def update_conv' split: if_splits)

lemma incrbyfloat_frame:
  assumes "incrbyfloat s k x = Inr s'"
  shows "hash_of s' h = hash_of s h" and "hget s' h f = hget s h f" and "zsets s' = zsets s"
    and "lists s' = lists s" and "sets s' = sets s"
  using assms by (auto simp: incrbyfloat_def hash_of_def hget_def split: if_splits)

lemma incrbyfloat_ok: "is_num (rget s k) \<Longrightarrow> \<exists>s'. incrbyfloat s k x = Inr s'"
  by (simp add: incrbyfloat_def)

lemma rexists_iff: "rexists s k \<longleftrightarrow> rget s k \<noteq> None \<or> hash_of s k \<noteq> []"
  by (simp add: rexists_def)

section \<open>Sorted sets\<close>

definition zwf :: "(string \<times> rat) list \<Rightarrow> bool" where
  "zwf z \<longleftrightarrow> distinct (map fst z) \<and> sorted (map (\<lambda>(m, sc). (sc, m)) z)"

lemma zsets_zadd [simp, store_simps]:
  "zsets (zadd s k sc m) k' =
     (if k' = k then insort_key (\<lambda>(m, sc). (sc, m)) (m, sc) (filter (\<lambda>e. fst e \<noteq> m) (zsets s k))
      else zsets s k')"
  by (simp add: zadd_def)

lemma zsets_zrem [simp, store_simps]:
  "zsets (zrem s k m) k' = (if k' = k then filter (\<lambda>e. fst e \<noteq> m) (zsets s k) else zsets s k')"
  by (simp add: zrem_def)

lemma distinct_insort_fst:
  "m \<notin> fst ` set z \<Longrightarrow> distinct (map fst z) \<Longrightarrow> distinct (map fst (insort_key g (m, sc) z))"
  by (induction z) (auto simp: set_insort_key)

lemma zwf_insort:
  assumes "zwf z"
  shows "zwf (insort_key (\<lambda>(m, sc). (sc, m)) (m, sc) (filter (\<lambda>e. fst e \<noteq> m) z))"
proof -
  let ?z = "filter (\<lambda>e. fst e \<noteq> m) z"
  have "distinct (map fst ?z)" "sorted (map (\<lambda>(m, sc). (sc, m)) ?z)" "m \<notin> fst ` set ?z"
    using assms by (auto simp: zwf_def distinct_map inj_on_def sorted_filter)
  then show ?thesis
    by (simp add: zwf_def distinct_insort_fst sorted_insort_key)
qed

lemma zwf_filter: "zwf z \<Longrightarrow> zwf (filter P z)"
  by (auto simp: zwf_def distinct_map inj_on_def sorted_filter)

lemma map_of_insort_fst:
  "m \<notin> fst ` set z \<Longrightarrow> map_of (insort_key g (m, sc) z) m' = (if m' = m then Some sc else map_of z m')"
  by (induction z) (auto simp: dom_map_of_conv_image_fst)

lemma map_of_filter_fst: "map_of (filter (\<lambda>e. fst e \<noteq> m) z) m' = (if m' = m then None else map_of z m')"
  by (induction z) auto

lemma map_of_insort_filter:
  "map_of (insort_key g (m, sc) (filter (\<lambda>e. fst e \<noteq> m) z)) m' = (if m' = m then Some sc else map_of z m')"
  by (subst map_of_insort_fst) (auto simp: map_of_filter_fst)

lemma zscore_zadd [simp, store_simps]:
  "zscore (zadd s k sc m) k' m' = (if k' = k \<and> m' = m then Some sc else zscore s k' m')"
  by (auto simp: zscore_def map_of_insort_filter)

lemma zscore_zrem [simp, store_simps]:
  "zscore (zrem s k m) k' m' = (if k' = k \<and> m' = m then None else zscore s k' m')"
  by (auto simp: zscore_def map_of_filter_fst)

lemma zscore_frame [simp, store_simps]:
  "zscore (rset s k v) z m = zscore s z m"
  "zscore (hset s h f v) z m = zscore s z m"
  "zscore (hdel s h f) z m = zscore s z m"
  "zscore (rdel s k) z m = zscore s z m"
  "zscore (rpush s l v) z m = zscore s z m"
  "zscore (expire s e secs) z m = zscore s z m"
  by (simp_all add: zscore_def)

lemma set_insort_pair: "set (insort_key g x z) = insert x (set z)"
  by (simp add: set_insort_key)

end
