(* ===== verification/Tenant_Keys.thy ===== *)
theory Tenant_Keys
  imports Redis_Store
begin

text \<open>
  \<^verbatim>\<open>src/api/tenant_keys.py\<close>: the Redis key of every tenant-scoped counter, and the
  read-side choice between the tenant's key and the key from before tenants existed. The lemmas
  show that keys of different tenants, families and customers are different, and when a read
  falls back to the legacy key.
\<close>

section \<open>Key construction\<close>

definition has_tenant :: "string option \<Rightarrow> bool" where
  "has_tenant tenant_id = (case tenant_id of None \<Rightarrow> False | Some t \<Rightarrow> t \<noteq> [] \<and> py_strip t \<noteq> [])"

definition customer_prefix :: "string option \<Rightarrow> string \<Rightarrow> string" where
  "customer_prefix tenant_id customer_id =
     (if has_tenant tenant_id then ''tenant:'' @ the tenant_id @ '':customer:'' @ customer_id
      else ''customer:'' @ customer_id)"

definition budget_prefix :: "string option \<Rightarrow> string \<Rightarrow> string" where
  "budget_prefix tenant_id customer_id =
     (if has_tenant tenant_id then ''tenant:'' @ the tenant_id @ '':budget:'' @ customer_id
      else ''budget:'' @ customer_id)"

definition global_key :: "string option \<Rightarrow> string \<Rightarrow> string" where
  "global_key tenant_id sfx =
     (if has_tenant tenant_id then ''tenant:'' @ the tenant_id @ '':global:'' @ sfx
      else ''global:'' @ sfx)"

text \<open>The \<open>kind\<close> argument of the source is one of two strings; any other raises.\<close>

definition scope_prefix :: "string option \<Rightarrow> string \<Rightarrow> string \<Rightarrow> string res" where
  "scope_prefix tenant_id kind scope_id =
     (if kind \<notin> set [''span'', ''session''] then Inl ValueError
      else if has_tenant tenant_id
        then Inr (''tenant:'' @ the tenant_id @ '':'' @ kind @ '':'' @ scope_id)
      else Inr (kind @ '':'' @ scope_id))"

definition rate_limit_key :: "string option \<Rightarrow> string \<Rightarrow> int \<Rightarrow> string" where
  "rate_limit_key tenant_id customer_id minute =
     (if has_tenant tenant_id
      then ''tenant:'' @ the tenant_id @ '':ratelimit:'' @ customer_id @ '':'' @ int_str minute
      else ''ratelimit:'' @ customer_id @ '':'' @ int_str minute)"

definition package_key :: "string option \<Rightarrow> string \<Rightarrow> string" where
  "package_key tenant_id customer_id =
     (if has_tenant tenant_id
      then ''tenant:'' @ the tenant_id @ '':package:'' @ customer_id @ '':tokens_remaining''
      else ''package:'' @ customer_id @ '':tokens_remaining'')"

definition budget_prefix_for_write :: "string option \<Rightarrow> string \<Rightarrow> string" where
  "budget_prefix_for_write tenant_id customer_id = budget_prefix tenant_id customer_id"

definition customer_prefix_for_write :: "string option \<Rightarrow> string \<Rightarrow> string" where
  "customer_prefix_for_write tenant_id customer_id = customer_prefix tenant_id customer_id"

definition global_key_for_write :: "string option \<Rightarrow> string \<Rightarrow> string" where
  "global_key_for_write tenant_id sfx = global_key tenant_id sfx"

section \<open>Read-side choice of the key\<close>

definition scope_prefix_for_read :: "store \<Rightarrow> string option \<Rightarrow> string \<Rightarrow> string \<Rightarrow> string res" where
  "scope_prefix_for_read s tenant_id kind scope_id =
     bindE (scope_prefix tenant_id kind scope_id) (\<lambda>preferred.
       let suffixes = [''cost_usd'', ''held_usd'', ''max_cost_usd'', ''event_count''];
           legacy = kind @ '':'' @ scope_id
       in if \<not> has_tenant tenant_id then Inr preferred
          else if list_ex (\<lambda>sfx. rexists s (preferred @ '':'' @ sfx)) suffixes
            then Inr preferred
          else if list_ex (\<lambda>sfx. rexists s (legacy @ '':'' @ sfx)) suffixes
            then Inr legacy
          else Inr preferred)"

definition budget_prefix_for_read :: "store \<Rightarrow> string option \<Rightarrow> string \<Rightarrow> string" where
  "budget_prefix_for_read s tenant_id customer_id =
     (let preferred = budget_prefix tenant_id customer_id;
          legacy = ''budget:'' @ customer_id
      in if \<not> has_tenant tenant_id then preferred
         else if rexists s (preferred @ '':balance_usd'') \<or> rexists s (preferred @ '':held_usd'')
           then preferred
         else if rexists s (legacy @ '':balance_usd'') \<or> rexists s (legacy @ '':held_usd'')
           then legacy
         else preferred)"

definition customer_prefix_for_read :: "store \<Rightarrow> string option \<Rightarrow> string \<Rightarrow> string" where
  "customer_prefix_for_read s tenant_id customer_id =
     (let preferred = customer_prefix tenant_id customer_id;
          legacy = ''customer:'' @ customer_id
      in if \<not> has_tenant tenant_id then preferred
         else if rexists s (preferred @ '':total_tokens'') \<or> rexists s (preferred @ '':cost_usd'')
             \<or> zexists s (preferred @ '':spans'')
           then preferred
         else if rexists s (legacy @ '':total_tokens'') \<or> rexists s (legacy @ '':cost_usd'')
             \<or> zexists s (legacy @ '':spans'')
           then legacy
         else preferred)"

definition global_ns_for_read :: "store \<Rightarrow> string option \<Rightarrow> string" where
  "global_ns_for_read s tenant_id =
     (if \<not> has_tenant tenant_id then ''global''
      else let preferred = ''tenant:'' @ the tenant_id @ '':global''
        in if rexists s (preferred @ '':total_events'') \<or> rexists s (preferred @ '':total_cost_usd'')
             then preferred
           else if rexists s ''global:total_events'' \<or> rexists s ''global:total_cost_usd''
             then ''global''
           else preferred)"

section \<open>Shape of a key\<close>

text \<open>The namespace a tenant id stands for: blank ids are no tenant.\<close>

definition namespace :: "string option \<Rightarrow> string option" where
  "namespace t = (if has_tenant t then t else None)"

definition plain :: "string \<Rightarrow> bool" where
  "plain w \<longleftrightarrow> CHR '':'' \<notin> set w"

definition plain_tenant :: "string option \<Rightarrow> bool" where
  "plain_tenant t = (case t of None \<Rightarrow> True | Some w \<Rightarrow> plain w)"

lemma plain_Nil [simp]: "plain []"
  and plain_Cons [simp]: "plain (c # w) \<longleftrightarrow> c \<noteq> CHR '':'' \<and> plain w"
  by (auto simp: plain_def)

lemma has_tenant_simps [simp]: "\<not> has_tenant None" "\<not> has_tenant (Some [])"
  by (simp_all add: has_tenant_def)

definition scoped :: "string option \<Rightarrow> string \<Rightarrow> string \<Rightarrow> string" where
  "scoped t family rest =
     (if has_tenant t then ''tenant:'' @ the t @ '':'' @ family @ '':'' @ rest else family @ '':'' @ rest)"

lemma scoped_simps [key_simps]:
  "customer_prefix t c = scoped t ''customer'' c"
  "budget_prefix t c = scoped t ''budget'' c"
  "global_key t x = scoped t ''global'' x"
  "rate_limit_key t c m = scoped t ''ratelimit'' (c @ '':'' @ int_str m)"
  "package_key t c = scoped t ''package'' (c @ '':tokens_remaining'')"
  "kind \<in> {''span'', ''session''} \<Longrightarrow> scope_prefix t kind i = Inr (scoped t kind i)"
  by (auto simp: customer_prefix_def budget_prefix_def global_key_def rate_limit_key_def
      package_key_def scope_prefix_def scoped_def)

lemma scoped_append: "scoped t f r @ x = scoped t f (r @ x)"
  by (simp add: scoped_def)

lemma plain_split:
  assumes "plain a" and "plain b" and "a @ CHR '':'' # x = b @ CHR '':'' # y"
  shows "a = b \<and> x = y"
  using assms
proof (induction a arbitrary: b)
  case Nil
  then show ?case by (cases b) auto
next
  case (Cons c a)
  then show ?case by (cases b) auto
qed

lemma plain_last:
  assumes "plain a" and "plain b" and "x @ CHR '':'' # a = y @ CHR '':'' # b"
  shows "x = y \<and> a = b"
proof -
  have "rev a @ CHR '':'' # rev x = rev b @ CHR '':'' # rev y"
    using arg_cong [OF assms(3), of rev] by simp
  moreover have "plain (rev a)" "plain (rev b)" using assms(1,2) by (simp_all add: plain_def)
  ultimately have "rev a = rev b \<and> rev x = rev y" by (intro plain_split) auto
  then show ?thesis by simp
qed

lemma scoped_unfold:
  "has_tenant t \<Longrightarrow> scoped t f r = ''tenant'' @ CHR '':'' # the t @ CHR '':'' # f @ CHR '':'' # r"
  "\<not> has_tenant t \<Longrightarrow> scoped t f r = f @ CHR '':'' # r"
  by (simp_all add: scoped_def)

lemma has_tenant_Some: "has_tenant t \<Longrightarrow> t = Some (the t)"
  by (cases t) simp_all

lemma plain_the: "plain_tenant t \<Longrightarrow> has_tenant t \<Longrightarrow> plain (the t)"
  by (cases t) (simp_all add: plain_tenant_def)

lemma plain_tenant_word: "plain ''tenant''"
  by simp

lemma scoped_inj:
  assumes eq: "scoped t f r = scoped t' f' r'"
    and pl: "plain_tenant t" "plain_tenant t'" "plain f" "plain f'"
    and fam: "f \<noteq> ''tenant''" "f' \<noteq> ''tenant''"
  shows "namespace t = namespace t' \<and> f = f' \<and> r = r'"
proof (cases "has_tenant t"; cases "has_tenant t'")
  assume h: "has_tenant t" "has_tenant t'"
  then have "the t @ CHR '':'' # f @ CHR '':'' # r = the t' @ CHR '':'' # f' @ CHR '':'' # r'"
    using eq by (simp only: scoped_unfold append.simps list.inject simp_thms same_append_eq)
  then have 1: "the t = the t'" and 2: "f @ CHR '':'' # r = f' @ CHR '':'' # r'"
    using plain_split [OF plain_the plain_the] pl(1,2) h by blast+
  from 2 have "f = f' \<and> r = r'" by (rule plain_split [OF pl(3,4)])
  moreover have "t = t'" using 1 h has_tenant_Some by metis
  ultimately show ?thesis by blast
next
  assume h: "has_tenant t" "\<not> has_tenant t'"
  have "''tenant'' = f'"
    using plain_split [OF plain_tenant_word pl(4) eq [unfolded scoped_unfold(1) [OF h(1)] scoped_unfold(2) [OF h(2)]]]
    by blast
  with fam show ?thesis by blast
next
  assume h: "\<not> has_tenant t" "has_tenant t'"
  have "f = ''tenant''"
    using plain_split [OF pl(3) plain_tenant_word eq [unfolded scoped_unfold(2) [OF h(1)] scoped_unfold(1) [OF h(2)]]]
    by blast
  with fam show ?thesis by blast
next
  assume h: "\<not> has_tenant t" "\<not> has_tenant t'"
  then have "f @ CHR '':'' # r = f' @ CHR '':'' # r'"
    using eq by (simp only: scoped_unfold simp_thms)
  then have "f = f' \<and> r = r'" by (rule plain_split [OF pl(3,4)])
  with h show ?thesis by (simp add: namespace_def)
qed

text \<open>Two keys of one tenant: the tenant's name need not be free of colons.\<close>

lemma scoped_same_tenant [simp]:
  "plain f \<Longrightarrow> plain f' \<Longrightarrow> scoped t f r = scoped t f' r' \<longleftrightarrow> f = f' \<and> r = r'"
  using plain_split [of f f' r r'] by (auto simp: scoped_def)

section \<open>The fallback, once for all key families\<close>

locale dual_read =
  fixes read :: "store \<Rightarrow> string"
    and present :: "store \<Rightarrow> string \<Rightarrow> bool"
    and preferred :: string
    and legacy :: string
  assumes read_def:
    "read s = (if present s preferred then preferred
               else if present s legacy then legacy else preferred)"
begin

lemma read_cases: "read s = preferred \<or> read s = legacy"
  by (simp add: read_def)

lemma read_present: "present s preferred \<Longrightarrow> read s = preferred"
  by (simp add: read_def)

lemma read_fallback:
  "preferred \<noteq> legacy \<Longrightarrow> read s = legacy \<longleftrightarrow> \<not> present s preferred \<and> present s legacy"
  by (auto simp: read_def)

end

definition budget_present :: "store \<Rightarrow> string \<Rightarrow> bool" where
  "budget_present s p \<longleftrightarrow> rexists s (p @ '':balance_usd'') \<or> rexists s (p @ '':held_usd'')"

definition customer_present :: "store \<Rightarrow> string \<Rightarrow> bool" where
  "customer_present s p \<longleftrightarrow> rexists s (p @ '':total_tokens'') \<or> rexists s (p @ '':cost_usd'')
     \<or> zexists s (p @ '':spans'')"

definition global_present :: "store \<Rightarrow> string \<Rightarrow> bool" where
  "global_present s p \<longleftrightarrow> rexists s (p @ '':total_events'') \<or> rexists s (p @ '':total_cost_usd'')"

interpretation budget_read: dual_read "\<lambda>s. budget_prefix_for_read s t c" budget_present
    "budget_prefix t c" "''budget:'' @ c" for t c
  by unfold_locales (auto simp: budget_prefix_for_read_def budget_present_def budget_prefix_def Let_def)

interpretation customer_read: dual_read "\<lambda>s. customer_prefix_for_read s t c" customer_present
    "customer_prefix t c" "''customer:'' @ c" for t c
  by unfold_locales
    (auto simp: customer_prefix_for_read_def customer_present_def customer_prefix_def Let_def)

interpretation global_read: dual_read "\<lambda>s. global_ns_for_read s t" global_present
    "if has_tenant t then ''tenant:'' @ the t @ '':global'' else ''global''" "''global''" for t
  by unfold_locales (auto simp: global_ns_for_read_def global_present_def Let_def)

lemma budget_prefix_None: "\<not> has_tenant t \<Longrightarrow> budget_prefix t c = ''budget:'' @ c"
  by (simp add: budget_prefix_def)

lemma budget_prefix_neq_legacy:
  assumes "has_tenant t"
  shows "budget_prefix t c \<noteq> ''budget:'' @ c"
  using assms by (simp add: budget_prefix_def)

section \<open>Properties\<close>



text \<open>
  the read-side cutover. A budget read uses the legacy (tenant-less) key exactly when the
  caller has a tenant, nothing is stored under the tenant's key and something is stored under the
  legacy one; in every other case it uses the key that writes go to.
\<close>

theorem budget_read_fallback:
  "budget_prefix_for_read s t c =
     (if has_tenant t \<and> \<not> budget_present s (budget_prefix_for_write t c)
         \<and> budget_present s (''budget:'' @ c)
      then ''budget:'' @ c else budget_prefix_for_write t c)"
proof (cases "has_tenant t")
  case True
  show ?thesis
    using budget_read.read_fallback [OF budget_prefix_neq_legacy [OF True, of c], of s]
      budget_read.read_cases [of s t c] True
    by (auto simp: budget_prefix_for_write_def)
next
  case False
  then show ?thesis
    using budget_read.read_cases [of s t c]
    by (simp add: budget_prefix_for_write_def budget_prefix_None)
qed

end
