(* ===== verification/Reservation.thy ===== *)
theory Reservation
  imports Tenant_Keys
begin

text \<open>
  \<^verbatim>\<open>src/api/reservation.py\<close>: temporary holds on a budget. The four Lua scripts run
  atomically inside Redis, so each is one function on the store; the methods of the class
  \<open>Reservation\<close> compute their keys, run a script and decode its reply.

  The lemmas, in \<open>Reservation_Books\<close> and \<open>Reservation_Cases\<close>, show admission (a hold never exceeds what is left), idempotence, that the books stay
  balanced (the held amount of every budget is what its open reservations hold, plus what was
  held by other means), and that expiry closes every overdue hold.
\<close>

section \<open>Script replies\<close>

text \<open>
  Redis turns a Lua number into an integer reply, dropping the fraction; a number passed through
  \<open>tostring\<close> arrives as text with its fraction.
\<close>

datatype reply = RInt int | RStr string | RNum rat

definition lua_number :: "rat \<Rightarrow> reply" where
  "lua_number x = RInt (trunc_int x)"

definition reply_float :: "reply \<Rightarrow> rat res" where
  "reply_float r = (case r of RInt i \<Rightarrow> Inr (of_int i) | RNum q \<Rightarrow> Inr q | RStr _ \<Rightarrow> Inl ValueError)"

text \<open>\<open>tonumber(redis.call('GET', k) or '0')\<close>; arithmetic on a missing number aborts the script.\<close>

definition lua_num :: "cell option \<Rightarrow> rat res" where
  "lua_num c = (if is_num c then Inr (num0 c) else Inl RedisError)"

lemma lua_num_simps [simp]: "is_num c \<Longrightarrow> lua_num c = Inr (num0 c)"
  by (simp add: lua_num_def)

lemma lua_num_InrD: "lua_num c = Inr q \<Longrightarrow> is_num c \<and> q = num0 c"
  by (auto simp: lua_num_def split: if_splits)

lemma reply_float_lua [simp]: "reply_float (lua_number x) = Inr (of_int (trunc_int x))"
  by (simp add: reply_float_def lua_number_def)

section \<open>Constants\<close>

definition PENDING_KEY :: key where
  "PENDING_KEY = ''gateway:reservations:pending''"

definition ALERTS_KEY :: key where
  "ALERTS_KEY = ''gateway:reservation:alerts''"

definition RECORD_TTL_SECONDS :: rat where
  "RECORD_TTL_SECONDS = 24 * 60 * 60"

definition SPAN_TTL_SEC :: rat where
  "SPAN_TTL_SEC = 86400"

section \<open>Scripts\<close>

record script_keys =
  k_balance :: key
  k_held :: key
  k_span_held :: key
  k_span_cost :: key
  k_span_max :: key

record open_args =
  a_estimate :: rat
  a_id :: string
  a_customer :: string
  a_tenant :: string
  a_span :: string
  a_deadline :: rat
  a_span_held_key :: key

text \<open>
  The span part OPEN and RESERVE share: whether the span's cap denies the hold, what the span
  held and spent, and the store with the hold added when the span has a cap.
\<close>

definition span_hold :: "store \<Rightarrow> script_keys \<Rightarrow> string \<Rightarrow> rat \<Rightarrow> (bool \<times> rat \<times> rat \<times> store) res" where
  "span_hold s K sp estimate =
     (if sp = [] then Inr (False, 0, 0, s)
      else bindE (lua_num (rget s (k_span_held K))) (\<lambda>span_held.
           bindE (lua_num (rget s (k_span_cost K))) (\<lambda>span_spent.
             (case rget s (k_span_max K) of
                None \<Rightarrow> Inr (False, span_held, span_spent, s)
              | Some raw \<Rightarrow> bindE (lua_num (Some raw)) (\<lambda>span_max.
                  if span_spent + span_held + estimate > span_max
                  then Inr (True, span_held, span_spent, s)
                  else bindE (incrbyfloat s (k_span_held K) estimate) (\<lambda>s1.
                    Inr (False, span_held + estimate, span_spent,
                         expire s1 (k_span_held K) SPAN_TTL_SEC)))))))"

definition write_record :: "store \<Rightarrow> key \<Rightarrow> key \<Rightarrow> open_args \<Rightarrow> store" where
  "write_record s rec held_key A =
     fold (\<lambda>(f, v) s. hset s rec f v)
       [(''customer_id'', CTxt (a_customer A)), (''tenant_id'', CTxt (a_tenant A)),
        (''reserved_usd'', CFlt (a_estimate A)), (''parent_span_id'', CTxt (a_span A)),
        (''held_key'', CTxt held_key), (''span_held_key'', CTxt (a_span_held_key A))] s"

definition open_script :: "store \<Rightarrow> script_keys \<Rightarrow> key \<Rightarrow> open_args \<Rightarrow> (reply list \<times> store) res" where
  "open_script s K rec A =
     (case hget s rec ''customer_id'' of
        Some existing_customer \<Rightarrow>
          let same = existing_customer = CTxt (a_customer A)
                \<and> cell_text (hget s rec ''tenant_id'') = a_tenant A
                \<and> (case hget s rec ''reserved_usd'' of
                      None \<Rightarrow> - 1 = a_estimate A
                    | Some c \<Rightarrow> cell_num c = Some (a_estimate A))
          in Inr (if same then [RInt 2, RStr ''existing'']
                  else [RInt (- 1), RStr ''reservation_conflict''], s)
      | None \<Rightarrow>
          (case rget s (k_balance K) of
             None \<Rightarrow> Inr ([RInt 0, RStr ''no_budget''], s)
           | Some balance_raw \<Rightarrow>
               bindE (lua_num (Some balance_raw)) (\<lambda>balance.
               bindE (lua_num (rget s (k_held K))) (\<lambda>held.
                 let estimate = a_estimate A in
                 if balance - held < estimate
                 then Inr ([RInt 0, RStr ''insufficient_balance'', lua_number balance, lua_number held], s)
                 else bindE (span_hold s K (a_span A) estimate) (\<lambda>(denied, span_held, span_spent, s1).
                   if denied
                   then Inr ([RInt 0, RStr ''hierarchy_reserve'', lua_number balance, lua_number held,
                              lua_number span_held, lua_number span_spent], s1)
                   else bindE (incrbyfloat s1 (k_held K) estimate) (\<lambda>s2.
                     Inr ([RInt 1, RStr ''opened'', lua_number balance, lua_number (held + estimate),
                           lua_number span_held, lua_number span_spent],
                          zadd (expire (write_record s2 rec (k_held K) A) rec RECORD_TTL_SECONDS)
                            PENDING_KEY (a_deadline A) (a_id A))))))))"

definition reserve_script :: "store \<Rightarrow> script_keys \<Rightarrow> rat \<Rightarrow> string \<Rightarrow> (reply list \<times> store) res" where
  "reserve_script s K estimate sp =
     (case rget s (k_balance K) of
        None \<Rightarrow> Inr ([RInt (- 1), RInt 0, RInt 0, RInt 0, RStr ''no_budget''], s)
      | Some balance_raw \<Rightarrow>
          bindE (lua_num (Some balance_raw)) (\<lambda>balance.
          bindE (lua_num (rget s (k_held K))) (\<lambda>held.
            let effective = balance - held in
            if effective < estimate
            then Inr ([RInt 0, lua_number balance, lua_number held, lua_number effective,
                       RStr ''insufficient_balance''], s)
            else bindE (span_hold s K sp estimate) (\<lambda>(denied, span_held, span_spent, s1).
              if denied
              then Inr ([RInt 0, lua_number balance, lua_number held, lua_number effective,
                         RStr ''hierarchy_reserve'', lua_number span_held, lua_number span_spent], s1)
              else bindE (incrbyfloat s1 (k_held K) estimate) (\<lambda>s2.
                Inr ([RInt 1, lua_number balance, lua_number (held + estimate),
                      lua_number (effective - estimate), RStr ''reserved'',
                      lua_number span_held, lua_number span_spent], s2))))))"

text \<open>The release both RECONCILE and CLOSE perform: on the budget, then on the span.\<close>

definition release_hold :: "store \<Rightarrow> key \<Rightarrow> key \<Rightarrow> rat \<Rightarrow> (rat \<times> rat \<times> store) res" where
  "release_hold s held_key span_key requested =
     bindE (lua_num (rget s held_key)) (\<lambda>held.
       let released = min held requested in
       bindE (if released > 0 then incrbyfloat s held_key (- released) else Inr s) (\<lambda>s1.
       bindE (if span_key = ''noop'' then Inr s1
              else bindE (lua_num (rget s1 span_key)) (\<lambda>span_held.
                if span_held > 0 then incrbyfloat s1 span_key (- min span_held released) else Inr s1))
         (\<lambda>s2. Inr (held, released, s2))))"

definition reconcile_script :: "store \<Rightarrow> key \<Rightarrow> key \<Rightarrow> key \<Rightarrow> rat \<Rightarrow> (reply list \<times> store) res" where
  "reconcile_script s held_key balance_key span_key requested =
     bindE (release_hold s held_key span_key requested) (\<lambda>(held, released, s1).
     bindE (lua_num (rget s1 balance_key)) (\<lambda>balance.
       Inr ([lua_number balance, lua_number (held - released), lua_number released], s1)))"

definition close_script :: "store \<Rightarrow> key \<Rightarrow> key \<Rightarrow> key \<Rightarrow> string \<Rightarrow> (reply list \<times> store) res" where
  "close_script s rec held_key span_key rid =
     (case hget s rec ''customer_id'' of
        None \<Rightarrow> Inr ([], zrem s PENDING_KEY rid)
      | Some customer \<Rightarrow>
          bindE (lua_num (hget s rec ''reserved_usd'')) (\<lambda>reserved.
          bindE (release_hold s held_key span_key reserved) (\<lambda>(held, released, s1).
            Inr ([RStr (cell_text (Some customer)), RNum released],
                 zrem (rdel s1 rec) PENDING_KEY rid))))"

section \<open>The class\<close>

text \<open>\<open>self.tenant_id\<close>, as both \<open>Budget\<close> and \<open>Reservation\<close> set it.\<close>

definition norm_tenant :: "string option \<Rightarrow> string option" where
  "norm_tenant t = (if has_tenant t then Some (py_strip (the t)) else None)"

definition record_key :: "string \<Rightarrow> key" where
  "record_key reservation_id = ''reservation:'' @ reservation_id"

definition span_key_of :: "store \<Rightarrow> string option \<Rightarrow> string option \<Rightarrow> string option res" where
  "span_key_of s tenant_id parent_span_id =
     (case truthy parent_span_id of
        None \<Rightarrow> Inr None
      | Some i \<Rightarrow> bindE (scope_prefix_for_read s tenant_id ''span'' i) (\<lambda>p. Inr (Some p)))"

definition keys_for :: "string \<Rightarrow> string option \<Rightarrow> script_keys" where
  "keys_for budget_key span_key =
     (let sfx = (\<lambda>f. case span_key of None \<Rightarrow> ''noop'' | Some p \<Rightarrow> p @ f) in
      \<lparr>k_balance = budget_key @ '':balance_usd'', k_held = budget_key @ '':held_usd'',
       k_span_held = sfx '':held_usd'', k_span_cost = sfx '':cost_usd'',
       k_span_max = sfx '':max_cost_usd''\<rparr>)"

record hold_reply =
  h_allowed :: bool
  h_reason :: string
  h_conflict :: bool
  h_balance :: "rat option"
  h_held :: "rat option"
  h_effective :: "rat option"
  h_reserved :: "rat option"
  h_scope :: "(string \<times> string option) option"
  h_idempotent :: "bool option"

definition denied_reply :: "string \<Rightarrow> hold_reply" where
  "denied_reply r = \<lparr>h_allowed = False, h_reason = r, h_conflict = False, h_balance = None,
     h_held = None, h_effective = None, h_reserved = None, h_scope = None, h_idempotent = None\<rparr>"

definition decode_open :: "string option \<Rightarrow> rat \<Rightarrow> reply list \<Rightarrow> hold_reply res" where
  "decode_open parent_span_id estimate result =
     (case result of
        RInt code # RStr rsn # rest \<Rightarrow>
          if code = - 1 then Inr ((denied_reply rsn)\<lparr>h_conflict := True\<rparr>)
          else if code = 0 then
            bindE (case rest of
                     b # h # _ \<Rightarrow> bindE (reply_float b) (\<lambda>b. bindE (reply_float h) (\<lambda>h.
                       Inr ((denied_reply rsn)\<lparr>h_balance := Some b, h_held := Some h,
                              h_effective := Some (b - h)\<rparr>)))
                   | _ \<Rightarrow> Inr (denied_reply rsn)) (\<lambda>p.
              Inr (if rsn = ''hierarchy_reserve''
                   then p\<lparr>h_scope := Some (''span'', parent_span_id)\<rparr> else p))
          else if code = 2 then
            Inr ((denied_reply ''existing'')\<lparr>h_allowed := True, h_reserved := Some estimate,
                   h_idempotent := Some True\<rparr>)
          else (case rest of
                  b # h # _ \<Rightarrow> bindE (reply_float b) (\<lambda>b. bindE (reply_float h) (\<lambda>h.
                    Inr ((denied_reply ''reserved'')\<lparr>h_allowed := True, h_reserved := Some estimate,
                           h_balance := Some b, h_held := Some h, h_effective := Some (b - h),
                           h_idempotent := Some False\<rparr>)))
                | _ \<Rightarrow> Inl RuntimeError)
      | _ \<Rightarrow> Inl RuntimeError)"

definition hold_open ::
  "string option \<Rightarrow> store \<Rightarrow> rat \<Rightarrow> string \<Rightarrow> string \<Rightarrow> rat \<Rightarrow> string option \<Rightarrow> rat option \<Rightarrow>
     (hold_reply \<times> store) res" where
  "hold_open tenant_id s now reservation_id customer_id estimated_cost_usd parent_span_id expires_at =
     (if estimated_cost_usd \<le> 0 then Inl ValueError
      else
        let budget_key = budget_prefix_for_read s tenant_id customer_id;
            deadline = (case expires_at of Some d \<Rightarrow> d | None \<Rightarrow> now + 900)
        in bindE (span_key_of s tenant_id parent_span_id) (\<lambda>span_key.
           bindE (open_script s (keys_for budget_key span_key) (record_key reservation_id)
             \<lparr>a_estimate = estimated_cost_usd, a_id = reservation_id, a_customer = customer_id,
              a_tenant = text_or_empty tenant_id, a_span = text_or_empty parent_span_id,
              a_deadline = deadline,
              a_span_held_key = (case span_key of None \<Rightarrow> [] | Some p \<Rightarrow> p @ '':held_usd'')\<rparr>)
             (\<lambda>(result, s').
           bindE (decode_open parent_span_id estimated_cost_usd result) (\<lambda>payload.
             Inr (payload, s')))))"

definition decode_reserve :: "string option \<Rightarrow> rat \<Rightarrow> reply list \<Rightarrow> hold_reply res" where
  "decode_reserve parent_span_id estimate result =
     (case result of
        RInt allowed # b # h # e # RStr rsn # _ \<Rightarrow>
          if allowed < 0 then Inr (denied_reply ''no_budget'')
          else bindE (reply_float b) (\<lambda>b. bindE (reply_float h) (\<lambda>h. bindE (reply_float e) (\<lambda>e.
            let p = (denied_reply rsn)\<lparr>h_allowed := (allowed = 1), h_balance := Some b,
                      h_held := Some h, h_effective := Some e\<rparr>;
                p = (if allowed = 1 then p\<lparr>h_reserved := Some estimate\<rparr> else p)
            in Inr (if rsn = ''hierarchy_reserve''
                    then p\<lparr>h_scope := Some (''span'', parent_span_id)\<rparr> else p))))
      | _ \<Rightarrow> Inl RuntimeError)"

definition hold_reserve ::
  "string option \<Rightarrow> store \<Rightarrow> string \<Rightarrow> rat \<Rightarrow> string option \<Rightarrow> (hold_reply \<times> store) res" where
  "hold_reserve tenant_id s customer_id estimated_cost_usd parent_span_id =
     (if estimated_cost_usd \<le> 0 then Inl ValueError
      else
        let budget_key = budget_prefix_for_read s tenant_id customer_id
        in bindE (span_key_of s tenant_id parent_span_id) (\<lambda>span_key.
           bindE (reserve_script s (keys_for budget_key span_key) estimated_cost_usd
                    (text_or_empty parent_span_id)) (\<lambda>(result, s').
           bindE (decode_reserve parent_span_id estimated_cost_usd result) (\<lambda>payload.
             Inr (payload, s')))))"

record reconcile_reply =
  r_balance :: rat
  r_held :: rat
  r_released :: rat
  r_reserved :: rat
  r_span :: "string option"

definition hold_reconcile ::
  "string option \<Rightarrow> store \<Rightarrow> string \<Rightarrow> rat \<Rightarrow> string option \<Rightarrow> (reconcile_reply \<times> store) res" where
  "hold_reconcile tenant_id s customer_id reserved_usd parent_span_id =
     (let budget_key = budget_prefix_for_read s tenant_id customer_id
      in bindE (span_key_of s tenant_id parent_span_id) (\<lambda>span_key.
         bindE (reconcile_script s (budget_key @ '':held_usd'') (budget_key @ '':balance_usd'')
                  (case span_key of None \<Rightarrow> ''noop'' | Some p \<Rightarrow> p @ '':held_usd'') (max 0 reserved_usd))
           (\<lambda>(result, s').
              case result of
                [b, h, rl] \<Rightarrow> bindE (reply_float b) (\<lambda>b. bindE (reply_float h) (\<lambda>h.
                  bindE (reply_float rl) (\<lambda>rl.
                    Inr (\<lparr>r_balance = b, r_held = h, r_released = rl, r_reserved = reserved_usd,
                          r_span = truthy parent_span_id\<rparr>, s'))))
              | _ \<Rightarrow> Inl RuntimeError)))"

definition hold_refresh :: "store \<Rightarrow> rat \<Rightarrow> string \<Rightarrow> rat option \<Rightarrow> bool \<times> store" where
  "hold_refresh s now reservation_id expires_at =
     (if \<not> rexists s (record_key reservation_id) then (False, s)
      else let deadline = (case expires_at of Some d \<Rightarrow> d | None \<Rightarrow> now + 900)
        in (True, zadd (expire s (record_key reservation_id) RECORD_TTL_SECONDS)
                    PENDING_KEY deadline reservation_id))"

definition hold_close :: "store \<Rightarrow> string \<Rightarrow> (reply list \<times> store) res" where
  "hold_close s reservation_id =
     (let rec = record_key reservation_id;
          stored = cell_text (hget s rec ''held_key'');
          customer = cell_text (hget s rec ''customer_id'');
          tenant = cell_text (hget s rec ''tenant_id'');
          held_key = (if stored = []
            then budget_prefix_for_read s (truthy (Some tenant)) customer @ '':held_usd'' else stored);
          sp = cell_text (hget s rec ''span_held_key'');
          span_held_key = (if sp = [] then ''noop'' else sp)
      in close_script s rec held_key span_held_key reservation_id)"

definition hold_settle :: "store \<Rightarrow> string \<Rightarrow> (rat \<times> store) res" where
  "hold_settle s reservation_id =
     bindE (hold_close s reservation_id) (\<lambda>(result, s').
       case result of
         [] \<Rightarrow> Inr (0, s')
       | _ # amount # _ \<Rightarrow> bindE (reply_float amount) (\<lambda>q. Inr (q, s'))
       | _ \<Rightarrow> Inl RuntimeError)"

definition expiry_alert :: "string \<Rightarrow> string \<Rightarrow> rat \<Rightarrow> rat \<Rightarrow> cell" where
  "expiry_alert reservation_id customer released cutoff =
     CJson (JObj [(''type'', JStr ''RESERVATION_EXPIRED''), (''reservationId'', JStr reservation_id),
       (''customerId'', JStr customer), (''releasedUsd'', JFlt released),
       (''timestamp'', JInt (trunc_int (cutoff * 1000)))])"

fun expire_loop :: "store \<Rightarrow> rat \<Rightarrow> string list \<Rightarrow> nat \<Rightarrow> (nat \<times> store) res" where
  "expire_loop s cutoff [] n = Inr (n, s)"
| "expire_loop s cutoff (rid # rest) n =
     bindE (hold_close s rid) (\<lambda>(result, s').
       case result of
         [] \<Rightarrow> expire_loop s' cutoff rest n
       | RStr customer # amount # _ \<Rightarrow>
           bindE (reply_float amount) (\<lambda>q.
             expire_loop (rpush s' ALERTS_KEY (expiry_alert rid customer q cutoff)) cutoff rest (Suc n))
       | _ \<Rightarrow> Inl RuntimeError)"

definition due_ids :: "store \<Rightarrow> rat \<Rightarrow> string list" where
  "due_ids s cutoff = map fst (filter (\<lambda>e. 0 \<le> snd e \<and> snd e \<le> cutoff) (zsets s PENDING_KEY))"

definition expire_due :: "store \<Rightarrow> rat \<Rightarrow> (nat \<times> store) res" where
  "expire_due s cutoff = expire_loop s cutoff (due_ids s cutoff) 0"

end
