(* ===== verification/Reservation_Books.thy ===== *)
theory Reservation_Books
  imports Reservation
begin

text \<open>
  Properties of the reservation lifecycle: the books of holds. A reservation is open while its
  record exists, which is exactly while its id is in the pending sorted set; the hold of a budget
  is compared with the sum of its open reservations.
\<close>

section \<open>Reading the records\<close>

definition pending_ids :: "store \<Rightarrow> string set" where
  "pending_ids s = fst ` set (zsets s PENDING_KEY)"

definition rec_held :: "store \<Rightarrow> string \<Rightarrow> key" where
  "rec_held s rid = cell_text (hget s (record_key rid) ''held_key'')"

definition rec_span :: "store \<Rightarrow> string \<Rightarrow> key" where
  "rec_span s rid = cell_text (hget s (record_key rid) ''span_held_key'')"

definition rec_amount :: "store \<Rightarrow> string \<Rightarrow> rat" where
  "rec_amount s rid = num0 (hget s (record_key rid) ''reserved_usd'')"

definition is_open :: "store \<Rightarrow> string \<Rightarrow> bool" where
  "is_open s rid \<longleftrightarrow> hget s (record_key rid) ''customer_id'' \<noteq> None"

definition open_total :: "store \<Rightarrow> key \<Rightarrow> rat" where
  "open_total s hk = (\<Sum>rid \<in> pending_ids s. if rec_held s rid = hk then rec_amount s rid else 0)"

definition slack :: "store \<Rightarrow> key \<Rightarrow> rat" where
  "slack s hk = num0 (rget s hk) - open_total s hk"

definition is_budget_held :: "key \<Rightarrow> bool" where
  "is_budget_held k \<longleftrightarrow> (\<exists>t c. plain_tenant t \<and> k = scoped t ''budget'' c @ '':held_usd'')"

definition is_span_held :: "key \<Rightarrow> bool" where
  "is_span_held k \<longleftrightarrow> (\<exists>t i. plain_tenant t \<and> k = scoped t ''span'' i @ '':held_usd'')"

definition record_ok :: "store \<Rightarrow> string \<Rightarrow> bool" where
  "record_ok s rid \<longleftrightarrow> is_num (hget s (record_key rid) ''reserved_usd'') \<and> 0 \<le> rec_amount s rid
     \<and> is_budget_held (rec_held s rid) \<and> (rec_span s rid = [] \<or> is_span_held (rec_span s rid))"

definition records_ok :: "store \<Rightarrow> bool" where
  "records_ok s \<longleftrightarrow> (\<forall>rid. (rid \<in> pending_ids s \<longleftrightarrow> is_open s rid) \<and> (is_open s rid \<longrightarrow> record_ok s rid))"

definition covered :: "store \<Rightarrow> bool" where
  "covered s \<longleftrightarrow> records_ok s \<and> (\<forall>hk. is_budget_held hk \<longrightarrow> 0 \<le> slack s hk)"

lemma finite_pending [simp]: "finite (pending_ids s)"
  by (simp add: pending_ids_def)

lemma record_key_inj [simp]: "record_key a = record_key b \<longleftrightarrow> a = b"
  by (simp add: record_key_def)

lemma budget_span_disjoint: "is_budget_held k \<Longrightarrow> \<not> is_span_held k"
  using scoped_inj [where f = "''budget''" and f' = "''span''"]
  by (fastforce simp: is_budget_held_def is_span_held_def)

lemma is_budget_held_nonempty [simp]: "\<not> is_budget_held []" "\<not> is_span_held []"
  by (simp_all add: is_budget_held_def is_span_held_def scoped_def)

lemma is_span_held_noop [simp]: "\<not> is_span_held ''noop''"
proof
  assume "is_span_held ''noop''"
  then obtain t i where "''noop'' = scoped t ''span'' i @ '':held_usd''"
    by (auto simp: is_span_held_def)
  then have "length ''noop'' = length (scoped t ''span'' i @ '':held_usd'')" by simp
  then show False by simp
qed

text \<open>Keys the class computes are of the expected shape.\<close>

lemma budget_read_held:
  assumes "plain_tenant t"
  shows "is_budget_held (budget_prefix_for_read s t c @ '':held_usd'')"
proof -
  have "budget_prefix_for_read s t c = scoped t ''budget'' c
      \<or> budget_prefix_for_read s t c = scoped None ''budget'' c"
    using budget_read.read_cases [of s t c] by (auto simp: key_simps scoped_def)
  moreover have "plain_tenant None" by (simp add: plain_tenant_def)
  ultimately show ?thesis
    using assms unfolding is_budget_held_def by blast
qed

lemma scope_read_span:
  assumes "plain_tenant t" and "scope_prefix_for_read s t ''span'' i = Inr p"
  shows "\<exists>t'. plain_tenant t' \<and> p = scoped t' ''span'' i"
proof -
  have "p = scoped t ''span'' i \<or> p = scoped None ''span'' i"
    using assms(2)
    by (auto simp: scope_prefix_for_read_def Let_def key_simps scoped_def split: if_splits)
  moreover have "plain_tenant None" by (simp add: plain_tenant_def)
  ultimately show ?thesis using assms(1) by blast
qed

lemma span_key_shape:
  assumes "plain_tenant t" and "span_key_of s t sp = Inr k"
  shows "case k of None \<Rightarrow> text_or_empty sp = [] | Some p \<Rightarrow> is_span_held (p @ '':held_usd'')"
  using assms scope_read_span [OF assms(1)]
  by (auto simp: span_key_of_def truthy_def text_or_empty_def is_span_held_def
      split: option.splits list.splits) blast+

section \<open>Releasing a hold\<close>

lemma incr_num:
  assumes "incrbyfloat s k x = Inr s'"
  shows "is_num (rget s k)" and "rget s' k = Some (num_cell (num0 (rget s k) + x))"
    and "k' \<noteq> k \<Longrightarrow> rget s' k' = rget s k'"
    and "hget s' = hget s" and "zsets s' = zsets s"
proof -
  show "is_num (rget s k)" using assms by (simp add: incrbyfloat_def split: if_splits)
  show "rget s' k = Some (num_cell (num0 (rget s k) + x))"
    by (subst rget_incrbyfloat [OF assms]) simp
  show "k' \<noteq> k \<Longrightarrow> rget s' k' = rget s k'"
    by (subst rget_incrbyfloat [OF assms]) simp
  show "hget s' = hget s"
    by (intro ext) (rule incrbyfloat_frame(2) [OF assms])
  show "zsets s' = zsets s" by (rule incrbyfloat_frame(3) [OF assms])
qed

lemma incr_opt:
  assumes "(if c then incrbyfloat s k x else Inr s) = Inr s'"
  shows "k' \<noteq> k \<Longrightarrow> rget s' k' = rget s k'"
    and "is_num (rget s k) \<Longrightarrow> num0 (rget s' k) = num0 (rget s k) + (if c then x else 0)"
    and "hget s' = hget s" and "zsets s' = zsets s"
proof -
  have cases: "(c \<and> incrbyfloat s k x = Inr s') \<or> (\<not> c \<and> s' = s)"
    using assms by (cases c) auto
  show "k' \<noteq> k \<Longrightarrow> rget s' k' = rget s k'"
    using cases incr_num(3) by blast
  show "is_num (rget s k) \<Longrightarrow> num0 (rget s' k) = num0 (rget s k) + (if c then x else 0)"
    using cases
  proof
    assume "c \<and> incrbyfloat s k x = Inr s'"
    then show ?thesis by (simp add: incr_num(2) [of s k x s'])
  next
    assume "\<not> c \<and> s' = s"
    then show ?thesis by simp
  qed
  show "hget s' = hget s" using cases incr_num(4) by blast
  show "zsets s' = zsets s" using cases incr_num(5) by blast
qed

text \<open>The span's part of a release, as one optional increment.\<close>

definition span_release :: "store \<Rightarrow> key \<Rightarrow> rat \<Rightarrow> store res" where
  "span_release s span_key released =
     (if span_key = ''noop'' then Inr s
      else bindE (lua_num (rget s span_key)) (\<lambda>span_held.
        if span_held > 0 then incrbyfloat s span_key (- min span_held released) else Inr s))"

lemma span_release_frame:
  assumes "span_release s sk x = Inr s'"
  shows "k \<noteq> sk \<or> sk = ''noop'' \<Longrightarrow> rget s' k = rget s k" and "hget s' = hget s" and "zsets s' = zsets s"
    and "sk \<noteq> ''noop'' \<Longrightarrow> num0 (rget s' sk) =
           (if num0 (rget s sk) > 0 then num0 (rget s sk) - min (num0 (rget s sk)) x
            else num0 (rget s sk))"
proof -
  let ?h = "num0 (rget s sk)"
  have noop: "sk = ''noop'' \<Longrightarrow> s' = s" and
    opt: "sk \<noteq> ''noop'' \<Longrightarrow>
      (if ?h > 0 then incrbyfloat s sk (- min ?h x) else Inr s) = Inr s' \<and> is_num (rget s sk)"
    using assms by (auto simp: span_release_def dest!: lua_num_InrD)
  show "k \<noteq> sk \<or> sk = ''noop'' \<Longrightarrow> rget s' k = rget s k"
    by (cases "sk = ''noop''") (simp add: noop, rule incr_opt(1) [OF opt [THEN conjunct1]], auto)
  show "hget s' = hget s"
    by (cases "sk = ''noop''") (simp add: noop, rule incr_opt(3) [OF opt [THEN conjunct1]])
  show "zsets s' = zsets s"
    by (cases "sk = ''noop''") (simp add: noop, rule incr_opt(4) [OF opt [THEN conjunct1]])
  assume ne: "sk \<noteq> ''noop''"
  have "num0 (rget s' sk) = ?h + (if ?h > 0 then - min ?h x else 0)"
    using opt [OF ne] by (intro incr_opt(2)) auto
  then show "num0 (rget s' sk) = (if ?h > 0 then ?h - min ?h x else ?h)"
    by (cases "?h > 0") simp_all
qed

lemma release_hold_alt:
  "release_hold s hk sk req =
     bindE (lua_num (rget s hk)) (\<lambda>held.
     bindE (if min held req > 0 then incrbyfloat s hk (- min held req) else Inr s) (\<lambda>s1.
     bindE (span_release s1 sk (min held req)) (\<lambda>s2. Inr (held, min held req, s2))))"
  by (simp add: release_hold_def span_release_def Let_def)

lemma release_hold_spec:
  assumes "release_hold s hk sk req = Inr (held, released, s2)" and "sk \<noteq> hk"
  shows "held = num0 (rget s hk)" and "released = min held req" and "is_num (rget s hk)"
    and "num0 (rget s2 hk) = held - max 0 released"
    and "k \<noteq> hk \<Longrightarrow> k \<noteq> sk \<or> sk = ''noop'' \<Longrightarrow> rget s2 k = rget s k"
    and "sk \<noteq> ''noop'' \<Longrightarrow> num0 (rget s2 sk) =
           (if num0 (rget s sk) > 0 then num0 (rget s sk) - min (num0 (rget s sk)) released
            else num0 (rget s sk))"
    and "hget s2 = hget s" and "zsets s2 = zsets s"
proof -
  obtain s1 where hd: "held = num0 (rget s hk)" "is_num (rget s hk)" and rl: "released = min held req"
    and i: "(if min held req > 0 then incrbyfloat s hk (- min held req) else Inr s) = Inr s1"
    and sp: "span_release s1 sk released = Inr s2"
    using assms(1) by (fastforce simp: release_hold_alt dest!: lua_num_InrD)
  note I = incr_opt [OF i] and S = span_release_frame [OF sp]
  show "held = num0 (rget s hk)" "released = min held req" "is_num (rget s hk)"
    by (fact hd rl)+
  show "num0 (rget s2 hk) = held - max 0 released"
    using S(1) [of hk] I(2) hd assms(2) rl by auto
  show "k \<noteq> hk \<Longrightarrow> k \<noteq> sk \<or> sk = ''noop'' \<Longrightarrow> rget s2 k = rget s k"
    using S(1) I(1) by simp
  show "sk \<noteq> ''noop'' \<Longrightarrow> num0 (rget s2 sk) =
           (if num0 (rget s sk) > 0 then num0 (rget s sk) - min (num0 (rget s sk)) released
            else num0 (rget s sk))"
    using S(4) I(1) [of sk] assms(2) by simp
  show "hget s2 = hget s" "zsets s2 = zsets s"
    using S(2,3) I(3,4) by simp_all
qed


section \<open>Sums over the open reservations\<close>

definition same_records :: "store \<Rightarrow> store \<Rightarrow> string set \<Rightarrow> bool" where
  "same_records s s' R \<longleftrightarrow> (\<forall>rid \<in> R. \<forall>f. hget s' (record_key rid) f = hget s (record_key rid) f)"

lemma same_records_reads:
  assumes "same_records s s' R" and "rid \<in> R"
  shows "rec_held s' rid = rec_held s rid" and "rec_span s' rid = rec_span s rid"
    and "rec_amount s' rid = rec_amount s rid" and "is_open s' rid = is_open s rid"
    and "record_ok s' rid = record_ok s rid"
  using assms
  by (simp_all add: same_records_def rec_held_def rec_span_def rec_amount_def is_open_def record_ok_def)

lemma open_total_cong:
  assumes "pending_ids s' = pending_ids s" and "same_records s s' (pending_ids s)"
  shows "open_total s' hk = open_total s hk"
  unfolding open_total_def assms(1)
  by (rule sum.cong) (simp_all add: same_records_reads [OF assms(2)])

lemma open_total_insert:
  assumes "pending_ids s' = insert rid (pending_ids s)" and "rid \<notin> pending_ids s"
    and "same_records s s' (pending_ids s)"
  shows "open_total s' hk = open_total s hk + (if rec_held s' rid = hk then rec_amount s' rid else 0)"
proof -
  have "(\<Sum>r \<in> pending_ids s. if rec_held s' r = hk then rec_amount s' r else 0) = open_total s hk"
    unfolding open_total_def by (rule sum.cong) (simp_all add: same_records_reads [OF assms(3)])
  then show ?thesis
    using assms(1,2) unfolding open_total_def [of s'] by (simp add: add.commute)
qed

lemma open_total_remove:
  assumes "pending_ids s' = pending_ids s - {rid}" and "rid \<in> pending_ids s"
    and "same_records s s' (pending_ids s - {rid})"
  shows "open_total s' hk = open_total s hk - (if rec_held s rid = hk then rec_amount s rid else 0)"
proof -
  have "(\<Sum>r \<in> pending_ids s - {rid}. if rec_held s' r = hk then rec_amount s' r else 0)
      = (\<Sum>r \<in> pending_ids s - {rid}. if rec_held s r = hk then rec_amount s r else 0)"
    by (rule sum.cong) (simp_all add: same_records_reads [OF assms(3)])
  then show ?thesis
    using assms(2) unfolding open_total_def assms(1) by (simp add: sum_diff1)
qed

lemma open_total_ge:
  assumes "records_ok s" and "rid \<in> pending_ids s"
  shows "rec_amount s rid \<le> open_total s (rec_held s rid)"
proof -
  have "(if rec_held s rid = rec_held s rid then rec_amount s rid else 0) \<le> open_total s (rec_held s rid)"
    unfolding open_total_def
    by (rule member_le_sum [OF assms(2)]) (use assms(1) in \<open>auto simp: records_ok_def record_ok_def\<close>)
  then show ?thesis by simp
qed

lemma hd_shape:
  "is_budget_held k \<Longrightarrow> hd k \<noteq> CHR ''r''"
  "is_span_held k \<Longrightarrow> hd k \<noteq> CHR ''r''"
  "hd (record_key rid) = CHR ''r''"
  by (auto simp: is_budget_held_def is_span_held_def scoped_def record_key_def split: if_splits)

lemma is_budget_held_not_record: "is_budget_held k \<Longrightarrow> k \<noteq> record_key rid"
  using hd_shape(1) hd_shape(3) by metis

lemma is_span_held_not_record: "is_span_held k \<Longrightarrow> k \<noteq> record_key rid"
  using hd_shape(2) hd_shape(3) by metis

section \<open>Closing a reservation\<close>

lemma zrem_absent: "m \<notin> fst ` set (zsets s k) \<Longrightarrow> zrem s k m = s"
proof -
  assume "m \<notin> fst ` set (zsets s k)"
  then have "filter (\<lambda>e. fst e \<noteq> m) (zsets s k) = zsets s k"
    by (auto simp: filter_id_conv)
  then show ?thesis by (simp add: zrem_def)
qed

lemma close_absent:
  assumes "records_ok s" and "\<not> is_open s rid"
  shows "hold_close s rid = Inr ([], s)"
proof -
  have "rid \<notin> pending_ids s" using assms by (simp add: records_ok_def)
  then show ?thesis
    using assms(2) by (simp add: hold_close_def close_script_def is_open_def pending_ids_def zrem_absent Let_def)
qed

lemma close_present:
  assumes ok: "record_ok s rid" and opn: "is_open s rid" and cl: "hold_close s rid = Inr (res, s')"
  defines "hk \<equiv> rec_held s rid" and "sk \<equiv> rec_span s rid"
  defines "released \<equiv> min (num0 (rget s hk)) (rec_amount s rid)"
  shows "res = [RStr (cell_text (hget s (record_key rid) ''customer_id'')), RNum released]"
    and "num0 (rget s' hk) = num0 (rget s hk) - max 0 released"
    and "k \<noteq> hk \<Longrightarrow> k \<noteq> sk \<Longrightarrow> k \<noteq> record_key rid \<Longrightarrow> rget s' k = rget s k"
    and "hget s' r f = (if r = record_key rid then None else hget s r f)"
    and "zsets s' = (zsets s)(PENDING_KEY := filter (\<lambda>e. fst e \<noteq> rid) (zsets s PENDING_KEY))"
    and "is_span_held sk \<Longrightarrow> num0 (rget s' sk) =
           (if num0 (rget s sk) > 0 then num0 (rget s sk) - min (num0 (rget s sk)) released
            else num0 (rget s sk))"
proof -
  define sk' where "sk' = (if sk = [] then ''noop'' else sk)"
  obtain customer where cust: "hget s (record_key rid) ''customer_id'' = Some customer"
    using opn by (auto simp: is_open_def)
  have hk: "is_budget_held hk" "hk \<noteq> []" and sp: "sk = [] \<or> is_span_held sk"
    and num: "is_num (hget s (record_key rid) ''reserved_usd'')"
    using ok by (auto simp: record_ok_def hk_def sk_def)
  have ne: "sk' \<noteq> hk"
    using hk sp budget_span_disjoint [of hk] is_span_held_noop
      scoped_def by (auto simp: sk'_def is_budget_held_def dest: arg_cong [of _ _ length])
  have "hold_close s rid = close_script s (record_key rid) hk sk' rid"
    using hk(2) by (simp add: hold_close_def Let_def sk'_def hk_def sk_def rec_held_def rec_span_def)
  with cl cust num obtain held rel s1 where
    rel: "release_hold s hk sk' (rec_amount s rid) = Inr (held, rel, s1)" and
    res: "res = [RStr (cell_text (Some customer)), RNum rel]" and
    s': "s' = zrem (rdel s1 (record_key rid)) PENDING_KEY rid"
    by (auto simp: close_script_def rec_amount_def)
  note R = release_hold_spec [OF rel ne]
  have rl: "rel = released" using R(1,2) by (simp add: released_def)
  show "res = [RStr (cell_text (hget s (record_key rid) ''customer_id'')), RNum released]"
    using res rl cust by simp
  have nr: "hk \<noteq> record_key rid" using is_budget_held_not_record [OF hk(1)] .
  show "num0 (rget s' hk) = num0 (rget s hk) - max 0 released"
    using R(4) R(1) rl nr s' by simp
  show "hget s' r f = (if r = record_key rid then None else hget s r f)"
    using R(7) s' by simp
  show "zsets s' = (zsets s)(PENDING_KEY := filter (\<lambda>e. fst e \<noteq> rid) (zsets s PENDING_KEY))"
    using R(8) s' by (simp add: zrem_def)
  show "k \<noteq> hk \<Longrightarrow> k \<noteq> sk \<Longrightarrow> k \<noteq> record_key rid \<Longrightarrow> rget s' k = rget s k"
    using R(5) [of k] s' by (auto simp: sk'_def)
  assume span: "is_span_held sk"
  then have "sk' = sk" "sk \<noteq> ''noop''" "sk \<noteq> record_key rid"
    using is_span_held_not_record by (auto simp: sk'_def)
  then show "num0 (rget s' sk) =
           (if num0 (rget s sk) > 0 then num0 (rget s sk) - min (num0 (rget s sk)) released
            else num0 (rget s sk))"
    using R(6) rl s' by simp
qed

lemma close_pending:
  assumes "zsets s' = (zsets s)(PENDING_KEY := filter (\<lambda>e. fst e \<noteq> rid) (zsets s PENDING_KEY))"
  shows "pending_ids s' = pending_ids s - {rid}"
  using assms by (auto simp: pending_ids_def)

lemma covered_released:
  assumes cov: "covered s" and opn: "is_open s rid"
  shows "min (num0 (rget s (rec_held s rid))) (rec_amount s rid) = rec_amount s rid"
    and "0 \<le> rec_amount s rid" and "record_ok s rid" and "rid \<in> pending_ids s"
proof -
  have ok: "records_ok s" using cov by (simp add: covered_def)
  with opn show r: "record_ok s rid" and p: "rid \<in> pending_ids s" by (simp_all add: records_ok_def)
  then show "0 \<le> rec_amount s rid" by (simp add: record_ok_def)
  have "0 \<le> slack s (rec_held s rid)" using cov r by (simp add: covered_def record_ok_def)
  then show "min (num0 (rget s (rec_held s rid))) (rec_amount s rid) = rec_amount s rid"
    using open_total_ge [OF ok p] by (simp add: slack_def)
qed

lemma close_books:
  assumes cov: "covered s" and cl: "hold_close s rid = Inr (res, s')"
  shows "covered s'" and "is_budget_held hk \<Longrightarrow> slack s' hk = slack s hk"
    and "is_open s' r \<longleftrightarrow> is_open s r \<and> r \<noteq> rid"
proof -
  have "covered s' \<and> (\<forall>hk. is_budget_held hk \<longrightarrow> slack s' hk = slack s hk)
      \<and> (\<forall>r. is_open s' r \<longleftrightarrow> is_open s r \<and> r \<noteq> rid)"
  proof (cases "is_open s rid")
    case False
    with cov cl have "s' = s" by (simp add: close_absent covered_def)
    with cov False show ?thesis by auto
  next
    case True
    note C = covered_released [OF cov True]
    note P = close_present [OF C(3) True cl]
    have pend: "pending_ids s' = pending_ids s - {rid}" by (rule close_pending [OF P(5)])
    have same: "same_records s s' (- {rid})" by (simp add: same_records_def P(4))
    have opens: "is_open s' r \<longleftrightarrow> is_open s r \<and> r \<noteq> rid" for r
      by (simp add: is_open_def P(4))
    have slk: "slack s' hk = slack s hk" if b: "is_budget_held hk" for hk
    proof -
      have ot: "open_total s' hk = open_total s hk - (if rec_held s rid = hk then rec_amount s rid else 0)"
        using same by (intro open_total_remove [OF pend C(4)]) (simp add: same_records_def)
      show ?thesis
      proof (cases "hk = rec_held s rid")
        case True
        with ot P(2) C(1,2) show ?thesis by (simp add: slack_def)
      next
        case False
        have "hk \<noteq> rec_span s rid"
          using C(3) b budget_span_disjoint by (auto simp: record_ok_def)
        with False have "rget s' hk = rget s hk"
          using P(3) is_budget_held_not_record [OF b] by blast
        with ot False show ?thesis by (simp add: slack_def)
      qed
    qed
    have "records_ok s'"
      using cov same_records_reads(5) [OF same]
      by (auto simp: records_ok_def covered_def pend opens)
    with slk cov opens show ?thesis by (simp add: covered_def)
  qed
  then show "covered s'" "is_budget_held hk \<Longrightarrow> slack s' hk = slack s hk"
    "is_open s' r \<longleftrightarrow> is_open s r \<and> r \<noteq> rid" by auto
qed

section \<open>Opening a reservation\<close>

lemma span_hold_spec:
  assumes "span_hold s K sp est = Inr (denied, sh, ss, s1)"
  shows "denied \<Longrightarrow> s1 = s" and "k \<noteq> k_span_held K \<or> sp = [] \<Longrightarrow> rget s1 k = rget s k"
    and "hget s1 = hget s" and "zsets s1 = zsets s"
    and "\<not> denied \<Longrightarrow> sp \<noteq> [] \<Longrightarrow> num0 (rget s1 (k_span_held K)) = num0 (rget s (k_span_held K))
           + (if rget s (k_span_max K) = None then 0 else est)"
    and "\<not> denied \<Longrightarrow> sp \<noteq> [] \<Longrightarrow> rget s (k_span_max K) = Some raw \<Longrightarrow>
           num0 (rget s (k_span_cost K)) + num0 (rget s1 (k_span_held K)) \<le> num0 (Some raw)"
proof -
  have alt: "(s1 = s \<and> (denied \<or> sp = [] \<or> rget s (k_span_max K) = None)) \<or>
    (\<exists>s0 raw. \<not> denied \<and> sp \<noteq> [] \<and> rget s (k_span_max K) = Some raw
      \<and> num0 (rget s (k_span_cost K)) + num0 (rget s (k_span_held K)) + est \<le> num0 (Some raw)
      \<and> incrbyfloat s (k_span_held K) est = Inr s0 \<and> s1 = expire s0 (k_span_held K) SPAN_TTL_SEC)"
    using assms unfolding span_hold_def
    by (auto split: if_splits option.splits dest!: lua_num_InrD)
  show "denied \<Longrightarrow> s1 = s" using alt by blast
  show "k \<noteq> k_span_held K \<or> sp = [] \<Longrightarrow> rget s1 k = rget s k"
    using alt incr_num(3) by (elim disjE exE conjE) simp_all
  show "hget s1 = hget s"
    using alt by (elim disjE exE conjE) (simp_all add: fun_eq_iff incr_num(4))
  show "zsets s1 = zsets s"
    using alt by (elim disjE exE conjE) (simp_all add: incr_num(5))
  assume nd: "\<not> denied" "sp \<noteq> []"
  show sum: "num0 (rget s1 (k_span_held K)) = num0 (rget s (k_span_held K))
           + (if rget s (k_span_max K) = None then 0 else est)"
    using alt nd by (elim disjE exE conjE) (simp_all add: incr_num(2) [where s = s and x = est])
  assume "rget s (k_span_max K) = Some raw"
  then show "num0 (rget s (k_span_cost K)) + num0 (rget s1 (k_span_held K)) \<le> num0 (Some raw)"
    using alt nd sum by (elim disjE exE conjE) simp_all
qed

lemma span_hold_denied: "span_hold s K sp est = Inr (True, sh, ss, s1) \<Longrightarrow> s1 = s"
  by (rule span_hold_spec(1)) simp_all

lemma write_record_frame [simp]:
  "rget (write_record s rec hk A) k = rget s k"
  "zsets (write_record s rec hk A) = zsets s"
  "r \<noteq> rec \<Longrightarrow> hget (write_record s rec hk A) r f = hget s r f"
  by (simp_all add: write_record_def)

lemma write_record_fields [simp]:
  "hget (write_record s rec hk A) rec ''customer_id'' = Some (CTxt (a_customer A))"
  "hget (write_record s rec hk A) rec ''tenant_id'' = Some (CTxt (a_tenant A))"
  "hget (write_record s rec hk A) rec ''reserved_usd'' = Some (CFlt (a_estimate A))"
  "hget (write_record s rec hk A) rec ''held_key'' = Some (CTxt hk)"
  "hget (write_record s rec hk A) rec ''span_held_key'' = Some (CTxt (a_span_held_key A))"
  by (simp_all add: write_record_def)

definition open_args_of ::
  "string option \<Rightarrow> rat \<Rightarrow> string \<Rightarrow> string \<Rightarrow> rat \<Rightarrow> string option \<Rightarrow> rat option \<Rightarrow> string option \<Rightarrow> open_args" where
  "open_args_of t now rid c est sp ex sk =
     \<lparr>a_estimate = est, a_id = rid, a_customer = c, a_tenant = text_or_empty t,
      a_span = text_or_empty sp, a_deadline = (case ex of Some d \<Rightarrow> d | None \<Rightarrow> now + 900),
      a_span_held_key = (case sk of None \<Rightarrow> [] | Some p \<Rightarrow> p @ '':held_usd'')\<rparr>"

lemma open_args_of_sel [simp]:
  "a_estimate (open_args_of t now rid c est sp ex sk) = est"
  "a_id (open_args_of t now rid c est sp ex sk) = rid"
  "a_customer (open_args_of t now rid c est sp ex sk) = c"
  "a_tenant (open_args_of t now rid c est sp ex sk) = text_or_empty t"
  "a_span (open_args_of t now rid c est sp ex sk) = text_or_empty sp"
  "a_deadline (open_args_of t now rid c est sp ex sk) = (case ex of Some d \<Rightarrow> d | None \<Rightarrow> now + 900)"
  "a_span_held_key (open_args_of t now rid c est sp ex sk) = (case sk of None \<Rightarrow> [] | Some p \<Rightarrow> p @ '':held_usd'')"
  by (simp_all add: open_args_of_def)

lemma keys_for_sel [simp]:
  "k_balance (keys_for bk sk) = bk @ '':balance_usd''"
  "k_held (keys_for bk sk) = bk @ '':held_usd''"
  "k_span_held (keys_for bk sk) = (case sk of None \<Rightarrow> ''noop'' | Some p \<Rightarrow> p @ '':held_usd'')"
  "k_span_cost (keys_for bk sk) = (case sk of None \<Rightarrow> ''noop'' | Some p \<Rightarrow> p @ '':cost_usd'')"
  "k_span_max (keys_for bk sk) = (case sk of None \<Rightarrow> ''noop'' | Some p \<Rightarrow> p @ '':max_cost_usd'')"
  by (simp_all add: keys_for_def Let_def)

lemma open_script_cases:
  assumes "open_script s K rec A = Inr (res, s')"
  obtains (unchanged) "s' = s" and "hd res \<in> {RInt 2, RInt (- 1), RInt 0}"
  | (opened) sh ss s1 s2 where "hget s rec ''customer_id'' = None" and "rget s (k_balance K) \<noteq> None"
      and "a_estimate A \<le> num0 (rget s (k_balance K)) - num0 (rget s (k_held K))"
      and "span_hold s K (a_span A) (a_estimate A) = Inr (False, sh, ss, s1)"
      and "incrbyfloat s1 (k_held K) (a_estimate A) = Inr s2"
      and "s' = zadd (expire (write_record s2 rec (k_held K) A) rec RECORD_TTL_SECONDS)
                  PENDING_KEY (a_deadline A) (a_id A)"
      and "res = [RInt 1, RStr ''opened'', lua_number (num0 (rget s (k_balance K))),
             lua_number (num0 (rget s (k_held K)) + a_estimate A), lua_number sh, lua_number ss]"
  using assms unfolding open_script_def Let_def
  by (auto split: option.splits if_splits dest!: lua_num_InrD span_hold_denied)

definition open_result :: "store \<Rightarrow> key \<Rightarrow> rat \<Rightarrow> hold_reply" where
  "open_result s bk est =
     (let b = of_int (trunc_int (num0 (rget s (bk @ '':balance_usd''))));
          h = of_int (trunc_int (num0 (rget s (bk @ '':held_usd'')) + est))
      in (denied_reply ''reserved'')\<lparr>h_allowed := True, h_reserved := Some est, h_balance := Some b,
           h_held := Some h, h_effective := Some (b - h), h_idempotent := Some False\<rparr>)"

lemma hold_open_cases:
  assumes "hold_open t s now rid c est sp ex = Inr (r, s')"
  defines "bk \<equiv> budget_prefix_for_read s t c"
  obtains (unchanged) "s' = s" and "h_idempotent r \<noteq> Some False" and "0 < est"
  | (opened) sk sh ss s1 s2 where "span_key_of s t sp = Inr sk" and "0 < est" and "\<not> is_open s rid"
      and "rget s (bk @ '':balance_usd'') \<noteq> None"
      and "est \<le> num0 (rget s (bk @ '':balance_usd'')) - num0 (rget s (bk @ '':held_usd''))"
      and "span_hold s (keys_for bk sk) (text_or_empty sp) est = Inr (False, sh, ss, s1)"
      and "incrbyfloat s1 (bk @ '':held_usd'') est = Inr s2"
      and "s' = zadd (expire (write_record s2 (record_key rid) (bk @ '':held_usd'')
                  (open_args_of t now rid c est sp ex sk)) (record_key rid) RECORD_TTL_SECONDS)
                  PENDING_KEY (case ex of Some d \<Rightarrow> d | None \<Rightarrow> now + 900) rid"
      and "r = open_result s bk est"
proof -
  obtain sk res where pos: "0 < est" and sk: "span_key_of s t sp = Inr sk"
    and scr: "open_script s (keys_for bk sk) (record_key rid) (open_args_of t now rid c est sp ex sk)
                = Inr (res, s')"
    and dec: "decode_open sp est res = Inr r"
    using assms(1) unfolding hold_open_def bk_def open_args_of_def
    by (auto simp: Let_def split: if_splits)
  from scr show thesis
  proof (cases rule: open_script_cases)
    case unchanged
    have "h_idempotent r \<noteq> Some False"
      using dec unchanged(2) unfolding decode_open_def denied_reply_def
      by (auto split: list.splits reply.splits if_splits)
    with unchanged(1) pos show thesis by (intro that(1)) simp_all
  next
    case (opened sh ss s1 s2)
    then show thesis
      using pos sk dec
      by (intro that(2) [of sk sh ss s1 s2])
         (auto simp: is_open_def decode_open_def open_result_def Let_def)
  qed
qed

lemma opened_store:
  assumes "\<not> is_open s rid"
    and sp: "span_hold s (keys_for bk sk) (text_or_empty sp) est = Inr (False, sh, ss, s1)"
    and inc: "incrbyfloat s1 hk est = Inr s2"
    and s': "s' = zadd (expire (write_record s2 (record_key rid) hk
                  (open_args_of t now rid c est sp ex sk)) (record_key rid) RECORD_TTL_SECONDS)
                  PENDING_KEY dl rid"
  shows "pending_ids s' = insert rid (pending_ids s)"
    and "same_records s s' (- {rid})"
    and "rec_held s' rid = hk" and "rec_amount s' rid = est" and "is_open s' rid"
    and "rec_span s' rid = (case sk of None \<Rightarrow> [] | Some p \<Rightarrow> p @ '':held_usd'')"
    and "hget s' (record_key rid) ''reserved_usd'' = Some (CFlt est)"
    and "k \<noteq> hk \<Longrightarrow> k \<noteq> k_span_held (keys_for bk sk) \<or> text_or_empty sp = [] \<Longrightarrow> rget s' k = rget s k"
    and "hk \<noteq> k_span_held (keys_for bk sk) \<or> text_or_empty sp = [] \<Longrightarrow>
           rget s' hk = Some (num_cell (num0 (rget s hk) + est))"
proof -
  note S = span_hold_spec [OF sp]
  have zs: "zsets s2 = zsets s" and hg: "hget s2 = hget s"
    using S(3,4) incr_num(4,5) [OF inc] by simp_all
  show "pending_ids s' = insert rid (pending_ids s)"
    by (auto simp: s' pending_ids_def set_insort_key zs)
  show "same_records s s' (- {rid})" by (simp add: s' same_records_def hg)
  show "rec_held s' rid = hk" "rec_amount s' rid = est" "is_open s' rid"
    "rec_span s' rid = (case sk of None \<Rightarrow> [] | Some p \<Rightarrow> p @ '':held_usd'')"
    "hget s' (record_key rid) ''reserved_usd'' = Some (CFlt est)"
    by (simp_all add: s' rec_held_def rec_amount_def rec_span_def is_open_def)
  show "k \<noteq> hk \<Longrightarrow> k \<noteq> k_span_held (keys_for bk sk) \<or> text_or_empty sp = [] \<Longrightarrow> rget s' k = rget s k"
    using incr_num(3) [OF inc] S(2) by (simp add: s')
  show "hk \<noteq> k_span_held (keys_for bk sk) \<or> text_or_empty sp = [] \<Longrightarrow>
           rget s' hk = Some (num_cell (num0 (rget s hk) + est))"
    using incr_num(2) [OF inc] S(2) [of hk] by (simp add: s')
qed

lemma open_books:
  assumes cov: "covered s" and pl: "plain_tenant t"
    and op: "hold_open t s now rid c est sp ex = Inr (r, s')"
  shows "covered s'" and "is_budget_held hk \<Longrightarrow> slack s' hk = slack s hk"
proof -
  have "covered s' \<and> (\<forall>hk. is_budget_held hk \<longrightarrow> slack s' hk = slack s hk)"
    using op
  proof (cases rule: hold_open_cases)
    case unchanged
    with cov show ?thesis by simp
  next
    case (opened sk sh ss s1 s2)
    define hk where "hk = budget_prefix_for_read s t c @ '':held_usd''"
    have hk: "is_budget_held hk" unfolding hk_def by (rule budget_read_held [OF pl])
    have span: "text_or_empty sp = [] \<or> is_span_held (k_span_held (keys_for (budget_prefix_for_read s t c) sk))"
      "sk = None \<or> is_span_held (the sk @ '':held_usd'')"
      using span_key_shape [OF pl opened(1)] by (auto split: option.splits)
    note O = opened_store [OF opened(3) opened(6) opened(7) opened(8), folded hk_def]
    have ne: "k \<noteq> k_span_held (keys_for (budget_prefix_for_read s t c) sk) \<or> text_or_empty sp = []"
      if "is_budget_held k" for k
      using span(1) budget_span_disjoint [OF that] by blast
    have np: "rid \<notin> pending_ids s" using cov opened(3) by (simp add: covered_def records_ok_def)
    have same: "same_records s s' (pending_ids s)"
      using O(2) np by (auto simp: same_records_def)
    have slk: "slack s' k = slack s k" if k: "is_budget_held k" for k
    proof (cases "k = hk")
      case True
      then show ?thesis
        using O(9) ne [OF hk] open_total_insert [OF O(1) np same, of hk] O(3,4)
        by (simp add: slack_def)
    next
      case False
      then show ?thesis
        using O(8) [OF False ne [OF k]] open_total_insert [OF O(1) np same, of k] O(3)
        by (simp add: slack_def)
    qed
    have new: "record_ok s' rid"
      using hk opened(2) span(2) O(3-7)
      by (auto simp: record_ok_def split: option.splits)
    have "records_ok s'"
      unfolding records_ok_def
    proof (intro allI)
      fix q
      show "(q \<in> pending_ids s' \<longleftrightarrow> is_open s' q) \<and> (is_open s' q \<longrightarrow> record_ok s' q)"
        using cov O(1,5) new same_records_reads(4,5) [OF O(2), of q]
        by (cases "q = rid") (auto simp: covered_def records_ok_def)
    qed
    with slk cov show ?thesis by (simp add: covered_def)
  qed
  then show "covered s'" "is_budget_held hk \<Longrightarrow> slack s' hk = slack s hk" by auto
qed

section \<open>Refreshing, settling, expiring\<close>

lemma pending_zadd: "pending_ids (zadd (expire s e secs) PENDING_KEY dl rid) = insert rid (pending_ids s)"
  by (auto simp: pending_ids_def set_insort_key)

lemma refresh_books:
  assumes cov: "covered s" and opn: "is_open s rid" and rf: "hold_refresh s now rid ex = (b, s')"
  shows "covered s'" and "slack s' hk = slack s hk" and "is_open s' r \<longleftrightarrow> is_open s r"
proof -
  have mem: "rid \<in> pending_ids s" using cov opn by (simp add: covered_def records_ok_def)
  have alt: "s' = s \<or> (\<exists>dl. s' = zadd (expire s (record_key rid) RECORD_TTL_SECONDS) PENDING_KEY dl rid)"
    using rf by (auto simp: hold_refresh_def Let_def split: if_splits)
  then have pend: "pending_ids s' = pending_ids s" and same: "same_records s s' UNIV"
    and kv: "rget s' k = rget s k" for k
    using mem by (auto simp: pending_zadd insert_absorb same_records_def)
  have "same_records s s' (pending_ids s)" using same by (simp add: same_records_def)
  then show sl: "slack s' hk = slack s hk" for hk
    by (simp add: slack_def kv open_total_cong [OF pend])
  show "is_open s' r \<longleftrightarrow> is_open s r" using same_records_reads(4) [OF same] by simp
  show "covered s'"
    using cov same_records_reads(4,5) [OF same] pend sl by (simp add: covered_def records_ok_def)
qed

lemma hold_close_lists: "hold_close s rid = Inr (res, s') \<Longrightarrow> lists s' = lists s"
  using incrbyfloat_frame(4)
  by (fastforce simp: hold_close_def Let_def close_script_def release_hold_def zrem_def
      split: option.splits if_splits)

lemma settle_books:
  assumes "covered s" and "hold_settle s rid = Inr (q, s')"
  shows "covered s'" and "is_budget_held hk \<Longrightarrow> slack s' hk = slack s hk"
    and "is_open s' r \<longleftrightarrow> is_open s r \<and> r \<noteq> rid"
  using assms(2) close_books [OF assms(1)]
  by (auto simp: hold_settle_def split: list.splits)

lemma rpush_books [simp]:
  "covered (rpush s l v) = covered s" "slack (rpush s l v) hk = slack s hk"
  "is_open (rpush s l v) r = is_open s r" "pending_ids (rpush s l v) = pending_ids s"
proof -
  have same: "same_records s (rpush s l v) UNIV" by (simp add: same_records_def)
  show p: "pending_ids (rpush s l v) = pending_ids s" by (simp add: pending_ids_def)
  show o: "is_open (rpush s l v) r = is_open s r" for r by (simp add: is_open_def)
  have "open_total (rpush s l v) hk = open_total s hk" for hk
    using same by (intro open_total_cong [OF p]) (simp add: same_records_def)
  then show sl: "slack (rpush s l v) hk = slack s hk" for hk by (simp add: slack_def)
  show "covered (rpush s l v) = covered s"
    by (simp add: covered_def records_ok_def p o sl same_records_reads(5) [OF same])
qed

lemma expire_loop_books:
  assumes "covered s" and "expire_loop s cutoff ids n = Inr (m, s')"
  shows "covered s' \<and> (\<forall>hk. is_budget_held hk \<longrightarrow> slack s' hk = slack s hk)
     \<and> (\<forall>r. is_open s' r \<longleftrightarrow> is_open s r \<and> r \<notin> set ids)"
  using assms
proof (induction ids arbitrary: s n)
  case Nil
  then show ?case by simp
next
  case (Cons rid ids)
  obtain res s1 where cl: "hold_close s rid = Inr (res, s1)"
    using Cons.prems(2) by auto
  note B = close_books [OF Cons.prems(1) cl]
  obtain s2 n2 where step: "expire_loop s2 cutoff ids n2 = Inr (m, s')"
    and s2: "s2 = s1 \<or> (\<exists>l v. s2 = rpush s1 l v)"
    using Cons.prems(2) cl by (auto split: list.splits reply.splits)
  have "covered s2 \<and> (\<forall>hk. slack s2 hk = slack s1 hk) \<and> (\<forall>r. is_open s2 r = is_open s1 r)"
    using B(1) s2 by auto
  with Cons.IH [OF _ step] B show ?case by auto
qed

text \<open>How many reservations a sweep releases: each open id of the list, once.\<close>

lemma expire_loop_count:
  assumes "covered s" and "expire_loop s cutoff ids n = Inr (m, s')" and "distinct ids"
  shows "m = n + length (filter (is_open s) ids)
     \<and> lists s' ALERTS_KEY = lists s ALERTS_KEY
         @ map (\<lambda>r. expiry_alert r (cell_text (hget s (record_key r) ''customer_id''))
                     (rec_amount s r) cutoff) (filter (is_open s) ids)"
  using assms
proof (induction ids arbitrary: s n)
  case Nil
  then show ?case by simp
next
  case (Cons rid ids)
  obtain res s1 where cl: "hold_close s rid = Inr (res, s1)"
    using Cons.prems(2) by auto
  show ?case
  proof (cases "is_open s rid")
    case False
    then have "s1 = s" "res = []" using cl close_absent Cons.prems(1) by (auto simp: covered_def)
    with False Cons.IH [OF Cons.prems(1)] Cons.prems(2,3) cl show ?thesis by simp
  next
    case True
    note C = covered_released [OF Cons.prems(1) True]
    note P = close_present [OF C(3) True cl]
    let ?alert = "expiry_alert rid (cell_text (hget s (record_key rid) ''customer_id''))
                    (rec_amount s rid) cutoff"
    have step: "expire_loop (rpush s1 ALERTS_KEY ?alert) cutoff ids (Suc n) = Inr (m, s')"
      using Cons.prems(2) cl P(1) C(1) by (simp add: reply_float_def)
    have cov: "covered (rpush s1 ALERTS_KEY ?alert)"
      using close_books(1) [OF Cons.prems(1) cl] by simp
    have lists: "lists s1 = lists s"
      using hold_close_lists [OF cl] .
    have others: "is_open s1 r = is_open s r" "rec_amount s1 r = rec_amount s r"
      "hget s1 (record_key r) f = hget s (record_key r) f" if "r \<in> set ids" for r f
      using that Cons.prems(3) P(4) by (auto simp: is_open_def rec_amount_def)
    have f: "filter (is_open s1) ids = filter (is_open s) ids"
      using others(1) by (intro filter_cong) simp_all
    then show ?thesis
      using Cons.IH [OF cov step] Cons.prems(3) True others
      by (simp add: rec_amount_def lists)
  qed
qed

section \<open>The lifecycle as a step relation\<close>

inductive life_step :: "store \<Rightarrow> store \<Rightarrow> bool" where
  life_opening: "plain_tenant t \<Longrightarrow> hold_open t s now rid c est sp ex = Inr (r, s') \<Longrightarrow> life_step s s'"
| life_refreshing: "is_open s rid \<Longrightarrow> hold_refresh s now rid ex = (b, s') \<Longrightarrow> life_step s s'"
| life_settling: "hold_settle s rid = Inr (q, s') \<Longrightarrow> life_step s s'"
| life_expiring: "expire_due s cutoff = Inr (n, s') \<Longrightarrow> life_step s s'"

lemma life_step_books:
  "life_step s s' \<Longrightarrow> covered s \<Longrightarrow> covered s' \<and> (\<forall>hk. is_budget_held hk \<longrightarrow> slack s' hk = slack s hk)"
proof (induction rule: life_step.induct)
  case (life_opening t s now rid c est sp ex r s')
  note O = open_books [OF life_opening(3,1,2)]
  show ?case by (intro conjI allI impI) (rule O(1), rule O(2), assumption)
next
  case (life_refreshing s rid now ex b s')
  note R = refresh_books [OF life_refreshing(3) life_refreshing(1) life_refreshing(2)]
  show ?case by (intro conjI allI impI) (rule R(1), rule R(2))
next
  case (life_settling s rid q s')
  note S = settle_books [OF life_settling(2) life_settling(1)]
  show ?case by (intro conjI allI impI) (rule S(1), rule S(2), assumption)
next
  case (life_expiring s cutoff n s')
  then show ?case using expire_loop_books unfolding expire_due_def by blast
qed

lemma life_steps_books:
  "rtranclp life_step s s' \<Longrightarrow> covered s \<Longrightarrow>
     covered s' \<and> (\<forall>hk. is_budget_held hk \<longrightarrow> slack s' hk = slack s hk)"
  by (induction rule: rtranclp_induct) (auto dest: life_step_books)

lemma due_ids_distinct: "zwf (zsets s PENDING_KEY) \<Longrightarrow> distinct (due_ids s cutoff)"
  using zwf_filter [of "zsets s PENDING_KEY"] by (auto simp: due_ids_def zwf_def)

lemma due_ids_pending: "set (due_ids s cutoff) \<subseteq> pending_ids s"
  by (auto simp: due_ids_def pending_ids_def)

section \<open>Closing always returns\<close>

text \<open>The held counters hold numbers, as INCRBYFLOAT requires and keeps.\<close>

definition holds_num :: "store \<Rightarrow> bool" where
  "holds_num s \<longleftrightarrow> (\<forall>k. is_budget_held k \<or> is_span_held k \<longrightarrow> is_num (rget s k))"

lemma is_num_incr:
  assumes "incrbyfloat s k x = Inr s'" and "is_num (rget s k')"
  shows "is_num (rget s' k')"
  by (subst rget_incrbyfloat [OF assms(1)]) (simp add: assms(2))

lemma incr_opt_ok:
  assumes "is_num (rget s k)"
  shows "\<exists>s'. (if b then incrbyfloat s k x else Inr s) = Inr s'
    \<and> (\<forall>k'. is_num (rget s k') \<longrightarrow> is_num (rget s' k'))"
proof -
  obtain s' where "incrbyfloat s k x = Inr s'" using incrbyfloat_ok assms by blast
  then show ?thesis using is_num_incr by (cases b) auto
qed

lemma release_hold_ok:
  assumes "is_num (rget s hk)" and "sk = ''noop'' \<or> is_num (rget s sk)"
  obtains held released s' where "release_hold s hk sk req = Inr (held, released, s')"
    and "\<And>k'. is_num (rget s k') \<Longrightarrow> is_num (rget s' k')"
proof -
  let ?m = "min (num0 (rget s hk)) req"
  obtain s1 where s1: "(if ?m > 0 then incrbyfloat s hk (- ?m) else Inr s) = Inr s1"
    and k1: "\<And>k'. is_num (rget s k') \<Longrightarrow> is_num (rget s1 k')"
    using incr_opt_ok [OF assms(1)] by blast
  have "\<exists>s2. span_release s1 sk ?m = Inr s2 \<and> (\<forall>k'. is_num (rget s1 k') \<longrightarrow> is_num (rget s2 k'))"
  proof (cases "sk = ''noop''")
    case False
    then have n: "is_num (rget s1 sk)" using assms(2) k1 by blast
    from incr_opt_ok [OF n, of "num0 (rget s1 sk) > 0" "- min (num0 (rget s1 sk)) ?m"] n False
    show ?thesis by (simp add: span_release_def)
  qed (simp add: span_release_def)
  then obtain s2 where "span_release s1 sk ?m = Inr s2"
    and "\<And>k'. is_num (rget s1 k') \<Longrightarrow> is_num (rget s2 k')" by blast
  then show thesis
    using s1 k1 assms(1) by (intro that [of "num0 (rget s hk)" ?m s2]) (simp_all add: release_hold_alt)
qed

lemma close_ok:
  assumes "covered s" and "holds_num s"
  obtains res s' where "hold_close s rid = Inr (res, s')" and "holds_num s'"
proof (cases "is_open s rid")
  case False
  with assms that show thesis by (simp add: close_absent covered_def)
next
  case True
  note C = covered_released [OF assms(1) True]
  let ?sk = "if rec_span s rid = [] then ''noop'' else rec_span s rid"
  have "is_num (rget s (rec_held s rid))" "?sk = ''noop'' \<or> is_num (rget s ?sk)"
    using C(3) assms(2) by (auto simp: record_ok_def holds_num_def)
  then obtain held rel s1 where
    rel: "release_hold s (rec_held s rid) ?sk (rec_amount s rid) = Inr (held, rel, s1)"
    and keep: "\<And>k'. is_num (rget s k') \<Longrightarrow> is_num (rget s1 k')"
    using release_hold_ok by blast
  have ne: "rec_held s rid \<noteq> []" and num: "is_num (hget s (record_key rid) ''reserved_usd'')"
    using C(3) by (auto simp: record_ok_def)
  obtain customer where cust: "hget s (record_key rid) ''customer_id'' = Some customer"
    using True by (auto simp: is_open_def)
  have "hold_close s rid = close_script s (record_key rid) (rec_held s rid) ?sk rid"
    using ne by (simp add: hold_close_def Let_def rec_held_def rec_span_def)
  then have "hold_close s rid = Inr ([RStr (cell_text (Some customer)), RNum rel],
      zrem (rdel s1 (record_key rid)) PENDING_KEY rid)"
    using rel num cust by (simp add: close_script_def rec_amount_def)
  moreover have "holds_num (zrem (rdel s1 (record_key rid)) PENDING_KEY rid)"
    using assms(2) keep by (auto simp: holds_num_def)
  ultimately show thesis by (rule that)
qed

lemma expire_loop_ok:
  assumes "covered s" and "holds_num s"
  shows "\<exists>m s'. expire_loop s cutoff ids n = Inr (m, s')"
  using assms
proof (induction ids arbitrary: s n)
  case Nil
  then show ?case by simp
next
  case (Cons rid ids)
  obtain res s1 where cl: "hold_close s rid = Inr (res, s1)" and num: "holds_num s1"
    using close_ok [OF Cons.prems] by blast
  note B = close_books(1) [OF Cons.prems(1) cl]
  show ?case
  proof (cases "is_open s rid")
    case False
    then have "res = []" using cl close_absent Cons.prems(1) by (auto simp: covered_def)
    with cl Cons.IH [OF B num] show ?thesis by simp
  next
    case True
    note P = close_present(1) [OF covered_released(3) [OF Cons.prems(1) True] True cl]
    have "holds_num (rpush s1 l v)" for l v using num by (simp add: holds_num_def)
    with cl P B Cons.IH show ?thesis by (simp add: reply_float_def)
  qed
qed

section \<open>Properties\<close>

text \<open>
  C2: the books stay balanced. Along any run of opens, refreshes, settlements and expiry sweeps,
  for any tenants and customers, interleaved in any order, what a budget has held in excess of its open
  reservations never changes, and never becomes negative; in particular, if the held amount was
  the sum of the open reservations at the start, it is so at the end: no hold leaks and none is
  released twice.
\<close>

theorem reservation_books_balanced:
  assumes "rtranclp life_step s s'" and "covered s" and "is_budget_held hk"
  shows "slack s' hk = slack s hk \<and> 0 \<le> slack s' hk
    \<and> (num0 (rget s hk) = open_total s hk \<longleftrightarrow> num0 (rget s' hk) = open_total s' hk)"
proof -
  have "covered s'" "slack s' hk = slack s hk"
    using life_steps_books [OF assms(1,2)] assms(3) by blast+
  then show ?thesis using assms(3) by (auto simp: covered_def slack_def)
qed

text \<open>
  A settlement releases what the reservation holds, once. Settling an open reservation
  always returns: it gives its amount, lowers the budget's hold by exactly that, closes it and no
  other, and settling it again releases nothing and changes nothing.
\<close>

theorem settle_releases_once:
  assumes "covered s" and "holds_num s" and "is_open s rid"
  shows "\<exists>s'. hold_settle s rid = Inr (rec_amount s rid, s')
    \<and> num0 (rget s' (rec_held s rid)) = num0 (rget s (rec_held s rid)) - rec_amount s rid
    \<and> (\<forall>r. is_open s' r \<longleftrightarrow> is_open s r \<and> r \<noteq> rid) \<and> hold_settle s' rid = Inr (0, s')"
proof -
  obtain res s' where cl: "hold_close s rid = Inr (res, s')"
    using close_ok [OF assms(1,2)] by blast
  note C = covered_released [OF assms(1,3)] and P = close_present [OF covered_released(3) assms(3) cl]
    and B = close_books [OF assms(1) cl]
  have "hold_settle s rid = Inr (rec_amount s rid, s')"
    using assms(1,3) cl P(1) C(1) by (simp add: hold_settle_def reply_float_def)
  moreover have "hold_settle s' rid = Inr (0, s')"
    using close_absent [of s' rid] B(1,3) by (simp add: hold_settle_def covered_def)
  moreover have "num0 (rget s' (rec_held s rid)) = num0 (rget s (rec_held s rid)) - rec_amount s rid"
    using P(2) assms(1,3) C(1,2) by simp
  ultimately show ?thesis using B(3) by blast
qed

text \<open>
  C15: an expiry sweep always finishes; it closes every overdue reservation and only those,
  raises one alert for each, and reports their number.
\<close>

theorem expire_due_complete:
  assumes "covered s" and "holds_num s" and "zwf (zsets s PENDING_KEY)"
  shows "\<exists>s'. expire_due s cutoff = Inr (length (due_ids s cutoff), s')
    \<and> (\<forall>r. is_open s' r \<longleftrightarrow> is_open s r \<and> r \<notin> set (due_ids s cutoff))
    \<and> length (lists s' ALERTS_KEY) = length (lists s ALERTS_KEY) + length (due_ids s cutoff)"
proof -
  obtain n s' where run: "expire_loop s cutoff (due_ids s cutoff) 0 = Inr (n, s')"
    using expire_loop_ok [OF assms(1,2)] by blast
  have all: "filter (is_open s) (due_ids s cutoff) = due_ids s cutoff"
    using due_ids_pending [of s cutoff] assms(1)
    by (auto simp: filter_id_conv covered_def records_ok_def)
  have "n = 0 + length (filter (is_open s) (due_ids s cutoff)) \<and>
    lists s' ALERTS_KEY = lists s ALERTS_KEY
      @ map (\<lambda>r. expiry_alert r (cell_text (hget s (record_key r) ''customer_id'')) (rec_amount s r) cutoff)
          (filter (is_open s) (due_ids s cutoff))"
    by (rule expire_loop_count [OF assms(1) run due_ids_distinct [OF assms(3)]])
  moreover have "\<forall>r. is_open s' r \<longleftrightarrow> is_open s r \<and> r \<notin> set (due_ids s cutoff)"
    using expire_loop_books [OF assms(1) run] by blast
  ultimately show ?thesis using run by (simp add: all expire_due_def)
qed

text \<open>
  C9: admission. Opening a reservation either leaves the store as it was, or it adds exactly
  the estimate to the budget's hold, leaves the balance alone, and the new hold still fits in
  the balance.
\<close>

theorem open_within_balance:
  assumes "plain_tenant t" and "hold_open t s now rid c est sp ex = Inr (r, s')"
  shows "let bal = budget_prefix_for_read s t c @ '':balance_usd'';
             held = budget_prefix_for_read s t c @ '':held_usd''
         in s' = s \<or> (h_allowed r \<and> rget s' bal = rget s bal
              \<and> num0 (rget s' held) = num0 (rget s held) + est
              \<and> num0 (rget s' held) \<le> num0 (rget s' bal))"
  using assms(2)
proof (cases rule: hold_open_cases)
  case unchanged
  then show ?thesis by simp
next
  case (opened sk sh ss s1 s2)
  define bk where "bk = budget_prefix_for_read s t c"
  have hk: "is_budget_held (bk @ '':held_usd'')"
    unfolding bk_def by (rule budget_read_held [OF assms(1)])
  have sp: "text_or_empty sp = [] \<or> is_span_held (k_span_held (keys_for bk sk))"
    using span_key_shape [OF assms(1) opened(1)] by (auto split: option.splits)
  have nb: "bk @ '':balance_usd'' \<noteq> k_span_held (keys_for bk sk) \<or> text_or_empty sp = []"
    using sp by (auto simp: is_span_held_def)
  note O = opened_store [OF opened(3) opened(6) opened(7) opened(8), folded bk_def]
  have "rget s' (bk @ '':held_usd'') = Some (num_cell (num0 (rget s (bk @ '':held_usd'')) + est))"
    by (rule O(9)) (use sp budget_span_disjoint [OF hk] in metis)
  moreover have "rget s' (bk @ '':balance_usd'') = rget s (bk @ '':balance_usd'')"
    by (rule O(8)) (use nb in auto)
  moreover have "h_allowed r" using opened(9) by (simp add: open_result_def Let_def)
  ultimately show ?thesis
    using opened(5) by (simp add: Let_def bk_def)
qed

end
