(* ===== verification/Reservation_Cases.thy ===== *)
theory Reservation_Cases
  imports Reservation_Books
begin

text \<open>
  Concrete runs of the reservation class that discharge the hypotheses of the properties of
  \<open>Reservation_Books\<close>, the idempotence of OPEN, and the totality of a sweep.
\<close>

section \<open>Retrying an open\<close>

lemma span_key_of_ok: "\<exists>k. span_key_of s t sp = Inr k"
  by (auto simp: span_key_of_def scope_prefix_for_read_def scope_prefix_def Let_def
      split: option.splits)

definition conflict_reply :: "hold_reply" where
  "conflict_reply = (denied_reply ''reservation_conflict'')\<lparr>h_conflict := True\<rparr>"

definition existing_reply :: "rat \<Rightarrow> hold_reply" where
  "existing_reply est = (denied_reply ''existing'')\<lparr>h_allowed := True, h_reserved := Some est,
     h_idempotent := Some True\<rparr>"

lemma open_script_existing:
  assumes "hget s rec ''customer_id'' = Some (CTxt c)" and "cell_text (hget s rec ''tenant_id'') = t"
    and "hget s rec ''reserved_usd'' = Some (CFlt q)"
  shows "open_script s K rec A = Inr (if c = a_customer A \<and> t = a_tenant A \<and> q = a_estimate A
     then [RInt 2, RStr ''existing''] else [RInt (- 1), RStr ''reservation_conflict''], s)"
  using assms by (auto simp: open_script_def Let_def)

lemma hold_open_existing:
  assumes "hget s (record_key rid) ''customer_id'' = Some (CTxt c0)"
    and "cell_text (hget s (record_key rid) ''tenant_id'') = t0"
    and "hget s (record_key rid) ''reserved_usd'' = Some (CFlt q0)" and "0 < est"
  shows "hold_open t s now rid c est sp ex =
    Inr (if c0 = c \<and> t0 = text_or_empty t \<and> q0 = est then existing_reply est else conflict_reply, s)"
proof -
  obtain k where k: "span_key_of s t sp = Inr k" using span_key_of_ok by blast
  show ?thesis
    using assms(4)
    by (simp add: hold_open_def Let_def k open_script_existing [OF assms(1-3)] decode_open_def
        existing_reply_def conflict_reply_def denied_reply_def)
qed

lemma opened_fields:
  assumes "hold_open t s now rid c est sp ex = Inr (r, s')" and "h_idempotent r = Some False"
  shows "hget s' (record_key rid) ''customer_id'' = Some (CTxt c)"
    and "hget s' (record_key rid) ''tenant_id'' = Some (CTxt (text_or_empty t))"
    and "hget s' (record_key rid) ''reserved_usd'' = Some (CFlt est)"
  using assms(1)
  by (cases rule: hold_open_cases; use assms(2) in simp)+

text \<open>
  opening is idempotent. Once a reservation was opened, sending its id again changes
  nothing, whenever it is sent and whatever deadline or span it names: with the same customer, tenant and
  amount it is allowed as the existing one, with any other it is refused as a conflict.
\<close>

theorem open_idempotent:
  assumes "hold_open t s now rid c est sp ex = Inr (r, s')" and "h_idempotent r = Some False"
    and "0 < est'"
  shows "hold_open t' s' now' rid c' est' sp' ex' =
    Inr (if c = c' \<and> text_or_empty t = text_or_empty t' \<and> est = est'
         then existing_reply est' else conflict_reply, s')"
proof -
  have "cell_text (hget s' (record_key rid) ''tenant_id'') = text_or_empty t"
    by (simp add: opened_fields(2) [OF assms(1,2)])
  from hold_open_existing [OF opened_fields(1) [OF assms(1,2)] this
      opened_fields(3) [OF assms(1,2)] assms(3)]
  show ?thesis .
qed

section \<open>When an open succeeds\<close>

text \<open>Without a span, enough left on the budget is enough for the hold to be opened.\<close>

lemma hold_open_fresh:
  fixes s t c
  defines "bk \<equiv> budget_prefix_for_read s t c"
  assumes "\<not> is_open s rid" and "rget s (bk @ '':balance_usd'') = Some v" and "is_num (Some v)"
    and "is_num (rget s (bk @ '':held_usd''))" and "0 < est"
    and "est \<le> num0 (Some v) - num0 (rget s (bk @ '':held_usd''))"
  shows "\<exists>s1. hold_open t s now rid c est None ex = Inr (open_result s bk est, s1)"
proof -
  obtain s2 where "incrbyfloat s (bk @ '':held_usd'') est = Inr s2"
    using incrbyfloat_ok assms(5) by blast
  then show ?thesis
    using assms by (auto simp: hold_open_def Let_def span_key_of_def truthy_def open_script_def
        is_open_def text_or_empty_def span_hold_def decode_open_def open_result_def)
qed

section \<open>A concrete run\<close>

definition demo_store :: store where
  "demo_store = rset empty_store ''budget:acme:balance_usd'' (CInt 10)"

definition demo_opened :: store where
  "demo_opened = snd (ok_or (denied_reply [], demo_store)
     (hold_open None demo_store 0 ''r1'' ''acme'' (7 / 2) None None))"

lemma empty_reads [simp]:
  "rget empty_store k = None" "hash_of empty_store k = []" "hget empty_store k f = None"
  "zsets empty_store k = []" "lists empty_store k = []" "sets empty_store k = []"
  by (simp_all add: empty_store_def rget_def hash_of_def hget_def)

lemma demo_bk [simp]: "budget_prefix_for_read s None c = ''budget:'' @ c"
  by (simp add: budget_prefix_for_read_def budget_prefix_def)

lemma floor_7_2 [simp]: "\<lfloor>7 / 2 :: rat\<rfloor> = 3"
  by (simp add: floor_eq_iff)

lemma demo_run:
  "hold_open None demo_store 0 ''r1'' ''acme'' (7 / 2) None None
     = Inr (open_result demo_store ''budget:acme'' (7 / 2), demo_opened)"
proof -
  obtain s1 where "hold_open None demo_store 0 ''r1'' ''acme'' (7 / 2) None None
      = Inr (open_result demo_store ''budget:acme'' (7 / 2), s1)"
    using hold_open_fresh [of demo_store "''r1''" None "''acme''" "CInt 10" "7 / 2" 0 None]
    by (auto simp: demo_store_def is_open_def)
  then show ?thesis by (simp add: demo_opened_def)
qed

lemma demo_opened_kv: "rget demo_opened k =
  (if k = ''budget:acme:held_usd'' then Some (CFlt (7 / 2))
   else if k = ''budget:acme:balance_usd'' then Some (CInt 10) else None)"
  and demo_opened_z: "zsets demo_opened PENDING_KEY = [(''r1'', 900)]"
  and demo_opened_held: "rec_held demo_opened ''r1'' = ''budget:acme:held_usd''"
proof -
  obtain s2 where i: "incrbyfloat demo_store ''budget:acme:held_usd'' (7 / 2) = Inr s2"
    using incrbyfloat_ok [of demo_store "''budget:acme:held_usd''"] by (auto simp: demo_store_def)
  have opened: "demo_opened = zadd (expire (write_record s2 (record_key ''r1'') ''budget:acme:held_usd''
      (open_args_of None 0 ''r1'' ''acme'' (7 / 2) None None None)) (record_key ''r1'')
      RECORD_TTL_SECONDS) PENDING_KEY 900 ''r1''"
    using i by (simp add: demo_opened_def hold_open_def Let_def span_key_of_def truthy_def open_script_def
        text_or_empty_def span_hold_def decode_open_def demo_store_def open_args_of_def)
  have kv: "rget s2 k = (if k = ''budget:acme:held_usd'' then Some (num_cell (7 / 2))
      else rget demo_store k)" for k
    by (subst rget_incrbyfloat [OF i]) (simp add: demo_store_def)
  show "rget demo_opened k = (if k = ''budget:acme:held_usd'' then Some (CFlt (7 / 2))
     else if k = ''budget:acme:balance_usd'' then Some (CInt 10) else None)"
    by (simp add: opened kv demo_store_def num_cell_def)
  show "zsets demo_opened PENDING_KEY = [(''r1'', 900)]"
    by (simp add: opened incr_num(5) [OF i] demo_store_def)
  show "rec_held demo_opened ''r1'' = ''budget:acme:held_usd''"
    by (simp add: opened rec_held_def)
qed

lemma demo_fresh: "h_idempotent (open_result s bk est) = Some False"
  by (simp add: open_result_def Let_def)

lemma demo_covered: "covered demo_store"
  by (auto simp: covered_def records_ok_def demo_store_def pending_ids_def is_open_def
      slack_def open_total_def is_budget_held_def scoped_def num0_def split: option.splits if_splits cell.splits)

lemma demo_opened_covered: "covered demo_opened"
  using open_books(1) [OF demo_covered _ demo_run] by (simp add: plain_tenant_def)

lemma demo_opened_open: "is_open demo_opened ''r1''"
  using opened_fields(1) [OF demo_run demo_fresh] by (simp add: is_open_def)

theorem open_idempotent_witness:
  "hold_open None demo_opened 60 ''r1'' ''acme'' (7 / 2) None None
     = Inr (existing_reply (7 / 2), demo_opened)"
  using open_idempotent [OF demo_run demo_fresh, of "7 / 2" None 60 "''acme''" None None] by simp

theorem open_within_balance_witness:
  "num0 (rget demo_opened ''budget:acme:held_usd'') \<le> num0 (rget demo_opened ''budget:acme:balance_usd'')
     \<or> demo_opened = demo_store"
  using open_within_balance [OF _ demo_run] by (auto simp: plain_tenant_def Let_def)

theorem reservation_books_balanced_witness:
  "slack demo_opened ''budget:acme:held_usd'' = slack demo_store ''budget:acme:held_usd''
     \<and> 0 \<le> slack demo_opened ''budget:acme:held_usd''"
proof -
  have "rtranclp life_step demo_store demo_opened"
    using life_opening [OF _ demo_run] by (auto simp: plain_tenant_def)
  moreover have "is_budget_held ''budget:acme:held_usd''"
    unfolding is_budget_held_def
    by (intro exI [of _ None] exI [of _ "''acme''"]) (simp add: plain_tenant_def scoped_def)
  ultimately show ?thesis
    using reservation_books_balanced [OF _ demo_covered, of demo_opened "''budget:acme:held_usd''"] by blast
qed

lemma demo_holds: "holds_num demo_opened"
  by (simp add: holds_num_def demo_opened_kv)

theorem settle_releases_once_witness:
  "\<exists>s'. hold_settle demo_opened ''r1'' = Inr (7 / 2, s') \<and> \<not> is_open s' ''r1''"
  using settle_releases_once [OF demo_opened_covered demo_holds demo_opened_open]
    opened_fields(3) [OF demo_run demo_fresh] by (auto simp: rec_amount_def)

theorem expire_due_complete_witness:
  "\<exists>s'. expire_due demo_opened 900 = Inr (1, s') \<and> \<not> is_open s' ''r1''"
  using expire_due_complete [OF demo_opened_covered demo_holds, of 900]
  by (auto simp: due_ids_def demo_opened_z zwf_def)

text \<open>
  The reply of an open reports amounts cut to whole dollars, since a Lua number reaches the
  client as an integer: 3.50 USD held of 10 is reported as 3, with 7 left.
\<close>

lemma open_reply_truncates:
  "hold_open None demo_store 0 ''r1'' ''acme'' (7 / 2) None None
     = Inr (open_result demo_store ''budget:acme'' (7 / 2), demo_opened)
   \<and> h_held (open_result demo_store ''budget:acme'' (7 / 2)) = Some 3
   \<and> rget demo_opened ''budget:acme:held_usd'' = Some (CFlt (7 / 2))"
  by (simp add: demo_run demo_opened_kv)
     (simp add: open_result_def demo_store_def trunc_int_def Let_def)

text \<open>
  A span without a cap: opening adds nothing to the span's held counter, yet the record names
  that counter, and closing subtracts the amount from it, so from what other reservations of the
  span hold.
\<close>

lemma uncapped_span_hold:
  assumes "plain_tenant t" and "span_key_of s t (Some i) = Inr (Some p)" and "i \<noteq> []"
    and "hold_open t s now rid c est (Some i) ex = Inr (r, s')" and "h_idempotent r = Some False"
    and "rget s (p @ '':max_cost_usd'') = None"
  shows "rget s' (p @ '':held_usd'') = rget s (p @ '':held_usd'')
    \<and> rec_span s' rid = p @ '':held_usd'' \<and> rec_amount s' rid = est"
  using assms(4)
proof (cases rule: hold_open_cases)
  case unchanged
  with assms(5) show ?thesis by simp
next
  case (opened sk sh ss s1 s2)
  define bk where "bk = budget_prefix_for_read s t c"
  have sk: "sk = Some p" using opened(1) assms(2) by simp
  have s1: "s1 = s"
    using opened(6) assms(3,6) by (auto simp: span_hold_def sk text_or_empty_def)
  note O = opened_store [OF opened(3) opened(6) opened(7) opened(8), folded bk_def]
  have hk: "is_budget_held (bk @ '':held_usd'')" unfolding bk_def by (rule budget_read_held [OF assms(1)])
  have "is_span_held (p @ '':held_usd'')" using span_key_shape [OF assms(1,2)] by simp
  then have ne: "p @ '':held_usd'' \<noteq> bk @ '':held_usd''" using budget_span_disjoint [OF hk] by metis
  have "rget s2 (p @ '':held_usd'') = rget s (p @ '':held_usd'')"
    using incr_num(3) [OF opened(7)] ne s1 by (simp add: bk_def)
  then show ?thesis using O(4,6) sk opened(8) by simp
qed

end
