(* ===== verification/Reservation_Spec.thy ===== *)
theory Reservation_Spec
  imports Reservation_Cases
begin

text \<open>
  What \<^verbatim>\<open>src/api/reservation.py\<close> promises, as an abstract ledger: a finite map from the ids of
  open reservations to what each holds, beside the accounts it draws on. The ledger knows no keys of Redis,
  no scripts and no counters. The operations of the class, with the Lua scripts statement by
  statement, refine it: from a well-formed store every operation returns, answers what the
  ledger answers, and leaves the store of the ledger's next state. The methods \<open>reserve\<close> and \<open>reconcile\<close>,
  which move a counter without a record, are outside the ledger: what they hold is part of the \<open>slack\<close> that
  lowers the credit of an account.
\<close>

section \<open>The abstract ledger\<close>

record entry =
  e_hold :: key
  e_customer :: string
  e_tenant :: string
  e_amount :: rat
  e_due :: rat

type_synonym ledger = "string \<Rightarrow> entry option"

text \<open>An account: the name its holds go by, and the credit they may use, if it has a budget.\<close>

type_synonym accounts = "string option \<Rightarrow> string \<Rightarrow> key \<times> rat option"

datatype hold_op =
    OpOpen "string option" rat string string rat "string option" "rat option"
  | OpRefresh rat string "rat option"
  | OpSettle string
  | OpExpire rat

datatype outcome = Answered bool string | Refreshed bool | Released rat | Expired nat

definition held_by :: "ledger \<Rightarrow> key \<Rightarrow> rat" where
  "held_by L k = (\<Sum>rid \<in> dom L. if e_hold (the (L rid)) = k then e_amount (the (L rid)) else 0)"

definition due_in :: "ledger \<Rightarrow> rat \<Rightarrow> string set" where
  "due_in L cutoff = {rid. \<exists>e. L rid = Some e \<and> 0 \<le> e_due e \<and> e_due e \<le> cutoff}"

definition due_at :: "rat \<Rightarrow> rat option \<Rightarrow> rat" where
  "due_at now ex = (case ex of Some d \<Rightarrow> d | None \<Rightarrow> now + 900)"

text \<open>
  An open is repeated, in conflict, refused for want of a budget or of credit, refused by the cap of its span
  (the only thing the ledger does not know: the flag says whether the cap lets it pass), or entered.
\<close>

fun spec_op :: "accounts \<Rightarrow> bool \<Rightarrow> hold_op \<Rightarrow> ledger \<Rightarrow> outcome \<times> ledger" where
  "spec_op A passes (OpOpen t now rid c est sp ex) L =
     (case L rid of
        Some e \<Rightarrow> (if e_customer e = c \<and> e_tenant e = text_or_empty t \<and> e_amount e = est
                    then Answered True ''existing'' else Answered False ''reservation_conflict'', L)
      | None \<Rightarrow>
          (case A t c of
             (k, None) \<Rightarrow> (Answered False ''no_budget'', L)
           | (k, Some credit) \<Rightarrow>
               if credit - held_by L k < est then (Answered False ''insufficient_balance'', L)
               else if \<not> passes then (Answered False ''hierarchy_reserve'', L)
               else (Answered True ''reserved'',
                     L(rid \<mapsto> \<lparr>e_hold = k, e_customer = c, e_tenant = text_or_empty t, e_amount = est,
                               e_due = due_at now ex\<rparr>))))"
| "spec_op A passes (OpRefresh now rid ex) L =
     (case L rid of
        None \<Rightarrow> (Refreshed False, L)
      | Some e \<Rightarrow> (Refreshed True, L(rid \<mapsto> e\<lparr>e_due := due_at now ex\<rparr>)))"
| "spec_op A passes (OpSettle rid) L =
     (case L rid of None \<Rightarrow> (Released 0, L) | Some e \<Rightarrow> (Released (e_amount e), L(rid := None)))"
| "spec_op A passes (OpExpire cutoff) L =
     (Expired (card (due_in L cutoff)), L |` (- due_in L cutoff))"

fun spec_run :: "accounts \<Rightarrow> (hold_op \<times> bool) list \<Rightarrow> ledger \<Rightarrow> outcome list \<times> ledger" where
  "spec_run A [] L = ([], L)"
| "spec_run A ((op, passes) # ops) L =
     (let (out, L1) = spec_op A passes op L; (outs, L2) = spec_run A ops L1 in (out # outs, L2))"

section \<open>The class, operation by operation\<close>

fun hold_op_run :: "hold_op \<Rightarrow> store \<Rightarrow> (outcome \<times> store) res" where
  "hold_op_run (OpOpen t now rid c est sp ex) s =
     bindE (hold_open t s now rid c est sp ex) (\<lambda>(r, s'). Inr (Answered (h_allowed r) (h_reason r), s'))"
| "hold_op_run (OpRefresh now rid ex) s = (let (b, s') = hold_refresh s now rid ex in Inr (Refreshed b, s'))"
| "hold_op_run (OpSettle rid) s = bindE (hold_settle s rid) (\<lambda>(q, s'). Inr (Released q, s'))"
| "hold_op_run (OpExpire cutoff) s = bindE (expire_due s cutoff) (\<lambda>(n, s'). Inr (Expired n, s'))"

fun hold_ops_run :: "hold_op list \<Rightarrow> store \<Rightarrow> (outcome list \<times> store) res" where
  "hold_ops_run [] s = Inr ([], s)"
| "hold_ops_run (op # ops) s =
     bindE (hold_op_run op s) (\<lambda>(out, s1). bindE (hold_ops_run ops s1) (\<lambda>(outs, s2). Inr (out # outs, s2)))"

text \<open>The operations the class is called with: a positive amount, and an id of a tenant without a colon.\<close>

fun op_ok :: "hold_op \<Rightarrow> bool" where
  "op_ok (OpOpen t now rid c est sp ex) \<longleftrightarrow> plain_tenant t \<and> 0 < est"
| "op_ok _ \<longleftrightarrow> True"

fun names_span :: "hold_op \<Rightarrow> bool" where
  "names_span (OpOpen t now rid c est sp ex) \<longleftrightarrow> text_or_empty sp \<noteq> []"
| "names_span _ \<longleftrightarrow> False"

section \<open>The abstraction\<close>

definition entry_of :: "store \<Rightarrow> string \<Rightarrow> entry" where
  "entry_of s rid = \<lparr>e_hold = rec_held s rid,
     e_customer = cell_text (hget s (record_key rid) ''customer_id''),
     e_tenant = cell_text (hget s (record_key rid) ''tenant_id''),
     e_amount = rec_amount s rid, e_due = the (zscore s PENDING_KEY rid)\<rparr>"

definition ledger_of :: "store \<Rightarrow> ledger" where
  "ledger_of s rid = (if is_open s rid then Some (entry_of s rid) else None)"

definition account_of :: "store \<Rightarrow> accounts" where
  "account_of s t c =
     (if plain_tenant t then
        let p = budget_prefix_for_read s t c in
        (p @ '':held_usd'', if rget s (p @ '':balance_usd'') = None then None
           else Some (num0 (rget s (p @ '':balance_usd'')) - slack s (p @ '':held_usd'')))
      else ([], None))"

definition amounts_num :: "store \<Rightarrow> bool" where
  "amounts_num s \<longleftrightarrow> (\<forall>t c. plain_tenant t \<longrightarrow> is_num (rget s (scoped t ''budget'' c @ '':balance_usd''))
     \<and> is_num (rget s (scoped t ''span'' c @ '':cost_usd''))
     \<and> is_num (rget s (scoped t ''span'' c @ '':max_cost_usd'')))"

definition record_written :: "store \<Rightarrow> string \<Rightarrow> bool" where
  "record_written s rid \<longleftrightarrow> (\<exists>c q. hget s (record_key rid) ''customer_id'' = Some (CTxt c)
     \<and> hget s (record_key rid) ''reserved_usd'' = Some (CFlt q))"

definition lifecycle_ok :: "store \<Rightarrow> bool" where
  "lifecycle_ok s \<longleftrightarrow> covered s \<and> holds_num s \<and> amounts_num s \<and> zwf (zsets s PENDING_KEY)
     \<and> (\<forall>rid. if is_open s rid then record_written s rid else \<not> rexists s (record_key rid))"

section \<open>What an operation leaves alone\<close>

definition known :: "store \<Rightarrow> string option \<Rightarrow> string \<Rightarrow> bool" where
  "known s t c \<longleftrightarrow> rexists s (scoped t ''budget'' c @ '':balance_usd'')
     \<or> rexists s (scoped t ''budget'' c @ '':held_usd'')"

lemma budget_prefix_known:
  "budget_prefix_for_read s t c =
     (if \<not> has_tenant t then scoped t ''budget'' c
      else if known s t c then scoped t ''budget'' c
      else if known s None c then scoped None ''budget'' c else scoped t ''budget'' c)"
  by (simp add: budget_prefix_for_read_def known_def key_simps scoped_def Let_def)

lemma plain_None [simp]: "plain_tenant None"
  by (simp add: plain_tenant_def)

lemma budget_prefix_shape:
  assumes "plain_tenant t"
  shows "\<exists>t'. plain_tenant t' \<and> budget_prefix_for_read s t c = scoped t' ''budget'' c"
proof -
  have "budget_prefix_for_read s t c = scoped t ''budget'' c
      \<or> budget_prefix_for_read s t c = scoped None ''budget'' c"
    unfolding budget_prefix_known by simp
  then show ?thesis using assms plain_None by blast
qed

definition amount_key :: "key \<Rightarrow> bool" where
  "amount_key k \<longleftrightarrow> (\<exists>t c. plain_tenant t \<and> (k = scoped t ''budget'' c @ '':balance_usd''
     \<or> k = scoped t ''span'' c @ '':cost_usd'' \<or> k = scoped t ''span'' c @ '':max_cost_usd''))"

lemma amount_key_other:
  assumes "amount_key k"
  shows "\<not> is_budget_held k" and "\<not> is_span_held k" and "k \<noteq> record_key rid" and "k \<noteq> []"
proof -
  show "k \<noteq> []" using assms by (auto simp: amount_key_def)
  have e: "CHR ''d'' \<noteq> last (butlast (butlast (butlast (butlast k))))"
    using assms by (auto simp: amount_key_def butlast_append)
  have h: "last (butlast (butlast (butlast (butlast (x @ '':held_usd''))))) = CHR ''d''" for x
    by (simp add: butlast_append)
  show "\<not> is_budget_held k" "\<not> is_span_held k"
    using e h by (auto simp: is_budget_held_def is_span_held_def)
  show "k \<noteq> record_key rid"
    using assms by (auto simp: amount_key_def scoped_def record_key_def split: if_splits)
qed

lemma held_not_record: "plain_tenant t \<Longrightarrow> scoped t ''budget'' c @ x \<noteq> record_key rid"
  by (auto simp: scoped_def record_key_def split: if_splits)

text \<open>
  What every operation on reservations keeps: amounts, the contents of other hashes, whether the held counter
  of a budget without a balance exists, and the part of a hold no reservation explains.
\<close>

definition keeps_accounts :: "store \<Rightarrow> store \<Rightarrow> bool" where
  "keeps_accounts s s' \<longleftrightarrow> (\<forall>k. amount_key k \<longrightarrow> rget s' k = rget s k)
     \<and> (\<forall>k. (\<forall>rid. k \<noteq> record_key rid) \<longrightarrow> hash_of s' k = hash_of s k)
     \<and> (\<forall>t c. plain_tenant t \<longrightarrow> known s' t c = known s t c)
     \<and> (\<forall>k. is_budget_held k \<longrightarrow> slack s' k = slack s k)"

lemma keeps_accounts_refl [simp]: "keeps_accounts s s"
  by (simp add: keeps_accounts_def)

lemma keeps_accounts_trans: "keeps_accounts s s1 \<Longrightarrow> keeps_accounts s1 s2 \<Longrightarrow> keeps_accounts s s2"
  by (simp add: keeps_accounts_def)

lemma amount_key_simps:
  "plain_tenant t \<Longrightarrow> amount_key (scoped t ''budget'' c @ '':balance_usd'')"
  "plain_tenant t \<Longrightarrow> amount_key (scoped t ''span'' c @ '':cost_usd'')"
  "plain_tenant t \<Longrightarrow> amount_key (scoped t ''span'' c @ '':max_cost_usd'')"
  by (auto simp: amount_key_def)

lemma account_of_cong:
  assumes "keeps_accounts s s'"
  shows "account_of s' = account_of s"
proof (intro ext)
  fix t c
  show "account_of s' t c = account_of s t c"
  proof (cases "plain_tenant t")
    case True
    have "budget_prefix_for_read s' t c = budget_prefix_for_read s t c"
      using assms True by (simp add: budget_prefix_known keeps_accounts_def)
    moreover obtain t' where "plain_tenant t'" "budget_prefix_for_read s t c = scoped t' ''budget'' c"
      using budget_prefix_shape [OF True] by blast
    moreover have "is_budget_held (scoped t' ''budget'' c @ '':held_usd'')" if "plain_tenant t'" for t'
      using that by (auto simp: is_budget_held_def)
    ultimately show ?thesis
      using assms amount_key_simps(1) by (simp add: account_of_def keeps_accounts_def Let_def)
  qed (simp add: account_of_def)
qed

lemma amounts_num_cong: "keeps_accounts s s' \<Longrightarrow> amounts_num s \<Longrightarrow> amounts_num s'"
  using amount_key_simps by (simp add: amounts_num_def keeps_accounts_def)

section \<open>Closing\<close>

lemma incr_opt_exists:
  assumes "(if num0 (rget s k) > 0 \<and> b then incrbyfloat s k x else Inr s) = Inr s'"
  shows "rget s' k' = None \<longleftrightarrow> rget s k' = None" and "hash_of s' = hash_of s"
proof -
  have "rget s k = None \<Longrightarrow> s' = s" using assms by simp
  then show "rget s' k' = None \<longleftrightarrow> rget s k' = None"
    using assms rget_incrbyfloat [of s k x s' k'] by (cases "rget s k"; cases "num0 (rget s k) > 0 \<and> b") auto
  show "hash_of s' = hash_of s"
    using assms incrbyfloat_frame(1) [of s k x s']
    by (cases "num0 (rget s k) > 0 \<and> b") (auto simp: fun_eq_iff)
qed

lemma release_hold_exists:
  assumes "release_hold s hk sk req = Inr (held, released, s2)"
  shows "rget s2 k = None \<longleftrightarrow> rget s k = None" and "hash_of s2 = hash_of s"
proof -
  obtain s1 where held: "held = num0 (rget s hk)" and rel: "released = min held req"
    and i: "(if min held req > 0 then incrbyfloat s hk (- min held req) else Inr s) = Inr s1"
    and sp: "span_release s1 sk released = Inr s2"
    using assms by (fastforce simp: release_hold_alt dest!: lua_num_InrD)
  have i': "(if num0 (rget s hk) > 0 \<and> req > 0 then incrbyfloat s hk (- min held req) else Inr s) = Inr s1"
    using i held by (simp add: min_less_iff_conj)
  have sp': "(if num0 (rget s1 sk) > 0 \<and> sk \<noteq> ''noop''
      then incrbyfloat s1 sk (- min (num0 (rget s1 sk)) released) else Inr s1) = Inr s2"
    using sp by (auto simp: span_release_def split: if_splits dest!: lua_num_InrD)
  note I = incr_opt_exists [OF i'] and S = incr_opt_exists [OF sp']
  show "rget s2 k = None \<longleftrightarrow> rget s k = None" using I(1) S(1) by simp
  show "hash_of s2 = hash_of s" using I(2) S(2) by simp
qed

lemma close_frame:
  assumes "record_ok s rid" and "is_open s rid" and "hold_close s rid = Inr (res, s')"
  shows "k \<noteq> record_key rid \<Longrightarrow> (rget s' k = None \<longleftrightarrow> rget s k = None)"
    and "hash_of s' k = (if k = record_key rid then [] else hash_of s k)"
proof -
  let ?sk = "if rec_span s rid = [] then ''noop'' else rec_span s rid"
  obtain customer where cust: "hget s (record_key rid) ''customer_id'' = Some customer"
    using assms(2) by (auto simp: is_open_def)
  have "hold_close s rid = close_script s (record_key rid) (rec_held s rid) ?sk rid"
    using assms(1) by (auto simp: record_ok_def hold_close_def Let_def rec_held_def rec_span_def)
  with assms(3) cust obtain held rel s1 where
    rel: "release_hold s (rec_held s rid) ?sk (rec_amount s rid) = Inr (held, rel, s1)"
    and s': "s' = zrem (rdel s1 (record_key rid)) PENDING_KEY rid"
    using assms(1) by (auto simp: close_script_def rec_amount_def record_ok_def)
  note R = release_hold_exists [OF rel]
  show "k \<noteq> record_key rid \<Longrightarrow> (rget s' k = None \<longleftrightarrow> rget s k = None)"
    using R(1) by (simp add: s')
  show "hash_of s' k = (if k = record_key rid then [] else hash_of s k)"
    using R(2) by (simp add: s')
qed

lemma close_absent_record:
  assumes "record_ok s rid" and "is_open s rid" and "hold_close s rid = Inr (res, s')"
  shows "\<not> rexists s' (record_key rid)"
proof -
  have "hold_close s rid = Inr (res, s') \<Longrightarrow> hget s (record_key rid) ''customer_id'' \<noteq> None \<Longrightarrow>
    rget s' (record_key rid) = None"
    by (auto simp: hold_close_def close_script_def Let_def split: option.splits)
  then show ?thesis
    using assms close_frame(2) [OF assms, of "record_key rid"] by (simp add: rexists_def is_open_def)
qed

lemma known_cong:
  assumes "plain_tenant t" and "\<And>k rid. k \<noteq> record_key rid \<Longrightarrow> rexists s' k = rexists s k"
  shows "known s' t c = known s t c"
  using assms(2) held_not_record [OF assms(1)] by (simp add: known_def)

lemma close_keeps:
  assumes ok: "lifecycle_ok s" and cl: "hold_close s rid = Inr (res, s')"
  shows "keeps_accounts s s'"
proof (cases "is_open s rid")
  case False
  then have "s' = s" using ok cl by (simp add: close_absent lifecycle_ok_def covered_def)
  with ok show ?thesis by simp
next
  case True
  have cov: "covered s" using ok by (simp add: lifecycle_ok_def)
  note r = covered_released(3) [OF cov True]
  note P = close_present [OF r True cl] and F = close_frame [OF r True cl]
  have "rget s' k = rget s k" if "amount_key k" for k
    using P(3) [of k] amount_key_other [OF that] r by (auto simp: record_ok_def)
  moreover have "known s' t c = known s t c" if "plain_tenant t" for t c
    using F held_not_record [OF that] by (simp add: known_def rexists_def)
  moreover have "slack s' k = slack s k" if "is_budget_held k" for k
    by (rule close_books(2) [OF cov cl that])
  ultimately show ?thesis using F(2) by (auto simp: keeps_accounts_def)
qed

lemma close_lifecycle:
  assumes ok: "lifecycle_ok s" and cl: "hold_close s rid = Inr (res, s')"
  shows "lifecycle_ok s'"
proof (cases "is_open s rid")
  case False
  then have "s' = s" using ok cl by (simp add: close_absent lifecycle_ok_def covered_def)
  with ok show ?thesis by simp
next
  case True
  have cov: "covered s" using ok by (simp add: lifecycle_ok_def)
  note r = covered_released(3) [OF cov True]
  note P = close_present [OF r True cl] and B = close_books [OF cov cl] and F = close_frame [OF r True cl]
  have "holds_num s'" using close_ok [OF cov, of rid] ok cl by (auto simp: lifecycle_ok_def)
  moreover have "zwf (zsets s' PENDING_KEY)"
    using ok P(5) by (simp add: lifecycle_ok_def zwf_filter)
  moreover have "if is_open s' q then record_written s' q else \<not> rexists s' (record_key q)" for q
  proof (cases "q = rid")
    case True
    then show ?thesis using B(3) close_absent_record [OF r \<open>is_open s rid\<close> cl] by simp
  next
    case False
    then have "rexists s' (record_key q) = rexists s (record_key q)"
      using F by (simp add: rexists_def)
    moreover have "record_written s' q = record_written s q"
      using False P(4) by (simp add: record_written_def)
    moreover have "if is_open s q then record_written s q else \<not> rexists s (record_key q)"
      using ok by (simp add: lifecycle_ok_def)
    ultimately show ?thesis using False B(3) by simp
  qed
  ultimately show ?thesis
    using amounts_num_cong [OF close_keeps [OF ok cl]] B(1) ok by (simp add: lifecycle_ok_def)
qed

lemma close_ledger:
  assumes ok: "lifecycle_ok s" and cl: "hold_close s rid = Inr (res, s')"
  shows "ledger_of s' = (ledger_of s)(rid := None)"
proof (cases "is_open s rid")
  case False
  then have "s' = s" using ok cl by (simp add: close_absent lifecycle_ok_def covered_def)
  with False show ?thesis by (simp add: ledger_of_def fun_eq_iff)
next
  case True
  have cov: "covered s" using ok by (simp add: lifecycle_ok_def)
  note P = close_present [OF covered_released(3) [OF cov True] True cl]
  have "entry_of s' q = entry_of s q" if "q \<noteq> rid" for q
    using that P(4,5)
    by (simp add: entry_of_def rec_held_def rec_amount_def zscore_def map_of_filter_fst)
  then show ?thesis
    using close_books(3) [OF cov cl] by (simp add: ledger_of_def fun_eq_iff)
qed

section \<open>Settling and expiring\<close>

lemma ledger_dom: "lifecycle_ok s \<Longrightarrow> dom (ledger_of s) = pending_ids s"
  by (auto simp: ledger_of_def lifecycle_ok_def covered_def records_ok_def dom_def)

lemma held_by_ledger:
  assumes "lifecycle_ok s"
  shows "held_by (ledger_of s) k = open_total s k"
proof -
  have "is_open s rid" if "rid \<in> pending_ids s" for rid
    using assms that by (simp add: lifecycle_ok_def covered_def records_ok_def)
  then show ?thesis
    unfolding held_by_def open_total_def ledger_dom [OF assms]
    by (intro sum.cong) (simp_all add: ledger_of_def entry_of_def)
qed

lemma settle_refines:
  assumes ok: "lifecycle_ok s"
  shows "\<exists>s'. hold_op_run (OpSettle rid) s = Inr (fst (spec_op A b (OpSettle rid) (ledger_of s)), s')
    \<and> ledger_of s' = snd (spec_op A b (OpSettle rid) (ledger_of s))
    \<and> lifecycle_ok s' \<and> keeps_accounts s s'"
proof -
  have cov: "covered s" and num: "holds_num s" using ok by (simp_all add: lifecycle_ok_def)
  obtain res s' where cl: "hold_close s rid = Inr (res, s')" using close_ok [OF cov num] by blast
  note L = close_ledger [OF ok cl]
  show ?thesis
  proof (cases "is_open s rid")
    case False
    then have "res = []" "s' = s" using cl cov by (simp_all add: close_absent covered_def)
    with False ok cl show ?thesis by (simp add: ledger_of_def hold_settle_def)
  next
    case True
    note C = covered_released [OF cov True]
    have "hold_settle s rid = Inr (rec_amount s rid, s')"
      using close_present(1) [OF C(3) True cl] C(1) cl by (simp add: hold_settle_def reply_float_def)
    with True L show ?thesis
      using close_lifecycle [OF ok cl] close_keeps [OF ok cl] by (simp add: ledger_of_def entry_of_def)
  qed
qed

lemma rpush_lifecycle:
  "lifecycle_ok (rpush s l v) = lifecycle_ok s" "ledger_of (rpush s l v) = ledger_of s"
  "keeps_accounts s1 (rpush s l v) = keeps_accounts s1 s"
proof -
  show "lifecycle_ok (rpush s l v) = lifecycle_ok s"
    by (simp add: lifecycle_ok_def holds_num_def amounts_num_def record_written_def rexists_def)
  show "ledger_of (rpush s l v) = ledger_of s"
    by (simp add: fun_eq_iff ledger_of_def entry_of_def rec_held_def rec_amount_def)
  show "keeps_accounts s1 (rpush s l v) = keeps_accounts s1 s"
    by (simp add: keeps_accounts_def known_def rexists_def)
qed

lemma expire_loop_refines:
  assumes "lifecycle_ok s" and "expire_loop s cutoff ids n = Inr (m, s')"
  shows "ledger_of s' = ledger_of s |` (- set ids) \<and> lifecycle_ok s' \<and> keeps_accounts s s'"
  using assms
proof (induction ids arbitrary: s n)
  case Nil
  then show ?case by simp
next
  case (Cons rid ids)
  obtain res s1 where cl: "hold_close s rid = Inr (res, s1)"
    using Cons.prems(2) by auto
  obtain s2 n2 where step: "expire_loop s2 cutoff ids n2 = Inr (m, s')"
    and s2: "s2 = s1 \<or> (\<exists>l v. s2 = rpush s1 l v)"
    using Cons.prems(2) cl by (auto split: list.splits reply.splits)
  have one: "lifecycle_ok s2" "ledger_of s2 = (ledger_of s)(rid := None)" "keeps_accounts s s2"
    using s2 close_lifecycle [OF Cons.prems(1) cl] close_ledger [OF Cons.prems(1) cl]
      close_keeps [OF Cons.prems(1) cl] by (auto simp: rpush_lifecycle)
  note IH = Cons.IH [OF one(1) step]
  have "ledger_of s' = ledger_of s |` (- set (rid # ids))"
    using IH one(2) by (auto simp: restrict_map_def fun_eq_iff)
  then show ?case using IH keeps_accounts_trans [OF one(3)] by blast
qed

lemma due_ids_ledger:
  assumes ok: "lifecycle_ok s"
  shows "set (due_ids s cutoff) = due_in (ledger_of s) cutoff"
proof -
  let ?z = "zsets s PENDING_KEY"
  have d: "distinct (map fst ?z)" using ok by (simp add: lifecycle_ok_def zwf_def)
  have m: "rid \<in> set (due_ids s cutoff) \<longleftrightarrow> (\<exists>sc. (rid, sc) \<in> set ?z \<and> 0 \<le> sc \<and> sc \<le> cutoff)" for rid
    by (force simp: due_ids_def image_iff)
  have p: "(rid, sc) \<in> set ?z \<longleftrightarrow> is_open s rid \<and> zscore s PENDING_KEY rid = Some sc" for rid sc
  proof -
    have "is_open s rid \<longleftrightarrow> rid \<in> fst ` set ?z"
      using ok by (simp add: lifecycle_ok_def covered_def records_ok_def pending_ids_def)
    then show ?thesis using d by (force simp: zscore_def)
  qed
  have sc: "zscore s PENDING_KEY rid \<noteq> None" if "is_open s rid" for rid
    using that ok
    by (simp add: lifecycle_ok_def covered_def records_ok_def pending_ids_def zscore_def map_of_eq_None_iff)
  show ?thesis
  proof (rule set_eqI)
    fix rid
    show "rid \<in> set (due_ids s cutoff) \<longleftrightarrow> rid \<in> due_in (ledger_of s) cutoff"
    proof (cases "is_open s rid")
      case True
      then obtain x where "zscore s PENDING_KEY rid = Some x" using sc by blast
      with True show ?thesis by (simp add: m p due_in_def ledger_of_def entry_of_def)
    qed (simp add: m p due_in_def ledger_of_def)
  qed
qed

lemma expire_refines:
  assumes ok: "lifecycle_ok s"
  shows "\<exists>s'. hold_op_run (OpExpire cutoff) s = Inr (fst (spec_op A b (OpExpire cutoff) (ledger_of s)), s')
    \<and> ledger_of s' = snd (spec_op A b (OpExpire cutoff) (ledger_of s))
    \<and> lifecycle_ok s' \<and> keeps_accounts s s'"
proof -
  have cov: "covered s" and num: "holds_num s" and z: "zwf (zsets s PENDING_KEY)"
    using ok by (simp_all add: lifecycle_ok_def)
  obtain m s' where run: "expire_loop s cutoff (due_ids s cutoff) 0 = Inr (m, s')"
    using expire_loop_ok [OF cov num] by blast
  have all: "filter (is_open s) (due_ids s cutoff) = due_ids s cutoff"
    using due_ids_pending [of s cutoff] cov by (auto simp: filter_id_conv covered_def records_ok_def)
  have "m = card (due_in (ledger_of s) cutoff)"
    using expire_loop_count [OF cov run due_ids_distinct [OF z]]
      distinct_card [OF due_ids_distinct [OF z], of cutoff] due_ids_ledger [OF ok]
    by (simp add: all)
  then show ?thesis
    using run expire_loop_refines [OF ok run] due_ids_ledger [OF ok] by (simp add: expire_due_def)
qed

section \<open>Refreshing\<close>

lemma refresh_refines:
  assumes ok: "lifecycle_ok s"
  shows "\<exists>s'. hold_op_run (OpRefresh now rid ex) s
      = Inr (fst (spec_op A b (OpRefresh now rid ex) (ledger_of s)), s')
    \<and> ledger_of s' = snd (spec_op A b (OpRefresh now rid ex) (ledger_of s))
    \<and> lifecycle_ok s' \<and> keeps_accounts s s'"
proof (cases "is_open s rid")
  case False
  then have "\<not> rexists s (record_key rid)" using ok by (auto simp: lifecycle_ok_def)
  then show ?thesis using False ok by (simp add: hold_refresh_def ledger_of_def)
next
  case True
  define s' where "s' = zadd (expire s (record_key rid) RECORD_TTL_SECONDS) PENDING_KEY (due_at now ex) rid"
  have ex: "rexists s (record_key rid)"
    using True by (auto simp: is_open_def rexists_def hget_def)
  have rf: "hold_refresh s now rid ex = (True, s')"
    using ex by (simp add: hold_refresh_def s'_def due_at_def)
  have cov: "covered s" using ok by (simp add: lifecycle_ok_def)
  note B = refresh_books [OF cov True rf]
  have "ledger_of s' = (ledger_of s)(rid \<mapsto> (entry_of s rid)\<lparr>e_due := due_at now ex\<rparr>)"
    using True B(3)
    by (auto simp: fun_eq_iff ledger_of_def entry_of_def s'_def rec_held_def rec_amount_def)
  moreover have "lifecycle_ok s'"
  proof -
    have "holds_num s'" "amounts_num s'" "zwf (zsets s' PENDING_KEY)"
      using ok zwf_insort by (simp_all add: lifecycle_ok_def holds_num_def amounts_num_def s'_def)
    moreover have "record_written s' q = record_written s q" "rexists s' k = rexists s k" for q k
      by (simp_all add: record_written_def rexists_def s'_def)
    ultimately show ?thesis using ok B(1,3) by (simp add: lifecycle_ok_def)
  qed
  moreover have "keeps_accounts s s'"
  proof -
    have "rget s' k = rget s k" "hash_of s' k = hash_of s k" for k by (simp_all add: s'_def)
    then show ?thesis using B(2) by (simp add: keeps_accounts_def known_def rexists_def)
  qed
  ultimately show ?thesis using True rf by (simp add: ledger_of_def)
qed

section \<open>Opening\<close>

lemma ex_bools: "Ex Not" "\<exists>b. b"
  by (rule exI [of _ False], simp) (rule exI [of _ True], simp)

lemma span_hold_total:
  assumes num: "holds_num s" "amounts_num s" and pl: "plain_tenant t" and sk: "span_key_of s t sp = Inr sk"
  shows "\<exists>denied sh ss s1. span_hold s (keys_for bk sk) (text_or_empty sp) est = Inr (denied, sh, ss, s1)
    \<and> (text_or_empty sp = [] \<longrightarrow> \<not> denied)"
proof (cases "text_or_empty sp = []")
  case True
  then show ?thesis by (intro exI [of _ False]) (simp add: span_hold_def)
next
  case False
  then obtain i where i: "sp = Some i" "truthy sp = Some i"
    by (cases sp) (auto simp: text_or_empty_def truthy_def split: list.splits)
  then obtain p where p: "sk = Some p" "scope_prefix_for_read s t ''span'' i = Inr p"
    using sk by (auto simp: span_key_of_def)
  then obtain t' where t': "plain_tenant t'" "p = scoped t' ''span'' i"
    using scope_read_span [OF pl] by blast
  have held: "is_num (rget s (p @ '':held_usd''))"
    using num(1) t' by (auto simp: holds_num_def is_span_held_def)
  have other: "is_num (rget s (p @ '':cost_usd''))" "is_num (rget s (p @ '':max_cost_usd''))"
    using num(2) t' by (simp_all add: amounts_num_def)
  obtain s1 where "incrbyfloat s (p @ '':held_usd'') est = Inr s1"
    using incrbyfloat_ok [OF held] by blast
  then show ?thesis
    using False held other p(1)
    by (cases "rget s (p @ '':max_cost_usd'')";
        cases "num0 (rget s (p @ '':max_cost_usd''))
          < num0 (rget s (p @ '':cost_usd'')) + num0 (rget s (p @ '':held_usd'')) + est")
       (simp_all add: span_hold_def ex_bools)
qed

lemma truthy_span: "span_key_of s t sp = Inr sk \<Longrightarrow> text_or_empty sp \<noteq> [] \<Longrightarrow> sk \<noteq> None"
  by (auto simp: span_key_of_def truthy_def text_or_empty_def split: option.splits list.splits)

text \<open>What an open that is entered leaves.\<close>

lemma opened_refines:
  fixes s t c
  defines "bk \<equiv> budget_prefix_for_read s t c"
  assumes ok: "lifecycle_ok s" and pl: "plain_tenant t" and pos: "0 < est"
    and op: "hold_open t s now rid c est sp ex = Inr (r, s')"
    and new: "h_idempotent r = Some False"
  shows "ledger_of s' = (ledger_of s)(rid \<mapsto> \<lparr>e_hold = bk @ '':held_usd'', e_customer = c,
      e_tenant = text_or_empty t, e_amount = est, e_due = due_at now ex\<rparr>)"
    and "lifecycle_ok s'" and "keeps_accounts s s'"
  using op
proof (atomize (full), cases rule: hold_open_cases)
  case unchanged
  with new show "ledger_of s' = (ledger_of s)(rid \<mapsto> \<lparr>e_hold = bk @ '':held_usd'', e_customer = c,
      e_tenant = text_or_empty t, e_amount = est, e_due = due_at now ex\<rparr>) \<and> lifecycle_ok s'
      \<and> keeps_accounts s s'" by simp
next
  case (opened sk sh ss s1 s2)
  have cov: "covered s" using ok by (simp add: lifecycle_ok_def)
  note O = opened_store [OF opened(3) opened(6) opened(7) opened(8), folded bk_def]
  note B = open_books [OF cov pl op] and F = opened_fields [OF op new]
  have hk: "is_budget_held (bk @ '':held_usd'')" unfolding bk_def by (rule budget_read_held [OF pl])
  have hs: "hash_of s2 = hash_of s" "zsets s2 = zsets s"
  proof -
    have "hash_of s1 = hash_of s" "zsets s1 = zsets s"
      using opened(6) incrbyfloat_frame(1,3)
      by (auto simp: span_hold_def fun_eq_iff split: if_splits option.splits)
    then show "hash_of s2 = hash_of s" "zsets s2 = zsets s"
      using incrbyfloat_frame(1,3) [OF opened(7)] by (simp_all add: fun_eq_iff)
  qed
  have hashes: "hash_of s' k = hash_of s k" if "k \<noteq> record_key rid" for k
    using that by (simp add: opened(8) write_record_def hs(1))
  have zs: "zscore s' PENDING_KEY q = (if q = rid then Some (due_at now ex) else zscore s PENDING_KEY q)" for q
    using hs(2) by (simp add: opened(8) due_at_def zscore_def map_of_insort_filter)
  have same: "entry_of s' q = entry_of s q" "is_open s' q = is_open s q" "record_written s' q = record_written s q"
    if "q \<noteq> rid" for q
    using same_records_reads [OF O(2)] O(2) that zs
    by (simp_all add: entry_of_def same_records_def record_written_def)
  have led: "ledger_of s' = (ledger_of s)(rid \<mapsto> \<lparr>e_hold = bk @ '':held_usd'', e_customer = c,
      e_tenant = text_or_empty t, e_amount = est, e_due = due_at now ex\<rparr>)"
    using same O(3-5) F(1,2) zs by (auto simp: fun_eq_iff ledger_of_def entry_of_def)
  have span: "text_or_empty sp = [] \<or> is_span_held (k_span_held (keys_for bk sk))"
    using span_key_shape [OF pl opened(1)] by (auto split: option.splits)
  have kv: "rget s' k = rget s k" if "\<not> is_budget_held k" "\<not> is_span_held k" for k
    using O(8) [of k] that hk span by blast
  have kb: "rget s' k = rget s k" if "is_budget_held k" "k \<noteq> bk @ '':held_usd''" for k
    using O(8) [of k] that span budget_span_disjoint by blast
  have keeps: "keeps_accounts s s'"
    unfolding keeps_accounts_def
  proof (intro conjI allI impI)
    fix k assume "amount_key k"
    then show "rget s' k = rget s k" using kv amount_key_other by blast
  next
    fix k assume "\<forall>q. k \<noteq> record_key q"
    then show "hash_of s' k = hash_of s k" using hashes by blast
  next
    fix k assume "is_budget_held k"
    then show "slack s' k = slack s k" by (rule B(2))
  next
    fix t'' c'' assume t'': "plain_tenant t''"
    let ?b = "scoped t'' ''budget'' c'' @ '':balance_usd''" and ?h = "scoped t'' ''budget'' c'' @ '':held_usd''"
    have b: "rexists s' ?b = rexists s ?b"
      using kv [of ?b] hashes held_not_record [OF t''] amount_key_other amount_key_simps(1) [OF t'']
      by (simp add: rexists_def)
    show "known s' t'' c'' = known s t'' c''"
    proof (cases "scoped t'' ''budget'' c'' = bk")
      case True
      then have "rexists s ?b" using opened(4) by (simp add: rexists_def bk_def)
      then show ?thesis using b by (simp add: known_def)
    next
      case False
      have "is_budget_held ?h" using t'' by (auto simp: is_budget_held_def)
      then have "rexists s' ?h = rexists s ?h"
        using kb [of ?h] False hashes held_not_record [OF t''] by (simp add: rexists_def)
      then show ?thesis using b by (simp add: known_def)
    qed
  qed
  have num: "is_num (rget s' k)" if "is_num (rget s k)" for k
  proof -
    have "is_num (rget s1 k)"
      using opened(6) that is_num_incr by (auto simp: span_hold_def split: if_splits option.splits)
    then show ?thesis using is_num_incr [OF opened(7)] by (simp add: opened(8))
  qed
  have rec: "if is_open s' q then record_written s' q else \<not> rexists s' (record_key q)" for q
  proof (cases "q = rid")
    case True
    then show ?thesis using O(5) F(1,3) by (simp add: record_written_def)
  next
    case False
    have "\<not> is_budget_held (record_key q)" "\<not> is_span_held (record_key q)"
      using is_budget_held_not_record is_span_held_not_record by blast+
    then have "rexists s' (record_key q) = rexists s (record_key q)"
      using kv [of "record_key q"] hashes False by (simp add: rexists_def)
    moreover have "if is_open s q then record_written s q else \<not> rexists s (record_key q)"
      using ok by (simp add: lifecycle_ok_def)
    ultimately show ?thesis using same [OF False] by simp
  qed
  have "holds_num s'" "zwf (zsets s' PENDING_KEY)"
    using ok num zwf_insort hs(2) by (simp_all add: lifecycle_ok_def holds_num_def opened(8))
  then have "lifecycle_ok s'"
    using B(1) rec amounts_num_cong [OF keeps] ok by (simp add: lifecycle_ok_def)
  with led keeps show "ledger_of s' = (ledger_of s)(rid \<mapsto> \<lparr>e_hold = bk @ '':held_usd'', e_customer = c,
      e_tenant = text_or_empty t, e_amount = est, e_due = due_at now ex\<rparr>) \<and> lifecycle_ok s'
      \<and> keeps_accounts s s'" by blast
qed

text \<open>Every answer of an open, from a well-formed store.\<close>

lemma open_answers:
  fixes s t c
  defines "bk \<equiv> budget_prefix_for_read s t c"
  assumes ok: "lifecycle_ok s" and pl: "plain_tenant t" and pos: "0 < est" and new: "\<not> is_open s rid"
  shows "\<exists>r s' passes. hold_open t s now rid c est sp ex = Inr (r, s') \<and> (text_or_empty sp = [] \<longrightarrow> passes)
    \<and> (case rget s (bk @ '':balance_usd'') of
         None \<Rightarrow> s' = s \<and> \<not> h_allowed r \<and> h_reason r = ''no_budget''
       | Some b \<Rightarrow>
           if num0 (Some b) - num0 (rget s (bk @ '':held_usd'')) < est
           then s' = s \<and> \<not> h_allowed r \<and> h_reason r = ''insufficient_balance''
           else if \<not> passes then s' = s \<and> \<not> h_allowed r \<and> h_reason r = ''hierarchy_reserve''
           else h_allowed r \<and> h_reason r = ''reserved'' \<and> h_idempotent r = Some False)"
proof -
  obtain sk where sk: "span_key_of s t sp = Inr sk" using span_key_of_ok by blast
  have none: "hget s (record_key rid) ''customer_id'' = None" using new by (simp add: is_open_def)
  obtain t' where t': "plain_tenant t'" "bk = scoped t' ''budget'' c"
    using budget_prefix_shape [OF pl] unfolding bk_def by blast
  have bal: "is_num (rget s (bk @ '':balance_usd''))" and held: "is_num (rget s (bk @ '':held_usd''))"
    using ok t' by (auto simp: lifecycle_ok_def amounts_num_def holds_num_def is_budget_held_def)
  obtain denied sh ss s1 where sp: "span_hold s (keys_for bk sk) (text_or_empty sp) est = Inr (denied, sh, ss, s1)"
    and d: "text_or_empty sp = [] \<longrightarrow> \<not> denied"
    using span_hold_total [OF _ _ pl sk] ok by (fastforce simp: lifecycle_ok_def)
  have "is_num (rget s1 (bk @ '':held_usd''))"
    using sp held is_num_incr by (auto simp: span_hold_def split: if_splits option.splits)
  then obtain s2 where inc: "incrbyfloat s1 (bk @ '':held_usd'') est = Inr s2"
    using incrbyfloat_ok by blast
  have "denied \<Longrightarrow> s1 = s" using span_hold_spec(1) [OF sp] .
  then show ?thesis
    using pos sk none bal held sp inc d
    unfolding hold_open_def bk_def [symmetric] Let_def open_script_def
    by (cases "rget s (bk @ '':balance_usd'')";
        cases "num0 (rget s (bk @ '':balance_usd'')) - num0 (rget s (bk @ '':held_usd'')) < est"; cases denied)
       (simp_all add: decode_open_def denied_reply_def ex_bools)
qed

lemma account_of_read:
  assumes "plain_tenant t"
  shows "account_of s t c =
    (budget_prefix_for_read s t c @ '':held_usd'',
     map_option (\<lambda>b. num0 (Some b) - slack s (budget_prefix_for_read s t c @ '':held_usd''))
       (rget s (budget_prefix_for_read s t c @ '':balance_usd'')))"
  using assms by (auto simp: account_of_def Let_def)

lemma open_refines:
  assumes ok: "lifecycle_ok s" and pl: "plain_tenant t" and pos: "0 < est"
  shows "\<exists>passes s'. (text_or_empty sp = [] \<longrightarrow> passes)
    \<and> hold_op_run (OpOpen t now rid c est sp ex) s
        = Inr (fst (spec_op (account_of s) passes (OpOpen t now rid c est sp ex) (ledger_of s)), s')
    \<and> ledger_of s' = snd (spec_op (account_of s) passes (OpOpen t now rid c est sp ex) (ledger_of s))
    \<and> lifecycle_ok s' \<and> keeps_accounts s s'"
proof (cases "is_open s rid")
  case True
  then have "record_written s rid" using ok by (simp add: lifecycle_ok_def)
  then obtain c0 q0 where rec: "hget s (record_key rid) ''customer_id'' = Some (CTxt c0)"
    "hget s (record_key rid) ''reserved_usd'' = Some (CFlt q0)"
    by (auto simp: record_written_def)
  note E = hold_open_existing [OF rec(1) refl rec(2) pos, of t now c sp ex]
  show ?thesis
    using True rec ok E
    by (intro exI [of _ True] exI [of _ s])
       (auto simp: ledger_of_def entry_of_def rec_amount_def existing_reply_def conflict_reply_def denied_reply_def)
next
  case False
  define bk where "bk = budget_prefix_for_read s t c"
  obtain r s' passes where op: "hold_open t s now rid c est sp ex = Inr (r, s')"
    and p: "text_or_empty sp = [] \<longrightarrow> passes"
    and ans: "case rget s (bk @ '':balance_usd'') of
         None \<Rightarrow> s' = s \<and> \<not> h_allowed r \<and> h_reason r = ''no_budget''
       | Some b \<Rightarrow>
           if num0 (Some b) - num0 (rget s (bk @ '':held_usd'')) < est
           then s' = s \<and> \<not> h_allowed r \<and> h_reason r = ''insufficient_balance''
           else if \<not> passes then s' = s \<and> \<not> h_allowed r \<and> h_reason r = ''hierarchy_reserve''
           else h_allowed r \<and> h_reason r = ''reserved'' \<and> h_idempotent r = Some False"
    using open_answers [OF ok pl pos False] unfolding bk_def by blast
  have held: "num0 (rget s (bk @ '':held_usd'')) = slack s (bk @ '':held_usd'') + held_by (ledger_of s) (bk @ '':held_usd'')"
    by (simp add: slack_def held_by_ledger [OF ok])
  have closed: "ledger_of s rid = None" using False by (simp add: ledger_of_def)
  show ?thesis
  proof (cases "h_idempotent r = Some False")
    case True
    note O = opened_refines [OF ok pl pos op True, folded bk_def]
    have "s' \<noteq> s" using fun_cong [OF O(1), of rid] closed by auto
    then show ?thesis
      using op p ans closed O held
      by (intro exI [of _ passes] exI [of _ s'])
         (auto simp: account_of_read [OF pl] bk_def [symmetric] split: option.splits if_splits)
  next
    case False
    then show ?thesis
      using op p ans closed held ok
      by (intro exI [of _ passes] exI [of _ s'])
         (auto simp: account_of_read [OF pl] bk_def [symmetric] split: option.splits if_splits)
  qed
qed

section \<open>Whole runs\<close>

lemma op_refines:
  assumes ok: "lifecycle_ok s" and op: "op_ok op"
  shows "\<exists>passes s'. (\<not> names_span op \<longrightarrow> passes)
    \<and> hold_op_run op s = Inr (fst (spec_op (account_of s) passes op (ledger_of s)), s')
    \<and> ledger_of s' = snd (spec_op (account_of s) passes op (ledger_of s))
    \<and> lifecycle_ok s' \<and> keeps_accounts s s'"
proof (cases op)
  case (OpOpen t now rid c est sp ex)
  with op open_refines [OF ok, of t est sp now rid c ex] show ?thesis by simp
next
  case (OpRefresh now rid ex)
  with refresh_refines [OF ok, of now rid ex "account_of s" True] show ?thesis by blast
next
  case (OpSettle rid)
  with settle_refines [OF ok, of rid "account_of s" True] show ?thesis by blast
next
  case (OpExpire cutoff)
  with expire_refines [OF ok, of cutoff "account_of s" True] show ?thesis by blast
qed

lemma ledger_run_refines:
  assumes "lifecycle_ok s" and "list_all op_ok ops"
  shows "\<exists>flags s'. list_all2 (\<lambda>op passes. \<not> names_span op \<longrightarrow> passes) ops flags
    \<and> hold_ops_run ops s = Inr (fst (spec_run (account_of s) (zip ops flags) (ledger_of s)), s')
    \<and> ledger_of s' = snd (spec_run (account_of s) (zip ops flags) (ledger_of s))
    \<and> lifecycle_ok s' \<and> keeps_accounts s s'"
  using assms
proof (induction ops arbitrary: s)
  case Nil
  then show ?case by simp
next
  case (Cons op ops)
  obtain b s1 where one: "\<not> names_span op \<longrightarrow> b"
    "hold_op_run op s = Inr (fst (spec_op (account_of s) b op (ledger_of s)), s1)"
    "ledger_of s1 = snd (spec_op (account_of s) b op (ledger_of s))"
    "lifecycle_ok s1" "keeps_accounts s s1"
    using op_refines [OF Cons.prems(1), of op] Cons.prems(2) by auto
  obtain flags s' where rest: "list_all2 (\<lambda>op passes. \<not> names_span op \<longrightarrow> passes) ops flags"
    "hold_ops_run ops s1 = Inr (fst (spec_run (account_of s) (zip ops flags) (ledger_of s1)), s')"
    "ledger_of s' = snd (spec_run (account_of s) (zip ops flags) (ledger_of s1))"
    "lifecycle_ok s'" "keeps_accounts s1 s'"
    using Cons.IH [OF one(4)] Cons.prems(2) account_of_cong [OF one(5)] by auto
  have "hold_ops_run (op # ops) s
      = Inr (fst (spec_run (account_of s) (zip (op # ops) (b # flags)) (ledger_of s)), s')"
    "ledger_of s' = snd (spec_run (account_of s) (zip (op # ops) (b # flags)) (ledger_of s))"
    using one(2,3) rest(2,3) by (simp_all add: Let_def split: prod.splits)
  then show ?case
    using one(1) rest(1,4) keeps_accounts_trans [OF one(5) rest(5)]
    by (intro exI [of _ "b # flags"] exI [of _ s']) simp
qed

text \<open>
  C1: the reservation class refines the ledger. From a well-formed store any sequence of opens,
  refreshes, settlements and expiry sweeps returns; its answers are those of the abstract ledger, which knows only
  the open reservations and the credit of the accounts; the store it leaves is well formed and stands for the ledger's
  next state, with the same accounts. The only freedom is what the cap of a span says about an open that names one:
  an open without a span passes.
\<close>

theorem reservations_refine_ledger:
  assumes "lifecycle_ok s" and "list_all op_ok ops"
  shows "\<exists>flags outs s'. list_all2 (\<lambda>op passes. \<not> names_span op \<longrightarrow> passes) ops flags
    \<and> hold_ops_run ops s = Inr (outs, s')
    \<and> spec_run (account_of s) (zip ops flags) (ledger_of s) = (outs, ledger_of s')
    \<and> lifecycle_ok s' \<and> account_of s' = account_of s"
proof -
  obtain flags s' where run: "list_all2 (\<lambda>op passes. \<not> names_span op \<longrightarrow> passes) ops flags"
    "hold_ops_run ops s = Inr (fst (spec_run (account_of s) (zip ops flags) (ledger_of s)), s')"
    "ledger_of s' = snd (spec_run (account_of s) (zip ops flags) (ledger_of s))"
    "lifecycle_ok s'" "keeps_accounts s s'"
    using ledger_run_refines [OF assms] by blast
  then show ?thesis
    using account_of_cong [OF run(5)] by (metis prod.collapse)
qed

lemma demo_lifecycle: "lifecycle_ok demo_store"
proof -
  have num: "is_num (rget demo_store k)" for k by (simp add: demo_store_def)
  then show ?thesis
    using demo_covered
    by (auto simp: lifecycle_ok_def holds_num_def amounts_num_def is_open_def rexists_def demo_store_def
        zwf_def record_key_def)
qed

text \<open>
  The run of the witness: an open of 3.50 USD against a balance of 10, the same open again, one
  of 8 USD that no longer fits, a settlement and a second one.
\<close>

definition demo_ops :: "hold_op list" where
  "demo_ops = [OpOpen None 0 ''r1'' ''acme'' (7 / 2) None None, OpOpen None 1 ''r1'' ''acme'' (7 / 2) None None,
     OpOpen None 2 ''r2'' ''acme'' 8 None None, OpSettle ''r1'', OpSettle ''r1'']"

theorem reservations_refine_ledger_witness:
  "\<exists>s'. hold_ops_run demo_ops demo_store
     = Inr ([Answered True ''reserved'', Answered True ''existing'', Answered False ''insufficient_balance'',
             Released (7 / 2), Released 0], s') \<and> ledger_of s' = Map.empty"
proof -
  have empty: "ledger_of demo_store = Map.empty"
    by (simp add: fun_eq_iff ledger_of_def is_open_def demo_store_def)
  have acc: "account_of demo_store None ''acme'' = (''budget:acme:held_usd'', Some 10)"
    by (simp add: account_of_def slack_def open_total_def pending_ids_def demo_store_def)
  obtain flags outs s' where run: "list_all2 (\<lambda>op passes. \<not> names_span op \<longrightarrow> passes) demo_ops flags"
    "hold_ops_run demo_ops demo_store = Inr (outs, s')"
    "spec_run (account_of demo_store) (zip demo_ops flags) (ledger_of demo_store) = (outs, ledger_of s')"
    using reservations_refine_ledger [OF demo_lifecycle, of demo_ops] by (auto simp: demo_ops_def)
  from run(1) have "flags = [True, True, True, hd (drop 3 flags), hd (drop 4 flags)]"
    by (auto simp: demo_ops_def list_all2_Cons1 text_or_empty_def)
  then obtain x y where "flags = [True, True, True, x, y]" by blast
  then show ?thesis
    using run(2,3) by (auto simp: demo_ops_def empty acc held_by_def text_or_empty_def)
qed

end
