(* ===== verification/Calendar.thy ===== *)
theory Calendar
  imports Prelude
begin

text \<open>
  UTC calendar dates, as \<open>datetime.fromtimestamp(ms / 1000, tz=utc).strftime(...)\<close> gives them:
  \<open>billing_period_month\<close> and \<open>billing_period_day\<close> of \<^verbatim>\<open>src/api/pricing_loader.py\<close>. Days are
  counted from 1970-01-01; a year is found by stepping from 1970, forwards or backwards.
\<close>

definition leap :: "int \<Rightarrow> bool" where
  "leap y \<longleftrightarrow> y mod 4 = 0 \<and> (y mod 100 \<noteq> 0 \<or> y mod 400 = 0)"

definition year_len :: "int \<Rightarrow> nat" where
  "year_len y = (if leap y then 366 else 365)"

lemma year_len_pos [simp]: "0 < year_len y"
  by (simp add: year_len_def)

function year_up :: "nat \<Rightarrow> int \<Rightarrow> int \<times> nat" where
  "year_up d y = (if d < year_len y then (y, d) else year_up (d - year_len y) (y + 1))"
  by pat_completeness auto
termination
  by (relation "measure fst") (auto simp: not_less year_len_def split: if_splits)

function year_down :: "nat \<Rightarrow> int \<Rightarrow> int \<times> nat" where
  "year_down n y = (if n \<le> year_len y then (y, year_len y - n) else year_down (n - year_len y) (y - 1))"
  by pat_completeness auto
termination
  by (relation "measure fst") (auto simp: not_le)

declare year_up.simps [simp del] year_down.simps [simp del]

definition month_lens :: "int \<Rightarrow> nat list" where
  "month_lens y = [31, if leap y then 29 else 28, 31, 30, 31, 30, 31, 31, 30, 31, 30, 31]"

fun month_day :: "nat list \<Rightarrow> nat \<Rightarrow> nat \<Rightarrow> nat \<times> nat" where
  "month_day [] m d = (m, d)"
| "month_day (l # ls) m d = (if d < l then (m, d + 1) else month_day ls (m + 1) (d - l))"

definition ymd :: "int \<Rightarrow> int \<times> nat \<times> nat" where
  "ymd days = (let (y, d) = (if 0 \<le> days then year_up (nat days) 1970 else year_down (nat (- days)) 1969)
               in (y, month_day (month_lens y) 1 d))"

definition day_of_ms :: "int \<Rightarrow> int" where
  "day_of_ms timestamp_ms = timestamp_ms div 86400000"

text \<open>Dates outside the years 1 to 9999 raise.\<close>

definition month_text :: "int \<Rightarrow> nat \<Rightarrow> string" where
  "month_text y m = pad0 4 (int_str y) @ ''-'' @ pad0 2 (nat_str m)"

definition billing_period_month :: "int \<Rightarrow> string res" where
  "billing_period_month timestamp_ms =
     (case ymd (day_of_ms timestamp_ms) of (y, m, d) \<Rightarrow>
        if y < 1 \<or> 9999 < y then Inl ValueError else Inr (month_text y m))"

definition billing_period_day :: "int \<Rightarrow> string res" where
  "billing_period_day timestamp_ms =
     (case ymd (day_of_ms timestamp_ms) of (y, m, d) \<Rightarrow>
        if y < 1 \<or> 9999 < y then Inl ValueError
        else Inr (month_text y m @ ''-'' @ pad0 2 (nat_str d)))"

lemma period_day_month:
  "billing_period_day ms = Inr dy \<Longrightarrow> \<exists>mo d. billing_period_month ms = Inr mo \<and> dy = mo @ ''-'' @ d"
  by (auto simp: billing_period_day_def billing_period_month_def split: prod.splits if_splits)

lemma period_same_day:
  "ms div 86400000 = ms' div 86400000 \<Longrightarrow> billing_period_day ms = billing_period_day ms'"
  by (simp add: billing_period_day_def day_of_ms_def)

lemma year_up_bounds: "year_up d y = (y', d') \<Longrightarrow> d' < year_len y' \<and> y \<le> y'"
  by (induction d y rule: year_up.induct) (subst (asm) (2) year_up.simps, fastforce split: if_splits)

lemma year_down_bounds: "0 < n \<Longrightarrow> year_down n y = (y', d') \<Longrightarrow> d' < year_len y' \<and> y' \<le> y"
  by (induction n y rule: year_down.induct) (subst (asm) (2) year_down.simps, fastforce split: if_splits)

lemma month_day_bounds:
  "d < sum_list ls \<Longrightarrow> month_day ls m d = (m', d') \<Longrightarrow>
     m \<le> m' \<and> m' < m + length ls \<and> 1 \<le> d' \<and> d' \<le> ls ! (m' - m)"
proof (induction ls arbitrary: m d)
  case (Cons l ls)
  show ?case
  proof (cases "d < l")
    case False
    then have "d - l < sum_list ls" "month_day ls (m + 1) (d - l) = (m', d')"
      using Cons.prems by auto
    from Cons.IH [OF this] have I: "m + 1 \<le> m' \<and> m' < m + 1 + length ls \<and> 1 \<le> d' \<and> d' \<le> ls ! (m' - (m + 1))" .
    then obtain k where "m' = Suc (m + k)" by (auto dest!: le_Suc_ex)
    with I show ?thesis by simp
  qed (use Cons.prems in auto)
qed simp

lemma month_lens_sum: "sum_list (month_lens y) = year_len y" "length (month_lens y) = 12"
  by (simp_all add: month_lens_def year_len_def)

text \<open>A date is a real one: month 1 to 12, day within the month.\<close>

lemma ymd_valid:
  assumes "ymd days = (y, m, d)"
  shows "1 \<le> m \<and> m \<le> 12 \<and> 1 \<le> d \<and> d \<le> month_lens y ! (m - 1)"
proof -
  obtain n where n: "n < year_len y" and md: "month_day (month_lens y) 1 n = (m, d)"
    using assms year_up_bounds year_down_bounds [of "nat (- days)" 1969]
    by (auto simp: ymd_def Let_def split: prod.splits if_splits) fastforce+
  show ?thesis
    using month_day_bounds [OF _ md] n by (simp add: month_lens_sum)
qed

end
