(* ===== verification/Auth.thy ===== *)
theory Auth
  imports Tenant_Keys Calendar
begin

text \<open>
  \<^verbatim>\<open>src/api/auth.py\<close>: who may call what. The environment's keys are a record, the digest of a
  key (\<open>hashlib.sha256(...).hexdigest()\<close>) is the parameter \<open>H\<close>, fresh ids and random keys are
  arguments. A request is accepted (\<open>Inr ()\<close>) or refused with an HTTP status.

  The lemmas show the life of a customer key (created, resolving, revoked, resolving to nobody),
  exactly who passes each check, and that a key's spending caps are respected.
\<close>

record auth_env =
  API_KEY :: string
  ADMIN_API_KEY :: string
  AUTH_OPTIONAL :: bool

type_synonym digest = "string \<Rightarrow> string"

section \<open>Resolving keys\<close>

definition check_global_key :: "auth_env \<Rightarrow> string option \<Rightarrow> string \<Rightarrow> unit res" where
  "check_global_key E provided expected =
     (if expected = [] then (if AUTH_OPTIONAL E then Inr () else Inl (HTTPException 503))
      else if truthy provided = None \<or> provided \<noteq> Some expected then Inl (HTTPException 401)
      else Inr ())"

definition apikey_entry :: "digest \<Rightarrow> string \<Rightarrow> key" where
  "apikey_entry H k = ''apikey:'' @ H k"

definition apikey_meta :: "string \<Rightarrow> key" where
  "apikey_meta key_id = ''apikey:meta:'' @ key_id"

definition read_context :: "store \<Rightarrow> cell \<Rightarrow> (json \<times> json) res" where
  "read_context s data =
     bindE (json_loads data) (\<lambda>payload.
     bindE (json_get payload ''key_id'' JNull) (\<lambda>key_id.
     bindE (if json_true key_id
            then bindE (json_text key_id) (\<lambda>kid.
              (case rget s (apikey_meta kid) of
                 None \<Rightarrow> Inr False
               | Some meta \<Rightarrow>
                   if cell_true (Some meta)
                   then bindE (bindE (json_loads meta) (\<lambda>m. json_get m ''revoked'' JNull)) (\<lambda>rv.
                     Inr (json_true rv))
                   else Inr False))
            else Inr False) (\<lambda>revoked.
     if revoked then Inr (JNull, JNull)
     else bindE (json_get payload ''customer_id'' JNull) (\<lambda>c. Inr (c, key_id)))))"

text \<open>JSON text that does not parse, and a missing field, count as no key.\<close>

definition resolve_key_context :: "digest \<Rightarrow> store \<Rightarrow> string option \<Rightarrow> (json \<times> json) res" where
  "resolve_key_context H s provided =
     (case truthy provided of
        None \<Rightarrow> Inr (JNull, JNull)
      | Some k \<Rightarrow>
          (case rget s (apikey_entry H k) of
             None \<Rightarrow> Inr (JNull, JNull)
           | Some data \<Rightarrow>
               if \<not> cell_true (Some data) then Inr (JNull, JNull)
               else (case read_context s data of
                       Inl e \<Rightarrow> if e = ValueError \<or> e = KeyError then Inr (JNull, JNull) else Inl e
                     | Inr r \<Rightarrow> Inr r)))"

definition resolve_customer_from_key :: "digest \<Rightarrow> store \<Rightarrow> string option \<Rightarrow> json res" where
  "resolve_customer_from_key H s provided =
     bindE (resolve_key_context H s provided) (\<lambda>(customer_id, _). Inr customer_id)"

definition resolve_tenant_from_key :: "digest \<Rightarrow> store \<Rightarrow> string option \<Rightarrow> string option" where
  "resolve_tenant_from_key H s provided =
     (case truthy provided of
        None \<Rightarrow> None
      | Some k \<Rightarrow>
          (let value = rget s (''cp:apikey:'' @ take 16 (H k))
           in if cell_true value then Some (cell_text value) else None))"

definition is_admin_key :: "auth_env \<Rightarrow> string option \<Rightarrow> bool" where
  "is_admin_key E provided =
     (case truthy provided of
        None \<Rightarrow> False
      | Some k \<Rightarrow>
          (if ADMIN_API_KEY E \<noteq> [] \<and> k = ADMIN_API_KEY E then True
           else ADMIN_API_KEY E = [] \<and> API_KEY E \<noteq> [] \<and> k = API_KEY E))"

definition is_global_api_key :: "auth_env \<Rightarrow> string option \<Rightarrow> bool" where
  "is_global_api_key E provided =
     (case truthy provided of
        None \<Rightarrow> False
      | Some k \<Rightarrow> if API_KEY E \<noteq> [] \<and> k = API_KEY E then True else is_admin_key E provided)"

section \<open>Customer keys\<close>

definition create_customer_api_key ::
  "digest \<Rightarrow> store \<Rightarrow> string \<Rightarrow> string \<Rightarrow> string \<Rightarrow> (string \<times> string) \<times> store" where
  "create_customer_api_key H s customer_id uuid token =
     (let key_id = uuid; raw_key = ''fm_live_'' @ token;
          s1 = rset s (apikey_entry H raw_key)
                 (CJson (JObj [(''customer_id'', JStr customer_id), (''key_id'', JStr key_id)]));
          s2 = sadd s1 (''customer:'' @ customer_id @ '':apikeys'') key_id;
          s3 = rset s2 (apikey_meta key_id)
                 (CJson (JObj [(''customer_id'', JStr customer_id), (''revoked'', JBool False)]))
      in ((key_id, raw_key), s3))"

definition revoke_customer_api_key :: "store \<Rightarrow> string \<Rightarrow> (bool \<times> store) res" where
  "revoke_customer_api_key s key_id =
     (case rget s (apikey_meta key_id) of
        None \<Rightarrow> Inr (False, s)
      | Some meta \<Rightarrow>
          if \<not> cell_true (Some meta) then Inr (False, s)
          else bindE (json_loads meta) (\<lambda>info.
               bindE (json_get info ''customer_id'' JNull) (\<lambda>customer_id.
               bindE (json_set info ''revoked'' (JBool True)) (\<lambda>info'.
                 let s1 = rset s (apikey_meta key_id) (CJson info')
                 in if json_true customer_id
                    then bindE (json_text customer_id) (\<lambda>c.
                      Inr (True, srem s1 (''customer:'' @ c @ '':apikeys'') key_id))
                    else Inr (True, s1)))))"

record key_budget =
  kb_customer :: json
  kb_daily :: json
  kb_monthly :: json

definition opt_set :: "json \<Rightarrow> string \<Rightarrow> rat option \<Rightarrow> json res" where
  "opt_set info f v = (case v of None \<Rightarrow> Inr info | Some x \<Rightarrow> json_set info f (JFlt x))"

definition set_api_key_budget ::
  "store \<Rightarrow> string \<Rightarrow> rat option \<Rightarrow> rat option \<Rightarrow> (key_budget \<times> store) res" where
  "set_api_key_budget s key_id daily_budget_usd monthly_budget_usd =
     (case rget s (apikey_meta key_id) of
        None \<Rightarrow> Inl (HTTPException 404)
      | Some meta \<Rightarrow>
          if \<not> cell_true (Some meta) then Inl (HTTPException 404)
          else bindE (json_loads meta) (\<lambda>info.
               bindE (opt_set info ''daily_budget_usd'' daily_budget_usd) (\<lambda>info1.
               bindE (opt_set info1 ''monthly_budget_usd'' monthly_budget_usd) (\<lambda>info2.
               bindE (json_get info2 ''customer_id'' JNull) (\<lambda>c.
               bindE (json_get info2 ''daily_budget_usd'' JNull) (\<lambda>d.
               bindE (json_get info2 ''monthly_budget_usd'' JNull) (\<lambda>m.
                 Inr (\<lparr>kb_customer = c, kb_daily = d, kb_monthly = m\<rparr>,
                      rset s (apikey_meta key_id) (CJson info2)))))))))"

record key_denial =
  kd_reason :: string
  kd_key :: string
  kd_spent :: rat
  kd_budget :: rat
  kd_period :: string

definition cap_denial ::
  "store \<Rightarrow> string \<Rightarrow> json \<Rightarrow> string \<Rightarrow> string \<Rightarrow> rat \<Rightarrow> string \<Rightarrow> key_denial option res" where
  "cap_denial s key_id cap unit period est rsn =
     (if cap = JNull then Inr None
      else bindE (float_or0 (rget s (''apikey:'' @ key_id @ '':spent:'' @ unit @ '':'' @ period))) (\<lambda>spent.
           bindE (json_float cap) (\<lambda>limit.
             if spent + est > limit
             then Inr (Some \<lparr>kd_reason = rsn, kd_key = key_id, kd_spent = spent, kd_budget = limit,
                              kd_period = period\<rparr>)
             else Inr None)))"

definition check_api_key_budget :: "store \<Rightarrow> rat \<Rightarrow> string \<Rightarrow> rat \<Rightarrow> key_denial option res" where
  "check_api_key_budget s now key_id estimated_cost_usd =
     (case rget s (apikey_meta key_id) of
        None \<Rightarrow> Inr None
      | Some meta \<Rightarrow>
          if \<not> cell_true (Some meta) then Inr None
          else bindE (json_loads meta) (\<lambda>info.
               bindE (json_get info ''daily_budget_usd'' JNull) (\<lambda>daily_cap.
               bindE (json_get info ''monthly_budget_usd'' JNull) (\<lambda>monthly_cap.
                 if daily_cap = JNull \<and> monthly_cap = JNull then Inr None
                 else
                   let now_ms = trunc_int (now * 1000); est = max estimated_cost_usd 0 in
                   bindE (billing_period_day now_ms) (\<lambda>dy.
                   bindE (billing_period_month now_ms) (\<lambda>mo.
                   bindE (cap_denial s key_id daily_cap ''d'' dy est ''api_key_daily_budget'') (\<lambda>d.
                     if d \<noteq> None then Inr d
                     else cap_denial s key_id monthly_cap ''m'' mo est ''api_key_monthly_budget'')))))))"

section \<open>Checks at the endpoints\<close>

definition is_tenant_key :: "digest \<Rightarrow> store \<Rightarrow> string option \<Rightarrow> bool" where
  "is_tenant_key H s x_api_key \<longleftrightarrow> truthy (resolve_tenant_from_key H s x_api_key) \<noteq> None"

definition is_scoped_api_key :: "digest \<Rightarrow> store \<Rightarrow> string option \<Rightarrow> bool res" where
  "is_scoped_api_key H s x_api_key =
     bindE (resolve_customer_from_key H s x_api_key) (\<lambda>c.
       Inr (json_true c \<or> is_tenant_key H s x_api_key))"

text \<open>No key is configured and none is required: the demo mode.\<close>

definition open_mode :: "auth_env \<Rightarrow> bool" where
  "open_mode E \<longleftrightarrow> AUTH_OPTIONAL E \<and> API_KEY E = [] \<and> ADMIN_API_KEY E = []"

definition require_api_key :: "auth_env \<Rightarrow> digest \<Rightarrow> store \<Rightarrow> string option \<Rightarrow> unit res" where
  "require_api_key E H s x_api_key =
     (if is_global_api_key E x_api_key then Inr ()
      else if truthy x_api_key = None \<and> open_mode E then Inr ()
      else bindE (is_scoped_api_key H s x_api_key) (\<lambda>scp.
        if scp then Inr ()
        else if open_mode E then Inr ()
        else check_global_key E x_api_key (API_KEY E)))"

definition require_admin_key :: "auth_env \<Rightarrow> string option \<Rightarrow> unit res" where
  "require_admin_key E x_api_key =
     (if is_admin_key E x_api_key then Inr ()
      else if open_mode E then Inr ()
      else if ADMIN_API_KEY E \<noteq> [] then check_global_key E x_api_key (ADMIN_API_KEY E)
      else check_global_key E x_api_key (API_KEY E))"

definition require_customer_access ::
  "auth_env \<Rightarrow> digest \<Rightarrow> store \<Rightarrow> string \<Rightarrow> string option \<Rightarrow> unit res" where
  "require_customer_access E H s customer_id x_api_key =
     (if is_global_api_key E x_api_key then Inr ()
      else bindE (resolve_customer_from_key H s x_api_key) (\<lambda>resolved.
        if resolved \<noteq> JNull
        then (if resolved = JStr customer_id then Inr () else Inl (HTTPException 403))
        else if is_tenant_key H s x_api_key then Inr ()
        else if open_mode E then Inr ()
        else Inl (HTTPException 403)))"

section \<open>The life of a customer key\<close>

lemma truthy_Some: "truthy x = Some k \<longleftrightarrow> x = Some k \<and> k \<noteq> []"
  by (auto simp: truthy_def split: option.splits list.splits)

lemma truthy_nonempty [simp]: "k \<noteq> [] \<Longrightarrow> truthy (Some k) = Some k"
  by (simp add: truthy_Some)

lemma apikey_entry_meta: "plain (H k) \<Longrightarrow> apikey_entry H k \<noteq> apikey_meta kid"
  by (auto simp: apikey_entry_def apikey_meta_def)

lemma resolve_revoked:
  assumes "rget s (apikey_entry H k) = Some (CJson (JObj p))" and "map_of p ''key_id'' = Some (JStr kid)"
    and "kid \<noteq> []" and "rget s (apikey_meta kid) = Some (CJson (JObj m))"
    and "map_of m ''revoked'' = Some (JBool True)"
  shows "resolve_key_context H s (Some k) = Inr (JNull, JNull)"
proof (cases "k = []")
  case False
  then show ?thesis
    using assms by (simp add: resolve_key_context_def read_context_def json_true_def json_text_def)
qed (simp add: resolve_key_context_def truthy_def)

lemma revoke_meta:
  assumes "rget s (apikey_meta kid) = Some (CJson (JObj m))" and "revoke_customer_api_key s kid = Inr (b, s')"
  shows "b" and "rget s' (apikey_meta kid) = Some (CJson (JObj (AList.update ''revoked'' (JBool True) m)))"
    and "k \<noteq> apikey_meta kid \<Longrightarrow> rget s' k = rget s k"
  using assms by (auto simp: revoke_customer_api_key_def json_set_def Let_def split: if_splits)

text \<open>
  the life of a customer key. A key that was just created resolves to its customer and its
  id; once its id has been revoked, whatever else happened to the store's other entries in
  between, the same key resolves to nobody.
\<close>

theorem api_key_lifecycle:
  assumes "\<And>x. plain (H x)" and "kid \<noteq> []"
    and "create_customer_api_key H s c kid tok = ((kid', raw), s1)"
    and "rget s2 (apikey_entry H raw) = rget s1 (apikey_entry H raw)"
    and "rget s2 (apikey_meta kid) = rget s1 (apikey_meta kid)"
  shows "resolve_key_context H s1 (Some raw) = Inr (JStr c, JStr kid)
    \<and> (\<exists>s3. revoke_customer_api_key s2 kid = Inr (True, s3)
         \<and> resolve_key_context H s3 (Some raw) = Inr (JNull, JNull))"
proof -
  have raw: "raw \<noteq> []" using assms(3) by (auto simp: create_customer_api_key_def Let_def)
  have ne: "apikey_entry H raw \<noteq> apikey_meta kid" by (rule apikey_entry_meta) (rule assms(1))
  have entry: "rget s1 (apikey_entry H raw)
      = Some (CJson (JObj [(''customer_id'', JStr c), (''key_id'', JStr kid)]))"
    and meta: "rget s1 (apikey_meta kid)
      = Some (CJson (JObj [(''customer_id'', JStr c), (''revoked'', JBool False)]))"
    using assms(3) ne by (auto simp: create_customer_api_key_def Let_def)
  have live: "resolve_key_context H s1 (Some raw) = Inr (JStr c, JStr kid)"
    using raw entry meta assms(2)
    by (simp add: resolve_key_context_def read_context_def json_true_def json_text_def)
  have "isOk (revoke_customer_api_key s2 kid)"
    using assms(5) meta
    by (cases "c = []") (simp_all add: revoke_customer_api_key_def json_set_def json_text_def Let_def json_true_def)
  then obtain b s3 where rv: "revoke_customer_api_key s2 kid = Inr (b, s3)"
    by (auto simp: isOk_iff)
  note R = revoke_meta [OF assms(5) [unfolded meta] rv]
  have "resolve_key_context H s3 (Some raw) = Inr (JNull, JNull)"
    by (rule resolve_revoked [OF _ _ assms(2) R(2)]) (use R(3) [OF ne] assms(4) entry in auto)
  with live show ?thesis using rv R(1) by auto
qed

definition demo_digest :: digest where
  "demo_digest k = ''d'' @ filter (\<lambda>c. c \<noteq> CHR '':'') k"

theorem api_key_lifecycle_witness:
  "\<exists>raw s1 s3. resolve_key_context demo_digest s1 (Some raw) = Inr (JStr ''acme'', JStr ''id1'')
    \<and> revoke_customer_api_key s1 ''id1'' = Inr (True, s3)
    \<and> resolve_key_context demo_digest s3 (Some raw) = Inr (JNull, JNull)"
proof -
  obtain kid raw s1 where c: "create_customer_api_key demo_digest empty_store ''acme'' ''id1'' ''t'' = ((kid, raw), s1)"
    by (metis prod.exhaust)
  have "plain (demo_digest x)" for x by (simp add: demo_digest_def plain_def)
  from api_key_lifecycle [OF this _ c refl refl] show ?thesis by auto
qed

text \<open>
  who may access a customer. The check passes exactly for the global and admin keys, for the
  customer's own key, for a tenant key, and in demo mode; a key of another customer is
  refused with 403, whatever the configuration.
\<close>

theorem customer_access_exactly:
  "require_customer_access E H s customer_id x =
     (if is_global_api_key E x then Inr ()
      else (case resolve_key_context H s x of
              Inl e \<Rightarrow> Inl e
            | Inr (c, _) \<Rightarrow>
                if c = JStr customer_id
                  \<or> c = JNull \<and> (is_tenant_key H s x \<or> open_mode E)
                then Inr () else Inl (HTTPException 403)))"
  by (auto simp: require_customer_access_def resolve_customer_from_key_def split: sum.splits)

text \<open>
  administration is closed once a key is configured. With an admin key set, only that key
  passes the admin check (the read key does not), and every other caller gets 401.
\<close>

theorem admin_key_required:
  assumes "ADMIN_API_KEY E \<noteq> []"
  shows "require_admin_key E x = (if x = Some (ADMIN_API_KEY E) then Inr () else Inl (HTTPException 401))"
  using assms
  by (auto simp: require_admin_key_def is_admin_key_def open_mode_def check_global_key_def truthy_Some
      split: option.splits)

theorem admin_key_required_witness:
  "require_admin_key \<lparr>API_KEY = ''r'', ADMIN_API_KEY = ''a'', AUTH_OPTIONAL = True\<rparr> (Some ''r'')
     = Inl (HTTPException 401)"
  using admin_key_required [of "\<lparr>API_KEY = ''r'', ADMIN_API_KEY = ''a'', AUTH_OPTIONAL = True\<rparr>" "Some ''r''"]
  by simp

section \<open>Spending caps of a key\<close>

lemma cap_denial_None:
  "cap_denial s k cap u period est rsn = Inr None \<Longrightarrow> cap \<noteq> JNull \<Longrightarrow>
     \<exists>spent limit. float_or0 (rget s (''apikey:'' @ k @ '':spent:'' @ u @ '':'' @ period)) = Inr spent
       \<and> json_float cap = Inr limit \<and> spent + est \<le> limit"
  by (auto simp: cap_denial_def not_less split: if_splits)

lemma cap_denial_Some:
  "cap_denial s k cap u period est rsn = Inr (Some d) \<Longrightarrow>
     kd_budget d < kd_spent d + est \<and> kd_period d = period"
  by (auto simp: cap_denial_def split: if_splits)

text \<open>
  a key's caps hold. When the check lets a spend through, what the key has spent today and
  this month plus the estimate is within each cap that is set; when it denies, the spend would
  exceed the cap it names.
\<close>

theorem key_caps_respected:
  assumes "check_api_key_budget s now kid est = Inr r"
    and "rget s (apikey_meta kid) = Some (CJson (JObj info))"
    and "billing_period_day (trunc_int (now * 1000)) = Inr dy"
    and "billing_period_month (trunc_int (now * 1000)) = Inr mo"
  shows "case r of
      None \<Rightarrow>
        (\<forall>cap spent. map_of info ''daily_budget_usd'' = Some (JFlt cap) \<and>
           float_or0 (rget s (''apikey:'' @ kid @ '':spent:d:'' @ dy)) = Inr spent \<longrightarrow> spent + max est 0 \<le> cap)
        \<and> (\<forall>cap spent. map_of info ''monthly_budget_usd'' = Some (JFlt cap) \<and>
           float_or0 (rget s (''apikey:'' @ kid @ '':spent:m:'' @ mo)) = Inr spent \<longrightarrow> spent + max est 0 \<le> cap)
    | Some d \<Rightarrow> kd_budget d < kd_spent d + max est 0 \<and> kd_period d \<in> {dy, mo}"
proof (cases r)
  case None
  then show ?thesis
    using assms by (auto simp: check_api_key_budget_def Let_def split: if_splits dest!: cap_denial_None)
next
  case (Some d)
  then show ?thesis
    using assms by (auto simp: check_api_key_budget_def Let_def split: if_splits dest!: cap_denial_Some)
qed

definition demo_capped :: store where
  "demo_capped = rset (rset empty_store (apikey_meta ''k'') (CJson (JObj [(''daily_budget_usd'', JFlt 5)])))
     ''apikey:k:spent:d:1970-01-01'' (CFlt (9 / 2))"

lemma demo_period: "billing_period_day 0 = Inr ''1970-01-01''" "billing_period_month 0 = Inr ''1970-01''"
  by code_simp+

lemma demo_capped_reads [simp]:
  "rget demo_capped (apikey_meta ''k'') = Some (CJson (JObj [(''daily_budget_usd'', JFlt 5)]))"
  "rget demo_capped ''apikey:k:spent:d:1970-01-01'' = Some (CFlt (9 / 2))"
  by (simp_all add: demo_capped_def apikey_meta_def)

theorem key_caps_respected_witness:
  "\<exists>d. check_api_key_budget demo_capped 0 ''k'' 1 = Inr (Some d) \<and> kd_budget d < kd_spent d + 1"
proof -
  obtain d where r: "check_api_key_budget demo_capped 0 ''k'' 1 = Inr (Some d)"
    by (simp add: check_api_key_budget_def Let_def trunc_int_def demo_period cap_denial_def)
  from key_caps_respected [OF r demo_capped_reads(1)] r demo_period show ?thesis
    by (auto simp: trunc_int_def)
qed

end
