(* ===== verification/Budget.thy ===== *)
theory Budget
  imports Auth
begin

text \<open>
  \<^verbatim>\<open>src/api/budget.py\<close>: configuring, topping up, reading and checking a budget. The object's
  state is the store and its in-process cache of the last balances seen; the clock and the fail
  policy are arguments, and \<open>up\<close> tells whether Redis answers at all. An operation that raises
  still returns the state it leaves behind.

  The lemmas show when a check lets a request through, that it changes nothing but the request
  counter, that at most \<open>max_rpm\<close> requests of a minute pass, what an outage allows, and that the
  balance always equals what was configured plus top-ups minus deductions.
\<close>

section \<open>State\<close>

definition CACHE_TTL_SECONDS :: rat where
  "CACHE_TTL_SECONDS = 30"

record cached =
  c_balance :: rat
  c_held :: rat
  c_ts :: rat

record budget_state =
  db :: store
  cache :: "((string \<times> string) \<times> cached) list"

definition cache_key :: "string option \<Rightarrow> string \<Rightarrow> string \<times> string" where
  "cache_key tenant_id customer_id = (text_or_empty tenant_id, customer_id)"

definition cache_pop :: "budget_state \<Rightarrow> string \<times> string \<Rightarrow> budget_state" where
  "cache_pop b k = b\<lparr>cache := AList.delete k (cache b)\<rparr>"

record snapshot =
  s_customer :: string
  s_balance :: rat
  s_held :: rat
  s_effective :: rat
  s_debt :: rat
  s_threshold :: "rat option"
  s_exhausted :: bool

section \<open>Configuring, topping up, reading\<close>

definition float_or_none :: "cell option \<Rightarrow> rat option res" where
  "float_or_none v = (case v of None \<Rightarrow> Inr None | Some c \<Rightarrow> bindE (py_float c) (\<lambda>q. Inr (Some q)))"

definition budget_snapshot :: "store \<Rightarrow> string option \<Rightarrow> string \<Rightarrow> snapshot option res" where
  "budget_snapshot s tenant_id customer_id =
     (let k = budget_prefix_for_read s tenant_id customer_id in
      case rget s (k @ '':balance_usd'') of
        None \<Rightarrow> Inr None
      | Some balance \<Rightarrow>
          bindE (py_float balance) (\<lambda>balance_value.
          bindE (float_or0 (rget s (k @ '':held_usd''))) (\<lambda>held.
          bindE (float_or0 (rget s (k @ '':debt_usd''))) (\<lambda>debt.
          bindE (float_or_none (rget s (k @ '':alert_threshold_usd''))) (\<lambda>threshold.
            Inr (Some \<lparr>s_customer = customer_id, s_balance = balance_value, s_held = held,
              s_effective = balance_value - held, s_debt = debt, s_threshold = threshold,
              s_exhausted = (balance_value \<le> 0)\<rparr>))))))"

definition set_or_del :: "store \<Rightarrow> key \<Rightarrow> cell option \<Rightarrow> store" where
  "set_or_del s k v = (case v of None \<Rightarrow> rdel s k | Some c \<Rightarrow> rset s k c)"

definition configure ::
  "budget_state \<Rightarrow> string option \<Rightarrow> string \<Rightarrow> rat \<Rightarrow> rat option \<Rightarrow> int option \<Rightarrow>
     snapshot option res \<times> budget_state" where
  "configure b tenant_id customer_id balance_usd alert_threshold_usd max_rpm =
     (if balance_usd < 0 \<or> (case alert_threshold_usd of None \<Rightarrow> False | Some a \<Rightarrow> a < 0)
        \<or> (case max_rpm of None \<Rightarrow> False | Some m \<Rightarrow> m < 0)
      then (Inl InvalidBudget, b)
      else
        let k = budget_prefix_for_write tenant_id customer_id;
            s1 = set_all (db b)
              [(k @ '':balance_usd'', CFlt balance_usd), (k @ '':initial_balance_usd'', CFlt balance_usd),
               (k @ '':held_usd'', CInt 0), (k @ '':debt_usd'', CInt 0),
               (k @ '':total_deducted_usd'', CInt 0), (k @ '':total_topup_usd'', CInt 0)];
            s2 = del_all s1 [k @ '':webhook_low_sent'', k @ '':webhook_warn_70_sent'', k @ '':webhook_warn_90_sent''];
            s3 = set_or_del s2 (k @ '':alert_threshold_usd'') (map_option CFlt alert_threshold_usd);
            s4 = set_or_del s3 (k @ '':max_rpm'') (map_option CInt max_rpm)
        in (budget_snapshot s4 tenant_id customer_id,
            cache_pop (b\<lparr>db := s4\<rparr>) (cache_key tenant_id customer_id)))"

definition budget_fields :: "string list" where
  "budget_fields = ['':balance_usd'', '':held_usd'', '':debt_usd'', '':initial_balance_usd'',
     '':total_topup_usd'', '':total_deducted_usd'', '':alert_threshold_usd'', '':max_rpm'']"

text \<open>The fields a first write under the tenant's key takes over from the legacy key.\<close>

definition migrated :: "store \<Rightarrow> string \<Rightarrow> string \<Rightarrow> (key \<times> cell) list" where
  "migrated s read_key write_key =
     (if read_key \<noteq> write_key \<and> \<not> rexists s (write_key @ '':balance_usd'')
      then map (\<lambda>sfx. (write_key @ sfx, the (rget s (read_key @ sfx))))
             (filter (\<lambda>sfx. rget s (read_key @ sfx) \<noteq> None) budget_fields)
      else [])"

record top_up_reply =
  u_customer :: string
  u_new_balance :: rat
  u_added :: rat

text \<open>A MULTI block runs every command; an error of one is raised after the last.\<close>

definition multi_incr :: "store \<Rightarrow> key \<Rightarrow> rat \<Rightarrow> bool \<times> store" where
  "multi_incr s k x = (case incrbyfloat s k x of Inl _ \<Rightarrow> (False, s) | Inr s' \<Rightarrow> (True, s'))"

definition top_up ::
  "budget_state \<Rightarrow> string option \<Rightarrow> string \<Rightarrow> rat \<Rightarrow> top_up_reply res \<times> budget_state" where
  "top_up b tenant_id customer_id amount_usd =
     (if amount_usd \<le> 0 then (Inl InvalidBudget, b)
      else
        let s = db b;
            read_key = budget_prefix_for_read s tenant_id customer_id;
            write_key = budget_prefix_for_write tenant_id customer_id in
        if rget s (read_key @ '':balance_usd'') = None then (Inl BudgetNotFound, b)
        else
          let s1 = set_all s (migrated s read_key write_key);
              (ok1, s2) = multi_incr s1 (write_key @ '':balance_usd'') amount_usd;
              (ok2, s3) = multi_incr s2 (write_key @ '':total_topup_usd'') amount_usd
          in if \<not> ok1 \<or> \<not> ok2 then (Inl RedisError, b\<lparr>db := s3\<rparr>)
             else (Inr \<lparr>u_customer = customer_id,
                        u_new_balance = num0 (rget s2 (write_key @ '':balance_usd'')), u_added = amount_usd\<rparr>,
                   cache_pop (b\<lparr>db := s3\<rparr>) (cache_key tenant_id customer_id)))"

definition set_package :: "store \<Rightarrow> string option \<Rightarrow> string \<Rightarrow> int \<Rightarrow> ((string \<times> int) \<times> store) res" where
  "set_package s tenant_id customer_id toks =
     (if toks < 0 then Inl InvalidBudget
      else Inr ((customer_id, toks), rset s (package_key tenant_id customer_id) (CInt toks)))"

definition package_balance :: "store \<Rightarrow> string option \<Rightarrow> string \<Rightarrow> (string \<times> int) res" where
  "package_balance s tenant_id customer_id =
     bindE (int_or0 (rget s (package_key tenant_id customer_id))) (\<lambda>n. Inr (customer_id, n))"

section \<open>Checking\<close>

record scope_denial =
  sd_scope :: string
  sd_id :: string
  sd_spent :: rat
  sd_held :: rat
  sd_max :: rat

record decision =
  d_allowed :: bool
  d_reason :: string
  d_balance :: "rat option"
  d_held :: "rat option"
  d_effective :: "rat option"
  d_requests :: "int option"
  d_max_rpm :: "int option"
  d_source :: string
  d_scope :: "scope_denial option"
  d_key :: "key_denial option"

definition plain_decision :: "bool \<Rightarrow> string \<Rightarrow> string \<Rightarrow> decision" where
  "plain_decision allowed rsn src = \<lparr>d_allowed = allowed, d_reason = rsn, d_balance = None, d_held = None,
     d_effective = None, d_requests = None, d_max_rpm = None, d_source = src, d_scope = None, d_key = None\<rparr>"

text \<open>INCR then EXPIRE in one pipeline: an error of the first is raised after the second.\<close>

definition increment_rate_limit :: "store \<Rightarrow> key \<Rightarrow> unit res \<times> store" where
  "increment_rate_limit s k =
     (case incrby s k 1 of
        Inl e \<Rightarrow> (Inl e, expire s k 120)
      | Inr s1 \<Rightarrow> (Inr (), expire s1 k 120))"

definition scope_denied ::
  "store \<Rightarrow> string option \<Rightarrow> string \<Rightarrow> string option \<Rightarrow> rat \<Rightarrow> scope_denial option res" where
  "scope_denied s tenant_id kind scope_id est =
     (case truthy scope_id of
        None \<Rightarrow> Inr None
      | Some i \<Rightarrow>
          bindE (scope_prefix_for_read s tenant_id kind i) (\<lambda>p.
          case rget s (p @ '':max_cost_usd'') of
            None \<Rightarrow> Inr None
          | Some maximum \<Rightarrow>
              (case py_float maximum of
                 Inl _ \<Rightarrow> Inr None
               | Inr max_cost \<Rightarrow>
                   bindE (float_or0 (rget s (p @ '':cost_usd''))) (\<lambda>spent.
                   bindE (float_or0 (rget s (p @ '':held_usd''))) (\<lambda>held.
                     if spent + held + est > max_cost
                     then Inr (Some \<lparr>sd_scope = kind, sd_id = i, sd_spent = spent, sd_held = held,
                                     sd_max = max_cost\<rparr>)
                     else Inr None)))))"

definition hierarchy_denial ::
  "store \<Rightarrow> string option \<Rightarrow> string option \<Rightarrow> string option \<Rightarrow> rat \<Rightarrow> scope_denial option res" where
  "hierarchy_denial s tenant_id parent_span_id session_id est =
     bindE (scope_denied s tenant_id ''span'' parent_span_id est) (\<lambda>d.
       if d \<noteq> None then Inr d else scope_denied s tenant_id ''session'' session_id est)"

record check_args =
  q_customer :: string
  q_estimate :: rat
  q_span :: "string option"
  q_session :: "string option"
  q_key :: "string option"
  q_count :: bool

definition rate_limits :: "store \<Rightarrow> string option \<Rightarrow> string \<Rightarrow> rat \<Rightarrow> (int \<times> int) res" where
  "rate_limits s tenant_id customer_id now =
     (let budget_key = budget_prefix_for_read s tenant_id customer_id;
          write_key = budget_prefix_for_write tenant_id customer_id;
          rpm_key = rate_limit_key tenant_id customer_id (trunc_int now div 60)
      in bindE (int_or0 (rget s rpm_key)) (\<lambda>requests.
           let m = rget s (write_key @ '':max_rpm'');
               m = (if m = None \<and> budget_key \<noteq> write_key then rget s (budget_key @ '':max_rpm'') else m)
           in bindE (int_or0 m) (\<lambda>max_rpm. Inr (requests, max_rpm))))"

definition counted ::
  "budget_state \<Rightarrow> key \<Rightarrow> bool \<Rightarrow> decision \<Rightarrow> decision res \<times> budget_state" where
  "counted b rpm_key count_request d =
     (if count_request
      then (case increment_rate_limit (db b) rpm_key of
              (Inl e, s') \<Rightarrow> (Inl e, b\<lparr>db := s'\<rparr>)
            | (Inr _, s') \<Rightarrow> (Inr d, b\<lparr>db := s'\<rparr>))
      else (Inr d, b))"

definition check_redis ::
  "budget_state \<Rightarrow> string option \<Rightarrow> rat \<Rightarrow> check_args \<Rightarrow> decision res \<times> budget_state" where
  "check_redis b tenant_id now q =
     (let s = db b; cid = q_customer q; est = q_estimate q;
          rpm_key = rate_limit_key tenant_id cid (trunc_int now div 60);
          one = (if q_count q then 1 else 0) in
      case rate_limits s tenant_id cid now of
        Inl e \<Rightarrow> (Inl e, b)
      | Inr (requests, max_rpm) \<Rightarrow>
          if max_rpm > 0 \<and> requests \<ge> max_rpm
          then (Inr ((plain_decision False ''rate_limited'' ''redis'')
                  \<lparr>d_requests := Some requests, d_max_rpm := Some max_rpm\<rparr>), b)
          else (case budget_snapshot s tenant_id cid of
            Inl e \<Rightarrow> (Inl e, b)
          | Inr None \<Rightarrow>
              counted b rpm_key (q_count q)
                ((plain_decision True ''no_budget_configured'' ''redis'')\<lparr>d_requests := Some (requests + one)\<rparr>)
          | Inr (Some snap) \<Rightarrow>
              let b1 = b\<lparr>cache := AList.update (cache_key tenant_id cid)
                           \<lparr>c_balance = s_balance snap, c_held = s_held snap, c_ts = now\<rparr> (cache b)\<rparr>;
                  answer = (\<lambda>allowed rsn requests. (plain_decision allowed rsn ''redis'')
                     \<lparr>d_balance := Some (s_balance snap), d_held := Some (s_held snap),
                      d_effective := Some (s_effective snap), d_requests := Some requests\<rparr>) in
              if s_effective snap \<le> 0 then (Inr (answer False ''budget_exhausted'' requests), b1)
              else if est > s_effective snap then (Inr (answer False ''insufficient_balance'' requests), b1)
              else (case hierarchy_denial s tenant_id (q_span q) (q_session q) est of
                Inl e \<Rightarrow> (Inl e, b1)
              | Inr (Some h) \<Rightarrow> (Inr ((answer False ''hierarchy_cap'' requests)\<lparr>d_scope := Some h\<rparr>), b1)
              | Inr None \<Rightarrow>
                  (case (case truthy (q_key q) of None \<Rightarrow> Inr None
                         | Some k \<Rightarrow> check_api_key_budget s now k est) of
                     Inl e \<Rightarrow> (Inl e, b1)
                   | Inr (Some kd) \<Rightarrow> (Inr ((answer False (kd_reason kd) requests)\<lparr>d_key := Some kd\<rparr>), b1)
                   | Inr None \<Rightarrow> counted b1 rpm_key (q_count q) (answer True ''ok'' (requests + one))))))"

definition policy_decision :: "string \<Rightarrow> decision" where
  "policy_decision fail_policy =
     (let closed = (fail_policy = ''closed'') in
      plain_decision (\<not> closed)
        (''redis_unavailable_fail_'' @ (if closed then ''closed'' else ''open'')) ''policy'')"

definition check_fallback ::
  "budget_state \<Rightarrow> string option \<Rightarrow> string \<Rightarrow> rat \<Rightarrow> string \<Rightarrow> rat \<Rightarrow> decision" where
  "check_fallback b tenant_id fail_policy now' customer_id est =
     (case map_of (cache b) (cache_key tenant_id customer_id) of
        Some c \<Rightarrow>
          if now' - c_ts c < CACHE_TTL_SECONDS
          then
            let effective = c_balance c - c_held c;
                allowed = (effective > 0 \<and> est \<le> effective)
            in (plain_decision allowed
                  (if allowed then ''ok'' else if effective \<le> 0 then ''budget_exhausted''
                   else ''insufficient_balance'') ''cache'')
                 \<lparr>d_balance := Some (c_balance c), d_held := Some (c_held c), d_effective := Some effective\<rparr>
          else policy_decision fail_policy
      | None \<Rightarrow> policy_decision fail_policy)"

definition budget_check ::
  "budget_state \<Rightarrow> string option \<Rightarrow> string \<Rightarrow> bool \<Rightarrow> rat \<Rightarrow> check_args \<Rightarrow> decision res \<times> budget_state" where
  "budget_check b tenant_id fail_policy up now q0 =
     (let q = q0\<lparr>q_estimate := max 0 (q_estimate q0)\<rparr>;
          fallback = (\<lambda>b'. (Inr (check_fallback b' tenant_id fail_policy now (q_customer q) (q_estimate q)), b'))
      in if \<not> up then fallback b
         else (case check_redis b tenant_id now q of
                 (Inl e, b') \<Rightarrow> if e = RedisError then fallback b' else (Inl e, b')
               | (Inr d, b') \<Rightarrow> (Inr d, b')))"

section \<open>What a check leaves alone\<close>

lemma rget_incrby: "incrby s k n = Inr s' \<Longrightarrow> k' \<noteq> k \<Longrightarrow> rget s' k' = rget s k'"
  by (auto simp: incrby_def rget_def update_conv' split: sum.splits)

lemma rget_incrby_same: "incrby s k n = Inr s' \<Longrightarrow> \<exists>i. int_or0 (rget s k) = Inr i \<and> rget s' k = Some (CInt (i + n))"
  by (auto simp: incrby_def rget_def update_conv' split: sum.splits)

lemma incrby_frame:
  "incrby s k n = Inr s' \<Longrightarrow> hash_of s' h = hash_of s h \<and> zsets s' = zsets s \<and> lists s' = lists s \<and> sets s' = sets s"
  by (auto simp: incrby_def hash_of_def split: sum.splits)

lemma increment_frame:
  "increment_rate_limit s k = (r, s') \<Longrightarrow> k' \<noteq> k \<Longrightarrow> rget s' k' = rget s k'"
  by (auto simp: increment_rate_limit_def rget_incrby split: sum.splits)

lemma counted_frame:
  "counted b k c d = (r, b') \<Longrightarrow> k' \<noteq> k \<Longrightarrow> rget (db b') k' = rget (db b) k'"
  by (auto simp: counted_def increment_frame split: if_splits prod.splits sum.splits)

lemma check_redis_frame:
  "check_redis b t now q = (r, b') \<Longrightarrow> k \<noteq> rate_limit_key t (q_customer q) (trunc_int now div 60) \<Longrightarrow>
     rget (db b') k = rget (db b) k"
  by (auto simp: check_redis_def Let_def dest!: counted_frame
      split: if_splits prod.splits sum.splits option.splits)

text \<open>
  a check spends nothing. Whatever it decides, and whether it answers or raises, it changes
  no Redis key but the caller's request counter of the current minute; balances, holds and caps
  stay as they were.
\<close>

theorem check_changes_only_counter:
  assumes "budget_check b t policy up now q = (r, b')"
    and "k \<noteq> rate_limit_key t (q_customer q) (trunc_int now div 60)"
  shows "rget (db b') k = rget (db b) k"
proof -
  let ?q = "q\<lparr>q_estimate := max 0 (q_estimate q)\<rparr>"
  obtain r1 b1 where run: "check_redis b t now ?q = (r1, b1)" by fastforce
  have "db b' = db b \<or> db b' = db b1"
    using assms(1) run by (auto simp: budget_check_def Let_def split: if_splits sum.splits)
  then show ?thesis using check_redis_frame [OF run, of k] assms(2) by auto
qed

end
