(* ===== verification/Budget_Facts.thy ===== *)
theory Budget_Facts
  imports Budget
begin

text \<open>
  Properties of the budget: what an admitted request satisfied, the request limit of a minute, what
  an outage allows, and the balance equation that configuring and topping up keep.
\<close>

section \<open>Admission\<close>

lemma counted_Inr:
  assumes "counted b k cnt d0 = (Inr d, b')"
  shows "d = d0" and "cnt \<Longrightarrow> int_or0 (rget (db b) k) = Inr n \<Longrightarrow> rget (db b') k = Some (CInt (n + 1))"
    and "\<not> cnt \<Longrightarrow> db b' = db b"
  using assms
  by (auto simp: counted_def increment_rate_limit_def dest!: rget_incrby_same
      split: if_splits prod.splits sum.splits)

lemma check_redis_allowed:
  assumes "check_redis b t now q = (Inr d, b')" and "d_allowed d"
  defines "cid \<equiv> q_customer q"
  obtains n L where "rate_limits (db b) t cid now = Inr (n, L)" and "L > 0 \<Longrightarrow> n < L"
    and "q_count q \<Longrightarrow> rget (db b') (rate_limit_key t cid (trunc_int now div 60)) = Some (CInt (n + 1))"
    and "d_reason d = ''no_budget_configured'' \<and> budget_snapshot (db b) t cid = Inr None
      \<or> d_reason d = ''ok'' \<and> (\<exists>snap. budget_snapshot (db b) t cid = Inr (Some snap)
           \<and> 0 < s_effective snap \<and> q_estimate q \<le> s_effective snap
           \<and> hierarchy_denial (db b) t (q_span q) (q_session q) (q_estimate q) = Inr None
           \<and> (\<forall>k. truthy (q_key q) = Some k \<longrightarrow> check_api_key_budget (db b) now k (q_estimate q) = Inr None))"
proof -
  obtain n L where lim: "rate_limits (db b) t cid now = Inr (n, L)" and under: "\<not> (L > 0 \<and> L \<le> n)"
    using assms(1,2) by (auto simp: check_redis_def Let_def cid_def plain_decision_def split: sum.splits if_splits)
  have cnt: "int_or0 (rget (db b) (rate_limit_key t cid (trunc_int now div 60))) = Inr n"
    using lim by (auto simp: rate_limits_def Let_def)
  obtain bx d0 where c: "counted bx (rate_limit_key t cid (trunc_int now div 60)) (q_count q) d0 = (Inr d, b')"
    and bx: "db bx = db b"
    and why: "d_reason d0 = ''no_budget_configured'' \<and> budget_snapshot (db b) t cid = Inr None
      \<or> d_reason d0 = ''ok'' \<and> (\<exists>snap. budget_snapshot (db b) t cid = Inr (Some snap)
           \<and> 0 < s_effective snap \<and> q_estimate q \<le> s_effective snap
           \<and> hierarchy_denial (db b) t (q_span q) (q_session q) (q_estimate q) = Inr None
           \<and> (\<forall>k. truthy (q_key q) = Some k \<longrightarrow> check_api_key_budget (db b) now k (q_estimate q) = Inr None))"
    using assms(1,2) lim under
    by (auto simp: check_redis_def Let_def cid_def plain_decision_def
        split: sum.splits if_splits option.splits)
  show thesis
    by (rule that [OF lim]) (use under counted_Inr [OF c] cnt bx why in auto)
qed

definition cap_holds :: "store \<Rightarrow> string option \<Rightarrow> string \<Rightarrow> string option \<Rightarrow> rat \<Rightarrow> bool" where
  "cap_holds s t kind i est \<longleftrightarrow>
     (\<forall>w p c m. truthy i = Some w \<and> scope_prefix_for_read s t kind w = Inr p
        \<and> rget s (p @ '':max_cost_usd'') = Some c \<and> cell_num c = Some m
        \<longrightarrow> num0 (rget s (p @ '':cost_usd'')) + num0 (rget s (p @ '':held_usd'')) + est \<le> m)"

lemma float_or0_Inr: "float_or0 c = Inr q \<Longrightarrow> q = num0 c"
  by (auto simp: float_or0_def py_float_def num0_def dest: cell_true_num split: option.splits if_splits)

lemma scope_denied_None: "scope_denied s t kind i est = Inr None \<Longrightarrow> cap_holds s t kind i est"
  by (auto simp: scope_denied_def cap_holds_def py_float_def dest!: float_or0_Inr
      split: option.splits sum.splits if_splits)

lemma hierarchy_None:
  assumes "hierarchy_denial s t sp se est = Inr None"
  shows "cap_holds s t ''span'' sp est \<and> cap_holds s t ''session'' se est"
  using assms scope_denied_None by (auto simp: hierarchy_denial_def split: if_splits)

lemma snapshot_values:
  assumes "budget_snapshot s t c = Inr (Some snap)"
  defines "k \<equiv> budget_prefix_for_read s t c"
  shows "s_balance snap = num0 (rget s (k @ '':balance_usd''))"
    and "s_held snap = num0 (rget s (k @ '':held_usd''))"
    and "s_effective snap = s_balance snap - s_held snap"
    and "rget s (k @ '':balance_usd'') \<noteq> None"
  using assms(1)
  by (auto simp: budget_snapshot_def Let_def k_def py_float_def num0_def dest!: float_or0_Inr
      split: option.splits)

lemma fallback_source:
  "d_source (check_fallback b t pol now c est) \<noteq> ''redis''"
  by (auto simp: check_fallback_def policy_decision_def plain_decision_def Let_def split: option.splits)

lemma budget_check_redis:
  assumes "budget_check b t pol up now q = (Inr d, b')" and "d_source d = ''redis''"
  shows "check_redis b t now (q\<lparr>q_estimate := max 0 (q_estimate q)\<rparr>) = (Inr d, b')"
  using assms fallback_source
  by (auto simp: budget_check_def Let_def split: if_splits prod.splits sum.splits)


section \<open>The request limit\<close>

text \<open>
  The contract of a limiter: a step tells whether it admits, an admitted step found the count
  below the limit and raises it by one, and the limit stays what it is. Then any run admits at
  most what was left.
\<close>

locale capped_counter =
  fixes step :: "'c \<Rightarrow> 's \<Rightarrow> bool \<times> 's"
    and count :: "'s \<Rightarrow> int"
    and limit :: int
    and good :: "'s \<Rightarrow> bool"
    and ok :: "'c \<Rightarrow> bool"
  assumes step_good: "good s \<Longrightarrow> ok c \<Longrightarrow> good (snd (step c s))"
    and step_admits: "good s \<Longrightarrow> ok c \<Longrightarrow> fst (step c s) \<Longrightarrow>
      count s < limit \<and> count (snd (step c s)) = count s + 1"
    and step_mono: "good s \<Longrightarrow> ok c \<Longrightarrow> count s \<le> count (snd (step c s))"
begin

fun admitted :: "'c list \<Rightarrow> 's \<Rightarrow> nat" where
  "admitted [] s = 0"
| "admitted (c # cs) s = (if fst (step c s) then 1 else 0) + admitted cs (snd (step c s))"

lemma admitted_bound:
  "good s \<Longrightarrow> \<forall>c \<in> set cs. ok c \<Longrightarrow> int (admitted cs s) \<le> max 0 (limit - count s)"
proof (induction cs arbitrary: s)
  case Nil
  then show ?case by simp
next
  case (Cons c cs)
  then have ok: "ok c" and rest: "\<forall>c \<in> set cs. ok c" by auto
  have "int (admitted cs (snd (step c s))) \<le> max 0 (limit - count (snd (step c s)))"
    using Cons.IH [OF step_good [OF Cons.prems(1) ok] rest] .
  moreover have "fst (step c s) \<Longrightarrow> count s < limit \<and> count (snd (step c s)) = count s + 1"
    by (rule step_admits [OF Cons.prems(1) ok])
  moreover have "count s \<le> count (snd (step c s))"
    by (rule step_mono [OF Cons.prems(1) ok])
  ultimately show ?case by (cases "fst (step c s)") (auto simp: max_def split: if_splits)
qed

end

record check_call =
  k_tenant :: "string option"
  k_policy :: string
  k_up :: bool
  k_now :: rat
  k_args :: check_args

definition minute_of :: "rat \<Rightarrow> int" where
  "minute_of now = trunc_int now div 60"

text \<open>A call that was let through on a live answer and counted against customer \<open>c\<close> of tenant \<open>t\<close> in minute \<open>m\<close>.\<close>

definition run_check :: "string option \<Rightarrow> string \<Rightarrow> int \<Rightarrow> check_call \<Rightarrow> budget_state \<Rightarrow> bool \<times> budget_state" where
  "run_check t c m call b =
     (case budget_check b (k_tenant call) (k_policy call) (k_up call) (k_now call) (k_args call) of
        (r, b') \<Rightarrow>
          (k_tenant call = t \<and> q_customer (k_args call) = c \<and> minute_of (k_now call) = m
             \<and> q_count (k_args call)
             \<and> (case r of Inl _ \<Rightarrow> False | Inr d \<Rightarrow> d_allowed d \<and> d_source d = ''redis''), b'))"

definition counter_value :: "string option \<Rightarrow> string \<Rightarrow> int \<Rightarrow> budget_state \<Rightarrow> int" where
  "counter_value t c m b = (case int_or0 (rget (db b) (rate_limit_key t c m)) of Inl _ \<Rightarrow> 0 | Inr n \<Rightarrow> n)"

definition max_rpm_of :: "store \<Rightarrow> string option \<Rightarrow> string \<Rightarrow> int res" where
  "max_rpm_of s t c =
     (let budget_key = budget_prefix_for_read s t c; write_key = budget_prefix_for_write t c;
          m = rget s (write_key @ '':max_rpm'');
          m = (if m = None \<and> budget_key \<noteq> write_key then rget s (budget_key @ '':max_rpm'') else m)
      in int_or0 m)"

definition limited :: "string option \<Rightarrow> string \<Rightarrow> int \<Rightarrow> int \<Rightarrow> budget_state \<Rightarrow> bool" where
  "limited t c m L b \<longleftrightarrow> isOk (int_or0 (rget (db b) (rate_limit_key t c m))) \<and> max_rpm_of (db b) t c = Inr L"

definition call_ok :: "check_call \<Rightarrow> bool" where
  "call_ok call \<longleftrightarrow> plain_tenant (k_tenant call) \<and> namespace (k_tenant call) = k_tenant call"

lemma int_str_plain: "plain (int_str i)"
proof -
  have "plain (nat_str n)" for n using nat_str_plain by (auto simp: plain_def)
  then show ?thesis by (simp add: int_str_def)
qed

lemma rate_limit_key_eq:
  assumes "rate_limit_key t c m = rate_limit_key t' c' m'" and "plain_tenant t" and "plain_tenant t'"
  shows "namespace t = namespace t' \<and> c = c' \<and> m = m'"
proof -
  have "namespace t = namespace t' \<and> ''ratelimit'' = ''ratelimit'' \<and> c @ '':'' @ int_str m = c' @ '':'' @ int_str m'"
    by (rule scoped_inj) (use assms in \<open>simp_all add: key_simps\<close>)
  moreover from this have "c = c' \<and> int_str m = int_str m'"
    using plain_last [OF int_str_plain int_str_plain, of c m c' m'] by simp
  ultimately show ?thesis using int_str_inj by blast
qed

lemma budget_key_not_counter:
  assumes "plain_tenant t" and "plain_tenant t'"
  shows "budget_prefix t c @ x \<noteq> rate_limit_key t' c' m"
proof
  assume "budget_prefix t c @ x = rate_limit_key t' c' m"
  then have "scoped t ''budget'' (c @ x) = scoped t' ''ratelimit'' (c' @ '':'' @ int_str m)"
    by (simp add: key_simps scoped_append)
  from scoped_inj [OF this assms] show False by simp
qed

text \<open>What a check reads of the budget does not depend on the request counters.\<close>

lemma max_rpm_stable:
  assumes "\<And>k. k \<noteq> rate_limit_key t' c' m \<Longrightarrow> rget s' k = rget s k" and "hash_of s' = hash_of s"
    and "plain_tenant t" and "plain_tenant t'"
  shows "max_rpm_of s' t c = max_rpm_of s t c"
proof -
  have same: "rget s' (budget_prefix tt c @ x) = rget s (budget_prefix tt c @ x)" if "tt = t \<or> tt = None" for tt x
    using assms(1) budget_key_not_counter [of tt t' c x] that assms(3,4) by (auto simp: plain_tenant_def)
  have legacy: "''budget:'' @ c = budget_prefix None c" by (simp add: budget_prefix_def)
  have "budget_prefix_for_read s' t c = budget_prefix_for_read s t c"
    using same [of t] same [of None] assms(2)
    by (simp add: budget_prefix_for_read_def Let_def rexists_def legacy del: append.simps)
  moreover have "budget_prefix_for_read s t c \<in> {budget_prefix t c, budget_prefix None c}"
    using budget_read.read_cases [of s t c] unfolding legacy by blast
  ultimately show ?thesis
    using same by (auto simp: max_rpm_of_def Let_def budget_prefix_for_write_def)
qed

lemma check_hashes: "budget_check b t pol up now q = (r, b') \<Longrightarrow> hash_of (db b') = hash_of (db b)"
proof -
  have inc: "increment_rate_limit s k = (r, s') \<Longrightarrow> hash_of s' = hash_of s" for s k r s'
    by (rule ext) (auto simp: increment_rate_limit_def dest: incrby_frame split: sum.splits)
  have cnt: "counted b k c d = (r, b') \<Longrightarrow> hash_of (db b') = hash_of (db b)" for b k c d r b'
    by (auto simp: counted_def inc split: if_splits prod.splits sum.splits)
  have chk: "check_redis b t now q = (r, b') \<Longrightarrow> hash_of (db b') = hash_of (db b)" for q r b'
    by (auto simp: check_redis_def Let_def dest!: cnt split: if_splits prod.splits sum.splits option.splits)
  show "budget_check b t pol up now q = (r, b') \<Longrightarrow> hash_of (db b') = hash_of (db b)"
    using chk by (auto simp: budget_check_def Let_def split: if_splits prod.splits sum.splits)
qed

lemma admitted_call:
  assumes "run_check t c m call b = (True, b')"
  shows "\<exists>n. int_or0 (rget (db b) (rate_limit_key t c m)) = Inr n
     \<and> rget (db b') (rate_limit_key t c m) = Some (CInt (n + 1))
     \<and> (\<exists>L. max_rpm_of (db b) t c = Inr L \<and> (0 < L \<longrightarrow> n < L))"
proof -
  obtain d where call: "k_tenant call = t" "q_customer (k_args call) = c" "minute_of (k_now call) = m"
      "q_count (k_args call)"
    and chk: "budget_check b t (k_policy call) (k_up call) (k_now call) (k_args call) = (Inr d, b')"
    and d: "d_allowed d" "d_source d = ''redis''"
    using assms by (auto simp: run_check_def split: prod.splits sum.splits)
  from budget_check_redis [OF chk d(2)] show ?thesis
  proof (rule check_redis_allowed, goal_cases)
    case (2 n L)
    then show ?case
      using call by (auto simp: rate_limits_def max_rpm_of_def Let_def minute_of_def)
  qed (rule d(1))
qed

lemma run_check_reads:
  assumes "run_check t c m call b = (a, b')"
  shows "k \<noteq> rate_limit_key (k_tenant call) (q_customer (k_args call)) (minute_of (k_now call)) \<Longrightarrow>
      rget (db b') k = rget (db b) k"
    and "hash_of (db b') = hash_of (db b)"
  using assms check_redis_frame check_hashes
  by (auto simp: run_check_def minute_of_def split: prod.splits)
     (auto simp: budget_check_def Let_def split: if_splits prod.splits sum.splits)

lemma counted_value:
  assumes "check_redis b t now q = (r, b')" and "k = rate_limit_key t (q_customer q) (trunc_int now div 60)"
    and "int_or0 (rget (db b) k) = Inr n"
  shows "int_or0 (rget (db b') k) = Inr n \<or> int_or0 (rget (db b') k) = Inr (n + 1)"
proof -
  have inc: "increment_rate_limit s k = (r, s') \<Longrightarrow> int_or0 (rget s k) = Inr n \<Longrightarrow>
      int_or0 (rget s' k) = Inr n \<or> int_or0 (rget s' k) = Inr (n + 1)" for s r s'
    by (auto simp: increment_rate_limit_def dest!: rget_incrby_same split: sum.splits)
  have cnt: "counted bx k cn d = (r, b') \<Longrightarrow> db bx = db b \<Longrightarrow>
      int_or0 (rget (db b') k) = Inr n \<or> int_or0 (rget (db b') k) = Inr (n + 1)" for bx cn d r b'
    using assms(3) by (auto simp: counted_def dest!: inc split: if_splits prod.splits sum.splits)
  show ?thesis
    using assms(1,3) unfolding assms(2)
    by (auto simp: check_redis_def Let_def dest!: cnt [unfolded assms(2)]
        split: if_splits prod.splits sum.splits option.splits)
qed

lemma check_counter:
  assumes "run_check t c m call b = (a, b')" and "call_ok call" and "plain_tenant t" and "namespace t = t"
    and "int_or0 (rget (db b) (rate_limit_key t c m)) = Inr n"
  shows "int_or0 (rget (db b') (rate_limit_key t c m)) = Inr n
    \<or> int_or0 (rget (db b') (rate_limit_key t c m)) = Inr (n + 1)"
proof (cases "rate_limit_key t c m
    = rate_limit_key (k_tenant call) (q_customer (k_args call)) (minute_of (k_now call))")
  case False
  with run_check_reads(1) [OF assms(1) False] assms(5) show ?thesis by simp
next
  case True
  from rate_limit_key_eq [OF this assms(3)] assms(2,4)
  have same: "k_tenant call = t" "q_customer (k_args call) = c" "minute_of (k_now call) = m"
    by (auto simp: call_ok_def)
  obtain r where chk: "budget_check b t (k_policy call) (k_up call) (k_now call) (k_args call) = (r, b')"
    using assms(1) same by (auto simp: run_check_def split: prod.splits)
  let ?q = "(k_args call)\<lparr>q_estimate := max 0 (q_estimate (k_args call))\<rparr>"
  obtain r1 b1 where run: "check_redis b t (k_now call) ?q = (r1, b1)" by fastforce
  have "db b' = db b \<or> db b' = db b1"
    using chk run by (auto simp: budget_check_def Let_def split: if_splits sum.splits)
  then show ?thesis
    using counted_value [OF run _ assms(5)] same assms(5) by (auto simp: minute_of_def)
qed

lemma limited_keeps:
  assumes "run_check t c m call b = (a, b')" and "call_ok call" and "plain_tenant t" and "namespace t = t"
    and "limited t c m L b"
  shows "limited t c m L b'"
proof -
  obtain n where n: "int_or0 (rget (db b) (rate_limit_key t c m)) = Inr n"
    using assms(5) by (auto simp: limited_def isOk_iff)
  have "isOk (int_or0 (rget (db b') (rate_limit_key t c m)))"
    using check_counter [OF assms(1-4) n] by auto
  moreover have "max_rpm_of (db b') t c = max_rpm_of (db b) t c"
    using assms(2)
    by (intro max_rpm_stable [OF run_check_reads(1) [OF assms(1)] run_check_reads(2) [OF assms(1)] assms(3)])
       (auto simp: call_ok_def)
  ultimately show ?thesis using assms(5) by (simp add: limited_def)
qed

definition counting :: "string option \<Rightarrow> string \<Rightarrow> int \<Rightarrow> int \<Rightarrow> budget_state \<Rightarrow> bool" where
  "counting t c m L b \<longleftrightarrow> limited t c m L b \<and> 0 < L \<and> plain_tenant t \<and> namespace t = t"

interpretation request_limit:
  capped_counter "run_check t c m" "counter_value t c m" L "counting t c m L" call_ok for t c m L
proof
  fix b call assume good: "counting t c m L b" and ok: "call_ok call"
  obtain a b' where run: "run_check t c m call b = (a, b')" by fastforce
  show "counting t c m L (snd (run_check t c m call b))"
    using limited_keeps [OF run ok] good by (simp add: counting_def run)
  show "counter_value t c m b \<le> counter_value t c m (snd (run_check t c m call b))"
    using check_counter [OF run ok] good run
    by (force simp: counting_def limited_def counter_value_def isOk_iff)
  show "counter_value t c m b < L \<and>
      counter_value t c m (snd (run_check t c m call b)) = counter_value t c m b + 1"
    if "fst (run_check t c m call b)"
    using that admitted_call [of t c m call b b'] good run
    by (auto simp: counting_def limited_def counter_value_def)
qed


section \<open>Outages\<close>

text \<open>
  what an outage allows. When Redis does not answer, nothing is written, and a request is
  let through only if the balance last seen, less than 30 seconds old, covers it, or if nothing
  fresh is cached and the fail policy is not \<open>closed\<close>; in the default configuration, then,
  no request without a fresh balance.
\<close>

theorem outage_admission:
  "\<exists>d. budget_check b t pol False now q = (Inr d, b)
    \<and> (d_allowed d \<longleftrightarrow>
        (case map_of (cache b) (cache_key t (q_customer q)) of
           Some c \<Rightarrow> if now - c_ts c < 30
                     then 0 < c_balance c - c_held c \<and> max 0 (q_estimate q) \<le> c_balance c - c_held c
                     else pol \<noteq> ''closed''
         | None \<Rightarrow> pol \<noteq> ''closed''))"
  by (auto simp: budget_check_def check_fallback_def policy_decision_def plain_decision_def
      CACHE_TTL_SECONDS_def Let_def split: option.splits)

section \<open>The balance equation\<close>

text \<open>What the balance is beyond the configured amount, plus top-ups, minus deductions.\<close>

definition ledger_drift :: "store \<Rightarrow> string \<Rightarrow> rat" where
  "ledger_drift s k = num0 (rget s (k @ '':balance_usd''))
     - (num0 (rget s (k @ '':initial_balance_usd'')) + num0 (rget s (k @ '':total_topup_usd''))
        - num0 (rget s (k @ '':total_deducted_usd'')))"

lemma multi_incr_ok:
  "is_num (rget s k) \<Longrightarrow> \<exists>s'. multi_incr s k x = (True, s')
     \<and> (\<forall>k'. rget s' k' = (if k' = k then Some (num_cell (num0 (rget s k) + x)) else rget s k'))"
  using rget_incrbyfloat [of s k x] incrbyfloat_ok [of s k x] by (auto simp: multi_incr_def)

text \<open>The first write under the tenant's key: each budget field reads as the legacy one did.\<close>

lemma budget_fields_distinct: "distinct budget_fields"
  by (simp add: budget_fields_def)

lemma migrated_reads:
  assumes "rd \<noteq> wr \<Longrightarrow> \<not> rexists s (wr @ '':balance_usd'')" and "sfx \<in> set budget_fields"
    and "rd \<noteq> wr \<Longrightarrow> rget s (wr @ sfx) = None"
  shows "rget (set_all s (migrated s rd wr)) (wr @ sfx) = rget s (rd @ sfx)"
proof (cases "rd = wr")
  case True
  then show ?thesis by (simp add: migrated_def set_all_def)
next
  case False
  let ?kvs = "migrated s rd wr" and ?P = "\<lambda>sfx. rget s (rd @ sfx) \<noteq> None"
  have kvs: "?kvs = map (\<lambda>sfx. (wr @ sfx, the (rget s (rd @ sfx)))) (filter ?P budget_fields)"
    using False assms(1) by (simp add: migrated_def)
  show ?thesis
  proof (cases "?P sfx")
    case True
    have "map fst ?kvs = map (\<lambda>sfx. wr @ sfx) (filter ?P budget_fields)"
      unfolding kvs map_map by (rule map_cong) simp_all
    then have "distinct (map fst ?kvs)"
      by (simp only: distinct_map) (simp add: budget_fields_distinct inj_on_def)
    then have "distinct (map fst (rev ?kvs))"
      by (simp only: rev_map [symmetric] distinct_rev)
    moreover have "(wr @ sfx, the (rget s (rd @ sfx))) \<in> set (rev ?kvs)"
      using True assms(2) by (simp add: kvs)
    ultimately have "map_of (rev ?kvs) (wr @ sfx) = Some (the (rget s (rd @ sfx)))"
      by (rule map_of_is_SomeI)
    then show ?thesis using True by (auto simp: rget_set_all)
  next
    case no: False
    then have "wr @ sfx \<notin> fst ` set ?kvs" by (auto simp: kvs)
    with no False assms(3) show ?thesis by (simp add: rget_set_all_other)
  qed
qed

lemma multi_incr_reads:
  assumes "multi_incr s k x = (True, s')"
  shows "rget s' k' = (if k' = k then Some (num_cell (num0 (rget s k) + x)) else rget s k')"
  using assms rget_incrbyfloat [of s k x s' k'] by (auto simp: multi_incr_def split: sum.splits)

text \<open>
  C19: topping up adds exactly the amount, once. A top-up that succeeds makes the balance
  under the write key the balance that was read plus the amount, reports that balance, keeps the
  held and debt amounts, and keeps the balance equation (balance = configured + top-ups -
  deductions) exactly as far from, or as close to, holding as it was; also when it is the first write
  under the tenant's key, which takes over the fields of the legacy key.
\<close>

theorem top_up_conserves:
  fixes b t c
  defines "rd \<equiv> budget_prefix_for_read (db b) t c" and "wr \<equiv> budget_prefix_for_write t c"
  assumes "top_up b t c amount = (Inr r, b')"
    and "rd \<noteq> wr \<Longrightarrow> \<forall>sfx \<in> set budget_fields. rget (db b) (wr @ sfx) = None"
  shows "num0 (rget (db b') (wr @ '':balance_usd'')) = num0 (rget (db b) (rd @ '':balance_usd'')) + amount
    \<and> u_new_balance r = num0 (rget (db b') (wr @ '':balance_usd''))
    \<and> num0 (rget (db b') (wr @ '':held_usd'')) = num0 (rget (db b) (rd @ '':held_usd''))
    \<and> num0 (rget (db b') (wr @ '':debt_usd'')) = num0 (rget (db b) (rd @ '':debt_usd''))
    \<and> ledger_drift (db b') wr = ledger_drift (db b) rd"
proof -
  let ?s = "db b" and ?s1 = "set_all (db b) (migrated (db b) rd wr)"
  have fresh: "rd \<noteq> wr \<Longrightarrow> \<not> rexists ?s (wr @ '':balance_usd'')"
    using budget_read_fallback [of ?s t c] by (auto simp: rd_def wr_def budget_present_def split: if_splits)
  have s1: "rget ?s1 (wr @ sfx) = rget ?s (rd @ sfx)" if "sfx \<in> set budget_fields" for sfx
    using that assms(4) by (intro migrated_reads fresh) auto
  obtain s2 s3 where i1: "multi_incr ?s1 (wr @ '':balance_usd'') amount = (True, s2)"
    and i2: "multi_incr s2 (wr @ '':total_topup_usd'') amount = (True, s3)"
    and b': "db b' = s3" and r: "u_new_balance r = num0 (rget s2 (wr @ '':balance_usd''))"
    using assms(3)
    by (auto simp: top_up_def Let_def cache_pop_def rd_def wr_def split: if_splits prod.splits)
  note R = multi_incr_reads [OF i1] multi_incr_reads [OF i2]
  have F: "'':balance_usd'' \<in> set budget_fields" "'':held_usd'' \<in> set budget_fields"
    "'':debt_usd'' \<in> set budget_fields" "'':total_topup_usd'' \<in> set budget_fields"
    "'':initial_balance_usd'' \<in> set budget_fields" "'':total_deducted_usd'' \<in> set budget_fields"
    by (simp_all add: budget_fields_def)
  show ?thesis
    by (simp add: ledger_drift_def b' r R s1 F del: set_simps)
qed

text \<open>
  configuring opens a balanced budget. After a configuration that is accepted, nothing is
  held, the balance is the configured one, the balance equation holds exactly, and the answer shows
  that balance; a negative amount, threshold or limit is refused and changes nothing.
\<close>

theorem configure_balanced:
  fixes t c
  defines "k \<equiv> budget_prefix_for_write t c"
  assumes "configure b t c bal thr rpm = (r, b')"
  shows "if bal < 0 \<or> (\<exists>a. thr = Some a \<and> a < 0) \<or> (\<exists>m. rpm = Some m \<and> m < 0)
    then r = Inl InvalidBudget \<and> b' = b
    else ledger_drift (db b') k = 0 \<and> num0 (rget (db b') (k @ '':held_usd'')) = 0
      \<and> num0 (rget (db b') (k @ '':balance_usd'')) = bal
      \<and> r = Inr (Some \<lparr>s_customer = c, s_balance = bal, s_held = 0, s_effective = bal, s_debt = 0,
                 s_threshold = thr, s_exhausted = (bal \<le> 0)\<rparr>)"
proof (cases "bal < 0 \<or> (\<exists>a. thr = Some a \<and> a < 0) \<or> (\<exists>m. rpm = Some m \<and> m < 0)")
  case True
  then show ?thesis using assms(2) by (auto simp: configure_def split: option.splits)
next
  case False
  let ?s1 = "set_all (db b)
      [(k @ '':balance_usd'', CFlt bal), (k @ '':initial_balance_usd'', CFlt bal),
       (k @ '':held_usd'', CInt 0), (k @ '':debt_usd'', CInt 0),
       (k @ '':total_deducted_usd'', CInt 0), (k @ '':total_topup_usd'', CInt 0)]"
  let ?s2 = "del_all ?s1 [k @ '':webhook_low_sent'', k @ '':webhook_warn_70_sent'', k @ '':webhook_warn_90_sent'']"
  let ?s4 = "set_or_del (set_or_del ?s2 (k @ '':alert_threshold_usd'') (map_option CFlt thr))
      (k @ '':max_rpm'') (map_option CInt rpm)"
  have "\<not> (bal < 0 \<or> (case thr of None \<Rightarrow> False | Some a \<Rightarrow> a < 0) \<or> (case rpm of None \<Rightarrow> False | Some m \<Rightarrow> m < 0))"
    using False by (auto split: option.splits)
  then have "db b' = ?s4" and "r = budget_snapshot ?s4 t c"
    using assms(2) by (auto simp: configure_def Let_def cache_pop_def k_def)
  moreover have "rget ?s4 (k @ '':balance_usd'') = Some (CFlt bal)"
    "rget ?s4 (k @ '':initial_balance_usd'') = Some (CFlt bal)"
    "rget ?s4 (k @ '':held_usd'') = Some (CInt 0)" "rget ?s4 (k @ '':debt_usd'') = Some (CInt 0)"
    "rget ?s4 (k @ '':total_deducted_usd'') = Some (CInt 0)"
    "rget ?s4 (k @ '':total_topup_usd'') = Some (CInt 0)"
    "rget ?s4 (k @ '':alert_threshold_usd'') = map_option CFlt thr"
    by (cases thr; cases rpm; simp add: set_or_del_def set_all_def del_all_def)+
  ultimately obtain s4 where b': "db b' = s4" and r: "r = budget_snapshot s4 t c"
    and reads: "rget s4 (k @ '':balance_usd'') = Some (CFlt bal)"
    "rget s4 (k @ '':initial_balance_usd'') = Some (CFlt bal)"
    "rget s4 (k @ '':held_usd'') = Some (CInt 0)" "rget s4 (k @ '':debt_usd'') = Some (CInt 0)"
    "rget s4 (k @ '':total_deducted_usd'') = Some (CInt 0)"
    "rget s4 (k @ '':total_topup_usd'') = Some (CInt 0)"
    "rget s4 (k @ '':alert_threshold_usd'') = map_option CFlt thr"
    by blast
  have "budget_prefix_for_read s4 t c = k"
    using reads(1) budget_read.read_present [of s4 t c]
    by (simp add: budget_present_def rexists_def k_def budget_prefix_for_write_def)
  then have "budget_snapshot s4 t c = Inr (Some \<lparr>s_customer = c, s_balance = bal, s_held = 0,
      s_effective = bal, s_debt = 0, s_threshold = thr, s_exhausted = (bal \<le> 0)\<rparr>)"
    by (cases thr) (simp_all add: budget_snapshot_def Let_def reads float_or_none_def)
  with False show ?thesis by (simp add: b' r ledger_drift_def reads)
qed

section \<open>A concrete budget\<close>

definition demo_budget :: budget_state where
  "demo_budget = \<lparr>db = set_all empty_store [(''budget:acme:balance_usd'', CInt 10), (''budget:acme:max_rpm'', CInt 2)],
     cache = []\<rparr>"

definition demo_args :: check_args where
  "demo_args = \<lparr>q_customer = ''acme'', q_estimate = 1, q_span = None, q_session = None, q_key = None, q_count = True\<rparr>"

lemma demo_budget_reads:
  "rget (db demo_budget) k = (if k = ''budget:acme:max_rpm'' then Some (CInt 2)
     else if k = ''budget:acme:balance_usd'' then Some (CInt 10) else None)"
  by (simp add: demo_budget_def set_all_def) (simp add: empty_store_def rget_def)

lemma no_tenant_prefix: "budget_prefix_for_read s None c = ''budget:'' @ c" "budget_prefix_for_write None c = ''budget:'' @ c"
  by (simp_all add: budget_prefix_for_read_def budget_prefix_for_write_def budget_prefix_def)

lemma demo_rpm_key: "rate_limit_key None c m \<noteq> ''budget:acme:max_rpm'' \<and> rate_limit_key None c m \<noteq> ''budget:acme:balance_usd''"
  by (simp add: rate_limit_key_def)

lemma demo_check: "\<exists>d b'. budget_check demo_budget None ''closed'' True 0 demo_args = (Inr d, b')
    \<and> d_allowed d \<and> d_source d = ''redis'' \<and> d_reason d = ''ok''"
proof -
  let ?s = "db demo_budget" and ?k = "rate_limit_key None ''acme'' 0"
  have k: "rget ?s ?k = None" using demo_rpm_key by (simp add: demo_budget_reads)
  have lim: "rate_limits ?s None ''acme'' 0 = Inr (0, 2)"
    using k by (simp add: rate_limits_def Let_def no_tenant_prefix demo_budget_reads trunc_int_def)
  have snap: "budget_snapshot ?s None ''acme'' = Inr (Some \<lparr>s_customer = ''acme'', s_balance = 10, s_held = 0,
      s_effective = 10, s_debt = 0, s_threshold = None, s_exhausted = False\<rparr>)"
    by (simp add: budget_snapshot_def Let_def no_tenant_prefix demo_budget_reads float_or_none_def)
  have hier: "hierarchy_denial ?s None None None 1 = Inr None"
    by (simp add: hierarchy_denial_def scope_denied_def truthy_def)
  obtain s' where inc: "increment_rate_limit ?s ?k = (Inr (), s')"
    using k by (simp add: increment_rate_limit_def incrby_def)
  show ?thesis
    using lim snap hier inc
    by (simp add: budget_check_def check_redis_def Let_def demo_args_def truthy_def counted_def
        plain_decision_def trunc_int_def)
qed



theorem check_changes_only_counter_witness:
  "rget (db (snd (budget_check demo_budget None ''closed'' True 0 demo_args))) ''budget:acme:balance_usd''
     = rget (db demo_budget) ''budget:acme:balance_usd''"
proof -
  obtain r b' where chk: "budget_check demo_budget None ''closed'' True 0 demo_args = (r, b')" by fastforce
  have "''budget:acme:balance_usd'' \<noteq> rate_limit_key None (q_customer demo_args) (trunc_int 0 div 60)"
    using demo_rpm_key by metis
  from check_changes_only_counter [OF chk this] chk show ?thesis by simp
qed

theorem top_up_conserves_witness:
  "\<exists>r b'. top_up demo_budget None ''acme'' 5 = (Inr r, b')
     \<and> num0 (rget (db b') ''budget:acme:balance_usd'') = 15"
proof -
  let ?s = "db demo_budget"
  obtain s2 where i1: "multi_incr ?s ''budget:acme:balance_usd'' 5 = (True, s2)"
    and r1: "\<forall>k'. rget s2 k' = (if k' = ''budget:acme:balance_usd''
        then Some (num_cell (num0 (rget ?s ''budget:acme:balance_usd'') + 5)) else rget ?s k')"
    using multi_incr_ok [of ?s "''budget:acme:balance_usd''" 5] by (auto simp: demo_budget_reads)
  obtain s3 where i2: "multi_incr s2 ''budget:acme:total_topup_usd'' 5 = (True, s3)"
    using multi_incr_ok [of s2 "''budget:acme:total_topup_usd''" 5] r1 by (auto simp: demo_budget_reads)
  have "set_all ?s (migrated ?s ''budget:acme'' ''budget:acme'') = ?s"
    by (simp add: migrated_def set_all_def)
  then obtain r b' where t: "top_up demo_budget None ''acme'' 5 = (Inr r, b')"
    using i1 i2 by (simp add: top_up_def Let_def no_tenant_prefix demo_budget_reads)
  from top_up_conserves [OF t] have "num0 (rget (db b') ''budget:acme:balance_usd'') = 15"
    by (simp add: no_tenant_prefix demo_budget_reads)
  with t show ?thesis by blast
qed

theorem configure_balanced_witness:
  "snd (configure demo_budget None ''acme'' (- 1) None None) = demo_budget"
proof -
  obtain r b' where c: "configure demo_budget None ''acme'' (- 1) None None = (r, b')" by fastforce
  from configure_balanced [OF c] c show ?thesis by simp
qed

end
