(* ===== verification/Pricing.thy ===== *)
theory Pricing
  imports Tenant_Keys Calendar
begin

text \<open>
  \<^verbatim>\<open>src/api/pricing_loader.py\<close>: validation of a pricing catalog, the choice of a tier, and the
  cost of an event in micro-dollars (a price per million tokens is a price in micro-dollars per
  token). A version number keeps its JSON value (the source only displays its text).

  The lemmas, in \<open>Pricing_Facts\<close>, show what a catalog that loads guarantees, that graduated billing charges every
  token of an event once at the rate of the tier that token falls in (up to half a micro-dollar
  for each tier it meets), that the loop always ends, and that normalising a model id is
  idempotent.
\<close>

section \<open>Model prices\<close>

definition MAX_TIER_END :: int where
  "MAX_TIER_END = 9223372036854775807"

record tier =
  up_to_tokens_m :: "int option"
  t_input_per_m :: rat
  t_output_per_m :: rat
  t_embedding_per_m :: rat

record model_pricing =
  pricing_mode :: string
  input_per_m :: rat
  output_per_m :: rat
  embedding_per_m :: rat
  tiers :: "tier list"

definition read_tier :: "rat \<Rightarrow> rat \<Rightarrow> rat \<Rightarrow> json \<Rightarrow> tier res" where
  "read_tier input_p output_p embed_p t =
     bindE (json_field t ''up_to_tokens_m'') (\<lambda>up.
     bindE (case up of None \<Rightarrow> Inr None | Some JNull \<Rightarrow> Inr None | Some (JInt i) \<Rightarrow> Inr (Some i)
            | Some _ \<Rightarrow> Inl ValueError) (\<lambda>u.
     bindE (bindE (json_get t ''input_per_m'' (JFlt input_p)) json_float) (\<lambda>ti.
     bindE (bindE (json_get t ''output_per_m'' (JFlt output_p)) json_float) (\<lambda>to'.
     bindE (bindE (json_get t ''embedding_per_m'' (JFlt embed_p)) json_float) (\<lambda>te.
       if min ti (min to' te) < 0 then Inl ValueError
       else Inr \<lparr>up_to_tokens_m = u, t_input_per_m = ti, t_output_per_m = to', t_embedding_per_m = te\<rparr>)))))"

fun check_tiers :: "int \<Rightarrow> tier list \<Rightarrow> unit res" where
  "check_tiers previous [] = Inr ()"
| "check_tiers previous (t # ts) =
     (case up_to_tokens_m t of
        None \<Rightarrow> if ts \<noteq> [] then Inl ValueError else check_tiers previous ts
      | Some u \<Rightarrow> if u \<le> previous then Inl ValueError else check_tiers u ts)"

definition read_mode :: "json option \<Rightarrow> bool \<Rightarrow> string res" where
  "read_mode mode has_tiers =
     (let m = (case mode of None \<Rightarrow> JNull | Some j \<Rightarrow> j);
          m = (if \<not> json_true m then JStr (if has_tiers then ''volume'' else ''flat'') else m) in
      case m of
        JStr w \<Rightarrow>
          if w \<notin> set [''flat'', ''volume'', ''graduated''] then Inl ValueError
          else if w = ''flat'' \<and> has_tiers then Inl ValueError
          else if w \<in> set [''volume'', ''graduated''] \<and> \<not> has_tiers then Inl ValueError
          else Inr w
      | _ \<Rightarrow> Inl ValueError)"

definition from_json :: "json \<Rightarrow> model_pricing res" where
  "from_json node =
     bindE (bindE (json_get node ''input_per_m'' (JFlt 1)) json_float) (\<lambda>input_p.
     bindE (bindE (json_get node ''output_per_m'' (JFlt 3)) json_float) (\<lambda>output_p.
     bindE (bindE (json_get node ''embedding_per_m'' (JFlt (1 / 10))) json_float) (\<lambda>embed_p.
     bindE (json_get node ''tiers'' JNull) (\<lambda>raw.
     bindE (if json_true raw then json_iter raw else Inr []) (\<lambda>raw_tiers.
     bindE (mapE (read_tier input_p output_p embed_p) raw_tiers) (\<lambda>ts.
     bindE (bindE (json_field node ''pricing_mode'') (\<lambda>m. read_mode m (ts \<noteq> []))) (\<lambda>mode.
     bindE (check_tiers (- 1) ts) (\<lambda>_.
       if ts \<noteq> [] \<and> up_to_tokens_m (last ts) \<noteq> None then Inl ValueError
       else if input_p < 0 \<or> output_p < 0 \<or> embed_p < 0 then Inl ValueError
       else Inr \<lparr>pricing_mode = mode, input_per_m = input_p, output_per_m = output_p,
                 embedding_per_m = embed_p, tiers = ts\<rparr>))))))))"

definition flat_tier :: "model_pricing \<Rightarrow> tier" where
  "flat_tier p = \<lparr>up_to_tokens_m = None, t_input_per_m = input_per_m p,
     t_output_per_m = output_per_m p, t_embedding_per_m = embedding_per_m p\<rparr>"

fun find_tier :: "tier list \<Rightarrow> int \<Rightarrow> tier option" where
  "find_tier [] tokens_m = None"
| "find_tier (t # ts) tokens_m =
     (case up_to_tokens_m t of
        None \<Rightarrow> Some t
      | Some u \<Rightarrow> if tokens_m < u then Some t else find_tier ts tokens_m)"

definition tier_at_token :: "model_pricing \<Rightarrow> int \<Rightarrow> tier" where
  "tier_at_token p token_index =
     (if tiers p = [] then flat_tier p
      else (case find_tier (tiers p) (token_index div 1000000) of
              Some t \<Rightarrow> t | None \<Rightarrow> last (tiers p)))"

definition tier_end_tokens :: "tier \<Rightarrow> int" where
  "tier_end_tokens t = (case up_to_tokens_m t of None \<Rightarrow> MAX_TIER_END | Some u \<Rightarrow> u * 1000000)"

section \<open>The catalog\<close>

record catalog =
  version :: json
  cache_read_multiplier :: rat
  defaults :: model_pricing
  models :: "(string \<times> model_pricing) list"
  prefix_models :: "json list"

definition require_field :: "json \<Rightarrow> string \<Rightarrow> json res" where
  "require_field doc f =
     bindE (json_field doc f) (\<lambda>v. case v of Some (JObj kvs) \<Rightarrow> Inr (JObj kvs) | _ \<Rightarrow> Inl ValueError)"

definition fixed_field :: "json \<Rightarrow> string \<Rightarrow> string \<Rightarrow> unit res" where
  "fixed_field doc f v =
     bindE (json_get doc f (JStr v)) (\<lambda>j. if j = JStr v then Inr () else Inl ValueError)"

definition obj_items :: "json \<Rightarrow> (string \<times> json) list" where
  "obj_items j = (case j of JObj kvs \<Rightarrow> kvs | _ \<Rightarrow> [])"

definition make_catalog :: "json \<Rightarrow> catalog res" where
  "make_catalog doc =
     bindE (require_field doc ''models'') (\<lambda>models_node.
     bindE (require_field doc ''defaults'') (\<lambda>defaults_node.
     bindE (fixed_field doc ''volume_scope'' ''customer_model'') (\<lambda>_.
     bindE (fixed_field doc ''billing_period'' ''calendar_month'') (\<lambda>_.
     bindE (json_get doc ''version'' (JStr ''1'')) (\<lambda>v.
     bindE (bindE (json_get doc ''cache_read_multiplier'' (JFlt (1 / 2))) json_float) (\<lambda>mult.
       if mult < 0 then Inl ValueError
       else bindE (from_json defaults_node) (\<lambda>d.
            bindE (mapE (\<lambda>(k, n). bindE (from_json n) (\<lambda>p. Inr (k, p))) (obj_items models_node)) (\<lambda>ms.
            bindE (json_get doc ''prefix_models'' JNull) (\<lambda>raw.
            bindE (if json_true raw then json_iter raw else Inr []) (\<lambda>pre.
              Inr \<lparr>version = v, cache_read_multiplier = mult, defaults = d, models = ms,
                   prefix_models = pre\<rparr>))))))))))"

text \<open>The file's content is a parameter; Redis holds the catalog an operator uploaded.\<close>

definition load_from_redis :: "store \<Rightarrow> json \<Rightarrow> catalog res" where
  "load_from_redis s pricing_file =
     (case rget s ''pricing:current'' of
        Some snap \<Rightarrow> if cell_true (Some snap) then bindE (json_loads snap) make_catalog
                     else make_catalog pricing_file
      | None \<Rightarrow> make_catalog pricing_file)"

definition get_catalog :: "json \<Rightarrow> catalog option \<Rightarrow> (catalog \<times> catalog option) res" where
  "get_catalog pricing_file cached =
     (case cached of Some c \<Rightarrow> Inr (c, cached)
      | None \<Rightarrow> bindE (make_catalog pricing_file) (\<lambda>c. Inr (c, Some c)))"

definition reload_catalog :: "json \<Rightarrow> catalog option \<Rightarrow> store option \<Rightarrow> (catalog \<times> catalog option) res" where
  "reload_catalog pricing_file given client =
     bindE (case (given, client) of
              (Some c, _) \<Rightarrow> Inr c
            | (None, Some s) \<Rightarrow> load_from_redis s pricing_file
            | (None, None) \<Rightarrow> make_catalog pricing_file) (\<lambda>c. Inr (c, Some c))"

fun first_prefix :: "json list \<Rightarrow> string \<Rightarrow> string res" where
  "first_prefix [] model = Inr model"
| "first_prefix (p # ps) model =
     (case p of JStr w \<Rightarrow> if startswith model w then Inr w else first_prefix ps model
      | _ \<Rightarrow> Inl TypeError)"

definition normalize_model_id :: "catalog \<Rightarrow> string \<Rightarrow> string res" where
  "normalize_model_id c model =
     (if model = [] then Inr ''unknown''
      else if map_of (models c) model \<noteq> None then Inr model
      else first_prefix (prefix_models c) model)"

definition pricing_of :: "catalog \<Rightarrow> string \<Rightarrow> model_pricing res" where
  "pricing_of c model =
     bindE (normalize_model_id c model) (\<lambda>m.
       Inr (case map_of (models c) m of Some p \<Rightarrow> p | None \<Rightarrow> defaults c))"

section \<open>The cost of an event\<close>

datatype category = CatInput | CatOutput | CacheRead | Reasoning | CacheWrite | Embedding

text \<open>The token counts of an event, 0 where the event has no such field.\<close>

record tokens =
  modelId :: string
  inputTokens :: int
  outputTokens :: int
  cacheReadTokens :: int
  reasoningTokens :: int
  cacheWriteTokens :: int
  embeddingTokens :: int

fun tokens_of :: "tokens \<Rightarrow> category \<Rightarrow> int" where
  "tokens_of e CatInput = inputTokens e"
| "tokens_of e CatOutput = outputTokens e"
| "tokens_of e CacheRead = cacheReadTokens e"
| "tokens_of e Reasoning = reasoningTokens e"
| "tokens_of e CacheWrite = cacheWriteTokens e"
| "tokens_of e Embedding = embeddingTokens e"

definition categories :: "category list" where
  "categories = [CatInput, CatOutput, CacheRead, Reasoning, CacheWrite, Embedding]"

fun rate_for :: "tier \<Rightarrow> category \<Rightarrow> rat \<Rightarrow> rat" where
  "rate_for t CatInput cache_mult = t_input_per_m t"
| "rate_for t CatOutput cache_mult = t_output_per_m t"
| "rate_for t Reasoning cache_mult = t_output_per_m t"
| "rate_for t CacheRead cache_mult = t_input_per_m t * cache_mult"
| "rate_for t CacheWrite cache_mult = t_input_per_m t"
| "rate_for t Embedding cache_mult = t_embedding_per_m t"

definition cost_at_tier :: "tokens \<Rightarrow> tier \<Rightarrow> rat \<Rightarrow> int" where
  "cost_at_tier e t cache_mult =
     py_round (of_int (inputTokens e) * t_input_per_m t)
     + py_round (of_int (outputTokens e) * t_output_per_m t)
     + py_round (of_int (cacheReadTokens e) * t_input_per_m t * cache_mult)
     + py_round (of_int (reasoningTokens e) * t_output_per_m t)
     + py_round (of_int (cacheWriteTokens e) * t_input_per_m t)
     + py_round (of_int (embeddingTokens e) * t_embedding_per_m t)"

text \<open>One turn of the loop: the tier that is charged and how many tokens it takes.\<close>

definition chunk :: "model_pricing \<Rightarrow> int \<Rightarrow> int \<Rightarrow> tier \<times> int" where
  "chunk p cursor remaining =
     (let t = tier_at_token p cursor;
          tier_end = tier_end_tokens t;
          capacity = (if tier_end = MAX_TIER_END then remaining else min remaining (tier_end - cursor))
      in if capacity \<le> 0 then (last (tiers p), remaining) else (t, capacity))"

lemma chunk_pos: "0 < remaining \<Longrightarrow> chunk p cursor remaining = (t, cap) \<Longrightarrow> 0 < cap \<and> cap \<le> remaining"
  by (auto simp: chunk_def Let_def split: if_splits)

function graduated_loop ::
  "model_pricing \<Rightarrow> category \<Rightarrow> rat \<Rightarrow> int \<Rightarrow> int \<Rightarrow> int \<Rightarrow> int \<times> int" where
  "graduated_loop p cat cache_mult remaining cursor cost =
     (if 0 < remaining
      then (case chunk p cursor remaining of (t, capacity) \<Rightarrow>
             graduated_loop p cat cache_mult (remaining - capacity) (cursor + capacity)
               (cost + py_round (of_int capacity * rate_for t cat cache_mult)))
      else (cost, cursor))"
  by pat_completeness auto
termination
  by (relation "measure (\<lambda>(p, cat, m, remaining, cursor, cost). nat remaining)")
     (auto dest: chunk_pos [OF _ sym])

declare graduated_loop.simps [simp del]

definition cost_category_graduated ::
  "int \<Rightarrow> int \<Rightarrow> model_pricing \<Rightarrow> category \<Rightarrow> rat \<Rightarrow> int \<times> int" where
  "cost_category_graduated toks cursor p cat cache_mult = graduated_loop p cat cache_mult toks cursor 0"

definition cost_graduated :: "tokens \<Rightarrow> model_pricing \<Rightarrow> int \<Rightarrow> rat \<Rightarrow> int" where
  "cost_graduated e p monthly_before cache_mult =
     snd (fold (\<lambda>cat (cursor, cost).
        case cost_category_graduated (tokens_of e cat) cursor p cat cache_mult of
          (chunk_cost, cursor') \<Rightarrow> (cursor', cost + chunk_cost)) categories (monthly_before, 0))"

definition calculate_cost_micro :: "catalog \<Rightarrow> tokens \<Rightarrow> int \<Rightarrow> int res" where
  "calculate_cost_micro c e monthly_tokens_before =
     bindE (pricing_of c (modelId e)) (\<lambda>p.
       Inr (if pricing_mode p = ''graduated''
            then cost_graduated e p monthly_tokens_before (cache_read_multiplier c)
            else cost_at_tier e (tier_at_token p monthly_tokens_before) (cache_read_multiplier c)))"

definition quote_usd :: "catalog \<Rightarrow> tokens \<Rightarrow> int \<Rightarrow> rat res" where
  "quote_usd c q monthly_tokens_before =
     bindE (calculate_cost_micro c
       \<lparr>modelId = (if modelId q = [] then ''unknown'' else modelId q),
        inputTokens = max 0 (inputTokens q), outputTokens = max 0 (outputTokens q),
        cacheReadTokens = max 0 (cacheReadTokens q), reasoningTokens = max 0 (reasoningTokens q),
        cacheWriteTokens = max 0 (cacheWriteTokens q), embeddingTokens = max 0 (embeddingTokens q)\<rparr>
       monthly_tokens_before) (\<lambda>micro. Inr (of_int micro / 1000000))"

text \<open>\<open>default_input_tokens\<close> is the environment's \<open>GATEWAY_DEFAULT_INPUT_TOKENS\<close>.\<close>

definition estimate_completion_usd ::
  "int \<Rightarrow> catalog \<Rightarrow> string \<Rightarrow> int option \<Rightarrow> int option \<Rightarrow> rat res" where
  "estimate_completion_usd default_input_tokens c model_id max_output_tokens estimated_input_tokens =
     (let input_tokens = (case estimated_input_tokens of Some n \<Rightarrow> n | None \<Rightarrow> default_input_tokens);
          output_tokens = (case max_output_tokens of Some n \<Rightarrow> if n > 0 then n else 1024 | None \<Rightarrow> 1024)
      in bindE (quote_usd c \<lparr>modelId = model_id, inputTokens = input_tokens, outputTokens = output_tokens,
                  cacheReadTokens = 0, reasoningTokens = 0, cacheWriteTokens = 0, embeddingTokens = 0\<rparr> 0)
           (\<lambda>q. Inr (max q (1 / 1000000))))"

definition period_volume_key :: "string option \<Rightarrow> string \<Rightarrow> string \<Rightarrow> int \<Rightarrow> string res" where
  "period_volume_key tenant_id customer_id model_id timestamp_ms =
     bindE (billing_period_month timestamp_ms) (\<lambda>period.
       Inr (customer_prefix tenant_id customer_id @ '':model:'' @ model_id @ '':period:'' @ period
            @ '':volume_tokens''))"

end
