(* ===== verification/Pricing_Facts.thy ===== *)
theory Pricing_Facts
  imports Pricing
begin

text \<open>
  Properties of the pricing catalog: what a catalog that loads satisfies, that the graduated loop
  agrees with charging token by token, that quotes are never negative, and that normalising is
  idempotent.
\<close>

section \<open>What a loaded catalog guarantees\<close>

definition tier_prices_ok :: "tier \<Rightarrow> bool" where
  "tier_prices_ok t \<longleftrightarrow> 0 \<le> t_input_per_m t \<and> 0 \<le> t_output_per_m t \<and> 0 \<le> t_embedding_per_m t"

text \<open>Bounds strictly increase from 0 on, and exactly the last tier is open.\<close>

definition tiers_ok :: "tier list \<Rightarrow> bool" where
  "tiers_ok ts \<longleftrightarrow> (\<forall>t \<in> set ts. tier_prices_ok t) \<and>
     (ts \<noteq> [] \<longrightarrow> up_to_tokens_m (last ts) = None
       \<and> (\<forall>t \<in> set (butlast ts). \<exists>u \<ge> 0. up_to_tokens_m t = Some u)
       \<and> sorted_wrt (<) (map (\<lambda>t. the (up_to_tokens_m t)) (butlast ts)))"

definition valid_pricing :: "model_pricing \<Rightarrow> bool" where
  "valid_pricing p \<longleftrightarrow> 0 \<le> input_per_m p \<and> 0 \<le> output_per_m p \<and> 0 \<le> embedding_per_m p
     \<and> tiers_ok (tiers p)
     \<and> pricing_mode p \<in> {''flat'', ''volume'', ''graduated''}
     \<and> (pricing_mode p = ''flat'' \<longleftrightarrow> tiers p = [])"

lemma read_tier_prices: "read_tier i o' e t = Inr x \<Longrightarrow> tier_prices_ok x"
  by (auto simp: read_tier_def tier_prices_ok_def split: if_splits)

lemma check_tiers_bounds:
  assumes "check_tiers prev ts = Inr ()" and "ts \<noteq> []"
  shows "(\<forall>t \<in> set (butlast ts). \<exists>u > prev. up_to_tokens_m t = Some u)
    \<and> sorted_wrt (<) (map (\<lambda>t. the (up_to_tokens_m t)) (butlast ts))"
  using assms
proof (induction ts arbitrary: prev)
  case (Cons t ts)
  show ?case
  proof (cases "ts = []")
    case False
    then obtain u where u: "up_to_tokens_m t = Some u" "prev < u" and rest: "check_tiers u ts = Inr ()"
      using Cons.prems(1) by (auto split: option.splits if_splits)
    note I = Cons.IH [OF rest False]
    then have "\<exists>v > prev. up_to_tokens_m t' = Some v" "u < the (up_to_tokens_m t')"
      if "t' \<in> set (butlast ts)" for t'
      using that u(2) by fastforce+
    with I u False show ?thesis by auto
  qed simp
qed simp

lemma read_mode_cases:
  "read_mode m has = Inr w \<Longrightarrow>
     w \<in> {''flat'', ''volume'', ''graduated''} \<and> (w = ''flat'' \<longleftrightarrow> \<not> has)"
  by (auto simp: read_mode_def Let_def split: json.splits if_splits)

lemma from_json_valid:
  assumes "from_json node = Inr p"
  shows "valid_pricing p"
proof -
  obtain i o' e ts mode raw where
    ts: "mapE (read_tier i o' e) raw = Inr ts" and
    mode: "\<exists>m. read_mode m (ts \<noteq> []) = Inr mode" and
    chk: "check_tiers (- 1) ts = Inr ()" and
    lst: "\<not> (ts \<noteq> [] \<and> up_to_tokens_m (last ts) \<noteq> None)" and
    nn: "\<not> (i < 0 \<or> o' < 0 \<or> e < 0)" and
    p: "p = \<lparr>pricing_mode = mode, input_per_m = i, output_per_m = o', embedding_per_m = e, tiers = ts\<rparr>"
    using assms unfolding from_json_def
    by (elim bindE_InrE) (rule that, assumption, rule exI, assumption, simp, (simp split: if_split_asm)+)
  have "\<forall>t \<in> set ts. tier_prices_ok t"
    using mapE_set [OF ts] read_tier_prices by blast
  moreover have "ts \<noteq> [] \<Longrightarrow> (\<forall>t \<in> set (butlast ts). \<exists>u \<ge> 0. up_to_tokens_m t = Some u)
      \<and> sorted_wrt (<) (map (\<lambda>t. the (up_to_tokens_m t)) (butlast ts))"
    using check_tiers_bounds [OF chk] by (fastforce simp: less_le_not_le)
  ultimately show ?thesis
    using read_mode_cases mode lst nn by (fastforce simp: valid_pricing_def tiers_ok_def p)
qed

definition valid_catalog :: "catalog \<Rightarrow> bool" where
  "valid_catalog c \<longleftrightarrow> 0 \<le> cache_read_multiplier c \<and> valid_pricing (defaults c)
     \<and> (\<forall>(k, p) \<in> set (models c). valid_pricing p)"

lemma make_catalog_valid:
  assumes "make_catalog doc = Inr c"
  shows "valid_catalog c"
proof -
  obtain mult d dn ms pre v items where
    "from_json dn = Inr d" and "0 \<le> mult" and
    ms: "mapE (\<lambda>(k, n). bindE (from_json n) (\<lambda>p. Inr (k, p))) items = Inr ms" and
    c: "c = \<lparr>version = v, cache_read_multiplier = mult, defaults = d, models = ms, prefix_models = pre\<rparr>"
    using assms unfolding make_catalog_def by (auto split: if_splits)
  moreover have "\<forall>(k, p) \<in> set ms. valid_pricing p"
    using mapE_set [OF ms] by (fastforce dest: from_json_valid)
  ultimately show ?thesis by (auto simp: valid_catalog_def dest: from_json_valid)
qed

lemma pricing_of_valid:
  assumes "valid_catalog c" and "pricing_of c m = Inr p"
  shows "valid_pricing p"
proof -
  obtain m' where "p = (case map_of (models c) m' of Some p \<Rightarrow> p | None \<Rightarrow> defaults c)"
    using assms(2) by (auto simp: pricing_of_def)
  then show ?thesis
    using assms(1) by (auto simp: valid_catalog_def split: option.splits dest!: map_of_SomeD)
qed


section \<open>Finding a tier\<close>

definition open_ended :: "model_pricing \<Rightarrow> bool" where
  "open_ended p \<longleftrightarrow> tiers p = [] \<or> (\<exists>t \<in> set (tiers p). up_to_tokens_m t = None)"

lemma valid_open_ended: "valid_pricing p \<Longrightarrow> open_ended p"
  by (auto simp: valid_pricing_def tiers_ok_def open_ended_def)

lemma find_tier_some:
  "\<exists>t \<in> set ts. up_to_tokens_m t = None \<Longrightarrow> \<exists>t \<in> set ts. find_tier ts k = Some t"
  by (induction ts) (auto split: option.splits)

lemma find_tier_fits:
  "find_tier ts k = Some t \<Longrightarrow> t \<in> set ts \<and> (case up_to_tokens_m t of None \<Rightarrow> True | Some u \<Rightarrow> k < u)"
  by (induction ts) (auto split: option.splits if_splits)

lemma find_tier_stable:
  "find_tier ts k = Some t \<Longrightarrow> k \<le> k' \<Longrightarrow> (case up_to_tokens_m t of None \<Rightarrow> True | Some u \<Rightarrow> k' < u) \<Longrightarrow>
     find_tier ts k' = Some t"
  by (induction ts) (auto split: option.splits if_splits)

lemma div_less_mult:
  assumes "0 < (d :: int)"
  shows "i div d < u \<longleftrightarrow> i < u * d"
proof
  assume "i div d < u"
  then have "(i div d + 1) * d \<le> u * d" using assms by (intro mult_right_mono) simp_all
  moreover have "i < (i div d + 1) * d"
    using div_mult_mod_eq [of i d] pos_mod_bound [OF assms, of i]
    unfolding distrib_right by linarith
  ultimately show "i < u * d" by linarith
next
  assume less: "i < u * d"
  show "i div d < u"
  proof (rule ccontr)
    assume "\<not> i div d < u"
    then have "u * d \<le> i div d * d" using assms by (intro mult_right_mono) simp_all
    with less div_mult_mod_eq [of i d] pos_mod_sign [OF assms, of i] show False by linarith
  qed
qed

lemma million_less: "i div 1000000 < u \<longleftrightarrow> i < u * (1000000 :: int)"
  by (rule div_less_mult) simp

lemma tier_end_open: "tier_end_tokens t = MAX_TIER_END \<longleftrightarrow> up_to_tokens_m t = None"
proof -
  have "u * 1000000 \<noteq> (9223372036854775807 :: int)" for u
  proof
    assume "u * 1000000 = 9223372036854775807"
    then have "(u * 1000000) mod 1000000 = 9223372036854775807 mod 1000000" by simp
    then show False by simp
  qed
  then show ?thesis by (auto simp: tier_end_tokens_def MAX_TIER_END_def split: option.splits)
qed

lemma tier_at_cases:
  assumes "open_ended p" and "tiers p \<noteq> []"
  shows "find_tier (tiers p) (i div 1000000) = Some (tier_at_token p i)"
  using assms find_tier_some [of "tiers p" "i div 1000000"]
  by (auto simp: open_ended_def tier_at_token_def)

lemma tier_at_fits:
  assumes "open_ended p" and "up_to_tokens_m (tier_at_token p i) = Some u"
  shows "i < u * 1000000" and "tier_at_token p i \<in> set (tiers p)"
proof -
  have ne: "tiers p \<noteq> []" using assms(2) by (auto simp: tier_at_token_def flat_tier_def)
  from find_tier_fits [OF tier_at_cases [OF assms(1) ne], of i] assms(2)
  show "i < u * 1000000" "tier_at_token p i \<in> set (tiers p)" by (auto simp: million_less)
qed

lemma tier_at_stable:
  assumes "open_ended p" and "i \<le> j"
    and "case up_to_tokens_m (tier_at_token p i) of None \<Rightarrow> True | Some u \<Rightarrow> j < u * 1000000"
  shows "tier_at_token p j = tier_at_token p i"
proof (cases "tiers p = []")
  case True
  then show ?thesis by (simp add: tier_at_token_def)
next
  case False
  have fit: "case up_to_tokens_m (tier_at_token p i) of None \<Rightarrow> True | Some u \<Rightarrow> j div 1000000 < u"
    using assms(3) by (cases "up_to_tokens_m (tier_at_token p i)") (simp_all add: million_less)
  have "i div 1000000 \<le> j div 1000000" using assms(2) by (rule zdiv_mono1) simp
  then have "find_tier (tiers p) (j div 1000000) = Some (tier_at_token p i)"
    by (rule find_tier_stable [OF tier_at_cases [OF assms(1) False] _ fit])
  then show ?thesis using tier_at_cases [OF assms(1) False, of j] by simp
qed

section \<open>The graduated loop charges each token once\<close>

definition rate_at :: "model_pricing \<Rightarrow> category \<Rightarrow> rat \<Rightarrow> int \<Rightarrow> rat" where
  "rate_at p cat m i = rate_for (tier_at_token p i) cat m"

definition token_by_token :: "model_pricing \<Rightarrow> category \<Rightarrow> rat \<Rightarrow> int \<Rightarrow> nat \<Rightarrow> rat" where
  "token_by_token p cat m cursor n = (\<Sum>k < n. rate_at p cat m (cursor + int k))"

definition tiers_left :: "model_pricing \<Rightarrow> int \<Rightarrow> nat" where
  "tiers_left p cursor = length (filter (\<lambda>t. case up_to_tokens_m t of
     None \<Rightarrow> True | Some u \<Rightarrow> cursor < u * 1000000) (tiers p))"

lemma tiers_left_le: "tiers_left p cursor \<le> length (tiers p)"
  by (simp add: tiers_left_def)

lemma tiers_left_pos:
  assumes "open_ended p" and "tiers p \<noteq> []"
  shows "1 \<le> tiers_left p cursor"
proof -
  obtain t where "t \<in> set (tiers p)" "up_to_tokens_m t = None"
    using assms by (auto simp: open_ended_def)
  then have "t \<in> set (filter (\<lambda>t. case up_to_tokens_m t of
     None \<Rightarrow> True | Some u \<Rightarrow> cursor < u * 1000000) (tiers p))" by simp
  then show ?thesis unfolding tiers_left_def by (metis One_nat_def Suc_leI length_pos_if_in_set)
qed

lemma filter_length_less:
  assumes "x \<in> set xs" and "P x" and "\<not> Q x" and "\<And>y. Q y \<Longrightarrow> P y"
  shows "length (filter Q xs) < length (filter P xs)"
proof -
  have "filter Q xs = filter Q (filter P xs)" using assms(4) by (auto intro: filter_cong)
  also have "length \<dots> < length (filter P xs)"
    using assms(1-3) by (intro length_filter_less [of x]) auto
  finally show ?thesis .
qed

lemma tiers_left_less:
  assumes "t \<in> set (tiers p)" and "up_to_tokens_m t = Some u" and "cursor < u * 1000000"
  shows "tiers_left p (u * 1000000) < tiers_left p cursor"
  unfolding tiers_left_def
  using assms by (intro filter_length_less [of t]) (auto split: option.splits)

lemma chunk_spec:
  assumes "open_ended p" and "0 < rem" and "chunk p cur rem = (t, cap)"
  shows "t = tier_at_token p cur" and "0 < cap" and "cap \<le> rem"
    and "cap < rem \<Longrightarrow> \<exists>u. up_to_tokens_m t = Some u \<and> cur + cap = u * 1000000"
    and "case up_to_tokens_m t of None \<Rightarrow> True | Some u \<Rightarrow> cur + cap \<le> u * 1000000"
proof -
  show "0 < cap" "cap \<le> rem" using chunk_pos [OF assms(2,3)] by simp_all
  have C: "t = tier_at_token p cur \<and> (cap = rem \<and> up_to_tokens_m t = None
      \<or> (\<exists>u. up_to_tokens_m t = Some u \<and> cap = min rem (u * 1000000 - cur)))"
    using assms(2,3) tier_at_fits(1) [OF assms(1), of cur]
    by (auto simp: chunk_def Let_def tier_end_open split: if_splits)
       (auto simp: tier_end_tokens_def)
  then show "t = tier_at_token p cur" by simp
  from C show "cap < rem \<Longrightarrow> \<exists>u. up_to_tokens_m t = Some u \<and> cur + cap = u * 1000000"
    and "case up_to_tokens_m t of None \<Rightarrow> True | Some u \<Rightarrow> cur + cap \<le> u * 1000000"
    by auto
qed

lemma token_by_token_const:
  assumes "open_ended p" and "0 < rem" and "chunk p cur rem = (t, cap)"
  shows "token_by_token p cat m cur (nat cap) = of_int cap * rate_for t cat m"
proof -
  note C = chunk_spec [OF assms]
  have "rate_at p cat m (cur + int k) = rate_for t cat m" if "k < nat cap" for k
    using that C(1,5) by (auto simp: rate_at_def intro!: arg_cong [where f = "\<lambda>t. rate_for t cat m"]
        tier_at_stable [OF assms(1)] split: option.splits)
  then show ?thesis using C(2) by (simp add: token_by_token_def)
qed

lemma sum_split: "(\<Sum>k < a + b. f k) = (\<Sum>k < a. f k) + (\<Sum>k < b. f (a + k :: nat) :: rat)"
  by (induction b) (simp_all add: add.assoc)

lemma token_by_token_split:
  assumes "0 \<le> a" and "0 \<le> b"
  shows "token_by_token p cat m cur (nat (a + b))
    = token_by_token p cat m cur (nat a) + token_by_token p cat m (cur + a) (nat b)"
proof -
  have "nat (a + b) = nat a + nat b" using assms by (simp add: nat_add_distrib)
  then show ?thesis
    using assms(1) by (simp add: token_by_token_def sum_split add.assoc)
qed

lemma token_by_token_0 [simp]: "token_by_token p cat m cur 0 = 0"
  by (simp add: token_by_token_def)

text \<open>The bound on the rounding error: half a micro-dollar for each tier still to be met.\<close>

lemma graduated_loop_spec:
  assumes "open_ended p" and "0 \<le> rem" and "graduated_loop p cat m rem cur cost = (cost', cur')"
  shows "cur' = cur + rem
    \<and> \<bar>of_int cost' - (of_int cost + token_by_token p cat m cur (nat rem))\<bar>
        \<le> of_nat (max 1 (tiers_left p cur)) / 2"
  using assms
proof (induction p cat m rem cur cost rule: graduated_loop.induct)
  case (1 p cat m rem cur cost)
  show ?case
  proof (cases "0 < rem")
    case False
    have "graduated_loop p cat m rem cur cost = (cost, cur)"
      using False by (subst graduated_loop.simps) simp
    with False 1(3,4) show ?thesis by simp
  next
    case True
    obtain t cap where ch: "chunk p cur rem = (t, cap)" by fastforce
    let ?c = "py_round (of_int cap * rate_for t cat m)"
    note C = chunk_spec [OF 1(2) True ch]
    have loop: "graduated_loop p cat m (rem - cap) (cur + cap) (cost + ?c) = (cost', cur')"
      using 1(4) True ch by (subst (asm) graduated_loop.simps) simp
    have IH: "cur' = cur + cap + (rem - cap)
      \<and> \<bar>of_int cost' - (of_int (cost + ?c) + token_by_token p cat m (cur + cap) (nat (rem - cap)))\<bar>
        \<le> of_nat (max 1 (tiers_left p (cur + cap))) / 2"
      using 1(1) [OF True ch [symmetric] 1(2) _ loop] C(3) by simp
    have split: "token_by_token p cat m cur (nat rem)
      = of_int cap * rate_for t cat m + token_by_token p cat m (cur + cap) (nat (rem - cap))"
      using token_by_token_split [of cap "rem - cap" p cat m cur] C(2,3)
        token_by_token_const [OF 1(2) True ch, of cat m] by simp
    have round: "\<bar>of_int ?c - of_int cap * rate_for t cat m\<bar> \<le> 1 / 2"
      by (rule py_round_error)
    show ?thesis
    proof (cases "cap = rem")
      case True
      have "graduated_loop p cat m 0 (cur + cap) (cost + ?c) = (cost + ?c, cur + cap)"
        by (subst graduated_loop.simps) simp
      then have "cost' = cost + ?c" using loop True by simp
      moreover have "(1 / 2 :: rat) \<le> of_nat (max 1 (tiers_left p cur)) / 2"
        by (simp add: max_def)
      ultimately show ?thesis using IH split round True by simp
    next
      case False
      with C(3,4) obtain u where u: "up_to_tokens_m t = Some u" "cur + cap = u * 1000000" by force
      have ne: "tiers p \<noteq> []" using u(1) C(1) by (auto simp: tier_at_token_def flat_tier_def)
      have "tiers_left p (cur + cap) < tiers_left p cur"
        using tier_at_fits [OF 1(2), of cur u] u C(1) by (simp add: tiers_left_less)
      then have "of_nat (max 1 (tiers_left p (cur + cap))) / 2 + 1 / 2
          \<le> (of_nat (max 1 (tiers_left p cur)) / 2 :: rat)"
        using tiers_left_pos [OF 1(2) ne, of "cur + cap"] by simp
      with conjunct2 [OF IH] split round
      have "\<bar>of_int cost' - (of_int cost + token_by_token p cat m cur (nat rem))\<bar>
          \<le> of_nat (max 1 (tiers_left p cur)) / 2"
        unfolding of_int_add by linarith
      with IH show ?thesis by simp
    qed
  qed
qed

lemma category_spec:
  assumes "open_ended p" and "0 \<le> n"
  obtains cost where "cost_category_graduated n cur p cat m = (cost, cur + n)"
    and "\<bar>of_int cost - token_by_token p cat m cur (nat n)\<bar> \<le> of_nat (max 1 (length (tiers p))) / 2"
proof -
  obtain cost cur' where run: "graduated_loop p cat m n cur 0 = (cost, cur')" by fastforce
  note S = graduated_loop_spec [OF assms run]
  have "max 1 (tiers_left p cur) \<le> max 1 (length (tiers p))"
    using tiers_left_le [of p cur] by simp
  then have "of_nat (max 1 (tiers_left p cur)) / 2 \<le> (of_nat (max 1 (length (tiers p))) / 2 :: rat)"
    by (intro divide_right_mono) (simp_all only: of_nat_le_iff)
  from order.trans [OF conjunct2 [OF S] this]
  have bound: "\<bar>of_int cost - token_by_token p cat m cur (nat n)\<bar> \<le> of_nat (max 1 (length (tiers p))) / 2"
    by (simp only: of_int_0 add_0_left)
  have eq: "cost_category_graduated n cur p cat m = (cost, cur + n)"
    using run S by (simp add: cost_category_graduated_def)
  show thesis by (rule that [OF eq bound])
qed

text \<open>
  C14: graduated billing agrees with charging token by token. For a model of a valid catalog the
  loop ends, moves the monthly position by exactly the tokens charged, and its cost differs from
  the sum, over the tokens, of the rate of the tier that token's position falls in by at most
  half a micro-dollar for each tier.
\<close>

theorem graduated_token_by_token:
  assumes "valid_pricing p" and "0 \<le> n"
  shows "\<exists>cost. cost_category_graduated n cur p cat m = (cost, cur + n)
    \<and> \<bar>of_int cost - token_by_token p cat m cur (nat n)\<bar> \<le> of_nat (max 1 (length (tiers p))) / 2"
  using category_spec [OF valid_open_ended [OF assms(1)] assms(2)] by metis

section \<open>Quotes are never negative\<close>

lemma rate_nonneg: "tier_prices_ok t \<Longrightarrow> 0 \<le> m \<Longrightarrow> 0 \<le> rate_for t cat m"
  by (cases cat) (auto simp: tier_prices_ok_def)

lemma tier_at_ok:
  assumes "valid_pricing p"
  shows "tier_prices_ok (tier_at_token p i)"
proof (cases "tiers p = []")
  case True
  then show ?thesis
    using assms by (simp add: tier_at_token_def flat_tier_def tier_prices_ok_def valid_pricing_def)
next
  case False
  then have "tier_at_token p i \<in> set (tiers p)"
    using find_tier_fits tier_at_cases [OF valid_open_ended [OF assms]] by blast
  then show ?thesis using assms by (auto simp: valid_pricing_def tiers_ok_def)
qed

lemma chunk_ok:
  assumes "valid_pricing p" and "0 < rem" and "chunk p cur rem = (t, cap)"
  shows "tier_prices_ok t"
  using chunk_spec(1) [OF valid_open_ended [OF assms(1)] assms(2,3)] tier_at_ok [OF assms(1)] by simp

lemma graduated_loop_nonneg:
  assumes "valid_pricing p" and "0 \<le> m" and "0 \<le> cost"
  shows "0 \<le> fst (graduated_loop p cat m rem cur cost)"
  using assms
proof (induction p cat m rem cur cost rule: graduated_loop.induct)
  case (1 p cat m rem cur cost)
  show ?case
  proof (cases "0 < rem")
    case False
    have "graduated_loop p cat m rem cur cost = (cost, cur)"
      using False by (subst graduated_loop.simps) simp
    with 1(4) show ?thesis by simp
  next
    case True
    obtain t cap where ch: "chunk p cur rem = (t, cap)" by fastforce
    have "0 \<le> of_int cap * rate_for t cat m"
      using rate_nonneg chunk_ok [OF 1(2) True ch] 1(3) chunk_pos [OF True ch] by simp
    then have "0 \<le> cost + py_round (of_int cap * rate_for t cat m)"
      using py_round_nonneg 1(4) by fastforce
    from 1(1) [OF True ch [symmetric] 1(2,3) this] True ch show ?thesis
      by (subst graduated_loop.simps) simp
  qed
qed

lemma cost_graduated_nonneg:
  assumes "valid_pricing p" and "0 \<le> m"
  shows "0 \<le> cost_graduated e p before m"
proof -
  have "0 \<le> snd (fold (\<lambda>cat (cursor, cost).
        case cost_category_graduated (tokens_of e cat) cursor p cat m of
          (chunk_cost, cursor') \<Rightarrow> (cursor', cost + chunk_cost)) cats (cur, acc))"
    if "0 \<le> acc" for cats cur acc
    using that
  proof (induction cats arbitrary: cur acc)
    case (Cons c cats)
    obtain ch cur' where g: "cost_category_graduated (tokens_of e c) cur p c m = (ch, cur')" by fastforce
    have "0 \<le> ch"
      using graduated_loop_nonneg [OF assms, of 0 c "tokens_of e c" cur] g
      by (simp add: cost_category_graduated_def)
    with Cons g show ?case by simp
  qed simp
  then show ?thesis by (simp add: cost_graduated_def)
qed

lemma cost_at_tier_nonneg:
  assumes "tier_prices_ok t" and "0 \<le> m" and "\<And>cat. 0 \<le> tokens_of e cat"
  shows "0 \<le> cost_at_tier e t m"
proof -
  have "0 \<le> inputTokens e" "0 \<le> outputTokens e" "0 \<le> cacheReadTokens e" "0 \<le> reasoningTokens e"
    "0 \<le> cacheWriteTokens e" "0 \<le> embeddingTokens e"
    using assms(3) [of CatInput] assms(3) [of CatOutput] assms(3) [of CacheRead]
      assms(3) [of Reasoning] assms(3) [of CacheWrite] assms(3) [of Embedding] by simp_all
  then show ?thesis
    using assms(1,2) unfolding cost_at_tier_def tier_prices_ok_def
    by (intro add_nonneg_nonneg py_round_nonneg mult_nonneg_nonneg) simp_all
qed

lemma quote_nonneg:
  assumes "valid_catalog c" and "quote_usd c q before = Inr usd"
  shows "0 \<le> usd"
proof -
  obtain e micro p where e: "\<And>cat. 0 \<le> tokens_of e cat" and p: "pricing_of c (modelId e) = Inr p"
    and micro: "calculate_cost_micro c e before = Inr micro" and usd: "usd = of_int micro / 1000000"
  proof -
    let ?e = "\<lparr>modelId = (if modelId q = [] then ''unknown'' else modelId q),
        inputTokens = max 0 (inputTokens q), outputTokens = max 0 (outputTokens q),
        cacheReadTokens = max 0 (cacheReadTokens q), reasoningTokens = max 0 (reasoningTokens q),
        cacheWriteTokens = max 0 (cacheWriteTokens q), embeddingTokens = max 0 (embeddingTokens q)\<rparr>"
    have nn: "0 \<le> tokens_of ?e cat" for cat by (cases cat) simp_all
    obtain micro where m: "calculate_cost_micro c ?e before = Inr micro" and u: "usd = of_int micro / 1000000"
      using assms(2) unfolding quote_usd_def by auto
    obtain p where p: "pricing_of c (modelId ?e) = Inr p"
      using m unfolding calculate_cost_micro_def by auto
    show thesis by (rule that [OF nn p m u])
  qed
  note V = pricing_of_valid [OF assms(1) p]
  have mult: "0 \<le> cache_read_multiplier c" using assms(1) by (simp add: valid_catalog_def)
  have "0 \<le> micro"
    using micro p cost_graduated_nonneg [OF V mult, of e before]
      cost_at_tier_nonneg [OF tier_at_ok [OF V] mult e, of before]
    by (auto simp: calculate_cost_micro_def split: if_splits)
  then show ?thesis by (simp add: usd)
qed

text \<open>
  holds are never free and never negative. With a catalog that loads, a quote of any event
  (even one with negative counts) is at least 0 USD, and an estimate for a completion at least a
  micro-dollar, so that a reservation for it is always for a positive amount.
\<close>

theorem quotes_positive:
  assumes "make_catalog doc = Inr c"
  shows "(case quote_usd c q before of Inl _ \<Rightarrow> True | Inr usd \<Rightarrow> 0 \<le> usd)
    \<and> (case estimate_completion_usd dflt c m mx est of Inl _ \<Rightarrow> True | Inr usd \<Rightarrow> 0 < usd)"
proof -
  have "case quote_usd c q before of Inl _ \<Rightarrow> True | Inr usd \<Rightarrow> 0 \<le> usd" for q before
    using quote_nonneg [OF make_catalog_valid [OF assms]] by (auto split: sum.splits)
  moreover have "case estimate_completion_usd dflt c m mx est of Inl _ \<Rightarrow> True | Inr usd \<Rightarrow> 0 < usd"
    by (auto simp: estimate_completion_usd_def Let_def less_max_iff_disj split: sum.splits)
  ultimately show ?thesis by blast
qed

section \<open>Normalising a model id\<close>

lemma first_prefix_cases:
  "first_prefix ps m = Inr w \<Longrightarrow> w = m \<or> (JStr w \<in> set ps \<and> prefix w m)"
  by (induction ps) (auto simp: startswith_def split: json.splits if_splits)

lemma first_prefix_again:
  "first_prefix ps m = Inr w \<Longrightarrow> first_prefix ps w = Inr w"
proof (induction ps)
  case (Cons p ps)
  from Cons.prems obtain v where v: "p = JStr v" by (auto split: json.splits)
  show ?case
  proof (cases "prefix v m")
    case True
    with Cons.prems v show ?thesis by (simp add: startswith_def)
  next
    case False
    with Cons.prems v have w: "first_prefix ps m = Inr w" by (simp add: startswith_def)
    then have "prefix w m" using first_prefix_cases by blast
    with False have "\<not> prefix v w" using prefix_order.trans by blast
    with v Cons.IH [OF w] show ?thesis by (simp add: startswith_def)
  qed
qed simp

text \<open>
  normalising a model id is idempotent, provided the catalog lists no empty prefix: the id
  an event is billed under is the id its later corrections are billed under.
\<close>

theorem normalize_idempotent:
  assumes "normalize_model_id c m = Inr w" and "JStr [] \<notin> set (prefix_models c)" and "m \<noteq> []"
  shows "normalize_model_id c w = Inr w"
proof (cases "map_of (models c) m = None")
  case False
  with assms show ?thesis by (auto simp: normalize_model_id_def)
next
  case True
  with assms have fp: "first_prefix (prefix_models c) m = Inr w" by (simp add: normalize_model_id_def)
  have "w \<noteq> []" using first_prefix_cases [OF fp] assms(2,3) by auto
  with first_prefix_again [OF fp] show ?thesis by (simp add: normalize_model_id_def)
qed

section \<open>A concrete catalog\<close>

definition demo_pricing :: model_pricing where
  "demo_pricing = \<lparr>pricing_mode = ''graduated'', input_per_m = 2, output_per_m = 6, embedding_per_m = 1 / 10,
     tiers = [\<lparr>up_to_tokens_m = Some 1, t_input_per_m = 2, t_output_per_m = 6, t_embedding_per_m = 1 / 10\<rparr>,
              \<lparr>up_to_tokens_m = None, t_input_per_m = 1, t_output_per_m = 3, t_embedding_per_m = 1 / 20\<rparr>]\<rparr>"

definition demo_doc :: json where
  "demo_doc = JObj
     [(''defaults'', JObj [(''input_per_m'', JInt 1), (''output_per_m'', JInt 3)]),
      (''models'', JObj [(''gpt'', JObj [(''tiers'', JArr [JObj [(''up_to_tokens_m'', JInt 1)], JObj []]),
                                    (''pricing_mode'', JStr ''graduated'')])]),
      (''prefix_models'', JArr [JStr ''gpt''])]"

definition demo_catalog :: catalog where
  "demo_catalog = ok_or \<lparr>version = JNull, cache_read_multiplier = 0, defaults = demo_pricing,
     models = [], prefix_models = []\<rparr> (make_catalog demo_doc)"

lemma demo_catalog_made: "make_catalog demo_doc = Inr demo_catalog"
proof -
  have "isOk (make_catalog demo_doc)"
    by (simp add: demo_doc_def make_catalog_def require_field_def fixed_field_def obj_items_def
        from_json_def read_tier_def read_mode_def Let_def json_true_def json_iter_def json_float_def)
  from isOk_ok_or [OF this] show ?thesis by (simp add: demo_catalog_def)
qed

theorem graduated_token_by_token_witness:
  "\<exists>cost. cost_category_graduated 3 999999 demo_pricing CatInput (1 / 2) = (cost, 1000002)
    \<and> \<bar>of_int cost - token_by_token demo_pricing CatInput (1 / 2) 999999 3\<bar> \<le> (1 :: rat)"
proof -
  have "valid_pricing demo_pricing"
    by (simp add: demo_pricing_def valid_pricing_def tiers_ok_def tier_prices_ok_def)
  from graduated_token_by_token [OF this, of 3 999999 CatInput "1 / 2"] show ?thesis
    by (simp add: demo_pricing_def)
qed

theorem quotes_positive_witness:
  "(case estimate_completion_usd 512 demo_catalog ''gpt'' None None of Inl _ \<Rightarrow> True | Inr usd \<Rightarrow> 0 < usd)"
  using quotes_positive [OF demo_catalog_made] by blast

theorem normalize_idempotent_witness:
  "normalize_model_id \<lparr>version = JNull, cache_read_multiplier = 0, defaults = demo_pricing,
     models = [], prefix_models = [JStr ''gpt'']\<rparr> ''gpt'' = Inr ''gpt''"
proof -
  let ?c = "\<lparr>version = JNull, cache_read_multiplier = 0, defaults = demo_pricing,
     models = [], prefix_models = [JStr ''gpt'']\<rparr>"
  have "normalize_model_id ?c ''gpt-4'' = Inr ''gpt''"
    by (simp add: normalize_model_id_def startswith_def)
  from normalize_idempotent [OF this] show ?thesis by simp
qed

end
