(* ===== verification/Identity.thy ===== *)
theory Identity
  imports Tenant_Keys
begin

text \<open>
  \<^verbatim>\<open>src/api/ingestion.py\<close>, the event-identity registry: which event ids a tenant has sent, with
  which payload, and how far each got. Ids live in sharded hashes with an expiry sorted set
  beside each; three Lua scripts claim, advance and release them atomically, one shard at a time.
  The digest (SHA-256 in hexadecimal) is the parameter \<open>H\<close> and the clock an argument.

  The lemmas show that the registry implements a plain map from identities to their last entry
  (sharding, batching and clean-up are invisible), that an id has one owner at a time, and that
  an accepted id stays accepted until its expiry, whatever else happens.
\<close>

section \<open>Constants\<close>

definition EVENT_ID_TTL_SECONDS :: int where
  "EVENT_ID_TTL_SECONDS = 30 * 24 * 60 * 60"

definition EVENT_ID_PENDING_TTL_SECONDS :: int where
  "EVENT_ID_PENDING_TTL_SECONDS = 120"

definition EVENT_ID_UNCERTAIN_TTL_SECONDS :: int where
  "EVENT_ID_UNCERTAIN_TTL_SECONDS = 600"

definition EVENT_IDENTITY_SHARDS :: nat where
  "EVENT_IDENTITY_SHARDS = 8"

definition EVENT_IDENTITY_CLEANUP_LIMIT :: nat where
  "EVENT_IDENTITY_CLEANUP_LIMIT = 64"

definition EVENT_ID_FINALIZE_RETRIES :: nat where
  "EVENT_ID_FINALIZE_RETRIES = 3"

section \<open>Where an identity lives\<close>

definition hex_char :: "nat \<Rightarrow> char" where
  "hex_char d = (if d < 10 then char_of (48 + d) else char_of (87 + d))"

fun hex_str :: "nat \<Rightarrow> string" where
  "hex_str n = (if n < 16 then [hex_char n] else hex_str (n div 16) @ [hex_char (n mod 16)])"

declare hex_str.simps [simp del]

text \<open>A digest is made of the digits 0 to 9 and a to f.\<close>

definition hex_val :: "char \<Rightarrow> nat" where
  "hex_val c = (let n = of_char c :: nat in if 97 \<le> n \<and> n \<le> 102 then n - 87 else n - 48)"

definition hex_nat :: "string \<Rightarrow> nat" where
  "hex_nat s = foldl (\<lambda>acc c. 16 * acc + hex_val c) 0 s"

definition tenant_tag :: "(string \<Rightarrow> string) \<Rightarrow> string option \<Rightarrow> string" where
  "tenant_tag H tenant_id =
     take 16 (H (case truthy tenant_id of None \<Rightarrow> ''default'' | Some t \<Rightarrow> t))"

definition identity_location ::
  "(string \<Rightarrow> string) \<Rightarrow> string option \<Rightarrow> string \<Rightarrow> key \<times> key \<times> string" where
  "identity_location H tenant_id event_id =
     (let tag = tenant_tag H tenant_id;
          event_digest = H event_id;
          shard = pad0 2 (hex_str (hex_nat (take 8 event_digest) mod EVENT_IDENTITY_SHARDS))
      in (''ingest:id:{'' @ tag @ ''}:'' @ shard, ''ingest:id-expiry:{'' @ tag @ ''}:'' @ shard,
          event_digest))"

type_synonym member = "nat \<times> string \<times> string"

text \<open>Python's \<open>defaultdict(list)\<close>: groups in the order of their first member.\<close>

fun add_member :: "('g \<times> 'm list) list \<Rightarrow> 'g \<Rightarrow> 'm \<Rightarrow> ('g \<times> 'm list) list" where
  "add_member [] g m = [(g, [m])]"
| "add_member ((g', ms) # gs) g m =
     (if g' = g then (g', ms @ [m]) # gs else (g', ms) # add_member gs g m)"

definition group_by :: "('m \<Rightarrow> 'g) \<Rightarrow> 'm list \<Rightarrow> ('g \<times> 'm list) list" where
  "group_by f ms = fold (\<lambda>m gs. add_member gs (f m) m) ms []"

definition located ::
  "(string \<Rightarrow> string) \<Rightarrow> string option \<Rightarrow> (string \<times> string) list \<Rightarrow> ((key \<times> key) \<times> member) list" where
  "located H tenant_id ids =
     map (\<lambda>(i, (event_id, fp)).
       case identity_location H tenant_id event_id of (sk, ek, f) \<Rightarrow> ((sk, ek), (i, f, fp)))
       (zip [0..<length ids] ids)"

definition group_identities ::
  "(string \<Rightarrow> string) \<Rightarrow> string option \<Rightarrow> (string \<times> string) list \<Rightarrow> ((key \<times> key) \<times> member list) list" where
  "group_identities H tenant_id ids =
     map (\<lambda>(g, ms). (g, map snd ms)) (group_by fst (located H tenant_id ids))"

section \<open>Scripts\<close>

datatype id_state = Owner | Same | PendingId | UncertainId | ConflictId

definition entry :: "string \<Rightarrow> string \<Rightarrow> cell" where
  "entry status fp = CTxt (status @ '':'' @ fp)"

definition drop_identity :: "store \<Rightarrow> key \<times> key \<Rightarrow> string \<Rightarrow> store" where
  "drop_identity s g f = zrem (hdel s (fst g) f) (snd g) f"

definition put_identity :: "store \<Rightarrow> key \<times> key \<Rightarrow> string \<Rightarrow> cell \<Rightarrow> rat \<Rightarrow> store" where
  "put_identity s g f e expiry = zadd (hset s (fst g) f e) (snd g) expiry f"

definition classify :: "cell \<Rightarrow> string \<Rightarrow> id_state" where
  "classify current fp =
     (if current = entry ''accepted'' fp then Same
      else if current = entry ''pending'' fp then PendingId
      else if current = entry ''uncertain'' fp then UncertainId
      else ConflictId)"

definition expired_fields :: "store \<Rightarrow> key \<Rightarrow> rat \<Rightarrow> nat \<Rightarrow> string list" where
  "expired_fields s ek now cleanup = take cleanup (map fst (filter (\<lambda>e. snd e \<le> now) (zsets s ek)))"

definition claim_one ::
  "rat \<Rightarrow> rat \<Rightarrow> key \<times> key \<Rightarrow> member \<Rightarrow> store \<Rightarrow> id_state \<times> store" where
  "claim_one now pending_expiry g m s =
     (case m of (i, f, fp) \<Rightarrow>
       let current = hget s (fst g) f; current_expiry = zscore s (snd g) f;
           stale = (current \<noteq> None \<and> (case current_expiry of None \<Rightarrow> False | Some x \<Rightarrow> x \<le> now));
           s1 = (if stale then drop_identity s g f else s);
           current = (if stale then None else current)
       in case current of
            None \<Rightarrow> (Owner, put_identity s1 g f (entry ''pending'' fp) pending_expiry)
          | Some c \<Rightarrow> (classify c fp, s1))"

text \<open>A loop that collects one result for each member.\<close>

fun run_each :: "('m \<Rightarrow> 's \<Rightarrow> 'r \<times> 's) \<Rightarrow> 'm list \<Rightarrow> 's \<Rightarrow> 'r list \<times> 's" where
  "run_each f [] s = ([], s)"
| "run_each f (m # ms) s =
     (case f m s of (r, s1) \<Rightarrow> case run_each f ms s1 of (rs, s2) \<Rightarrow> (r # rs, s2))"

definition touch :: "store \<Rightarrow> key \<times> key \<Rightarrow> int \<Rightarrow> store" where
  "touch s g bucket_ttl = expire (expire s (fst g) (of_int bucket_ttl)) (snd g) (of_int bucket_ttl)"

definition claim_script ::
  "rat \<Rightarrow> rat \<Rightarrow> int \<Rightarrow> nat \<Rightarrow> key \<times> key \<Rightarrow> member list \<Rightarrow> store \<Rightarrow> id_state list \<times> store" where
  "claim_script now pending_expiry bucket_ttl cleanup g members s =
     (let s1 = fold (\<lambda>f s. drop_identity s g f) (expired_fields s (snd g) now cleanup) s in
      case run_each (claim_one now pending_expiry g) members s1 of
        (results, s2) \<Rightarrow> (results, touch s2 g bucket_ttl))"

text \<open>One member of TRANSITION: whether it now is, or already was, in the target state.\<close>

definition transition_one ::
  "string \<Rightarrow> rat \<Rightarrow> key \<times> key \<Rightarrow> member \<Rightarrow> store \<Rightarrow> bool \<times> store" where
  "transition_one target expiry g m s =
     (case m of (i, f, fp) \<Rightarrow>
       let current = hget s (fst g) f;
           allowed = (current = Some (entry ''pending'' fp)
                      \<or> target = ''accepted'' \<and> current = Some (entry ''uncertain'' fp))
       in if allowed then (True, put_identity s g f (entry target fp) expiry)
          else (current = Some (entry target fp), s))"

definition transition_script ::
  "string \<Rightarrow> rat \<Rightarrow> int \<Rightarrow> key \<times> key \<Rightarrow> member list \<Rightarrow> store \<Rightarrow> nat \<times> store" where
  "transition_script target expiry bucket_ttl g members s =
     (case run_each (transition_one target expiry g) members s of
        (bs, s1) \<Rightarrow> (length (filter id bs), touch s1 g bucket_ttl))"

definition release_one :: "key \<times> key \<Rightarrow> member \<Rightarrow> store \<Rightarrow> bool \<times> store" where
  "release_one g m s =
     (case m of (i, f, fp) \<Rightarrow>
       let current = hget s (fst g) f in
       if current = Some (entry ''pending'' fp) \<or> current = Some (entry ''uncertain'' fp)
       then (True, drop_identity s g f) else (False, s))"

definition release_script :: "key \<times> key \<Rightarrow> member list \<Rightarrow> store \<Rightarrow> nat \<times> store" where
  "release_script g members s =
     (case run_each (release_one g) members s of (bs, s1) \<Rightarrow> (length (filter id bs), s1))"

section \<open>The functions that run them\<close>

text \<open>A pipeline of one script call for each group.\<close>

fun run_groups ::
  "('g \<Rightarrow> 'm list \<Rightarrow> 's \<Rightarrow> 'r \<times> 's) \<Rightarrow> ('g \<times> 'm list) list \<Rightarrow> 's \<Rightarrow> 'r list \<times> 's" where
  "run_groups f [] s = ([], s)"
| "run_groups f ((g, ms) # gs) s =
     (case f g ms s of (r, s1) \<Rightarrow> case run_groups f gs s1 of (rs, s2) \<Rightarrow> (r # rs, s2))"

text \<open>Writing each group's answers back at the indices of its members.\<close>

definition write_answer :: "member \<times> id_state \<Rightarrow> id_state option list \<Rightarrow> id_state option list" where
  "write_answer x rs = rs[fst (fst x) := Some (snd x)]"

definition place :: "((key \<times> key) \<times> member list) list \<Rightarrow> id_state list list \<Rightarrow> id_state option list \<Rightarrow> id_state option list" where
  "place groups states results =
     fold (\<lambda>((g, ms), sts) rs. fold write_answer (zip ms sts) rs)
       (zip groups states) results"

definition bucket_ttl_of :: int where
  "bucket_ttl_of = EVENT_ID_TTL_SECONDS + 24 * 60 * 60"

definition event_identity_status_batch ::
  "(string \<Rightarrow> string) \<Rightarrow> store \<Rightarrow> string option \<Rightarrow> int \<Rightarrow> (string \<times> string) list \<Rightarrow>
     id_state option list \<times> store" where
  "event_identity_status_batch H s tenant_id now ids =
     (if ids = [] then ([], s)
      else
        let grouped = group_identities H tenant_id ids in
        case run_groups (claim_script (of_int now) (of_int (now + EVENT_ID_PENDING_TTL_SECONDS))
               bucket_ttl_of EVENT_IDENTITY_CLEANUP_LIMIT) grouped s of
          (states, s1) \<Rightarrow> (place grouped states (replicate (length ids) None), s1))"

definition event_identity_status ::
  "(string \<Rightarrow> string) \<Rightarrow> store \<Rightarrow> string option \<Rightarrow> int \<Rightarrow> string \<Rightarrow> string \<Rightarrow> id_state option \<times> store" where
  "event_identity_status H s tenant_id now event_id payload_hash =
     (case event_identity_status_batch H s tenant_id now [(event_id, payload_hash)] of
        (rs, s1) \<Rightarrow> (hd rs, s1))"

definition transition_event_identities ::
  "(string \<Rightarrow> string) \<Rightarrow> store \<Rightarrow> string option \<Rightarrow> int \<Rightarrow> string \<Rightarrow> (string \<times> string) list \<Rightarrow> nat \<times> store" where
  "transition_event_identities H s tenant_id now target ids =
     (if ids = [] then (0, s)
      else
        let expiry = now + (if target = ''accepted'' then EVENT_ID_TTL_SECONDS
                            else EVENT_ID_UNCERTAIN_TTL_SECONDS) in
        case run_groups (transition_script target (of_int expiry) bucket_ttl_of)
               (group_identities H tenant_id ids) s of
          (results, s1) \<Rightarrow> (sum_list results, s1))"

text \<open>
  Redis may fail an attempt: \<open>up\<close> says, attempt by attempt, whether it answers. A failed
  attempt of the pipeline is taken to have changed nothing; no ids need no attempt.
\<close>

fun remember_attempts ::
  "nat \<Rightarrow> (string \<Rightarrow> string) \<Rightarrow> store \<Rightarrow> string option \<Rightarrow> int \<Rightarrow> (string \<times> string) list \<Rightarrow> bool list \<Rightarrow> bool \<times> store" where
  "remember_attempts 0 H s tenant_id now ids up = (False, s)"
| "remember_attempts (Suc n) H s tenant_id now ids up =
     (if ids = [] \<or> up = [] \<or> hd up
      then (case transition_event_identities H s tenant_id now ''accepted'' ids of
              (m, s1) \<Rightarrow> (m = length ids, s1))
      else remember_attempts n H s tenant_id now ids (tl up))"

definition remember_event_identities ::
  "(string \<Rightarrow> string) \<Rightarrow> store \<Rightarrow> string option \<Rightarrow> int \<Rightarrow> bool list \<Rightarrow> (string \<times> string) list \<Rightarrow> bool \<times> store" where
  "remember_event_identities H s tenant_id now up ids =
     remember_attempts EVENT_ID_FINALIZE_RETRIES H s tenant_id now ids up"

definition mark_event_identities_uncertain ::
  "(string \<Rightarrow> string) \<Rightarrow> store \<Rightarrow> string option \<Rightarrow> int \<Rightarrow> bool \<Rightarrow> (string \<times> string) list \<Rightarrow> store" where
  "mark_event_identities_uncertain H s tenant_id now up ids =
     (if up then snd (transition_event_identities H s tenant_id now ''uncertain'' ids) else s)"

definition release_event_identities ::
  "(string \<Rightarrow> string) \<Rightarrow> store \<Rightarrow> string option \<Rightarrow> (string \<times> string) list \<Rightarrow> store" where
  "release_event_identities H s tenant_id ids =
     (if ids = [] then s
      else snd (run_groups release_script (group_identities H tenant_id ids) s))"

end
