(* ===== verification/Identity_Facts.thy ===== *)
theory Identity_Facts
  imports Identity "HOL-Library.Multiset"
begin

text \<open>
  The registry seen as a map of cells: each script step acts on one cell (a locale), so batches
  split into shards give the same answers as one claim after another.
\<close>

section \<open>Steps that act on one cell\<close>

text \<open>
  The interface: \<open>step k a\<close> reads and writes only the cell \<open>k\<close> of the abstract map \<open>view\<close>, as
  \<open>act a\<close> says.
\<close>

definition act_at :: "('a \<Rightarrow> 'v \<Rightarrow> 'r \<times> 'v) \<Rightarrow> 'k \<times> 'a \<Rightarrow> ('k \<Rightarrow> 'v) \<Rightarrow> 'r \<times> ('k \<Rightarrow> 'v)" where
  "act_at act ka m = (case act (snd ka) (m (fst ka)) of (r, v) \<Rightarrow> (r, m(fst ka := v)))"

locale cell_step =
  fixes view :: "'s \<Rightarrow> 'k \<Rightarrow> 'v"
    and step :: "'k \<Rightarrow> 'a \<Rightarrow> 's \<Rightarrow> 'r \<times> 's"
    and act :: "'a \<Rightarrow> 'v \<Rightarrow> 'r \<times> 'v"
  assumes step_refines: "(fst (step k a s), view (snd (step k a s))) = act_at act (k, a) (view s)"
begin

lemma run_refines:
  "run_each (\<lambda>(k, a). step k a) xs s = (rs, s') \<Longrightarrow> run_each (act_at act) xs (view s) = (rs, view s')"
proof (induction xs arbitrary: s rs)
  case Nil
  then show ?case by simp
next
  case (Cons ka xs)
  obtain k a where ka: "ka = (k, a)" by fastforce
  obtain r s1 where st: "step k a s = (r, s1)" by fastforce
  obtain rs' where rest: "run_each (\<lambda>(k, a). step k a) xs s1 = (rs', s')" and rs: "rs = r # rs'"
    using Cons.prems by (auto simp: ka st split: prod.splits)
  have "act_at act (k, a) (view s) = (r, view s1)" using step_refines [of k a s] by (simp add: st)
  with Cons.IH [OF rest] show ?case by (simp add: ka rs)
qed

end

section \<open>Order only matters within a cell\<close>

text \<open>What a cell holds after a run, and the answer a member gets.\<close>

definition cell_after :: "('a \<Rightarrow> 'v \<Rightarrow> 'r \<times> 'v) \<Rightarrow> ('k \<times> 'a) list \<Rightarrow> 'k \<Rightarrow> 'v \<Rightarrow> 'v" where
  "cell_after act xs k v = fold (\<lambda>(k', a) v. snd (act a v)) (filter (\<lambda>ka. fst ka = k) xs) v"

lemma cell_after_simps [simp]:
  "cell_after act [] k v = v"
  "cell_after act ((k', a) # xs) k v = cell_after act xs k (if k' = k then snd (act a v) else v)"
  by (simp_all add: cell_after_def)

lemma run_each_length: "run_each f xs s = (rs, s') \<Longrightarrow> length rs = length xs"
  by (induction xs arbitrary: s rs) (auto split: prod.splits)

lemma run_act_cell: "run_each (act_at act) xs m = (rs, m') \<Longrightarrow> m' k = cell_after act xs k (m k)"
proof (induction xs arbitrary: m rs)
  case (Cons ka xs)
  then show ?case by (cases ka) (auto simp: act_at_def split: prod.splits)
qed simp

lemma run_act_result:
  "run_each (act_at act) xs m = (rs, m') \<Longrightarrow> i < length xs \<Longrightarrow>
     rs ! i = fst (act (snd (xs ! i)) (cell_after act (take i xs) (fst (xs ! i)) (m (fst (xs ! i)))))"
proof (induction xs arbitrary: m rs i)
  case (Cons ka xs)
  obtain k a where ka: "ka = (k, a)" by fastforce
  obtain r v where act: "act a (m k) = (r, v)" by fastforce
  have step: "act_at act ka m = (r, m(k := v))" by (simp add: act_at_def ka act)
  obtain rs' where rest: "run_each (act_at act) xs (m(k := v)) = (rs', m')" and rs: "rs = r # rs'"
    using Cons.prems(1) by (auto simp: step split: prod.splits)
  show ?case
  proof (cases i)
    case 0
    then show ?thesis by (simp add: rs ka act)
  next
    case (Suc j)
    then show ?thesis
      using Cons.IH [OF rest, of j] Cons.prems(2) act by (cases "k = fst (xs ! j)") (auto simp: rs ka)
  qed
qed simp

text \<open>Members carry their index; the prefix before an index, within a cell.\<close>

lemma takeWhile_filter:
  "(\<And>x. x \<in> set xs \<Longrightarrow> \<not> Q x \<Longrightarrow> P x) \<Longrightarrow> takeWhile Q (filter P xs) = filter P (takeWhile Q xs)"
  by (induction xs) auto

lemma takeWhile_take:
  "distinct (map g xs) \<Longrightarrow> i < length xs \<Longrightarrow> takeWhile (\<lambda>x. g x \<noteq> g (xs ! i)) xs = take i xs"
proof (induction xs arbitrary: i)
  case (Cons x xs)
  then show ?case by (cases i) (auto simp: nth_mem)
qed simp

text \<open>
  Two orders of the same indexed members that agree within each cell give each member the same
  answer and each cell the same value.
\<close>

lemma order_irrelevant:
  fixes xs ys :: "(nat \<times> 'k \<times> 'a) list"
  assumes "distinct (map fst xs)" and "distinct (map fst ys)"
    and same: "\<And>k. filter (\<lambda>m. fst (snd m) = k) xs = filter (\<lambda>m. fst (snd m) = k) ys"
    and rx: "run_each (act_at act) (map snd xs) m = (rs, m1)"
    and ry: "run_each (act_at act) (map snd ys) m = (qs, m2)"
  shows "m1 = m2"
    and "i < length xs \<Longrightarrow> j < length ys \<Longrightarrow> fst (xs ! i) = fst (ys ! j) \<Longrightarrow> rs ! i = qs ! j"
proof -
  have cells: "cell_after act (map snd zs) k v
      = fold (\<lambda>(k', a) v. snd (act a v)) (map snd (filter (\<lambda>m. fst (snd m) = k) zs)) v" for zs k v
    by (simp add: cell_after_def filter_map comp_def)
  show "m1 = m2"
    using run_act_cell [OF rx] run_act_cell [OF ry] same by (intro ext) (simp add: cells)
  assume i: "i < length xs" and j: "j < length ys" and ij: "fst (xs ! i) = fst (ys ! j)"
  let ?k = "fst (snd (xs ! i))" and ?n = "fst (xs ! i)"
  have "xs ! i \<in> set (filter (\<lambda>m. fst (snd m) = ?k) xs)" using i by simp
  then have "xs ! i \<in> set ys" unfolding same by simp
  then have eq: "xs ! i = ys ! j"
    using assms(2) j ij nth_mem [OF j] by (metis distinct_map inj_onD)
  have pre: "filter (\<lambda>m. fst (snd m) = ?k) (take i' zs)
      = takeWhile (\<lambda>m. fst m \<noteq> ?n) (filter (\<lambda>m. fst (snd m) = ?k) zs)"
    if "distinct (map fst zs)" "i' < length zs" "zs ! i' = xs ! i" for zs i'
  proof -
    have uniq: "x = zs ! i'" if "x \<in> set zs" "fst x = ?n" for x
      using that \<open>distinct (map fst zs)\<close> \<open>i' < length zs\<close> \<open>zs ! i' = xs ! i\<close>
      by (metis distinct_map inj_onD nth_mem)
    have "takeWhile (\<lambda>m. fst m \<noteq> ?n) (filter (\<lambda>m. fst (snd m) = ?k) zs)
        = filter (\<lambda>m. fst (snd m) = ?k) (takeWhile (\<lambda>m. fst m \<noteq> ?n) zs)"
      by (intro takeWhile_filter) (metis uniq that(3))
    also have "takeWhile (\<lambda>m. fst m \<noteq> ?n) zs = take i' zs"
      using takeWhile_take [OF that(1,2)] that(3) by simp
    finally show ?thesis by simp
  qed
  have "cell_after act (take i (map snd xs)) ?k v = cell_after act (take j (map snd ys)) ?k v" for v
    using pre [OF assms(1) i refl] pre [OF assms(2) j eq [symmetric]] same [of ?k]
    by (simp add: take_map cells)
  then show "rs ! i = qs ! j"
    using run_act_result [OF rx, of i] run_act_result [OF ry, of j] i j eq by simp
qed

section \<open>Grouping\<close>

definition groups_ok :: "('m \<Rightarrow> 'g) \<Rightarrow> ('g \<times> 'm list) list \<Rightarrow> bool" where
  "groups_ok f gs \<longleftrightarrow> distinct (map fst gs) \<and> (\<forall>(g, ms) \<in> set gs. \<forall>m \<in> set ms. f m = g)"

lemma add_member_keys: "fst ` set (add_member gs g m) = insert g (fst ` set gs)"
  by (induction gs g m rule: add_member.induct) auto

lemma add_member_ok: "groups_ok f gs \<Longrightarrow> groups_ok f (add_member gs (f m) m)"
proof (induction gs)
  case (Cons x gs)
  obtain g ms where x: "x = (g, ms)" by fastforce
  have ok: "groups_ok f gs" using Cons.prems by (auto simp: groups_ok_def x)
  show ?case
  proof (cases "g = f m")
    case True
    with Cons.prems show ?thesis by (auto simp: groups_ok_def x)
  next
    case False
    with Cons.IH [OF ok] Cons.prems show ?thesis
      using add_member_keys [of gs "f m" m] by (auto simp: groups_ok_def x)
  qed
qed (simp add: groups_ok_def)

lemma add_member_filter:
  "groups_ok f gs \<Longrightarrow> filter (\<lambda>x. f x = g \<and> Q x) (concat (map snd (add_member gs (f m) m)))
     = filter (\<lambda>x. f x = g \<and> Q x) (concat (map snd gs)) @ (if f m = g \<and> Q m then [m] else [])"
proof (induction gs)
  case (Cons x gs)
  obtain g' ms where x: "x = (g', ms)" by fastforce
  have ok: "groups_ok f gs" and all: "\<forall>y \<in> set ms. f y = g'"
    using Cons.prems by (auto simp: groups_ok_def x)
  have new: "f y \<noteq> g'" if y: "y \<in> set (concat (map snd gs))" for y
  proof -
    from y obtain g2 ms2 where "(g2, ms2) \<in> set gs" "y \<in> set ms2" by auto
    then have "f y = g2" "g2 \<in> fst ` set gs" using ok by (auto simp: groups_ok_def intro: rev_image_eqI)
    then show ?thesis using Cons.prems by (auto simp: groups_ok_def x)
  qed
  show ?case
  proof (cases "g' = f m")
    case True
    then have "f m = g \<Longrightarrow> filter (\<lambda>x. f x = g \<and> Q x) (concat (map snd gs)) = []"
      using new by (auto simp: filter_empty_conv)
    with True show ?thesis by (auto simp: x)
  next
    case False
    with Cons.IH [OF ok] show ?thesis by (simp add: x)
  qed
qed simp

lemma add_member_mset: "mset (concat (map snd (add_member gs g m))) = add_mset m (mset (concat (map snd gs)))"
  by (induction gs g m rule: add_member.induct) auto

lemma group_by_snoc: "group_by f (ms @ [m]) = add_member (group_by f ms) (f m) m"
  by (simp add: group_by_def)

lemma group_by_ok: "groups_ok f (group_by f ms)"
proof (induction ms rule: rev_induct)
  case Nil
  then show ?case by (simp add: group_by_def groups_ok_def)
qed (simp add: group_by_snoc add_member_ok)

lemma group_by_filter:
  "filter (\<lambda>x. f x = g \<and> Q x) (concat (map snd (group_by f ms))) = filter (\<lambda>x. f x = g \<and> Q x) ms"
proof (induction ms rule: rev_induct)
  case Nil
  then show ?case by (simp add: group_by_def)
qed (simp add: group_by_snoc add_member_filter [OF group_by_ok])

lemma group_by_mset: "mset (concat (map snd (group_by f ms))) = mset ms"
proof (induction ms rule: rev_induct)
  case Nil
  then show ?case by (simp add: group_by_def)
qed (simp add: group_by_snoc add_member_mset)

section \<open>The registry as a map of cells\<close>

definition bucket :: "string \<Rightarrow> key \<times> key" where
  "bucket w = (''ingest:id:'' @ w, ''ingest:id-expiry:'' @ w)"

definition bucket_name :: "key \<times> key \<Rightarrow> string" where
  "bucket_name g = drop 10 (fst g)"

lemma bucket_simps [simp]:
  "fst (bucket w) = fst (bucket w') \<longleftrightarrow> w = w'" "snd (bucket w) = snd (bucket w') \<longleftrightarrow> w = w'"
  "bucket w = bucket w' \<longleftrightarrow> w = w'" "bucket_name (bucket w) = w"
  by (auto simp: bucket_def bucket_name_def)

definition shard_name :: "(string \<Rightarrow> string) \<Rightarrow> string option \<Rightarrow> string \<Rightarrow> string" where
  "shard_name H t e = ''{'' @ tenant_tag H t @ ''}:''
     @ pad0 2 (hex_str (hex_nat (take 8 (H e)) mod EVENT_IDENTITY_SHARDS))"

type_synonym cell_id = "string \<times> string"

definition cell_of :: "(string \<Rightarrow> string) \<Rightarrow> string option \<Rightarrow> string \<Rightarrow> cell_id" where
  "cell_of H t e = (shard_name H t e, H e)"

lemma identity_location_bucket:
  "identity_location H t e = (fst (bucket (shard_name H t e)), snd (bucket (shard_name H t e)), H e)"
  by (simp add: identity_location_def bucket_def shard_name_def Let_def)

type_synonym slot = "cell option \<times> rat option"

definition raw :: "store \<Rightarrow> cell_id \<Rightarrow> slot" where
  "raw s k = (hget s (fst (bucket (fst k))) (snd k), zscore s (snd (bucket (fst k))) (snd k))"

text \<open>An entry past its expiry counts as absent.\<close>

definition fresh :: "rat \<Rightarrow> slot \<Rightarrow> slot" where
  "fresh now v = (if fst v \<noteq> None \<and> (case snd v of None \<Rightarrow> False | Some x \<Rightarrow> x \<le> now) then (None, None)
                  else if fst v = None then (None, None) else v)"

definition live :: "rat \<Rightarrow> store \<Rightarrow> cell_id \<Rightarrow> slot" where
  "live now s k = fresh now (raw s k)"

lemma raw_drop: "raw (drop_identity s (bucket w) f) k = (if k = (w, f) then (None, None) else raw s k)"
  by (cases k) (auto simp: raw_def drop_identity_def)

lemma raw_put: "raw (put_identity s (bucket w) f e x) k = (if k = (w, f) then (Some e, Some x) else raw s k)"
  by (cases k) (auto simp: raw_def put_identity_def)

lemma raw_hget: "hget s (fst (bucket w)) f = fst (raw s (w, f))"
  and raw_zscore: "zscore s (snd (bucket w)) f = snd (raw s (w, f))"
  by (simp_all add: raw_def)

lemma raw_touch [simp]: "raw (touch s g n) k = raw s k"
  by (simp add: raw_def touch_def)

definition claim_cell :: "rat \<Rightarrow> rat \<Rightarrow> string \<Rightarrow> slot \<Rightarrow> id_state \<times> slot" where
  "claim_cell now pending_expiry fp v =
     (case fst (fresh now v) of
        None \<Rightarrow> (Owner, (Some (entry ''pending'' fp), Some pending_expiry))
      | Some c \<Rightarrow> (classify c fp, v))"

definition transition_cell :: "string \<Rightarrow> rat \<Rightarrow> string \<Rightarrow> slot \<Rightarrow> bool \<times> slot" where
  "transition_cell target expiry fp v =
     (if fst v = Some (entry ''pending'' fp) \<or> target = ''accepted'' \<and> fst v = Some (entry ''uncertain'' fp)
      then (True, (Some (entry target fp), Some expiry))
      else (fst v = Some (entry target fp), v))"

definition release_cell :: "string \<Rightarrow> slot \<Rightarrow> bool \<times> slot" where
  "release_cell fp v =
     (if fst v = Some (entry ''pending'' fp) \<or> fst v = Some (entry ''uncertain'' fp)
      then (True, (None, None)) else (False, v))"

lemma raw_claim:
  assumes "claim_one now pe (bucket w) (i, f, fp) s = (r, s')"
  shows "r = fst (claim_cell now pe fp (raw s (w, f)))"
    and "raw s' k = (if k = (w, f) then snd (claim_cell now pe fp (raw s (w, f))) else raw s k)"
  using assms
  by (auto simp: claim_one_def claim_cell_def fresh_def Let_def raw_drop raw_put raw_hget raw_zscore
      split: if_splits option.splits)

interpretation transitions: cell_step raw
    "\<lambda>(w, f) fp. transition_one target expiry (bucket w) (0, f, fp)" "transition_cell target expiry" for target expiry
  by unfold_locales
    (auto simp: transition_one_def transition_cell_def act_at_def raw_put raw_hget Let_def fun_eq_iff split: if_splits)

interpretation releases: cell_step raw
    "\<lambda>(w, f) fp. release_one (bucket w) (0, f, fp)" release_cell
  by unfold_locales
    (auto simp: release_one_def release_cell_def act_at_def raw_drop raw_hget Let_def fun_eq_iff split: if_splits)

text \<open>Claims, seen on the entries that have not expired; a new claim lasts for two minutes.\<close>

definition pending_until :: "rat \<Rightarrow> rat" where
  "pending_until now = now + of_int EVENT_ID_PENDING_TTL_SECONDS"

lemma pending_until_later [simp]: "now < pending_until now" "\<not> pending_until now \<le> now"
  by (simp_all add: pending_until_def EVENT_ID_PENDING_TTL_SECONDS_def)

definition claim_live :: "rat \<Rightarrow> string \<Rightarrow> slot \<Rightarrow> id_state \<times> slot" where
  "claim_live now fp v =
     (case fst v of
        None \<Rightarrow> (Owner, (Some (entry ''pending'' fp), Some (pending_until now)))
      | Some c \<Rightarrow> (classify c fp, v))"

lemma fresh_idem: "fst (fresh now v) = Some c \<Longrightarrow> fresh now v = v"
  by (auto simp: fresh_def split: if_splits)

lemma claim_cell_live:
  "fst (claim_cell now (pending_until now) fp v) = fst (claim_live now fp (fresh now v))"
  "fresh now (snd (claim_cell now (pending_until now) fp v)) = snd (claim_live now fp (fresh now v))"
proof -
  have "fst (claim_cell now (pending_until now) fp v) = fst (claim_live now fp (fresh now v))
    \<and> fresh now (snd (claim_cell now (pending_until now) fp v)) = snd (claim_live now fp (fresh now v))"
  proof (cases "fst (fresh now v)")
    case None
    then show ?thesis by (simp add: claim_cell_def claim_live_def) (simp add: fresh_def)
  next
    case (Some c)
    from fresh_idem [OF this] Some show ?thesis by (simp add: claim_cell_def claim_live_def)
  qed
  then show "fst (claim_cell now (pending_until now) fp v) = fst (claim_live now fp (fresh now v))"
    and "fresh now (snd (claim_cell now (pending_until now) fp v)) = snd (claim_live now fp (fresh now v))"
    by simp_all
qed

interpretation claims: cell_step "live now"
    "\<lambda>(w, f) fp. claim_one now (pending_until now) (bucket w) (0, f, fp)" "claim_live now" for now
proof
  fix k :: cell_id and fp s
  obtain w f where k: "k = (w, f)" by fastforce
  obtain r s' where run: "claim_one now (pending_until now) (bucket w) (0, f, fp) s = (r, s')" by fastforce
  show "(fst ((\<lambda>(w, f) fp. claim_one now (pending_until now) (bucket w) (0, f, fp)) k fp s),
      live now (snd ((\<lambda>(w, f) fp. claim_one now (pending_until now) (bucket w) (0, f, fp)) k fp s)))
    = act_at (claim_live now) (k, fp) (live now s)"
    using raw_claim [OF run] claim_cell_live [of now fp "raw s (w, f)"]
    by (auto simp: k run act_at_def live_def fun_eq_iff split: prod.splits)
qed

section \<open>A batch answers like one claim after another\<close>

lemma live_touch [simp]: "live now (touch s g n) = live now s"
  by (simp add: live_def fun_eq_iff)

lemma expired_score: "f \<in> set (expired_fields s (snd (bucket w)) now n) \<Longrightarrow> zwf (zsets s (snd (bucket w))) \<Longrightarrow>
    \<exists>x. snd (raw s (w, f)) = Some x \<and> x \<le> now"
  by (fastforce simp: expired_fields_def raw_def zscore_def zwf_def dest: in_set_takeD)

text \<open>The clean-up drops entries that have expired, and nothing else.\<close>

lemma drop_all_raw:
  "raw (fold (\<lambda>f s. drop_identity s (bucket w) f) fs s) k
     = (if fst k = w \<and> snd k \<in> set fs then (None, None) else raw s k)"
  by (induction fs arbitrary: s) (auto simp: raw_drop prod_eq_iff)

lemma cleanup_live:
  assumes "zwf (zsets s (snd (bucket w)))"
  shows "live now (fold (\<lambda>f s. drop_identity s (bucket w) f) (expired_fields s (snd (bucket w)) now n) s)
    = live now s"
proof
  fix k :: cell_id
  show "live now (fold (\<lambda>f s. drop_identity s (bucket w) f) (expired_fields s (snd (bucket w)) now n) s) k
    = live now s k"
    using expired_score [OF _ assms, of "snd k" now n]
    by (cases k) (auto simp: live_def drop_all_raw fresh_def)
qed

definition zwf_all :: "store \<Rightarrow> bool" where
  "zwf_all s \<longleftrightarrow> (\<forall>k. zwf (zsets s k))"

lemma zwf_all_drop: "zwf_all s \<Longrightarrow> zwf_all (drop_identity s g f)"
  by (simp add: zwf_all_def drop_identity_def zwf_filter)

lemma zwf_all_put: "zwf_all s \<Longrightarrow> zwf_all (put_identity s g f e x)"
  by (simp add: zwf_all_def put_identity_def zwf_insort)

lemma zwf_all_touch [simp]: "zwf_all (touch s g n) = zwf_all s"
  by (simp add: zwf_all_def touch_def)

lemma zwf_all_drops: "zwf_all s \<Longrightarrow> zwf_all (fold (\<lambda>f s. drop_identity s g f) fs s)"
  by (induction fs arbitrary: s) (simp_all add: zwf_all_drop)

lemma zwf_all_claim: "zwf_all s \<Longrightarrow> zwf_all (snd (claim_one now pe g m s))"
  by (cases m) (auto simp: claim_one_def Let_def zwf_all_drop zwf_all_put split: option.splits)

lemma zwf_all_transition: "zwf_all s \<Longrightarrow> zwf_all (snd (transition_one target x g m s))"
  by (cases m) (auto simp: transition_one_def Let_def zwf_all_put)

lemma zwf_all_release: "zwf_all s \<Longrightarrow> zwf_all (snd (release_one g m s))"
  by (cases m) (auto simp: release_one_def Let_def zwf_all_drop)

lemma run_each_keeps:
  "(\<And>m s. P s \<Longrightarrow> P (snd (f m s))) \<Longrightarrow> P s \<Longrightarrow> P (snd (run_each f ms s))"
proof (induction ms arbitrary: s)
  case (Cons m ms)
  obtain r s1 where "f m s = (r, s1)" by fastforce
  with Cons.prems(1) [OF Cons.prems(2), of m] have "P s1" by simp
  with Cons.IH [OF Cons.prems(1) this] \<open>f m s = (r, s1)\<close> show ?case by (auto split: prod.splits)
qed simp

lemma run_each_map: "run_each f (map g xs) s = run_each (\<lambda>x. f (g x)) xs s"
  by (induction xs arbitrary: s) simp_all

lemma run_each_append:
  "run_each f (xs @ ys) s = (case run_each f xs s of (rs, s1) \<Rightarrow> case run_each f ys s1 of (qs, s2) \<Rightarrow> (rs @ qs, s2))"
  by (induction xs arbitrary: s) (auto split: prod.splits)

definition cells :: "string \<Rightarrow> member list \<Rightarrow> (cell_id \<times> string) list" where
  "cells w ms = map (\<lambda>(i, f, fp). ((w, f), fp)) ms"

lemma claim_each:
  "run_each (claim_one now pe (bucket w)) ms s
     = run_each (\<lambda>(k, fp). (\<lambda>(w, f) fp. claim_one now pe (bucket w) (0, f, fp)) k fp) (cells w ms) s"
  unfolding cells_def run_each_map
  by (rule arg_cong [where f = "\<lambda>f. run_each f ms s"]) (auto simp: fun_eq_iff claim_one_def)

lemma claim_script_live:
  assumes "zwf_all s" and "claim_script now (pending_until now) bt n (bucket w) ms s = (rs, s')"
  shows "run_each (act_at (claim_live now)) (cells w ms) (live now s) = (rs, live now s') \<and> zwf_all s'"
proof -
  let ?s1 = "fold (\<lambda>f s. drop_identity s (bucket w) f) (expired_fields s (snd (bucket w)) now n) s"
  obtain s2 where run: "run_each (claim_one now (pending_until now) (bucket w)) ms ?s1 = (rs, s2)"
    and s': "s' = touch s2 (bucket w) bt"
    using assms(2) by (auto simp: claim_script_def Let_def split: prod.splits)
  have "zwf_all s2"
    using run_each_keeps [of zwf_all "claim_one now (pending_until now) (bucket w)" ?s1 ms]
      zwf_all_claim zwf_all_drops [OF assms(1)] run by auto
  moreover have "live now ?s1 = live now s"
    using assms(1) by (intro cleanup_live) (simp add: zwf_all_def)
  ultimately show ?thesis
    using claims.run_refines [OF run [unfolded claim_each]] s' by simp
qed

definition all_buckets :: "((key \<times> key) \<times> 'm) list \<Rightarrow> bool" where
  "all_buckets gs \<longleftrightarrow> (\<forall>g \<in> fst ` set gs. \<exists>w. g = bucket w)"

lemma claim_groups_live:
  assumes "zwf_all s" and "all_buckets gs"
    and "run_groups (claim_script now (pending_until now) bt n) gs s = (states, s')"
  shows "run_each (act_at (claim_live now)) (concat (map (\<lambda>(g, ms). cells (bucket_name g) ms) gs)) (live now s)
      = (concat states, live now s') \<and> map length states = map (\<lambda>(g, ms). length ms) gs"
  using assms
proof (induction gs arbitrary: s states)
  case Nil
  then show ?case by simp
next
  case (Cons gm gs)
  obtain w ms where gm: "gm = (bucket w, ms)"
    using Cons.prems(2) by (cases gm) (auto simp: all_buckets_def)
  obtain r s1 where one: "claim_script now (pending_until now) bt n (bucket w) ms s = (r, s1)" by fastforce
  obtain rs where rest: "run_groups (claim_script now (pending_until now) bt n) gs s1 = (rs, s')"
    and states: "states = r # rs"
    using Cons.prems(3) by (auto simp: gm one split: prod.splits)
  note O = claim_script_live [OF Cons.prems(1) one]
  have "all_buckets gs" using Cons.prems(2) by (simp add: all_buckets_def)
  from Cons.IH [OF _ this rest] O
  have I: "run_each (act_at (claim_live now)) (concat (map (\<lambda>(g, ms). cells (bucket_name g) ms) gs)) (live now s1)
      = (concat rs, live now s')" "map length rs = map (\<lambda>(g, ms). length ms) gs" by auto
  have "length r = length ms"
    using run_each_length [of "act_at (claim_live now)" "cells w ms" "live now s" r "live now s1"] O
    by (simp add: cells_def)
  with O I show ?case by (simp add: gm states run_each_append)
qed

section \<open>Writing the answers back\<close>

lemma place_concat:
  "map length states = map (\<lambda>(g, ms). length ms) gs \<Longrightarrow>
   place gs states rs = fold write_answer (zip (concat (map snd gs)) (concat states)) rs"
proof (induction gs arbitrary: states rs)
  case Nil
  then show ?case by (simp add: place_def)
next
  case (Cons gm gs)
  obtain g ms where gm: "gm = (g, ms)" by fastforce
  obtain st sts where states: "states = st # sts" "length st = length ms"
    and rest: "map length sts = map (\<lambda>(g, ms). length ms) gs"
    using Cons.prems by (cases states) (auto simp: gm)
  have "place (gm # gs) states rs
      = place gs sts (fold write_answer (zip ms st) rs)"
    by (simp add: place_def gm states)
  then show ?case using Cons.IH [OF rest] states(2) by (simp add: gm states)
qed

lemma fold_update_nth:
  "distinct (map (\<lambda>x. fst (fst x)) zs) \<Longrightarrow> j < length zs \<Longrightarrow> fst (fst (zs ! j)) < length rs \<Longrightarrow>
     fold write_answer zs rs ! fst (fst (zs ! j)) = Some (snd (zs ! j))"
proof (induction zs arbitrary: rs j)
  case (Cons z zs)
  obtain m st where z: "z = (m, st)" by fastforce
  have first: "write_answer (m, st) rs = rs[fst m := Some st]" by (simp add: write_answer_def)
  have other: "fold write_answer ys rs ! i = rs ! i"
    if "i \<notin> (\<lambda>x. fst (fst x)) ` set ys" for ys rs i
    using that by (induction ys arbitrary: rs) (auto simp: write_answer_def)
  show ?case
  proof (cases j)
    case 0
    then show ?thesis using other [of "fst m" zs "rs[fst m := Some st]"] Cons.prems by (auto simp: z first)
  next
    case (Suc k)
    then show ?thesis using Cons.IH [of k "rs[fst m := Some st]"] Cons.prems by (simp add: z first)
  qed
qed simp

section \<open>The batch\<close>

text \<open>A located identity, with its index, its cell and its fingerprint.\<close>

definition tagged :: "(key \<times> key) \<times> member \<Rightarrow> nat \<times> cell_id \<times> string" where
  "tagged x = (case x of (g, (i, f, fp)) \<Rightarrow> (i, ((bucket_name g, f), fp)))"

lemma tagged_sel:
  "fst (tagged x) = fst (snd x)" "fst (snd (tagged x)) = (bucket_name (fst x), fst (snd (snd x)))"
  by (simp_all add: tagged_def split: prod.splits)

lemma located_nth:
  "i < length ids \<Longrightarrow> located H t ids ! i
     = (bucket (shard_name H t (fst (ids ! i))), (i, H (fst (ids ! i)), snd (ids ! i)))"
  by (simp add: located_def identity_location_bucket split: prod.splits)

lemma located_length [simp]: "length (located H t ids) = length ids"
  by (simp add: located_def)

lemma located_tagged:
  "map (\<lambda>x. snd (tagged x)) (located H t ids) = map (\<lambda>(e, fp). (cell_of H t e, fp)) ids"
  by (rule nth_equalityI) (auto simp: located_nth tagged_def cell_of_def split: prod.splits)

lemma located_index: "map (\<lambda>x. fst (tagged x)) (located H t ids) = [0..<length ids]"
  by (rule nth_equalityI) (auto simp: located_nth tagged_def)

lemma located_bucket: "x \<in> set (located H t ids) \<Longrightarrow> \<exists>w. fst x = bucket w"
  by (auto simp: in_set_conv_nth located_nth)

text \<open>The located identities in the order the shards are visited.\<close>

definition visited ::
  "(string \<Rightarrow> string) \<Rightarrow> string option \<Rightarrow> (string \<times> string) list \<Rightarrow> ((key \<times> key) \<times> member) list" where
  "visited H t ids = concat (map snd (group_by fst (located H t ids)))"

lemma group_by_fst: "(g, ms) \<in> set (group_by fst xs) \<Longrightarrow> m \<in> set ms \<Longrightarrow> fst m = g"
  using group_by_ok [of fst xs] by (auto simp: groups_ok_def)

lemma group_identities_flat:
  "concat (map snd (group_identities H t ids)) = map snd (visited H t ids)"
  by (simp add: group_identities_def visited_def map_concat comp_def split_def)

lemma group_identities_cells:
  "concat (map (\<lambda>(g, ms). cells (bucket_name g) ms) (group_identities H t ids))
     = map (\<lambda>x. snd (tagged x)) (visited H t ids)"
proof -
  have "cells (bucket_name g) (map snd ms) = map (\<lambda>x. snd (tagged x)) ms"
    if "(g, ms) \<in> set (group_by fst (located H t ids))" for g ms
    using group_by_fst [OF that] by (auto simp: cells_def tagged_def split: prod.splits)
  then show ?thesis
    by (auto simp: group_identities_def visited_def map_concat comp_def intro!: arg_cong [where f = concat])
qed

lemma group_by_keys: "fst ` set (group_by f ms) = f ` set ms"
proof (induction ms rule: rev_induct)
  case Nil
  then show ?case by (simp add: group_by_def)
qed (simp add: group_by_snoc add_member_keys)

lemma group_identities_buckets: "all_buckets (group_identities H t ids)"
proof -
  have "fst ` set (group_identities H t ids) = fst ` set (located H t ids)"
    using group_by_keys [of fst "located H t ids"]
    by (simp add: group_identities_def image_image split_def)
  then show ?thesis using located_bucket by (auto simp: all_buckets_def)
qed

lemma visited_index_set:
  "distinct (map (\<lambda>x. fst (tagged x)) (visited H t ids))"
  "set (map (\<lambda>x. fst (tagged x)) (visited H t ids)) = {0..<length ids}"
proof -
  have "mset (visited H t ids) = mset (located H t ids)"
    unfolding visited_def by (rule group_by_mset)
  then have "mset (map (\<lambda>x. fst (tagged x)) (visited H t ids)) = mset [0..<length ids]"
    by (simp flip: located_index [of H t])
  then show "distinct (map (\<lambda>x. fst (tagged x)) (visited H t ids))"
    "set (map (\<lambda>x. fst (tagged x)) (visited H t ids)) = {0..<length ids}"
    by (metis distinct_upt mset_eq_imp_distinct_iff, metis mset_eq_setD set_upt)
qed

lemma visited_filter:
  "filter (\<lambda>m. fst (snd m) = k) (map tagged (located H t ids))
     = filter (\<lambda>m. fst (snd m) = k) (map tagged (visited H t ids))"
proof -
  have b: "\<exists>w. fst x = bucket w" if "x \<in> set (visited H t ids)" for x
  proof -
    have "mset (visited H t ids) = mset (located H t ids)"
      unfolding visited_def by (rule group_by_mset)
    with that have "x \<in> set (located H t ids)" by (metis set_mset_mset)
    then show ?thesis by (rule located_bucket)
  qed
  let ?P = "\<lambda>x. fst x = bucket (fst k) \<and> fst (snd (snd x)) = snd k"
  have key: "fst (snd (tagged x)) = k \<longleftrightarrow> ?P x" if "\<exists>w. fst x = bucket w" for x
    using that by (cases k) (auto simp: tagged_sel)
  have "filter (\<lambda>x. fst (snd (tagged x)) = k) (located H t ids) = filter ?P (located H t ids)"
    using located_bucket key by (intro filter_cong) auto
  also have "\<dots> = filter ?P (visited H t ids)"
    unfolding visited_def by (rule group_by_filter [symmetric])
  also have "\<dots> = filter (\<lambda>x. fst (snd (tagged x)) = k) (visited H t ids)"
    using b key by (intro filter_cong) auto
  finally show ?thesis by (simp add: filter_map comp_def)
qed

lemma batch_refines:
  assumes "zwf_all s" and "event_identity_status_batch H s t now ids = (answers, s')"
  shows "\<exists>qs. run_each (act_at (claim_live (of_int now))) (map (\<lambda>(e, fp). (cell_of H t e, fp)) ids)
      (live (of_int now) s) = (qs, live (of_int now) s') \<and> answers = map Some qs"
proof (cases "ids = []")
  case True
  with assms(2) show ?thesis by (simp add: event_identity_status_batch_def)
next
  case False
  let ?now = "of_int now :: rat" and ?g = "group_identities H t ids"
  have until: "of_int (now + EVENT_ID_PENDING_TTL_SECONDS) = pending_until ?now"
    by (simp add: pending_until_def)
  obtain states where
    run: "run_groups (claim_script ?now (pending_until ?now) bucket_ttl_of EVENT_IDENTITY_CLEANUP_LIMIT) ?g s
            = (states, s')"
    and ans: "answers = place ?g states (replicate (length ids) None)"
    using assms(2) False unfolding event_identity_status_batch_def until
    by (auto simp: Let_def split: prod.splits)
  from claim_groups_live [OF assms(1) group_identities_buckets run]
  have ry: "run_each (act_at (claim_live ?now)) (map snd (map tagged (visited H t ids))) (live ?now s)
      = (concat states, live ?now s')"
    and lens: "map length states = map (\<lambda>(g, ms). length ms) ?g"
    by (simp_all add: group_identities_cells comp_def)
  obtain qs m1 where rx: "run_each (act_at (claim_live ?now)) (map snd (map tagged (located H t ids)))
      (live ?now s) = (qs, m1)" by fastforce
  note idx = visited_index_set [of H t ids]
  have dx: "distinct (map fst (map tagged (located H t ids)))"
    using located_index [of H t ids] by (simp add: comp_def)
  have dy: "distinct (map fst (map tagged (visited H t ids)))" using idx(1) by (simp add: comp_def)
  note O = order_irrelevant [OF dx dy visited_filter rx ry]
  have len: "length (visited H t ids) = length ids"
    using group_by_mset [of fst "located H t ids"] located_length [of H t ids]
    by (metis size_mset visited_def)
  have qlen: "length qs = length ids" and slen: "length (concat states) = length ids"
    using run_each_length [OF rx] run_each_length [OF ry] len by simp_all
  have "answers = map Some qs"
  proof (rule nth_equalityI)
    show "length answers = length (map Some qs)"
      using qlen place_concat [OF lens] ans
      by (simp add: ans fold_invariant [where P = "\<lambda>rs. length rs = length ids" and Q = "\<lambda>_. True"]
          write_answer_def)
    fix i assume "i < length answers"
    then have i: "i < length ids" using \<open>length answers = length (map Some qs)\<close> qlen by simp
    then have "i \<in> set (map (\<lambda>x. fst (tagged x)) (visited H t ids))" unfolding idx(2) by simp
    then obtain j where j: "j < length (visited H t ids)" and ij: "fst (tagged (visited H t ids ! j)) = i"
      by (auto simp: in_set_conv_nth)
    let ?zs = "zip (map snd (visited H t ids)) (concat states)"
    have "map (\<lambda>x. fst (fst x)) ?zs = map (\<lambda>x. fst (tagged x)) (visited H t ids)"
      using slen len by (intro nth_equalityI) (simp_all add: tagged_sel)
    then have "distinct (map (\<lambda>x. fst (fst x)) ?zs)" using idx(1) by simp
    moreover have zj: "j < length ?zs" "fst (fst (?zs ! j)) = i"
      using j ij slen len by (simp_all add: tagged_sel)
    ultimately have "answers ! i = Some (concat states ! j)"
      using fold_update_nth [of ?zs j "replicate (length ids) None"] i slen len j
      unfolding ans place_concat [OF lens] group_identities_flat by simp
    also have "concat states ! j = qs ! i"
      using O(2) [of i j] i j ij len
      by (simp add: located_nth tagged_def)
    finally show "answers ! i = map Some qs ! i" using i qlen by simp
  qed
  moreover have "map snd (map tagged (located H t ids)) = map (\<lambda>(e, fp). (cell_of H t e, fp)) ids"
    using located_tagged [of H t ids] by (simp add: comp_def)
  ultimately show ?thesis using rx O(1) by auto
qed

text \<open>
  C13: claiming a batch of event ids is claiming them one after another. Splitting the batch by
  shard, running one script for each shard, cleaning up expired entries on the way and
  writing the answers back by index gives every id, in order, the answer a plain map of
  identities would give it if the ids were claimed one by one, and leaves that map as those
  claims would; ids that occur twice in a batch included.
\<close>

theorem claim_batch_sequential:
  assumes "zwf_all s" and "event_identity_status_batch H s t now ids = (answers, s')"
  shows "\<exists>qs. run_each (act_at (claim_live (of_int now))) (map (\<lambda>(e, fp). (cell_of H t e, fp)) ids)
      (live (of_int now) s) = (qs, live (of_int now) s') \<and> answers = map Some qs"
  using batch_refines [OF assms] .

section \<open>Accepted ids stay accepted\<close>

lemma entry_inj [simp]:
  "entry ''accepted'' fp \<noteq> entry ''pending'' fp'" "entry ''accepted'' fp \<noteq> entry ''uncertain'' fp'"
  "entry ''pending'' fp \<noteq> entry ''uncertain'' fp'" "entry st fp = entry st fp' \<longleftrightarrow> fp = fp'"
  "entry ''pending'' fp \<noteq> entry ''accepted'' fp'" "entry ''uncertain'' fp \<noteq> entry ''accepted'' fp'"
  "entry ''uncertain'' fp \<noteq> entry ''pending'' fp'"
  by (simp_all add: entry_def)

definition accepted_until :: "cell_id \<Rightarrow> string \<Rightarrow> rat \<Rightarrow> store \<Rightarrow> bool" where
  "accepted_until k fp x s \<longleftrightarrow> raw s k = (Some (entry ''accepted'' fp), Some x) \<and> zwf_all s"

lemma claim_keeps:
  assumes "accepted_until k fp x s" and "now < x"
  shows "accepted_until k fp x (snd (claim_one now pe (bucket w) m s))"
proof -
  obtain i f fp' where m: "m = (i, f, fp')" by (metis prod.exhaust)
  obtain r s' where run: "claim_one now pe (bucket w) (i, f, fp') s = (r, s')" by fastforce
  have "raw s' k = raw s k"
    using raw_claim(2) [OF run, of k] assms
    by (auto simp: accepted_until_def claim_cell_def fresh_def not_le split: if_splits)
  with zwf_all_claim [of s now pe "bucket w" m] assms(1) show ?thesis
    by (simp add: accepted_until_def m run)
qed

lemma transition_keeps:
  "accepted_until k fp x s \<Longrightarrow> accepted_until k fp x (snd (transition_one target y (bucket w) m s))"
  using zwf_all_transition [of s target y "bucket w" m]
  by (cases m) (auto simp: accepted_until_def transition_one_def Let_def raw_put raw_hget split: if_splits)

lemma release_keeps:
  "accepted_until k fp x s \<Longrightarrow> accepted_until k fp x (snd (release_one (bucket w) m s))"
  using zwf_all_release [of s "bucket w" m]
  by (cases m) (auto simp: accepted_until_def release_one_def Let_def raw_drop raw_hget split: if_splits)

lemma claim_script_keeps:
  assumes "accepted_until k fp x s" and "now < x"
  shows "accepted_until k fp x (snd (claim_script now pe bt n (bucket w) ms s))"
proof -
  let ?fs = "expired_fields s (snd (bucket w)) now n"
  let ?s1 = "fold (\<lambda>f s. drop_identity s (bucket w) f) ?fs s"
  have zwf: "zwf (zsets s (snd (bucket w)))" "zwf_all s"
    using assms(1) by (auto simp: accepted_until_def zwf_all_def)
  have "\<not> (fst k = w \<and> snd k \<in> set ?fs)"
    using expired_score [OF _ zwf(1), of "snd k" now n] assms by (cases k) (auto simp: accepted_until_def)
  then have "accepted_until k fp x ?s1"
    using assms(1) zwf_all_drops [OF zwf(2)] by (simp add: accepted_until_def drop_all_raw)
  then have "accepted_until k fp x (snd (run_each (claim_one now pe (bucket w)) ms ?s1))"
    by (rule run_each_keeps [where P = "accepted_until k fp x", rotated]) (rule claim_keeps [OF _ assms(2)])
  then show ?thesis
    by (auto simp: claim_script_def Let_def accepted_until_def split: prod.splits)
qed

lemma transition_script_keeps:
  assumes "accepted_until k fp x s"
  shows "accepted_until k fp x (snd (transition_script target y bt (bucket w) ms s))"
proof -
  have "accepted_until k fp x (snd (run_each (transition_one target y (bucket w)) ms s))"
    by (rule run_each_keeps [where P = "accepted_until k fp x", OF _ assms]) (rule transition_keeps)
  then show ?thesis by (auto simp: transition_script_def accepted_until_def split: prod.splits)
qed

lemma release_script_keeps:
  assumes "accepted_until k fp x s"
  shows "accepted_until k fp x (snd (release_script (bucket w) ms s))"
proof -
  have "accepted_until k fp x (snd (run_each (release_one (bucket w)) ms s))"
    by (rule run_each_keeps [where P = "accepted_until k fp x", OF _ assms]) (rule release_keeps)
  then show ?thesis by (auto simp: release_script_def split: prod.splits)
qed

lemma run_groups_keeps:
  assumes "all_buckets gs" and "P s" and "\<And>w ms s. P s \<Longrightarrow> P (snd (f (bucket w) ms s))"
  shows "P (snd (run_groups f gs s))"
  using assms(1,2)
proof (induction gs arbitrary: s)
  case (Cons gm gs)
  obtain w ms where gm: "gm = (bucket w, ms)"
    using Cons.prems(1) by (cases gm) (auto simp: all_buckets_def)
  obtain r s1 where one: "f (bucket w) ms s = (r, s1)" by fastforce
  then have "P s1" using assms(3) [OF Cons.prems(2), of w ms] by simp
  moreover have "all_buckets gs" using Cons.prems(1) by (simp add: all_buckets_def)
  ultimately show ?case using Cons.IH [of s1] by (auto simp: gm one split: prod.splits)
qed simp

lemma batch_keeps:
  assumes "accepted_until k fp x s" and "of_int now < x"
  shows "accepted_until k fp x (snd (event_identity_status_batch H s t now ids))"
proof -
  have "accepted_until k fp x (snd (run_groups (claim_script (of_int now) pe bt n) (group_identities H t ids) s))"
    for pe bt n
    by (rule run_groups_keeps [where P = "accepted_until k fp x", OF group_identities_buckets assms(1)]) (rule claim_script_keeps [OF _ assms(2)])
  with assms(1) show ?thesis
    by (simp add: event_identity_status_batch_def Let_def split: prod.splits) (metis snd_conv)
qed

lemma transitions_keep:
  "accepted_until k fp x s \<Longrightarrow> accepted_until k fp x (snd (transition_event_identities H s t now target ids))"
proof -
  assume a: "accepted_until k fp x s"
  have "accepted_until k fp x (snd (run_groups (transition_script target y bt) (group_identities H t ids) s))" for y bt
    by (rule run_groups_keeps [where P = "accepted_until k fp x", OF group_identities_buckets a]) (rule transition_script_keeps)
  with a show ?thesis
    by (simp add: transition_event_identities_def Let_def split: prod.splits) (metis snd_conv)
qed

lemma releases_keep:
  assumes "accepted_until k fp x s"
  shows "accepted_until k fp x (release_event_identities H s t ids)"
proof -
  have "accepted_until k fp x (snd (run_groups release_script (group_identities H t ids) s))"
    by (rule run_groups_keeps [where P = "accepted_until k fp x", OF group_identities_buckets assms])
       (rule release_script_keeps)
  with assms show ?thesis by (simp add: release_event_identities_def)
qed

inductive id_step :: "(string \<Rightarrow> string) \<Rightarrow> int \<Rightarrow> store \<Rightarrow> store \<Rightarrow> bool" for H where
  claiming: "id_step H now s (snd (event_identity_status_batch H s t now ids))"
| advancing: "id_step H now s (snd (transition_event_identities H s t now target ids))"
| releasing: "id_step H now s (release_event_identities H s t ids)"

inductive_cases id_step_cases: "id_step H now s s'"

lemma id_step_keeps:
  assumes "id_step H now s s'" and "accepted_until k fp x s" and "of_int now < x"
  shows "accepted_until k fp x s'"
  using assms(1)
  by (rule id_step_cases)
     (use assms(2,3) in \<open>auto intro: batch_keeps transitions_keep releases_keep\<close>)

lemma single_claim:
  assumes "zwf_all s"
  shows "fst (event_identity_status H s t now e fp)
    = Some (fst (claim_live (of_int now) fp (live (of_int now) s (cell_of H t e))))"
proof -
  obtain answers s' where b: "event_identity_status_batch H s t now [(e, fp)] = (answers, s')" by fastforce
  from batch_refines [OF assms b] b show ?thesis
    by (auto simp: event_identity_status_def act_at_def split: prod.splits)
qed

text \<open>One identity at a time.\<close>

lemma single_claim_live:
  assumes "zwf_all s" and "event_identity_status_batch H s t now [(e, fp)] = (rs, s')"
  shows "rs = [Some (fst (claim_live (of_int now) fp (live (of_int now) s (cell_of H t e))))]"
    and "live (of_int now) s' (cell_of H t e) = snd (claim_live (of_int now) fp (live (of_int now) s (cell_of H t e)))"
  using batch_refines [OF assms] by (auto simp: act_at_def split: prod.splits dest: fun_cong [of _ _ "cell_of H t e"])

lemma group_single:
  "group_identities H t [(e, fp)] = [(bucket (shard_name H t e), [(0, H e, fp)])]"
  by (simp add: group_identities_def group_by_def located_def identity_location_bucket)

lemma transition_single:
  assumes "transition_event_identities H s t now target [(e, fp)] = (n, s')"
  defines "x \<equiv> of_int (now + (if target = ''accepted'' then EVENT_ID_TTL_SECONDS else EVENT_ID_UNCERTAIN_TTL_SECONDS))"
  shows "n = (if fst (transition_cell target x fp (raw s (cell_of H t e))) then 1 else 0)"
    and "raw s' k = (if k = cell_of H t e then snd (transition_cell target x fp (raw s k)) else raw s k)"
proof -
  let ?w = "shard_name H t e"
  obtain b s1 where one: "transition_one target x (bucket ?w) (0, H e, fp) s = (b, s1)" by fastforce
  have res: "n = (if b then 1 else 0)" "raw s' = raw s1"
    using assms(1) one
    by (auto simp: transition_event_identities_def Let_def group_single transition_script_def x_def
        fun_eq_iff split: if_splits)
  have "(b, raw s1) = act_at (transition_cell target x) (cell_of H t e, fp) (raw s)"
    using transitions.step_refines [of target x "cell_of H t e" fp s] one by (simp add: cell_of_def)
  then show "n = (if fst (transition_cell target x fp (raw s (cell_of H t e))) then 1 else 0)"
    and "raw s' k = (if k = cell_of H t e then snd (transition_cell target x fp (raw s k)) else raw s k)"
    using res by (auto simp: act_at_def split: prod.splits)
qed

lemma claim_script_zwf:
  assumes "zwf_all s"
  shows "zwf_all (snd (claim_script now pe bt n g ms s))"
proof -
  have "zwf_all (snd (run_each (claim_one now pe g) ms
      (fold (\<lambda>f s. drop_identity s g f) (expired_fields s (snd g) now n) s)))"
    by (rule run_each_keeps [where P = zwf_all]) (rule zwf_all_claim, assumption, rule zwf_all_drops [OF assms])
  then show ?thesis by (auto simp: claim_script_def Let_def split: prod.splits)
qed

lemma batch_zwf:
  assumes "zwf_all s"
  shows "zwf_all (snd (event_identity_status_batch H s t now ids))"
proof -
  have "zwf_all (snd (run_groups (claim_script (of_int now) pe bt n) (group_identities H t ids) s))" for pe bt n
    by (rule run_groups_keeps [where P = zwf_all, OF group_identities_buckets assms]) (rule claim_script_zwf)
  with assms show ?thesis
    by (simp add: event_identity_status_batch_def Let_def split: prod.splits) (metis snd_conv)
qed

lemma transition_zwf: "zwf_all s \<Longrightarrow> zwf_all (snd (transition_event_identities H s t now target ids))"
proof -
  assume z: "zwf_all s"
  have "zwf_all (snd (transition_script target y bt g ms s))" if "zwf_all s" for y bt g ms s
    using run_each_keeps [where P = zwf_all, of "transition_one target y g" s ms] zwf_all_transition that
    by (auto simp: transition_script_def split: prod.splits)
  then have "zwf_all (snd (run_groups (transition_script target y bt) (group_identities H t ids) s))" for y bt
    by (intro run_groups_keeps [where P = zwf_all, OF group_identities_buckets z]) blast
  with z show ?thesis
    by (simp add: transition_event_identities_def Let_def split: prod.splits) (metis snd_conv)
qed

lemma transition_accepts:
  assumes "fst (transition_cell ''accepted'' x fp v)"
  shows "fst (snd (transition_cell ''accepted'' x fp v)) = Some (entry ''accepted'' fp)
    \<and> (snd (transition_cell ''accepted'' x fp v) = v \<or> snd (snd (transition_cell ''accepted'' x fp v)) = Some x)"
proof (cases "fst v = Some (entry ''pending'' fp) \<or> fst v = Some (entry ''uncertain'' fp)")
  case True
  then have "transition_cell ''accepted'' x fp v = (True, (Some (entry ''accepted'' fp), Some x))"
    by (simp add: transition_cell_def)
  then show ?thesis by simp
next
  case False
  then have "transition_cell ''accepted'' x fp v = (fst v = Some (entry ''accepted'' fp), v)"
    by (simp add: transition_cell_def)
  with assms show ?thesis by simp
qed

lemma remember_single:
  assumes "remember_event_identities H s t now up [(e, fp)] = (True, s')" and "zwf_all s"
  shows "fst (raw s' (cell_of H t e)) = Some (entry ''accepted'' fp) \<and> zwf_all s'
    \<and> (raw s' (cell_of H t e) = raw s (cell_of H t e)
       \<or> snd (raw s' (cell_of H t e)) = Some (of_int (now + EVENT_ID_TTL_SECONDS)))"
proof -
  have "remember_attempts n H s t now [(e, fp)] up = (True, s') \<Longrightarrow>
      transition_event_identities H s t now ''accepted'' [(e, fp)] = (1, s')" for n up
    by (induction n arbitrary: up) (auto split: if_splits prod.splits)
  with assms(1) have tr: "transition_event_identities H s t now ''accepted'' [(e, fp)] = (1, s')"
    by (simp add: remember_event_identities_def)
  let ?x = "of_int (now + EVENT_ID_TTL_SECONDS)"
  have new: "raw s' (cell_of H t e) = snd (transition_cell ''accepted'' ?x fp (raw s (cell_of H t e)))"
    using transition_single(2) [OF tr, of "cell_of H t e"] by simp
  have ok: "fst (transition_cell ''accepted'' ?x fp (raw s (cell_of H t e)))"
    using transition_single(1) [OF tr] by (simp split: if_split_asm)
  have "zwf_all s'"
    using transition_zwf [OF assms(2), of H t now "''accepted''" "[(e, fp)]"] by (simp add: tr)
  with transition_accepts [OF ok] show ?thesis by (simp add: new)
qed

lemma steps_keep_accepted:
  assumes "rtranclp (\<lambda>s s'. \<exists>now. of_int now < x \<and> id_step H now s s') s s'"
    and "accepted_until k fp x s"
  shows "accepted_until k fp x s'"
  using assms(1) by (induction rule: rtranclp_induct) (use assms(2) in \<open>auto intro: id_step_keeps\<close>)

lemma accepted_answer:
  assumes "accepted_until (cell_of H t e) fp x s" and "of_int now < x"
  shows "fst (event_identity_status H s t now e fp') = Some (if fp' = fp then Same else ConflictId)"
  using assms by (simp add: single_claim accepted_until_def live_def fresh_def claim_live_def classify_def)

text \<open>
  an accepted event stays accepted, with its payload. Once an id is recorded as
  accepted until some time, no sequence of claims, transitions and releases, of any ids of any
  tenants in any batches, at any times before then, changes that: claiming the id again is
  answered \<open>same\<close> for the payload it was accepted with, and \<open>conflict\<close> for every other one.
\<close>

theorem accepted_sticky:
  assumes "rtranclp (\<lambda>s s'. \<exists>now. of_int now < x \<and> id_step H now s s') s s'"
    and "accepted_until (cell_of H t e) fp x s" and "of_int now < x"
  shows "fst (event_identity_status H s' t now e fp') = Some (if fp' = fp then Same else ConflictId)"
  by (rule accepted_answer [OF steps_keep_accepted [OF assms(1,2)] assms(3)])

section \<open>A concrete registry\<close>

definition demo_hex :: "string \<Rightarrow> string" where
  "demo_hex x = replicate 8 (CHR ''0'') @ x"

definition demo_claimed :: store where
  "demo_claimed = snd (event_identity_status demo_hex empty_store None 0 ''e1'' ''fp'')"

definition demo_accepted :: store where
  "demo_accepted = snd (transition_event_identities demo_hex demo_claimed None 1 ''accepted'' [(''e1'', ''fp'')])"

lemma empty_registry: "zwf_all empty_store" "raw empty_store k = (None, None)"
  by (simp_all add: zwf_all_def zwf_def empty_store_def raw_def hget_def hash_of_def zscore_def)

lemma demo_claimed_raw:
  "raw demo_claimed (cell_of demo_hex None ''e1'') = (Some (entry ''pending'' ''fp''), Some 120)"
  "zwf_all demo_claimed"
proof -
  obtain answers s' where b: "event_identity_status_batch demo_hex empty_store None 0 [(''e1'', ''fp'')] = (answers, s')"
    by fastforce
  have s': "demo_claimed = s'" by (simp add: demo_claimed_def event_identity_status_def b)
  show "zwf_all demo_claimed" using batch_zwf [OF empty_registry(1), of demo_hex None 0 "[(''e1'', ''fp'')]"] b
    by (simp add: s')
  obtain qs where "run_each (act_at (claim_live 0)) [(cell_of demo_hex None ''e1'', ''fp'')] (live 0 empty_store)
      = (qs, live 0 s')"
    using batch_refines [OF empty_registry(1) b] by auto
  then have "live 0 s' = (live 0 empty_store)(cell_of demo_hex None ''e1''
      := snd (claim_live 0 ''fp'' (live 0 empty_store (cell_of demo_hex None ''e1''))))"
    by (simp add: act_at_def split: prod.splits)
  then have "live 0 s' (cell_of demo_hex None ''e1'') = (Some (entry ''pending'' ''fp''), Some 120)"
    by (simp add: claim_live_def live_def empty_registry fresh_def pending_until_def EVENT_ID_PENDING_TTL_SECONDS_def)
  then show "raw demo_claimed (cell_of demo_hex None ''e1'') = (Some (entry ''pending'' ''fp''), Some 120)"
    unfolding s' live_def fresh_def by (simp split: if_split_asm)
qed

lemma demo_accepted_until:
  "accepted_until (cell_of demo_hex None ''e1'') ''fp'' (of_int (1 + EVENT_ID_TTL_SECONDS)) demo_accepted"
proof -
  obtain n where tr: "transition_event_identities demo_hex demo_claimed None 1 ''accepted'' [(''e1'', ''fp'')]
      = (n, demo_accepted)"
    by (metis demo_accepted_def prod.collapse)
  from transition_single(2) [OF tr, of "cell_of demo_hex None ''e1''"] demo_claimed_raw(1)
    transition_zwf [OF demo_claimed_raw(2), of demo_hex None 1 "''accepted''" "[(''e1'', ''fp'')]"] tr
  show ?thesis by (simp add: accepted_until_def transition_cell_def)
qed

theorem accepted_sticky_witness:
  "fst (event_identity_status demo_hex demo_accepted None 1000 ''e1'' ''other'') = Some ConflictId"
  using accepted_sticky [OF rtranclp.rtrancl_refl demo_accepted_until, of 1000 "''other''"]
  by (simp add: EVENT_ID_TTL_SECONDS_def)

theorem claim_batch_sequential_witness:
  "\<exists>qs. fst (event_identity_status_batch demo_hex empty_store None 0 [(''e1'', ''a''), (''e2'', ''b''), (''e1'', ''c'')])
     = map Some qs"
  using claim_batch_sequential [OF empty_registry(1),
      of demo_hex None 0 "[(''e1'', ''a''), (''e2'', ''b''), (''e1'', ''c'')]"]
  by (metis prod.collapse)

end
