(* ===== verification/Outbox.thy ===== *)
theory Outbox
  imports Reservation
begin

text \<open>
  \<^verbatim>\<open>src/api/gateway/outbox.py\<close>: the durable outbox of the gateway, and the Kafka producer as
  the components above it see it. A publication has one of four outcomes, decided outside the
  program (an argument); every message handed over is recorded with its outcome. The world is the Redis
  store and that record.

  The lemmas show that an envelope is either acknowledged or still in the outbox, and that
  draining the outbox delivers every stored envelope, in the order stored, once.
\<close>

section \<open>Kafka as its callers see it\<close>

datatype pub_outcome = Acked | Overloaded | Down | Uncertain

record message =
  m_topic :: string
  m_key :: string
  m_value :: json
  m_outcome :: pub_outcome

record world =
  reg :: store
  sent :: "message list"

definition outcome_error :: "pub_outcome \<Rightarrow> err option" where
  "outcome_error out = (case out of Acked \<Rightarrow> None | Overloaded \<Rightarrow> Some CustodyOverloaded
     | Down \<Rightarrow> Some (KafkaUnavailable False) | Uncertain \<Rightarrow> Some (KafkaUnavailable True))"

text \<open>Publishing one record returns only after its delivery is acknowledged, else it raises.\<close>

definition publish_with_ack :: "world \<Rightarrow> string \<Rightarrow> string \<Rightarrow> json \<Rightarrow> pub_outcome \<Rightarrow> unit res \<times> world" where
  "publish_with_ack w topic k v out =
     ((case outcome_error out of None \<Rightarrow> Inr () | Some e \<Rightarrow> Inl e),
      w\<lparr>sent := sent w @ [\<lparr>m_topic = topic, m_key = k, m_value = v, m_outcome = out\<rparr>]\<rparr>)"

section \<open>The outbox\<close>

definition OUTBOX_PENDING :: key where
  "OUTBOX_PENDING = ''gateway:outbox:pending''"

definition OUTBOX_DEAD :: key where
  "OUTBOX_DEAD = ''gateway:outbox:dead''"

definition outbox_key :: "string \<Rightarrow> key" where
  "outbox_key event_id = ''gateway:outbox:event:'' @ event_id"

definition outbox_store :: "store \<Rightarrow> rat \<Rightarrow> string \<Rightarrow> json \<Rightarrow> store" where
  "outbox_store s now event_id envelope =
     zadd (rset s (outbox_key event_id) (CJson envelope)) OUTBOX_PENDING now event_id"

definition outbox_remove :: "store \<Rightarrow> string \<Rightarrow> store" where
  "outbox_remove s event_id = zrem (rdel s (outbox_key event_id)) OUTBOX_PENDING event_id"

text \<open>A value that is used as text (\<open>value.encode()\<close>).\<close>

definition json_encode :: "json \<Rightarrow> string res" where
  "json_encode j = (case j of JStr t \<Rightarrow> Inr t | _ \<Rightarrow> Inl AttributeError)"

definition envelope_ids :: "json \<Rightarrow> (string \<times> string) res" where
  "envelope_ids envelope =
     bindE (bindE (json_index envelope ''payload'') (\<lambda>p. json_index p ''eventId'')) (\<lambda>e.
     bindE (bindE (json_index envelope ''auth'') (\<lambda>a. json_index a ''customerId'')) (\<lambda>c.
     bindE (json_text e) (\<lambda>event_id. bindE (json_encode c) (\<lambda>customer_id. Inr (event_id, customer_id)))))"

definition publish_envelope ::
  "world \<Rightarrow> rat \<Rightarrow> string \<Rightarrow> json \<Rightarrow> pub_outcome \<Rightarrow> bool res \<times> world" where
  "publish_envelope w now topic envelope out =
     (case envelope_ids envelope of
        Inl e \<Rightarrow> (Inl e, w)
      | Inr (event_id, customer_id) \<Rightarrow>
          (case publish_with_ack (w\<lparr>reg := outbox_store (reg w) now event_id envelope\<rparr>) topic customer_id
                  envelope out of
             (Inl e, w1) \<Rightarrow> (if e = KafkaUnavailable True \<or> e = KafkaUnavailable False then Inr False else Inl e, w1)
           | (Inr _, w1) \<Rightarrow> (Inr True, w1\<lparr>reg := outbox_remove (reg w1) event_id\<rparr>)))"

text \<open>
  The dead-letter entry: the id and the stored text (given here by the value it encodes); the text of
  the error, which the source adds to it, is left out.
\<close>

definition dead_letter :: "string \<Rightarrow> cell \<Rightarrow> cell" where
  "dead_letter event_id payload =
     CJson (JObj [(''eventId'', JStr event_id),
       (''payload'', case payload of CJson j \<Rightarrow> j | CTxt t \<Rightarrow> JStr t | CInt i \<Rightarrow> JInt i | CFlt q \<Rightarrow> JFlt q)])"

definition flush_once :: "world \<Rightarrow> string \<Rightarrow> pub_outcome \<Rightarrow> bool res \<times> world" where
  "flush_once w topic out =
     (case zsets (reg w) OUTBOX_PENDING of
        [] \<Rightarrow> (Inr False, w)
      | (event_id, sc) # _ \<Rightarrow>
          (case rget (reg w) (outbox_key event_id) of
             None \<Rightarrow> (Inr True, w\<lparr>reg := zrem (reg w) OUTBOX_PENDING event_id\<rparr>)
           | Some payload \<Rightarrow>
               if \<not> cell_true (Some payload)
               then (Inr True, w\<lparr>reg := zrem (reg w) OUTBOX_PENDING event_id\<rparr>)
               else (case bindE (json_loads payload) (\<lambda>envelope.
                       bindE (bindE (bindE (json_index envelope ''auth'') (\<lambda>a. json_index a ''customerId''))
                         json_encode) (\<lambda>k. Inr (k, envelope))) of
                       Inl e \<Rightarrow>
                         if e \<in> {ValueError, KeyError, TypeError}
                         then (Inr True, w\<lparr>reg := outbox_remove
                                 (rpush (reg w) OUTBOX_DEAD (dead_letter event_id payload)) event_id\<rparr>)
                         else (Inl e, w)
                     | Inr (k, envelope) \<Rightarrow>
                         (case publish_with_ack w topic k envelope out of
                            (Inl e, w1) \<Rightarrow>
                              (if e = KafkaUnavailable True \<or> e = KafkaUnavailable False then Inr False else Inl e, w1)
                          | (Inr _, w1) \<Rightarrow> (Inr True, w1\<lparr>reg := outbox_remove (reg w1) event_id\<rparr>)))))"

text \<open>
  The worker's turn: flush while something was flushed, then the expiry sweep. Each publication
  takes the next outcome; the list bounds the number of flushes of the turn.
\<close>

fun flush_loop :: "world \<Rightarrow> string \<Rightarrow> pub_outcome list \<Rightarrow> bool res \<times> world" where
  "flush_loop w topic [] = (Inr False, w)"
| "flush_loop w topic (out # outs) =
     (case flush_once w topic out of
        (Inl e, w1) \<Rightarrow> (Inl e, w1)
      | (Inr again, w1) \<Rightarrow> if again then flush_loop w1 topic outs else (Inr False, w1))"

definition worker_turn :: "world \<Rightarrow> rat \<Rightarrow> string \<Rightarrow> pub_outcome list \<Rightarrow> world" where
  "worker_turn w now topic outs =
     (case flush_loop w topic outs of
        (Inl _, w1) \<Rightarrow> w1
      | (Inr _, w1) \<Rightarrow> (case expire_due (reg w1) now of Inl _ \<Rightarrow> w1 | Inr (n, s') \<Rightarrow> w1\<lparr>reg := s'\<rparr>))"

section \<open>Delivered or still stored\<close>

definition in_outbox :: "store \<Rightarrow> string \<Rightarrow> json \<Rightarrow> bool" where
  "in_outbox s event_id envelope \<longleftrightarrow> rget s (outbox_key event_id) = Some (CJson envelope)
     \<and> event_id \<in> fst ` set (zsets s OUTBOX_PENDING)"

lemma outbox_key_inj [simp]: "outbox_key a = outbox_key b \<longleftrightarrow> a = b"
  by (simp add: outbox_key_def)

lemma in_outbox_stored: "in_outbox (outbox_store s now e j) e j"
  by (simp add: in_outbox_def outbox_store_def set_insort_pair)

text \<open>
  C22: no usage is lost between Kafka and the outbox. Whatever Kafka does with an envelope,
  exactly one thing holds afterwards: it was acknowledged and is not in the outbox, or it was not
  and is in the outbox, to be sent again; also when the publication raises because the in-flight
  limit is reached.
\<close>

theorem publish_envelope_durable:
  assumes "envelope_ids envelope = Inr (event_id, customer_id)"
  shows "case publish_envelope w now topic envelope out of (r, w') \<Rightarrow>
    sent w' = sent w @ [\<lparr>m_topic = topic, m_key = customer_id, m_value = envelope, m_outcome = out\<rparr>]
    \<and> (if out = Acked then r = Inr True \<and> rget (reg w') (outbox_key event_id) = None
           \<and> event_id \<notin> fst ` set (zsets (reg w') OUTBOX_PENDING)
       else in_outbox (reg w') event_id envelope
           \<and> r = (if out = Overloaded then Inl CustodyOverloaded else Inr False))"
  using assms in_outbox_stored
  by (cases out)
     (auto simp: publish_envelope_def publish_with_ack_def outcome_error_def outbox_remove_def outbox_store_def)

section \<open>Draining\<close>

definition sendable :: "store \<Rightarrow> string \<Rightarrow> bool" where
  "sendable s event_id \<longleftrightarrow> (\<exists>envelope c. rget s (outbox_key event_id) = Some (CJson envelope)
     \<and> bindE (json_index envelope ''auth'') (\<lambda>a. json_index a ''customerId'') = Inr (JStr c))"

definition outbox_message :: "store \<Rightarrow> string \<Rightarrow> string \<Rightarrow> message" where
  "outbox_message s topic event_id =
     (case rget s (outbox_key event_id) of
        Some (CJson envelope) \<Rightarrow>
          (case bindE (bindE (json_index envelope ''auth'') (\<lambda>a. json_index a ''customerId'')) json_encode of
             Inr k \<Rightarrow> \<lparr>m_topic = topic, m_key = k, m_value = envelope, m_outcome = Acked\<rparr>
           | Inl _ \<Rightarrow> \<lparr>m_topic = topic, m_key = [], m_value = JNull, m_outcome = Down\<rparr>)
      | _ \<Rightarrow> \<lparr>m_topic = topic, m_key = [], m_value = JNull, m_outcome = Down\<rparr>)"

lemma flush_acked:
  assumes "zsets (reg w) OUTBOX_PENDING = (e, sc) # rest" and "sendable (reg w) e"
  shows "flush_once w topic Acked = (Inr True,
    w\<lparr>reg := outbox_remove (reg w) e, sent := sent w @ [outbox_message (reg w) topic e]\<rparr>)"
  using assms
  by (auto simp: flush_once_def sendable_def json_encode_def publish_with_ack_def outcome_error_def outbox_message_def)

lemma outbox_removed:
  assumes "zsets s OUTBOX_PENDING = (e, sc) # rest" and "zwf ((e, sc) # rest)"
  shows "zsets (outbox_remove s e) OUTBOX_PENDING = rest"
    and "e' \<noteq> e \<Longrightarrow> rget (outbox_remove s e) (outbox_key e') = rget s (outbox_key e')"
proof -
  have "e \<notin> fst ` set rest" using assms(2) by (simp add: zwf_def)
  then have "filter (\<lambda>x. fst x \<noteq> e) rest = rest" by (auto simp: filter_id_conv)
  then show "zsets (outbox_remove s e) OUTBOX_PENDING = rest"
    by (simp add: outbox_remove_def assms(1))
  show "e' \<noteq> e \<Longrightarrow> rget (outbox_remove s e) (outbox_key e') = rget s (outbox_key e')"
    by (simp add: outbox_remove_def)
qed

lemma flush_loop_drains:
  assumes "zsets (reg w) OUTBOX_PENDING = z" and "zwf z" and "\<forall>e \<in> fst ` set z. sendable (reg w) e"
  shows "\<exists>w'. flush_loop w topic (replicate (Suc (length z)) Acked) = (Inr False, w')
    \<and> zsets (reg w') OUTBOX_PENDING = []
    \<and> sent w' = sent w @ map (outbox_message (reg w) topic) (map fst z)"
  using assms
proof (induction z arbitrary: w)
  case Nil
  then show ?case by (simp add: flush_once_def)
next
  case (Cons x rest)
  obtain e sc where x: "x = (e, sc)" by fastforce
  define w1 where "w1 = w\<lparr>reg := outbox_remove (reg w) e, sent := sent w @ [outbox_message (reg w) topic e]\<rparr>"
  have one: "flush_once w topic Acked = (Inr True, w1)"
    unfolding w1_def using Cons.prems by (intro flush_acked) (simp_all add: x)
  note R = outbox_removed [OF Cons.prems(1) [unfolded x] Cons.prems(2) [unfolded x]]
  have ne: "e' \<noteq> e" if "e' \<in> fst ` set rest" for e'
    using Cons.prems(2) that by (auto simp: zwf_def x)
  have reads: "rget (reg w1) (outbox_key e') = rget (reg w) (outbox_key e')" if "e' \<in> fst ` set rest" for e'
    using R(2) [OF ne [OF that]] by (simp add: w1_def)
  have z1: "zsets (reg w1) OUTBOX_PENDING = rest" using R(1) by (simp add: w1_def)
  have "zwf rest" using Cons.prems(2) by (simp add: zwf_def)
  moreover have "\<forall>e' \<in> fst ` set rest. sendable (reg w1) e'"
    using Cons.prems(3) reads by (simp add: sendable_def x)
  ultimately obtain w' where w': "flush_loop w1 topic (replicate (Suc (length rest)) Acked) = (Inr False, w')"
    "zsets (reg w') OUTBOX_PENDING = []"
    "sent w' = sent w1 @ map (outbox_message (reg w1) topic) (map fst rest)"
    using Cons.IH [OF z1] by blast
  have "map (outbox_message (reg w1) topic) (map fst rest) = map (outbox_message (reg w) topic) (map fst rest)"
    using reads by (intro map_cong) (simp_all add: outbox_message_def)
  with w' one show ?case by (simp add: x w1_def)
qed

text \<open>
  C23: the outbox drains. Once Kafka acknowledges again, a turn of the worker ends, empties
  the outbox, and sends every envelope that was stored in it exactly once, oldest first.
\<close>

theorem outbox_drains:
  assumes "zwf (zsets (reg w) OUTBOX_PENDING)"
    and "\<forall>e \<in> fst ` set (zsets (reg w) OUTBOX_PENDING). sendable (reg w) e"
  shows "\<exists>w'. flush_loop w topic (replicate (Suc (length (zsets (reg w) OUTBOX_PENDING))) Acked) = (Inr False, w')
    \<and> zsets (reg w') OUTBOX_PENDING = []
    \<and> sent w' = sent w @ map (outbox_message (reg w) topic) (map fst (zsets (reg w) OUTBOX_PENDING))"
  using flush_loop_drains [OF refl assms] .

definition demo_envelope :: json where
  "demo_envelope = JObj [(''payload'', JObj [(''eventId'', JStr ''e1'')]), (''auth'', JObj [(''customerId'', JStr ''acme'')])]"

definition demo_world :: world where
  "demo_world = \<lparr>reg = outbox_store empty_store 5 ''e1'' demo_envelope, sent = []\<rparr>"

theorem publish_envelope_durable_witness:
  "in_outbox (reg (snd (publish_envelope \<lparr>reg = empty_store, sent = []\<rparr> 5 ''t'' demo_envelope Uncertain)))
     ''e1'' demo_envelope"
proof -
  have "envelope_ids demo_envelope = Inr (''e1'', ''acme'')"
    by (simp add: demo_envelope_def envelope_ids_def json_index_def json_text_def json_encode_def)
  from publish_envelope_durable [OF this, where w = "\<lparr>reg = empty_store, sent = []\<rparr>" and now = 5
      and topic = "''t''" and out = Uncertain]
  show ?thesis by (auto split: prod.splits)
qed

theorem outbox_drains_witness:
  "\<exists>w'. flush_loop demo_world ''t'' [Acked, Acked] = (Inr False, w') \<and> length (sent w') = 1"
proof -
  have z: "zsets (reg demo_world) OUTBOX_PENDING = [(''e1'', 5)]"
    by (simp add: demo_world_def outbox_store_def empty_store_def rset_def)
  have "sendable (reg demo_world) ''e1''"
    by (simp add: sendable_def demo_world_def outbox_store_def demo_envelope_def json_index_def)
  with outbox_drains [of demo_world "''t''"] z
  obtain w' where "flush_loop demo_world ''t'' (replicate (Suc (length [(''e1'', 5 :: rat)])) Acked) = (Inr False, w')"
    "sent w' = sent demo_world @ [outbox_message (reg demo_world) ''t'' ''e1'']"
    by (auto simp: zwf_def simp del: flush_loop.simps replicate.simps)
  then show ?thesis by (intro exI [of _ w']) (simp add: demo_world_def del: flush_loop.simps)
qed

end
