(* ===== verification/Custody.thy ===== *)
theory Custody
  imports Identity_Facts Outbox
begin

text \<open>
  \<^verbatim>\<open>src/api/ingestion.py\<close>, custody of token events: \<open>_accept_impl\<close> and \<open>_accept_many_impl\<close>
  claim an event's identity, publish its envelope to Kafka (or hand it to the outbox) and record the
  identity as accepted, uncertain or free again. What lies outside is given by arguments: the
  digest and canonical JSON text, the clock (read once for each call), the fresh trace id, the outcome
  of each publication, and whether Redis answers each of the steps that may find it down. An
  operation that raises still returns the world it leaves.
\<close>

section \<open>Arguments and answers\<close>

record custody_env =
  ce_digest :: "string \<Rightarrow> string"
  ce_canon :: "json \<Rightarrow> string"
  ce_now_ms :: int
  ce_trace :: string
  ce_outcome :: "nat \<Rightarrow> pub_outcome"
  ce_claim_up :: bool
  ce_remember_up :: "bool list"
  ce_mark_up :: bool
  ce_release_up :: bool

type_synonym buffer_publish = "world \<Rightarrow> string \<Rightarrow> json \<Rightarrow> bool res \<times> world"

datatype on_kafka_down = FailMode | BufferMode "buffer_publish option"

record custody_ctx =
  x_tenant :: "string option"
  x_api_key :: "string option"
  x_topic :: string
  x_quarantine :: string
  x_source :: string
  x_reservation :: "string option"
  x_reserved_usd :: rat
  x_max_age :: int
  x_max_future :: int
  x_on_down :: on_kafka_down

record custody_reply =
  c_status :: string
  c_event :: string
  c_idempotent :: "bool option"
  c_retryable :: "bool option"

type_synonym event = "(string \<times> json) list"

definition now_sec :: "custody_env \<Rightarrow> int" where
  "now_sec E = ce_now_ms E div 1000"

definition done_reply :: "string \<Rightarrow> string \<Rightarrow> bool \<Rightarrow> custody_reply" where
  "done_reply status event_id idem =
     \<lparr>c_status = status, c_event = event_id, c_idempotent = Some idem, c_retryable = None\<rparr>"

definition retry_reply :: "string \<Rightarrow> string \<Rightarrow> bool \<Rightarrow> custody_reply" where
  "retry_reply status event_id retryable =
     \<lparr>c_status = status, c_event = event_id, c_idempotent = None, c_retryable = Some retryable\<rparr>"

section \<open>Preparing an event\<close>

definition opt_json :: "string option \<Rightarrow> json" where
  "opt_json x = (case x of None \<Rightarrow> JNull | Some t \<Rightarrow> JStr t)"

definition canonical_payload_hash :: "custody_env \<Rightarrow> event \<Rightarrow> string option \<Rightarrow> string" where
  "canonical_payload_hash E payload tenant_id =
     ce_digest E (ce_canon E (JObj
       [(''tenantId'', JStr (case truthy tenant_id of None \<Rightarrow> ''default'' | Some t \<Rightarrow> t)),
        (''payload'', JObj payload)]))"

definition resolve_custody_event_id :: "event \<Rightarrow> string option \<Rightarrow> string res" where
  "resolve_custody_event_id ev reservation_id =
     (case truthy reservation_id of
        Some r \<Rightarrow> Inr (''res:'' @ r)
      | None \<Rightarrow>
          (case map_of ev ''eventId'' of
             Some existing \<Rightarrow> if json_true existing then json_text existing else Inl ValueError
           | None \<Rightarrow> Inl ValueError))"

type_synonym prepared = "event \<times> string \<times> string"

text \<open>The payload with its event id, that id, and the identity hash, taken before the clock.\<close>

definition prepare_payload :: "custody_env \<Rightarrow> string option \<Rightarrow> string option \<Rightarrow> event \<Rightarrow> prepared res" where
  "prepare_payload E tenant_id reservation_id ev =
     bindE (resolve_custody_event_id ev reservation_id) (\<lambda>event_id.
       let payload = AList.update ''eventId'' (JStr event_id) ev;
           payload_hash = canonical_payload_hash E payload tenant_id;
           payload = (if map_of payload ''timestamp'' = None
                      then payload @ [(''timestamp'', JInt (ce_now_ms E))] else payload)
       in Inr (payload, event_id, payload_hash))"

definition suspicious_time :: "int \<Rightarrow> int \<Rightarrow> int \<Rightarrow> int \<Rightarrow> bool" where
  "suspicious_time timestamp_ms received_at max_age max_future \<longleftrightarrow>
     timestamp_ms < received_at - max_age * 1000 \<or> timestamp_ms > received_at + max_future * 1000"

definition trusted_envelope :: "custody_env \<Rightarrow> custody_ctx \<Rightarrow> event \<Rightarrow> (string \<times> json) list res" where
  "trusted_envelope E x payload =
     bindE (json_index (JObj payload) ''customerId'') (\<lambda>customer.
       Inr ([(''envelopeVersion'', JInt 1), (''source'', JStr (x_source x)), (''payload'', JObj payload),
             (''auth'', JObj [(''tenantId'', opt_json (x_tenant x)), (''customerId'', customer),
                              (''apiKeyId'', opt_json (x_api_key x))]),
             (''receipt'', JObj [(''receivedAt'', JInt (ce_now_ms E)), (''traceId'', JStr (ce_trace E))])]
            @ (case truthy (x_reservation x) of
                 None \<Rightarrow> []
               | Some r \<Rightarrow> [(''reservation'', JObj [(''reservationId'', JStr r),
                                (''reservedUsd'', JFlt (max 0 (x_reserved_usd x)))])])))"

text \<open>Whether the event's time is out of range, and the envelope marked accordingly.\<close>

definition build_envelope :: "custody_env \<Rightarrow> custody_ctx \<Rightarrow> event \<Rightarrow> (bool \<times> json) res" where
  "build_envelope E x payload =
     bindE (bindE (json_index (JObj payload) ''timestamp'') json_int) (\<lambda>ts.
       let suspicious = suspicious_time ts (ce_now_ms E) (x_max_age x) (x_max_future x) in
       bindE (trusted_envelope E x payload) (\<lambda>env.
         Inr (suspicious,
              JObj (env @ (if suspicious
                           then [(''quarantine'', JObj [(''reason'', JStr ''event_time_out_of_range'')])]
                           else [])))))"

definition dest_topic :: "custody_ctx \<Rightarrow> bool \<Rightarrow> string" where
  "dest_topic x suspicious = (if suspicious then x_quarantine x else x_topic x)"

section \<open>The registry, from here\<close>

definition claim_ids :: "custody_env \<Rightarrow> custody_ctx \<Rightarrow> (string \<times> string) list \<Rightarrow> world \<Rightarrow> id_state option list res \<times> world" where
  "claim_ids E x ids w =
     (if ids \<noteq> [] \<and> \<not> ce_claim_up E then (Inl RedisError, w)
      else (case event_identity_status_batch (ce_digest E) (reg w) (x_tenant x) (now_sec E) ids of
              (rs, s') \<Rightarrow> (Inr rs, w\<lparr>reg := s'\<rparr>)))"

definition remember_ids :: "custody_env \<Rightarrow> custody_ctx \<Rightarrow> (string \<times> string) list \<Rightarrow> world \<Rightarrow> bool \<times> world" where
  "remember_ids E x ids w =
     (case remember_event_identities (ce_digest E) (reg w) (x_tenant x) (now_sec E) (ce_remember_up E) ids of
        (b, s') \<Rightarrow> (b, w\<lparr>reg := s'\<rparr>))"

definition mark_ids :: "custody_env \<Rightarrow> custody_ctx \<Rightarrow> (string \<times> string) list \<Rightarrow> world \<Rightarrow> world" where
  "mark_ids E x ids w =
     w\<lparr>reg := mark_event_identities_uncertain (ce_digest E) (reg w) (x_tenant x) (now_sec E) (ce_mark_up E) ids\<rparr>"

definition release_ids :: "custody_env \<Rightarrow> custody_ctx \<Rightarrow> (string \<times> string) list \<Rightarrow> world \<Rightarrow> unit res \<times> world" where
  "release_ids E x ids w =
     (if ids \<noteq> [] \<and> \<not> ce_release_up E then (Inl RedisError, w)
      else (Inr (), w\<lparr>reg := release_event_identities (ce_digest E) (reg w) (x_tenant x) ids\<rparr>))"

text \<open>A delivery report that arrives after the caller gave up; the label is the metric it counts.\<close>

definition reconcile_late_delivery ::
  "custody_env \<Rightarrow> custody_ctx \<Rightarrow> string \<Rightarrow> string \<Rightarrow> bool \<Rightarrow> world \<Rightarrow> string res \<times> world" where
  "reconcile_late_delivery E x event_id payload_hash succeeded w =
     (if succeeded
      then (case remember_ids E x [(event_id, payload_hash)] w of
              (b, w1) \<Rightarrow> (Inr (if b then ''reconciled_accepted'' else ''reconcile_finalize_failed''), w1))
      else (case release_ids E x [(event_id, payload_hash)] w of
              (Inl e, w1) \<Rightarrow> (Inl e, w1)
            | (Inr _, w1) \<Rightarrow> (Inr ''reconciled_released'', w1)))"

section \<open>Accepting one event\<close>

definition final_reply :: "bool \<Rightarrow> string \<Rightarrow> custody_reply" where
  "final_reply suspicious event_id = done_reply (if suspicious then ''quarantined'' else ''accepted'') event_id False"

definition accept_buffered ::
  "custody_env \<Rightarrow> custody_ctx \<Rightarrow> buffer_publish \<Rightarrow> string \<Rightarrow> string \<Rightarrow> bool \<Rightarrow> json \<Rightarrow> world \<Rightarrow>
     custody_reply res \<times> world" where
  "accept_buffered E x bp event_id payload_hash suspicious envelope w =
     (case bp w (dest_topic x suspicious) envelope of
        (Inl e, w1) \<Rightarrow> (Inl e, w1)
      | (Inr published, w1) \<Rightarrow>
          (case remember_ids E x [(event_id, payload_hash)] w1 of
             (False, w2) \<Rightarrow> (Inr (retry_reply ''buffered'' event_id True),
                             mark_ids E x [(event_id, payload_hash)] w2)
           | (True, w2) \<Rightarrow>
               (Inr (if published then final_reply suspicious event_id
                     else retry_reply ''buffered'' event_id True), w2)))"

definition accept_published ::
  "custody_env \<Rightarrow> custody_ctx \<Rightarrow> event \<Rightarrow> string \<Rightarrow> string \<Rightarrow> bool \<Rightarrow> json \<Rightarrow> world \<Rightarrow>
     custody_reply res \<times> world" where
  "accept_published E x payload event_id payload_hash suspicious envelope w =
     (case bindE (json_index (JObj payload) ''customerId'') json_text of
        Inl e \<Rightarrow> (Inl e, w)
      | Inr k \<Rightarrow>
          (case publish_with_ack w (dest_topic x suspicious) k envelope (ce_outcome E 0) of
             (Inr _, w1) \<Rightarrow>
               (case remember_ids E x [(event_id, payload_hash)] w1 of
                  (False, w2) \<Rightarrow> (Inr (retry_reply ''uncertain'' event_id True),
                                  mark_ids E x [(event_id, payload_hash)] w2)
                | (True, w2) \<Rightarrow> (Inr (final_reply suspicious event_id), w2))
           | (Inl e, w1) \<Rightarrow>
               if e = CustodyOverloaded
               then (case release_ids E x [(event_id, payload_hash)] w1 of
                       (Inl e, w2) \<Rightarrow> (Inl e, w2)
                     | (Inr _, w2) \<Rightarrow> (Inr (retry_reply ''overloaded'' event_id True), w2))
               else if e = KafkaUnavailable True
               then (Inr (retry_reply ''uncertain'' event_id True), mark_ids E x [(event_id, payload_hash)] w1)
               else (case release_ids E x [(event_id, payload_hash)] w1 of
                       (Inl e, w2) \<Rightarrow> (Inl e, w2)
                     | (Inr _, w2) \<Rightarrow> (Inr (retry_reply ''unavailable'' event_id True), w2))))"

definition taken_reply :: "id_state \<Rightarrow> string \<Rightarrow> custody_reply option" where
  "taken_reply st event_id = (case st of
     Same \<Rightarrow> Some (done_reply ''accepted'' event_id True)
   | PendingId \<Rightarrow> Some (retry_reply ''pending'' event_id True)
   | UncertainId \<Rightarrow> Some (retry_reply ''uncertain'' event_id True)
   | ConflictId \<Rightarrow> Some (retry_reply ''conflict'' event_id False)
   | Owner \<Rightarrow> None)"

definition accept_impl :: "custody_env \<Rightarrow> custody_ctx \<Rightarrow> event \<Rightarrow> world \<Rightarrow> custody_reply res \<times> world" where
  "accept_impl E x ev w =
     (case prepare_payload E (x_tenant x) (x_reservation x) ev of
        Inl e \<Rightarrow> (Inl e, w)
      | Inr (payload, event_id, payload_hash) \<Rightarrow>
          (case claim_ids E x [(event_id, payload_hash)] w of
             (Inl e, w1) \<Rightarrow> (Inl e, w1)
           | (Inr rs, w1) \<Rightarrow>
               (case taken_reply (case hd rs of None \<Rightarrow> Owner | Some st \<Rightarrow> st) event_id of
                  Some r \<Rightarrow> (Inr r, w1)
                | None \<Rightarrow>
                    (case build_envelope E x payload of
                       Inl e \<Rightarrow> (Inl e, w1)
                     | Inr (suspicious, envelope) \<Rightarrow>
                         (case x_on_down x of
                            BufferMode None \<Rightarrow> (Inl ValueError, w1)
                          | BufferMode (Some bp) \<Rightarrow>
                              accept_buffered E x bp event_id payload_hash suspicious envelope w1
                          | FailMode \<Rightarrow>
                              accept_published E x payload event_id payload_hash suspicious envelope w1)))))"

section \<open>Accepting a batch\<close>

record dedup =
  dd_seen :: "(string \<times> (string \<times> nat)) list"
  dd_unique :: "(nat \<times> prepared) list"
  dd_aliases :: "(nat \<times> nat list) list"
  dd_results :: "custody_reply option list"

definition aliases_of :: "dedup \<Rightarrow> nat \<Rightarrow> nat list" where
  "aliases_of d i = (case map_of (dd_aliases d) i of None \<Rightarrow> [] | Some l \<Rightarrow> l)"

definition dedup_one :: "nat \<times> prepared \<Rightarrow> dedup \<Rightarrow> dedup" where
  "dedup_one ip d =
     (case ip of (index, payload, event_id, payload_hash) \<Rightarrow>
        (case map_of (dd_seen d) event_id of
           None \<Rightarrow>
             d\<lparr>dd_seen := (event_id, (payload_hash, index)) # dd_seen d,
               dd_unique := dd_unique d @ [(index, payload, event_id, payload_hash)],
               dd_aliases := (index, []) # dd_aliases d\<rparr>
         | Some (previous_hash, first) \<Rightarrow>
             if previous_hash = payload_hash
             then d\<lparr>dd_aliases := AList.update first (aliases_of d first @ [index]) (dd_aliases d)\<rparr>
             else d\<lparr>dd_results := (dd_results d)[index := Some (retry_reply ''conflict'' event_id False)]\<rparr>))"

definition deduplicate :: "prepared list \<Rightarrow> dedup" where
  "deduplicate ps =
     fold dedup_one (zip [0..<length ps] ps)
       \<lparr>dd_seen = [], dd_unique = [], dd_aliases = [], dd_results = replicate (length ps) None\<rparr>"

text \<open>The answer of the first occurrence, and of its repetitions in the batch.\<close>

definition answer :: "dedup \<Rightarrow> nat \<Rightarrow> custody_reply \<Rightarrow> custody_reply \<Rightarrow> custody_reply option list \<Rightarrow> custody_reply option list" where
  "answer d index r r' results =
     fold (\<lambda>a rs. rs[a := Some r']) (aliases_of d index) (results[index := Some r])"

type_synonym owned = "nat \<times> prepared \<times> bool \<times> json"

fun split_claims ::
  "custody_env \<Rightarrow> custody_ctx \<Rightarrow> dedup \<Rightarrow> ((nat \<times> prepared) \<times> id_state option) list \<Rightarrow>
     custody_reply option list \<Rightarrow> (owned list \<times> custody_reply option list) res" where
  "split_claims E x d [] results = Inr ([], results)"
| "split_claims E x d (((index, payload, event_id, payload_hash), st) # rest) results =
     (case taken_reply (case st of None \<Rightarrow> Owner | Some s \<Rightarrow> s) event_id of
        Some r \<Rightarrow> split_claims E x d rest (answer d index r r results)
      | None \<Rightarrow>
          bindE (build_envelope E x payload) (\<lambda>(suspicious, envelope).
          bindE (split_claims E x d rest results) (\<lambda>(own, results').
            Inr ((index, (payload, event_id, payload_hash), suspicious, envelope) # own, results'))))"

definition batch_messages :: "custody_env \<Rightarrow> custody_ctx \<Rightarrow> owned list \<Rightarrow> message list res" where
  "batch_messages E x own =
     mapE (\<lambda>(i, index, (payload, event_id, payload_hash), suspicious, envelope).
       bindE (bindE (json_index (JObj payload) ''customerId'') json_encode) (\<lambda>k.
         Inr \<lparr>m_topic = dest_topic x suspicious, m_key = k, m_value = envelope, m_outcome = ce_outcome E i\<rparr>))
       (zip [0..<length own] own)"

record sorted_outcomes =
  so_accepted :: "(nat \<times> string \<times> string \<times> bool) list"
  so_failed :: "(string \<times> string) list"
  so_uncertain :: "(string \<times> string) list"
  so_results :: "custody_reply option list"

definition sort_outcome :: "dedup \<Rightarrow> owned \<times> message \<Rightarrow> sorted_outcomes \<Rightarrow> sorted_outcomes" where
  "sort_outcome d om a =
     (case om of ((index, (payload, event_id, payload_hash), suspicious, envelope), m) \<Rightarrow>
        let put = (\<lambda>status. answer d index (retry_reply status event_id True) (retry_reply status event_id True) (so_results a))
        in case m_outcome m of
             Acked \<Rightarrow> a\<lparr>so_accepted := so_accepted a @ [(index, event_id, payload_hash, suspicious)]\<rparr>
           | Overloaded \<Rightarrow> a\<lparr>so_failed := so_failed a @ [(event_id, payload_hash)], so_results := put ''overloaded''\<rparr>
           | Uncertain \<Rightarrow> a\<lparr>so_uncertain := so_uncertain a @ [(event_id, payload_hash)], so_results := put ''uncertain''\<rparr>
           | Down \<Rightarrow> a\<lparr>so_failed := so_failed a @ [(event_id, payload_hash)], so_results := put ''unavailable''\<rparr>)"

definition finish_accepted :: "dedup \<Rightarrow> bool \<Rightarrow> (nat \<times> string \<times> string \<times> bool) list \<Rightarrow>
    custody_reply option list \<Rightarrow> custody_reply option list" where
  "finish_accepted d finalized accepted results =
     fold (\<lambda>(index, event_id, fp, suspicious) rs.
        if finalized
        then answer d index (final_reply suspicious event_id)
               (done_reply (if suspicious then ''quarantined'' else ''accepted'') event_id True) rs
        else answer d index (retry_reply ''uncertain'' event_id True) (retry_reply ''uncertain'' event_id True) rs)
       accepted results"

text \<open>Recording what became of each message, once the batch has been published.\<close>

definition sorted_batch :: "dedup \<Rightarrow> owned list \<Rightarrow> message list \<Rightarrow> custody_reply option list \<Rightarrow> sorted_outcomes" where
  "sorted_batch d own msgs results =
     fold (sort_outcome d) (zip own msgs)
       \<lparr>so_accepted = [], so_failed = [], so_uncertain = [], so_results = results\<rparr>"

definition record_batch :: "custody_env \<Rightarrow> custody_ctx \<Rightarrow> dedup \<Rightarrow> sorted_outcomes \<Rightarrow> world \<Rightarrow> custody_reply list res \<times> world" where
  "record_batch E x d a w =
     (let accepted_ids = map (\<lambda>(i, e, fp, su). (e, fp)) (so_accepted a) in
      case remember_ids E x accepted_ids w of
        (finalized, w1) \<Rightarrow>
          let results = finish_accepted d finalized (so_accepted a) (so_results a);
              unc = (if finalized then so_uncertain a else so_uncertain a @ accepted_ids) in
          (case release_ids E x (so_failed a) (mark_ids E x unc w1) of
             (Inl e, w2) \<Rightarrow> (Inl e, w2)
           | (Inr _, w2) \<Rightarrow>
               if None \<in> set results then (Inl RuntimeError, w2) else (Inr (map the results), w2)))"

definition accept_many_impl ::
  "custody_env \<Rightarrow> custody_ctx \<Rightarrow> event list \<Rightarrow> world \<Rightarrow> custody_reply list res \<times> world" where
  "accept_many_impl E x events w =
     (case mapE (prepare_payload E (x_tenant x) None) events of
        Inl e \<Rightarrow> (Inl e, w)
      | Inr ps \<Rightarrow>
          let d = deduplicate ps;
              ids = map (\<lambda>(i, payload, event_id, fp). (event_id, fp)) (dd_unique d) in
          (case claim_ids E x ids w of
             (Inl e, w1) \<Rightarrow> (Inl e, w1)
           | (Inr states, w1) \<Rightarrow>
               (case split_claims E x d (zip (dd_unique d) states) (dd_results d) of
                  Inl e \<Rightarrow> (Inl e, w1)
                | Inr (own, results) \<Rightarrow>
                    (case batch_messages E x own of
                       Inl e \<Rightarrow> (Inl e, w1)
                     | Inr msgs \<Rightarrow>
                         record_batch E x d (sorted_batch d own msgs results)
                           (w1\<lparr>sent := sent w1 @ msgs\<rparr>)))))"

text \<open>The two methods of the class; a batch has no outbox mode and belongs to no reservation.\<close>

definition custody_accept :: "custody_env \<Rightarrow> custody_ctx \<Rightarrow> event \<Rightarrow> world \<Rightarrow> custody_reply res \<times> world" where
  "custody_accept E x ev w = accept_impl E x ev w"

definition custody_accept_many ::
  "custody_env \<Rightarrow> custody_ctx \<Rightarrow> event list \<Rightarrow> world \<Rightarrow> custody_reply list res \<times> world" where
  "custody_accept_many E x events w =
     (if x_on_down x \<noteq> FailMode then (Inl ValueError, w)
      else accept_many_impl E (x\<lparr>x_reservation := None, x_reserved_usd := 0\<rparr>) events w)"

end
