(* ===== verification/Custody_Facts.thy ===== *)
theory Custody_Facts
  imports Custody
begin

text \<open>
  What custody promises: an accepted event is never published again and never replaced; a batch
  answers every event, publishes each id at most once, and treats one event exactly as the
  single-event operation does.
\<close>

section \<open>Replay\<close>

text \<open>The outbox hook may write where it likes, except in the identity registry.\<close>

definition keeps_registry :: "on_kafka_down \<Rightarrow> bool" where
  "keeps_registry mode = (case mode of
     BufferMode (Some bp) \<Rightarrow> \<forall>w topic envelope. raw (reg (snd (bp w topic envelope))) = raw (reg w)
        \<and> (zwf_all (reg w) \<longrightarrow> zwf_all (reg (snd (bp w topic envelope))))
   | _ \<Rightarrow> True)"

lemma outbox_not_registry: "OUTBOX_PENDING \<noteq> snd (bucket wn)" "outbox_key e \<noteq> fst (bucket wn)"
    "snd (bucket wn) \<noteq> OUTBOX_PENDING" "fst (bucket wn) \<noteq> outbox_key e"
  by (simp_all add: OUTBOX_PENDING_def outbox_key_def bucket_def)

lemma raw_outbox_store [simp]: "raw (outbox_store s now e j) = raw s"
  by (auto simp: outbox_not_registry fun_eq_iff raw_def outbox_store_def zadd_def rset_def zscore_def hget_def hash_of_def)

lemma raw_outbox_remove [simp]: "raw (outbox_remove s e) = raw s"
  by (auto simp: outbox_not_registry fun_eq_iff raw_def outbox_remove_def zrem_def rdel_def zscore_def hget_def hash_of_def delete_conv)

lemma zwf_outbox: "zwf_all s \<Longrightarrow> zwf_all (outbox_store s now e j)" "zwf_all s \<Longrightarrow> zwf_all (outbox_remove s e)"
  by (auto simp: zwf_all_def outbox_store_def outbox_remove_def zadd_def zrem_def rset_def rdel_def
      intro: zwf_insort zwf_filter)

text \<open>The gateway's hook, \<open>publish_envelope\<close>, is of this kind.\<close>

lemma gateway_hook_keeps_registry:
  "keeps_registry (BufferMode (Some (\<lambda>w topic envelope. publish_envelope w now topic envelope out)))"
  by (auto simp: keeps_registry_def publish_envelope_def publish_with_ack_def zwf_outbox
      split: sum.splits prod.splits option.splits)

text \<open>An owned identity, on its way to being recorded as accepted.\<close>

definition owned_cell :: "custody_env \<Rightarrow> custody_ctx \<Rightarrow> string \<Rightarrow> string \<Rightarrow> store \<Rightarrow> bool" where
  "owned_cell E x e fp s \<longleftrightarrow> zwf_all s
     \<and> fst (raw s (cell_of (ce_digest E) (x_tenant x) e)) = Some (entry ''pending'' fp)"

lemma claim_owned:
  assumes "claim_ids E x [(e, fp)] w = (Inr rs, w1)" and "zwf_all (reg w)"
    and "taken_reply (case hd rs of None \<Rightarrow> Owner | Some st \<Rightarrow> st) e = None"
  shows "owned_cell E x e fp (reg w1)"
proof -
  let ?now = "of_int (now_sec E) :: rat" and ?k = "cell_of (ce_digest E) (x_tenant x) e"
  obtain s' where b: "event_identity_status_batch (ce_digest E) (reg w) (x_tenant x) (now_sec E) [(e, fp)] = (rs, s')"
    and w1: "w1 = w\<lparr>reg := s'\<rparr>"
    using assms(1) by (auto simp: claim_ids_def split: if_splits prod.splits)
  note C = single_claim_live [OF assms(2) b]
  have "fst (claim_live ?now fp (live ?now (reg w) ?k)) = Owner"
    using assms(3) C(1) by (cases "fst (claim_live ?now fp (live ?now (reg w) ?k))") (auto simp: taken_reply_def)
  then have "fst (live ?now (reg w) ?k) = None"
    by (auto simp: claim_live_def classify_def split: option.splits if_splits)
  then have "live ?now s' ?k = (Some (entry ''pending'' fp), Some (pending_until ?now))"
    using C(2) by (simp add: claim_live_def)
  then have "raw s' ?k = (Some (entry ''pending'' fp), Some (pending_until ?now))"
    by (simp add: live_def fresh_def split: if_splits)
  then show ?thesis
    using batch_zwf [OF assms(2), of "ce_digest E" "x_tenant x" "now_sec E" "[(e, fp)]"] b
    by (simp add: owned_cell_def w1)
qed

lemma remember_owned:
  assumes "remember_ids E x [(e, fp)] w = (True, w1)" and "owned_cell E x e fp (reg w)"
  shows "accepted_until (cell_of (ce_digest E) (x_tenant x) e) fp
           (of_int (now_sec E + EVENT_ID_TTL_SECONDS)) (reg w1)"
proof -
  obtain s' where r: "remember_event_identities (ce_digest E) (reg w) (x_tenant x) (now_sec E) (ce_remember_up E) [(e, fp)]
      = (True, s')" and w1: "w1 = w\<lparr>reg := s'\<rparr>"
    using assms(1) by (auto simp: remember_ids_def split: prod.splits)
  from remember_single [OF r] assms(2) show ?thesis
    by (auto simp: owned_cell_def accepted_until_def w1 prod_eq_iff)
qed

lemma custody_accepts:
  assumes "accept_impl E x ev w = (Inr r, w1)" and "c_idempotent r = Some False"
    and "zwf_all (reg w)" and "keeps_registry (x_on_down x)"
    and "prepare_payload E (x_tenant x) (x_reservation x) ev = Inr (p, e, fp)"
  shows "accepted_until (cell_of (ce_digest E) (x_tenant x) e) fp
           (of_int (now_sec E + EVENT_ID_TTL_SECONDS)) (reg w1)"
proof -
  obtain rs wc where claim: "claim_ids E x [(e, fp)] w = (Inr rs, wc)"
    using assms(1,5) by (auto simp: accept_impl_def split: prod.splits sum.splits)
  let ?taken = "taken_reply (case hd rs of None \<Rightarrow> Owner | Some st \<Rightarrow> st) e"
  have "?taken = None"
  proof (rule ccontr)
    assume "?taken \<noteq> None"
    then have "?taken = Some r" using assms(1,5) claim by (auto simp: accept_impl_def)
    with assms(2) show False by (auto simp: taken_reply_def done_reply_def retry_reply_def split: option.splits id_state.splits)
  qed
  with claim assms(3) have owned: "owned_cell E x e fp (reg wc)" by (rule claim_owned)
  obtain su env where env: "build_envelope E x p = Inr (su, env)"
    using assms(1,5) claim \<open>?taken = None\<close> by (auto simp: accept_impl_def split: sum.splits prod.splits)
  show ?thesis
  proof (cases "x_on_down x")
    case FailMode
    then have "accept_published E x p e fp su env wc = (Inr r, w1)"
      using assms(1,5) claim \<open>?taken = None\<close> env by (simp add: accept_impl_def)
    then obtain k wp where pub: "publish_with_ack wc (dest_topic x su) k env (ce_outcome E 0) = (Inr (), wp)"
      and rem: "remember_ids E x [(e, fp)] wp = (True, w1)"
      using assms(2)
      by (auto simp: accept_published_def retry_reply_def split: sum.splits prod.splits if_splits bool.splits)
    from pub have "reg wp = reg wc" by (auto simp: publish_with_ack_def)
    with owned show ?thesis by (intro remember_owned [OF rem]) simp
  next
    case (BufferMode hook)
    then obtain bp where bp: "x_on_down x = BufferMode (Some bp)"
      using assms(1,5) claim \<open>?taken = None\<close> env by (cases hook) (auto simp: accept_impl_def)
    then have "accept_buffered E x bp e fp su env wc = (Inr r, w1)"
      using assms(1,5) claim \<open>?taken = None\<close> env by (simp add: accept_impl_def)
    then obtain b wp where pub: "bp wc (dest_topic x su) env = (Inr b, wp)"
      and rem: "remember_ids E x [(e, fp)] wp = (True, w1)"
      using assms(2)
      by (auto simp: accept_buffered_def retry_reply_def split: sum.splits prod.splits bool.splits if_splits)
    have "raw (reg wp) = raw (reg wc)" "zwf_all (reg wp)"
      using assms(4) owned pub unfolding keeps_registry_def bp owned_cell_def
      by (auto dest!: spec [of _ wc] spec [of _ "dest_topic x su"] spec [of _ env])
    with owned show ?thesis by (intro remember_owned [OF rem]) (simp add: owned_cell_def)
  qed
qed

text \<open>
  C6: an accepted event is never published again. Once an event has been answered as accepted
  (or quarantined), then for the thirty days of its identity, whatever is claimed, recorded or
  released in the registry meanwhile, sending the same event again is answered as already
  accepted, sending another payload under its id is answered as a conflict, and neither hands
  anything to Kafka.
\<close>

theorem accepted_never_republished:
  assumes "custody_accept E x ev w = (Inr r, w1)" and "c_idempotent r = Some False"
    and "zwf_all (reg w)" and "keeps_registry (x_on_down x)"
    and "rtranclp (\<lambda>s s'. \<exists>now. now < now_sec E + EVENT_ID_TTL_SECONDS \<and> id_step (ce_digest E) now s s')
           (reg w1) (reg w2)"
    and "ce_digest E' = ce_digest E" and "x_tenant x' = x_tenant x"
    and "now_sec E' < now_sec E + EVENT_ID_TTL_SECONDS" and "ce_claim_up E'"
    and "prepare_payload E (x_tenant x) (x_reservation x) ev = Inr (p, e, fp)"
    and "prepare_payload E' (x_tenant x') (x_reservation x') ev' = Inr (p', e, fp')"
  shows "case custody_accept E' x' ev' w2 of (resp, w3) \<Rightarrow>
    resp = Inr (if fp' = fp then done_reply ''accepted'' e True else retry_reply ''conflict'' e False)
    \<and> sent w3 = sent w2"
proof -
  have acc: "accepted_until (cell_of (ce_digest E) (x_tenant x) e) fp (of_int (now_sec E + EVENT_ID_TTL_SECONDS)) (reg w1)"
    using assms(1) custody_accepts [OF _ assms(2-4,10), of w1] by (simp add: custody_accept_def)
  have steps: "rtranclp (\<lambda>s s'. \<exists>now. of_int now < (of_int (now_sec E + EVENT_ID_TTL_SECONDS) :: rat)
      \<and> id_step (ce_digest E) now s s') (reg w1) (reg w2)"
    using assms(5) by (simp only: of_int_less_iff)
  have now: "of_int (now_sec E') < (of_int (now_sec E + EVENT_ID_TTL_SECONDS) :: rat)"
    using assms(8) by (simp only: of_int_less_iff)
  obtain rs s' where b: "event_identity_status_batch (ce_digest E) (reg w2) (x_tenant x) (now_sec E') [(e, fp')] = (rs, s')"
    by fastforce
  have "hd rs = Some (if fp' = fp then Same else ConflictId)"
    using accepted_answer [OF steps_keep_accepted [OF steps acc] now, of fp'] by (simp add: event_identity_status_def b)
  then show ?thesis
    using assms(6,7,9,11) by (auto simp: custody_accept_def accept_impl_def claim_ids_def b taken_reply_def)
qed

section \<open>A new event\<close>

lemma claim_new:
  assumes "zwf_all (reg w)" and "ce_claim_up E"
    and "fst (live (of_int (now_sec E)) (reg w) (cell_of (ce_digest E) (x_tenant x) e)) = None"
  shows "\<exists>w1. claim_ids E x [(e, fp)] w = (Inr [Some Owner], w1) \<and> owned_cell E x e fp (reg w1) \<and> sent w1 = sent w"
proof -
  obtain rs s' where b: "event_identity_status_batch (ce_digest E) (reg w) (x_tenant x) (now_sec E) [(e, fp)] = (rs, s')"
    by fastforce
  have "rs = [Some Owner]" using single_claim_live(1) [OF assms(1) b] assms(3) by (simp add: claim_live_def)
  then have c: "claim_ids E x [(e, fp)] w = (Inr [Some Owner], w\<lparr>reg := s'\<rparr>)"
    using b assms(2) by (simp add: claim_ids_def)
  moreover have "owned_cell E x e fp (reg (w\<lparr>reg := s'\<rparr>))"
    using claim_owned [OF c assms(1)] by (simp add: taken_reply_def)
  ultimately show ?thesis by (intro exI [of _ "w\<lparr>reg := s'\<rparr>"]) simp
qed

lemma remember_pending:
  assumes "owned_cell E x e fp (reg w)" and "ce_remember_up E = []"
  shows "\<exists>w1. remember_ids E x [(e, fp)] w = (True, w1) \<and> sent w1 = sent w
    \<and> fst (raw (reg w1) (cell_of (ce_digest E) (x_tenant x) e)) = Some (entry ''accepted'' fp)"
proof -
  obtain n s' where t: "transition_event_identities (ce_digest E) (reg w) (x_tenant x) (now_sec E) ''accepted'' [(e, fp)] = (n, s')"
    by fastforce
  have "n = 1" "fst (raw s' (cell_of (ce_digest E) (x_tenant x) e)) = Some (entry ''accepted'' fp)"
    using transition_single [OF t] assms(1) by (auto simp: transition_cell_def owned_cell_def)
  then show ?thesis
    using t assms(2)
    by (simp add: remember_ids_def remember_event_identities_def EVENT_ID_FINALIZE_RETRIES_def numeral_eq_Suc)
qed

lemma mark_pending:
  assumes "owned_cell E x e fp (reg w)" and "ce_mark_up E"
  shows "fst (raw (reg (mark_ids E x [(e, fp)] w)) (cell_of (ce_digest E) (x_tenant x) e)) = Some (entry ''uncertain'' fp)"
proof -
  obtain n s' where t: "transition_event_identities (ce_digest E) (reg w) (x_tenant x) (now_sec E) ''uncertain'' [(e, fp)] = (n, s')"
    by fastforce
  then show ?thesis
    using transition_single(2) [OF t] assms
    by (auto simp: transition_cell_def owned_cell_def mark_ids_def mark_event_identities_uncertain_def)
qed

lemma release_pending:
  assumes "owned_cell E x e fp (reg w)" and "ce_release_up E"
  shows "\<exists>w1. release_ids E x [(e, fp)] w = (Inr (), w1) \<and> sent w1 = sent w
    \<and> raw (reg w1) (cell_of (ce_digest E) (x_tenant x) e) = (None, None)"
proof -
  let ?w = "shard_name (ce_digest E) (x_tenant x) e"
  obtain b s1 where one: "release_one (bucket ?w) (0, ce_digest E e, fp) (reg w) = (b, s1)" by fastforce
  have "raw s1 (cell_of (ce_digest E) (x_tenant x) e) = (None, None)"
    using one assms(1)
    by (auto simp: release_one_def Let_def raw_hget raw_drop owned_cell_def cell_of_def split: if_splits)
  then show ?thesis
    using one assms(2)
    by (simp add: release_ids_def release_event_identities_def group_single release_script_def)
qed

text \<open>A new event that Kafka acknowledges is accepted, or quarantined.\<close>

lemma fresh_accept:
  assumes prep: "prepare_payload E (x_tenant x) (x_reservation x) ev = Inr (p, e, fp)"
    and env: "build_envelope E x p = Inr (su, env)"
    and customer: "bindE (json_index (JObj p) ''customerId'') json_text = Inr customer"
    and fm: "x_on_down x = FailMode" and z: "zwf_all (reg w)"
    and new: "fst (live (of_int (now_sec E)) (reg w) (cell_of (ce_digest E) (x_tenant x) e)) = None"
    and up: "ce_claim_up E" "ce_remember_up E = []" "ce_outcome E 0 = Acked"
  shows "\<exists>w1. custody_accept E x ev w = (Inr (final_reply su e), w1)"
proof -
  obtain wc where c: "claim_ids E x [(e, fp)] w = (Inr [Some Owner], wc)" and o: "owned_cell E x e fp (reg wc)"
    using claim_new [OF z up(1) new] by blast
  define wp where "wp = wc\<lparr>sent := sent wc @ [\<lparr>m_topic = dest_topic x su, m_key = customer, m_value = env, m_outcome = Acked\<rparr>]\<rparr>"
  have "owned_cell E x e fp (reg wp)" using o by (simp add: wp_def)
  from remember_pending [OF this up(2)] obtain w1 where rem: "remember_ids E x [(e, fp)] wp = (True, w1)" by blast
  have "publish_with_ack wc (dest_topic x su) customer env Acked = (Inr (), wp)"
    by (simp add: publish_with_ack_def wp_def outcome_error_def)
  then show ?thesis
    using prep env customer fm up c rem
    by (simp add: custody_accept_def accept_impl_def taken_reply_def accept_published_def)
qed


section \<open>Batches\<close>

abbreviation event_of :: "prepared \<Rightarrow> string" where
  "event_of p \<equiv> fst (snd p)"

text \<open>An index that is answered for, and those it answers with itself.\<close>

definition group_of :: "dedup \<Rightarrow> nat \<Rightarrow> nat list" where
  "group_of d i = i # aliases_of d i"

text \<open>What the de-duplication has established after the first \<open>n\<close> events.\<close>

definition uniq_ok :: "prepared list \<Rightarrow> nat \<Rightarrow> dedup \<Rightarrow> nat \<times> prepared \<Rightarrow> bool" where
  "uniq_ok ps n d ip \<longleftrightarrow> fst ip < n \<and> snd ip = ps ! fst ip
     \<and> (\<forall>a \<in> set (aliases_of d (fst ip)). event_of (ps ! a) = event_of (ps ! fst ip))"

definition covers :: "prepared list \<Rightarrow> dedup \<Rightarrow> nat set \<Rightarrow> custody_reply option list \<Rightarrow> nat \<Rightarrow> bool" where
  "covers ps d J results i \<longleftrightarrow> (case results ! i of
     None \<Rightarrow> \<exists>j \<in> J. i \<in> set (group_of d j) | Some r \<Rightarrow> c_event r = event_of (ps ! i))"

definition dedup_inv :: "prepared list \<Rightarrow> nat \<Rightarrow> dedup \<Rightarrow> bool" where
  "dedup_inv ps n d \<longleftrightarrow> length (dd_results d) = length ps
     \<and> (\<forall>ip \<in> set (dd_unique d). uniq_ok ps n d ip)
     \<and> distinct (map (event_of \<circ> snd) (dd_unique d))
     \<and> fst ` set (dd_seen d) = (event_of \<circ> snd) ` set (dd_unique d)
     \<and> (\<forall>x \<in> set (dd_seen d). (snd (snd x), ps ! snd (snd x)) \<in> set (dd_unique d)
            \<and> event_of (ps ! snd (snd x)) = fst x)
     \<and> (\<forall>i < n. covers ps d (fst ` set (dd_unique d)) (dd_results d) i)
     \<and> (\<forall>i. n \<le> i \<longrightarrow> i < length ps \<longrightarrow> dd_results d ! i = None)"

lemmas dedup_parts = iffD1 [OF dedup_inv_def, THEN conjunct1]
  iffD1 [OF dedup_inv_def, THEN conjunct2, THEN conjunct1]
  iffD1 [OF dedup_inv_def, THEN conjunct2, THEN conjunct2, THEN conjunct1]
  iffD1 [OF dedup_inv_def, THEN conjunct2, THEN conjunct2, THEN conjunct2, THEN conjunct1]
  iffD1 [OF dedup_inv_def, THEN conjunct2, THEN conjunct2, THEN conjunct2, THEN conjunct2, THEN conjunct1]
  iffD1 [OF dedup_inv_def, THEN conjunct2, THEN conjunct2, THEN conjunct2, THEN conjunct2, THEN conjunct2, THEN conjunct1]
  iffD1 [OF dedup_inv_def, THEN conjunct2, THEN conjunct2, THEN conjunct2, THEN conjunct2, THEN conjunct2, THEN conjunct2]

lemma covers_mono:
  assumes "covers ps d J results i" and "J \<subseteq> J'" and "\<And>j. j \<in> J \<Longrightarrow> set (group_of d j) \<subseteq> set (group_of d' j)"
  shows "covers ps d' J' results i"
  using assms unfolding covers_def by (cases "results ! i") (simp_all, blast)

lemma retry_event [simp]: "c_event (retry_reply st e b) = e" "c_event (done_reply st e b) = e"
    "c_event (final_reply su e) = e"
  by (simp_all add: retry_reply_def done_reply_def final_reply_def)

lemma aliases_of_simps [simp]:
  "aliases_of (d\<lparr>dd_seen := a, dd_unique := b, dd_aliases := (n, l) # dd_aliases d\<rparr>) i
     = (if i = n then l else aliases_of d i)"
  "aliases_of (d\<lparr>dd_aliases := AList.update j l (dd_aliases d)\<rparr>) i = (if i = j then l else aliases_of d i)"
  "aliases_of (d\<lparr>dd_results := rs\<rparr>) i = aliases_of d i"
  by (auto simp: aliases_of_def update_conv')

lemma dedup_step_new:
  assumes I: "dedup_inv ps n d" and n: "n < length ps" and pn: "ps ! n = (p, e, fp)"
    and None: "map_of (dd_seen d) e = None"
  shows "dedup_inv ps (Suc n) (dedup_one (n, ps ! n) d)"
proof -
  note D = dedup_parts [OF I]
  define d' where "d' = d\<lparr>dd_seen := (e, (fp, n)) # dd_seen d,
      dd_unique := dd_unique d @ [(n, ps ! n)], dd_aliases := (n, []) # dd_aliases d\<rparr>"
  have step: "dedup_one (n, ps ! n) d = d'" by (simp add: dedup_one_def pn None d'_def)
  have sel: "dd_seen d' = (e, (fp, n)) # dd_seen d" "dd_unique d' = dd_unique d @ [(n, ps ! n)]"
    "dd_results d' = dd_results d" "aliases_of d' i = (if i = n then [] else aliases_of d i)" for i
    by (simp_all add: d'_def)
  have new: "e \<notin> (event_of \<circ> snd) ` set (dd_unique d)"
    using None unfolding D(4) [symmetric] map_of_eq_None_iff .
  have lt: "j \<noteq> n" if "j \<in> fst ` set (dd_unique d)" for j
    using D(2) that by (auto simp: uniq_ok_def)
  have old: "covers ps d' (fst ` set (dd_unique d')) (dd_results d') i" if "i < n" for i
    using covers_mono [OF D(6) [rule_format, OF that], of "fst ` set (dd_unique d')" d'] lt
    by (auto simp: sel group_of_def)
  have now: "covers ps d' (fst ` set (dd_unique d')) (dd_results d') n"
    using D(7) n by (simp add: covers_def sel group_of_def)
  show ?thesis
    unfolding step dedup_inv_def
  proof (intro conjI)
    show "\<forall>ip \<in> set (dd_unique d'). uniq_ok ps (Suc n) d' ip"
    proof
      fix ip assume "ip \<in> set (dd_unique d')"
      then consider "ip \<in> set (dd_unique d)" | "ip = (n, ps ! n)" by (auto simp: sel)
      then show "uniq_ok ps (Suc n) d' ip"
      proof cases
        case 1
        with D(2) have "uniq_ok ps n d ip" by blast
        moreover have "fst ip \<noteq> n" using 1 lt by blast
        ultimately show ?thesis unfolding uniq_ok_def sel by simp
      qed (simp add: uniq_ok_def sel)
    qed
    show "distinct (map (event_of \<circ> snd) (dd_unique d'))" using D(3) new by (simp add: sel pn)
    show "fst ` set (dd_seen d') = (event_of \<circ> snd) ` set (dd_unique d')" using D(4) by (simp add: sel pn)
    show "\<forall>x \<in> set (dd_seen d'). (snd (snd x), ps ! snd (snd x)) \<in> set (dd_unique d')
            \<and> event_of (ps ! snd (snd x)) = fst x"
      using D(5) by (simp add: sel pn)
    show "\<forall>i < Suc n. covers ps d' (fst ` set (dd_unique d')) (dd_results d') i"
      using old now by (auto simp: less_Suc_eq)
  qed (use D(1,7) in \<open>simp_all add: sel\<close>)
qed

lemma dedup_step_alias:
  assumes I: "dedup_inv ps n d" and n: "n < length ps" and pn: "ps ! n = (p, e, fp)"
    and Some: "map_of (dd_seen d) e = Some (fp, first)"
  shows "dedup_inv ps (Suc n) (dedup_one (n, ps ! n) d)"
proof -
  note D = dedup_parts [OF I]
  have first: "(first, ps ! first) \<in> set (dd_unique d)" "event_of (ps ! first) = e"
    using D(5) map_of_SomeD [OF Some] by (auto dest: bspec)
  define d' where "d' = d\<lparr>dd_aliases := AList.update first (aliases_of d first @ [n]) (dd_aliases d)\<rparr>"
  have step: "dedup_one (n, ps ! n) d = d'" by (simp add: dedup_one_def pn Some d'_def)
  have sel: "dd_seen d' = dd_seen d" "dd_unique d' = dd_unique d" "dd_results d' = dd_results d"
    "aliases_of d' i = (if i = first then aliases_of d first @ [n] else aliases_of d i)" for i
    by (simp_all add: d'_def)
  have mono: "set (group_of d j) \<subseteq> set (group_of d' j)" for j by (auto simp: group_of_def sel)
  have old: "covers ps d' (fst ` set (dd_unique d')) (dd_results d') i" if "i < n" for i
    using covers_mono [OF D(6) [rule_format, OF that] _ mono] unfolding sel(2,3) by blast
  have "first \<in> fst ` set (dd_unique d)" using first(1) by force
  then have now: "covers ps d' (fst ` set (dd_unique d')) (dd_results d') n"
    using D(7) n by (auto simp: covers_def sel group_of_def intro!: bexI [of _ first])
  show ?thesis
    unfolding step dedup_inv_def
  proof (intro conjI)
    show "\<forall>ip \<in> set (dd_unique d'). uniq_ok ps (Suc n) d' ip"
    proof
      fix ip assume "ip \<in> set (dd_unique d')"
      with D(2) have "uniq_ok ps n d ip" by (simp add: sel(2))
      then show "uniq_ok ps (Suc n) d' ip"
        unfolding uniq_ok_def sel(4) using first(2) by (simp add: pn)
    qed
    show "\<forall>i < Suc n. covers ps d' (fst ` set (dd_unique d')) (dd_results d') i"
      using old now by (auto simp: less_Suc_eq)
  qed (use D in \<open>simp_all add: sel\<close>)
qed

lemma dedup_step_conflict:
  assumes I: "dedup_inv ps n d" and n: "n < length ps" and pn: "ps ! n = (p, e, fp)"
    and Some: "map_of (dd_seen d) e = Some (fp', first)" and ne: "fp' \<noteq> fp"
  shows "dedup_inv ps (Suc n) (dedup_one (n, ps ! n) d)"
proof -
  note D = dedup_parts [OF I]
  define d' where "d' = d\<lparr>dd_results := (dd_results d)[n := Some (retry_reply ''conflict'' e False)]\<rparr>"
  have step: "dedup_one (n, ps ! n) d = d'" by (simp add: dedup_one_def pn Some ne d'_def)
  have sel: "dd_seen d' = dd_seen d" "dd_unique d' = dd_unique d" "aliases_of d' i = aliases_of d i"
    "group_of d' i = group_of d i"
    "dd_results d' = (dd_results d)[n := Some (retry_reply ''conflict'' e False)]" for i
    by (simp_all add: d'_def group_of_def)
  have old: "covers ps d' (fst ` set (dd_unique d')) (dd_results d') i" if "i < n" for i
    using D(6) that by (simp add: covers_def sel cong: option.case_cong)
  have now: "covers ps d' (fst ` set (dd_unique d')) (dd_results d') n"
    using D(1) n by (simp add: covers_def sel pn)
  show ?thesis
    unfolding step dedup_inv_def
  proof (intro conjI)
    show "\<forall>ip \<in> set (dd_unique d'). uniq_ok ps (Suc n) d' ip"
      using D(2) unfolding sel(2) uniq_ok_def sel(3) by (simp add: less_Suc_eq)
    show "\<forall>i < Suc n. covers ps d' (fst ` set (dd_unique d')) (dd_results d') i"
      using old now by (auto simp: less_Suc_eq)
  qed (use D in \<open>simp_all add: sel\<close>)
qed

lemma deduplicate_inv: "dedup_inv ps (length ps) (deduplicate ps)"
proof -
  define d0 where "d0 = \<lparr>dd_seen = [], dd_unique = [], dd_aliases = [], dd_results = replicate (length ps) None\<rparr>"
  have "n \<le> length ps \<Longrightarrow> dedup_inv ps n (fold dedup_one (zip [0..<n] (take n ps)) d0)" for n
  proof (induction n)
    case 0
    then show ?case by (simp add: d0_def dedup_inv_def)
  next
    case (Suc n)
    let ?d = "fold dedup_one (zip [0..<n] (take n ps)) d0"
    have z: "zip [0..<Suc n] (take (Suc n) ps) = zip [0..<n] (take n ps) @ [(n, ps ! n)]"
      using Suc.prems by (simp add: take_Suc_conv_app_nth)
    have "zip ([0..<n] @ [n]) (take (Suc n) ps) = zip [0..<n] (take n ps) @ [(n, ps ! n)]"
      using z by simp
    note z = z this
    obtain p e fp where pn: "ps ! n = (p, e, fp)" by (cases "ps ! n") auto
    have I: "dedup_inv ps n ?d" using Suc by simp
    have "dedup_inv ps (Suc n) (dedup_one (n, ps ! n) ?d)"
    proof (cases "map_of (dd_seen ?d) e")
      case None
      then show ?thesis using dedup_step_new [OF I _ pn] Suc.prems by simp
    next
      case (Some hi)
      obtain fp' first where hi: "hi = (fp', first)" by fastforce
      show ?thesis
        using dedup_step_alias [OF I _ pn] dedup_step_conflict [OF I _ pn] Some Suc.prems
        by (cases "fp' = fp") (simp_all add: hi)
    qed
    then show ?case by (simp add: z)
  qed
  from this [of "length ps"] show ?thesis by (simp add: deduplicate_def d0_def)
qed

text \<open>Every index has an answer about its own event, or waits for one of the indices in \<open>J\<close>.\<close>

definition answered :: "prepared list \<Rightarrow> dedup \<Rightarrow> nat set \<Rightarrow> custody_reply option list \<Rightarrow> bool" where
  "answered ps d J results \<longleftrightarrow> length results = length ps \<and> (\<forall>i < length ps. covers ps d J results i)"

lemma fold_put_length [simp]: "length (fold (\<lambda>a rs. rs[a := Some r]) as rs) = length rs"
  by (induction as arbitrary: rs) simp_all

lemma fold_put_nth: "i < length rs \<Longrightarrow>
    fold (\<lambda>a rs. rs[a := Some r]) as rs ! i = (if i \<in> set as then Some r else rs ! i)"
  by (induction as arbitrary: rs) (auto simp: nth_list_update)

lemma answer_nth: "i < length rs \<Longrightarrow> answer d j r r' rs ! i =
    (if i \<in> set (aliases_of d j) then Some r' else if i = j then Some r else rs ! i)"
  by (simp add: answer_def fold_put_nth nth_list_update)

lemma answered_answer:
  assumes "answered ps d (insert j J) results" and "uniq_ok ps n d (j, q)"
    and "c_event r = event_of (ps ! j)" and "c_event r' = event_of (ps ! j)"
  shows "answered ps d J (answer d j r r' results)"
  unfolding answered_def
proof (intro conjI allI impI)
  show "length (answer d j r r' results) = length ps" using assms(1) by (simp add: answered_def answer_def)
next
  fix i assume i: "i < length ps"
  then have c: "covers ps d (insert j J) results i" and l: "i < length results"
    using assms(1) by (simp_all add: answered_def)
  have al: "event_of (ps ! i) = event_of (ps ! j)" if "i \<in> set (group_of d j)"
    using assms(2) that by (auto simp: uniq_ok_def group_of_def)
  show "covers ps d J (answer d j r r' results) i"
  proof (cases "i \<in> set (group_of d j)")
    case True
    with al assms(3,4) show ?thesis by (auto simp: covers_def answer_nth [OF l] group_of_def)
  next
    case False
    then have "answer d j r r' results ! i = results ! i" by (simp add: answer_nth [OF l] group_of_def)
    with c False show ?thesis unfolding covers_def by (cases "results ! i") auto
  qed
qed

lemma answered_mono: "answered ps d J results \<Longrightarrow> J \<subseteq> J' \<Longrightarrow> answered ps d J' results"
  unfolding answered_def using covers_mono by blast

text \<open>The events that are published, each with the envelope of its own payload.\<close>

definition own_ok :: "custody_env \<Rightarrow> custody_ctx \<Rightarrow> owned \<Rightarrow> bool" where
  "own_ok E x ow = (case ow of (index, (payload, event_id, fp), suspicious, envelope) \<Rightarrow>
     build_envelope E x payload = Inr (suspicious, envelope))"

lemma split_claims_answered:
  assumes "split_claims E x d xs results = Inr (own, results')"
    and "answered ps d ((fst \<circ> fst) ` set xs \<union> K) results" and "\<forall>y \<in> set xs. uniq_ok ps n d (fst y)"
  shows "answered ps d (fst ` set own \<union> K) results'
    \<and> subseq (map (\<lambda>ow. (fst ow, fst (snd ow))) own) (map fst xs) \<and> (\<forall>ow \<in> set own. own_ok E x ow)"
  using assms
proof (induction xs arbitrary: results own results' K)
  case Nil
  then show ?case by simp
next
  case (Cons y xs)
  obtain index payload e fp st where y: "y = ((index, payload, e, fp), st)" by (metis prod.collapse)
  have ok: "uniq_ok ps n d (index, (payload, e, fp))" using Cons.prems(3) by (simp add: y)
  then have pi: "event_of (ps ! index) = e" by (auto simp: uniq_ok_def dest: sym)
  show ?case
  proof (cases "taken_reply (case st of None \<Rightarrow> Owner | Some s \<Rightarrow> s) e")
    case (Some r)
    have re: "c_event r = event_of (ps ! index)"
      using Some by (auto simp: taken_reply_def pi split: id_state.splits)
    have ans: "answered ps d ((fst \<circ> fst) ` set xs \<union> K) (answer d index r r results)"
      using answered_answer [OF _ ok re re] Cons.prems(2) by (simp add: y)
    have "split_claims E x d xs (answer d index r r results) = Inr (own, results')"
      using Cons.prems(1) by (simp add: y Some)
    from Cons.IH [OF this ans] Cons.prems(3) show ?thesis by (auto intro: subseq_order.trans)
  next
    case None
    then obtain su env own' where env: "build_envelope E x payload = Inr (su, env)"
      and rest: "split_claims E x d xs results = Inr (own', results')"
      and own: "own = (index, (payload, e, fp), su, env) # own'"
      using Cons.prems(1) by (auto simp: y)
    have "answered ps d ((fst \<circ> fst) ` set xs \<union> insert index K) results"
      using Cons.prems(2) by (simp add: y)
    from Cons.IH [OF rest this] Cons.prems(3) show ?thesis by (simp add: own y own_ok_def env)
  qed
qed

lemma sort_outcomes_answered:
  assumes "answered ps d (fst ` set (map fst oms) \<union> fst ` set (so_accepted a)) (so_results a)"
    and "\<forall>om \<in> set oms. uniq_ok ps n d (fst (fst om), fst (snd (fst om)))"
    and "\<forall>(i, e, fp, su) \<in> set (so_accepted a). uniq_ok ps n d (i, ps ! i) \<and> e = event_of (ps ! i)"
  shows "case fold (sort_outcome d) oms a of a' \<Rightarrow>
    answered ps d (fst ` set (so_accepted a')) (so_results a')
    \<and> (\<forall>(i, e, fp, su) \<in> set (so_accepted a'). uniq_ok ps n d (i, ps ! i) \<and> e = event_of (ps ! i))"
  using assms
proof (induction oms arbitrary: a)
  case Nil
  then show ?case by simp
next
  case (Cons om oms)
  obtain index payload e fp su env m where om: "om = ((index, (payload, e, fp), su, env), m)"
    by (metis prod.collapse)
  let ?a = "sort_outcome d om a"
  have ok: "uniq_ok ps n d (index, (payload, e, fp))" using Cons.prems(2) by (simp add: om)
  then have pi: "ps ! index = (payload, e, fp)" by (simp add: uniq_ok_def)
  have put: "answered ps d (fst ` set (map fst oms) \<union> fst ` set (so_accepted a))
      (answer d index (retry_reply st e True) (retry_reply st e True) (so_results a))" for st
    using Cons.prems(1) by (intro answered_answer [OF _ ok]) (simp_all add: om pi)
  have ans: "answered ps d (fst ` set (map fst oms) \<union> fst ` set (so_accepted ?a)) (so_results ?a)"
    using put Cons.prems(1) by (cases "m_outcome m") (simp_all add: sort_outcome_def om)
  have acc: "\<forall>(i, e, fp, su) \<in> set (so_accepted ?a). uniq_ok ps n d (i, ps ! i) \<and> e = event_of (ps ! i)"
    using Cons.prems(3) ok pi by (cases "m_outcome m") (auto simp: sort_outcome_def om)
  from Cons.IH [OF ans _ acc] Cons.prems(2) show ?case by simp
qed

lemma finish_accepted_answered:
  assumes "answered ps d (fst ` set acc) results"
    and "\<forall>(i, e, fp, su) \<in> set acc. uniq_ok ps n d (i, ps ! i) \<and> e = event_of (ps ! i)"
  shows "answered ps d {} (finish_accepted d finalized acc results)"
  using assms
proof (induction acc arbitrary: results)
  case Nil
  then show ?case by (simp add: finish_accepted_def)
next
  case (Cons y acc)
  obtain i e fp su where y: "y = (i, e, fp, su)" by (metis prod.collapse)
  have ok: "uniq_ok ps n d (i, ps ! i)" and e: "e = event_of (ps ! i)" using Cons.prems(2) by (simp_all add: y)
  have ans: "answered ps d (insert i (fst ` set acc)) results" using Cons.prems(1) by (simp add: y)
  have fin: "finish_accepted d finalized (y # acc) results = finish_accepted d finalized acc
     (if finalized then answer d i (final_reply su e)
         (done_reply (if su then ''quarantined'' else ''accepted'') e True) results
      else answer d i (retry_reply ''uncertain'' e True) (retry_reply ''uncertain'' e True) results)"
    by (simp add: finish_accepted_def y)
  show ?case
    unfolding fin by (intro Cons.IH) (use Cons.prems(2) ans answered_answer [OF ans ok] in \<open>auto simp: e\<close>)
qed

text \<open>None of the steps before the last raises the error the last one checks for.\<close>

lemma mapE_error: "mapE f xs = Inl e \<Longrightarrow> \<exists>x \<in> set xs. f x = Inl e"
  by (induction xs) (auto simp: bindE_def split: sum.splits)

lemma bindE_error: "bindE m f = Inl e \<Longrightarrow> m = Inl e \<or> (\<exists>v. m = Inr v \<and> f v = Inl e)"
  by (cases m) simp_all

lemma never_runtime:
  "json_index j f \<noteq> Inl RuntimeError" "json_int j \<noteq> Inl RuntimeError" "json_encode j \<noteq> Inl RuntimeError"
  "json_text j \<noteq> Inl RuntimeError" "resolve_custody_event_id ev res_id \<noteq> Inl RuntimeError"
  by (auto simp: json_index_def json_int_def json_encode_def json_text_def resolve_custody_event_id_def
      split: json.splits option.splits)

lemma prepare_never_runtime: "prepare_payload E t r ev \<noteq> Inl RuntimeError"
  using never_runtime by (auto simp: prepare_payload_def Let_def dest!: bindE_error)

lemma envelope_never_runtime: "build_envelope E x p \<noteq> Inl RuntimeError"
  using never_runtime by (auto simp: build_envelope_def trusted_envelope_def Let_def dest!: bindE_error)

lemma split_never_runtime: "split_claims E x d xs results \<noteq> Inl RuntimeError"
proof (induction E x d xs results rule: split_claims.induct)
  case (2 E x d index payload e fp st rest results)
  show ?case
  proof (cases "taken_reply (case st of None \<Rightarrow> Owner | Some s \<Rightarrow> s) e")
    case None
    with 2 show ?thesis using envelope_never_runtime by (auto dest!: bindE_error)
  next
    case (Some r)
    with 2 show ?thesis by simp
  qed
qed simp

lemma messages_never_runtime: "batch_messages E x own \<noteq> Inl RuntimeError"
  using never_runtime by (auto simp: batch_messages_def dest!: mapE_error bindE_error)

text \<open>The event id a message carries.\<close>

definition message_event :: "message \<Rightarrow> json res" where
  "message_event m = bindE (json_index (m_value m) ''payload'') (\<lambda>p. json_index p ''eventId'')"

lemma prepared_event:
  assumes "prepare_payload E t r ev = Inr (p, e, fp)"
  shows "map_of p ''eventId'' = Some (JStr e)"
  using assms by (auto simp: prepare_payload_def Let_def update_conv' map_add_def split: if_splits)

lemma envelope_event:
  assumes "build_envelope E x p = Inr (su, env)" and "map_of p ''eventId'' = Some (JStr e)"
  shows "bindE (json_index env ''payload'') (\<lambda>p. json_index p ''eventId'') = Inr (JStr e)"
  using assms by (auto simp: build_envelope_def trusted_envelope_def json_index_def Let_def split: option.splits)

lemma batch_message_events:
  assumes "batch_messages E x own = Inr msgs"
    and "\<forall>ow \<in> set own. own_ok E x ow \<and> map_of (fst (fst (snd ow))) ''eventId'' = Some (JStr (event_of (fst (snd ow))))"
  shows "map message_event msgs = map (\<lambda>ow. Inr (JStr (event_of (fst (snd ow))))) own"
proof (rule nth_equalityI)
  show len: "length (map message_event msgs) = length (map (\<lambda>ow. Inr (JStr (event_of (fst (snd ow))))) own)"
    using mapE_length [OF assms(1) [unfolded batch_messages_def]] by simp
  fix i assume "i < length (map message_event msgs)"
  then have i: "i < length own" using len by simp
  obtain index p e fp su env where o: "own ! i = (index, (p, e, fp), su, env)" by (metis prod.collapse)
  have ok: "build_envelope E x p = Inr (su, env)" "map_of p ''eventId'' = Some (JStr e)"
    using assms(2) nth_mem [OF i] by (auto simp: o own_ok_def)
  have "m_value (msgs ! i) = env"
    using mapE_nth [OF assms(1) [unfolded batch_messages_def], of i] i
    by (auto simp: o dest!: arg_cong [where f = m_value])
  then show "map message_event msgs ! i = map (\<lambda>ow. Inr (JStr (event_of (fst (snd ow))))) own ! i"
    using envelope_event [OF ok] i len by (simp add: o message_event_def)
qed

lemma answered_events:
  assumes "answered ps d {} results"
  shows "None \<notin> set results" and "map c_event (map the results) = map event_of ps"
proof -
  have some: "\<exists>r. results ! i = Some r \<and> c_event r = event_of (ps ! i)" if "i < length ps" for i
    using assms that by (auto simp: answered_def covers_def split: option.splits)
  have len: "length results = length ps" using assms by (simp add: answered_def)
  show "None \<notin> set results" using some len by (force simp: in_set_conv_nth)
  show "map c_event (map the results) = map event_of ps"
    by (rule nth_equalityI) (use some len in fastforce)+
qed

lemma subseq_distinct: "subseq xs ys \<Longrightarrow> distinct ys \<Longrightarrow> distinct xs"
  by (induction rule: list_emb.induct) (auto dest: list_emb_set)

lemma accept_many_parts:
  assumes "mapE (prepare_payload E (x_tenant x) None) events = Inr ps"
    and "split_claims E x (deduplicate ps) (zip (dd_unique (deduplicate ps)) states) (dd_results (deduplicate ps)) = Inr (own, results)"
    and "length states = length (dd_unique (deduplicate ps))" and "batch_messages E x own = Inr msgs"
  shows "distinct (map message_event msgs)"
    and "answered ps (deduplicate ps) {}
      (finish_accepted (deduplicate ps) fin (so_accepted (sorted_batch (deduplicate ps) own msgs results))
         (so_results (sorted_batch (deduplicate ps) own msgs results)))"
proof -
  let ?d = "deduplicate ps"
  let ?a0 = "\<lparr>so_accepted = [], so_failed = [], so_uncertain = [], so_results = results\<rparr>"
  note D = dedup_parts [OF deduplicate_inv [of ps]]
  have firsts: "map fst (zip (dd_unique ?d) states) = dd_unique ?d" using assms(3) by simp
  have "(fst \<circ> fst) ` set (zip (dd_unique ?d) states) = fst ` set (dd_unique ?d)"
    using firsts by (metis image_comp list.set_map)
  then have start: "answered ps ?d ((fst \<circ> fst) ` set (zip (dd_unique ?d) states) \<union> {}) (dd_results ?d)"
    using D(1,6) by (simp add: answered_def)
  have uniq: "\<forall>y \<in> set (zip (dd_unique ?d) states). uniq_ok ps (length ps) ?d (fst y)"
    using D(2) by (auto dest: set_zip_leftD)
  note S = split_claims_answered [OF assms(2) start uniq]
  then have sub: "subseq (map (\<lambda>ow. (fst ow, fst (snd ow))) own) (dd_unique ?d)"
    and own: "\<forall>ow \<in> set own. own_ok E x ow" and ans: "answered ps ?d (fst ` set own \<union> {}) results"
    by (simp_all add: firsts)
  have own_uniq: "uniq_ok ps (length ps) ?d (fst ow, fst (snd ow))" if "ow \<in> set own" for ow
  proof -
    have "(fst ow, fst (snd ow)) \<in> set (map (\<lambda>ow. (fst ow, fst (snd ow))) own)" using that by simp
    then have "(fst ow, fst (snd ow)) \<in> set (dd_unique ?d)" using list_emb_set [OF sub] by blast
    with D(2) show ?thesis by blast
  qed
  have len: "length msgs = length own"
    using mapE_length [OF assms(4) [unfolded batch_messages_def]] by simp
  have ids: "map_of (fst (fst (snd ow))) ''eventId'' = Some (JStr (event_of (fst (snd ow))))" if "ow \<in> set own" for ow
  proof -
    have "fst ow < length ps" "fst (snd ow) = ps ! fst ow" using own_uniq [OF that] by (auto simp: uniq_ok_def)
    then have "fst (snd ow) \<in> set ps" by simp
    from mapE_set [OF assms(1) this] obtain ev where
      "prepare_payload E (x_tenant x) None ev = Inr (fst (snd ow))" by blast
    then show ?thesis
      using prepared_event [of E "x_tenant x" None ev "fst (fst (snd ow))" "event_of (fst (snd ow))"]
      by (metis prod.collapse)
  qed
  have "map (\<lambda>ow. event_of (fst (snd ow))) own = map (event_of \<circ> snd) (map (\<lambda>ow. (fst ow, fst (snd ow))) own)"
    by (simp add: comp_def)
  moreover have "distinct (map (event_of \<circ> snd) (map (\<lambda>ow. (fst ow, fst (snd ow))) own))"
    using D(3) subseq_map [OF sub, of "event_of \<circ> snd"] subseq_distinct by blast
  ultimately have "distinct (map (\<lambda>ow. event_of (fst (snd ow))) own)" by (simp only:)
  then have "distinct (map (\<lambda>ow. Inr (JStr (event_of (fst (snd ow)))) :: json res) own)"
    by (simp add: distinct_map inj_on_def)
  then show "distinct (map message_event msgs)"
    using batch_message_events [OF assms(4)] own ids by simp
  have "answered ps ?d (fst ` set (map fst (zip own msgs)) \<union> fst ` set (so_accepted ?a0)) (so_results ?a0)"
    using ans len by simp
  moreover have "\<forall>om \<in> set (zip own msgs). uniq_ok ps (length ps) ?d (fst (fst om), fst (snd (fst om)))"
    using own_uniq by (auto dest!: set_zip_leftD)
  ultimately show "answered ps ?d {} (finish_accepted ?d fin (so_accepted (sorted_batch ?d own msgs results))
      (so_results (sorted_batch ?d own msgs results)))"
    unfolding sorted_batch_def using sort_outcomes_answered [of ps ?d "zip own msgs" ?a0 "length ps"]
    by (intro finish_accepted_answered [where n = "length ps"]) (simp_all add: Let_def)
qed

lemma place_length: "length (place gs sts rs) = length rs"
proof -
  have inner: "length (fold write_answer ys rs) = length rs" for ys and rs :: "id_state option list"
    by (induction ys arbitrary: rs) (simp_all add: write_answer_def)
  show ?thesis
    unfolding place_def
    by (rule fold_invariant [where P = "\<lambda>rs'. length rs' = length rs" and Q = "\<lambda>_. True"]) (auto simp: inner)
qed

lemma claim_ids_length:
  assumes "claim_ids E x ids w = (Inr rs, w1)"
  shows "length rs = length ids \<and> sent w1 = sent w"
  using assms place_length
  by (auto simp: claim_ids_def event_identity_status_batch_def Let_def split: if_splits prod.splits)

lemma registry_steps_sent:
  "claim_ids E x ids w = (r, w1) \<Longrightarrow> sent w1 = sent w"
  "remember_ids E x ids w = (b, w1) \<Longrightarrow> sent w1 = sent w"
  "sent (mark_ids E x ids w) = sent w"
  "release_ids E x ids w = (u, w1) \<Longrightarrow> sent w1 = sent w"
  by (auto simp: claim_ids_def remember_ids_def mark_ids_def release_ids_def split: if_splits prod.splits)

lemma claim_release_errors:
  "claim_ids E x ids w = (Inl er, w1) \<Longrightarrow> er = RedisError"
  "release_ids E x ids w = (Inl er, w1) \<Longrightarrow> er = RedisError"
  by (auto simp: claim_ids_def release_ids_def split: if_splits prod.splits)

lemma record_batch_complete:
  assumes "\<And>fin. answered ps d {} (finish_accepted d fin (so_accepted a) (so_results a))"
  shows "case record_batch E x d a w of (resp, w1) \<Rightarrow> resp \<noteq> Inl RuntimeError
    \<and> (\<forall>rs. resp = Inr rs \<longrightarrow> map c_event rs = map event_of ps) \<and> sent w1 = sent w"
proof -
  let ?acc = "map (\<lambda>(i, e, fp, su). (e, fp)) (so_accepted a)"
  obtain fin w1 where rem: "remember_ids E x ?acc w = (fin, w1)" by fastforce
  define unc where "unc = (if fin then so_uncertain a else so_uncertain a @ ?acc)"
  obtain u w2 where rel: "release_ids E x (so_failed a) (mark_ids E x unc w1) = (u, w2)" by fastforce
  have "sent w2 = sent w"
    using registry_steps_sent(2) [OF rem] registry_steps_sent(4) [OF rel] by (simp add: registry_steps_sent(3))
  moreover have "record_batch E x d a w = (case u of Inl er \<Rightarrow> (Inl er, w2)
      | Inr _ \<Rightarrow> (Inr (map the (finish_accepted d fin (so_accepted a) (so_results a))), w2))"
    using rem rel answered_events(1) [OF assms, of fin]
    by (simp add: record_batch_def unc_def [symmetric] split: sum.splits)
  ultimately show ?thesis
    using answered_events(2) [OF assms, of fin] claim_release_errors(2) [of E x "so_failed a" "mark_ids E x unc w1" _ w2] rel
    by (cases u) auto
qed

lemma prepared_ids:
  "mapE (prepare_payload E t None) events = Inr ps \<Longrightarrow>
   mapE (\<lambda>ev. resolve_custody_event_id ev None) events = Inr (map event_of ps)"
proof (induction events arbitrary: ps)
  case (Cons ev events)
  then show ?case by (auto simp: prepare_payload_def Let_def)
qed simp

lemma accept_many_shape:
  assumes "mapE (prepare_payload E (x_tenant x) None) events = Inr ps"
  shows "case accept_many_impl E x events w of (resp, w1) \<Rightarrow>
     resp \<noteq> Inl RuntimeError
     \<and> (\<forall>rs. resp = Inr rs \<longrightarrow> map c_event rs = map event_of ps)
     \<and> (\<exists>msgs. sent w1 = sent w @ msgs \<and> distinct (map message_event msgs))"
proof -
  let ?d = "deduplicate ps"
  let ?ids = "map (\<lambda>(i, payload, event_id, fp). (event_id, fp)) (dd_unique ?d)"
  obtain c wc where claim: "claim_ids E x ?ids w = (c, wc)" by fastforce
  note sc = registry_steps_sent(1) [OF claim]
  show ?thesis
  proof (cases c)
    case (Inl er)
    then show ?thesis using claim sc claim_release_errors(1) [of E x ?ids w er wc] assms
      by (simp add: accept_many_impl_def)
  next
    case (Inr states)
    then have len: "length states = length (dd_unique ?d)" using claim_ids_length [of E x ?ids w states wc] claim by simp
    show ?thesis
    proof (cases "split_claims E x ?d (zip (dd_unique ?d) states) (dd_results ?d)")
      case (Inl er)
      then show ?thesis using claim sc assms Inr split_never_runtime [of E x ?d "zip (dd_unique ?d) states" "dd_results ?d"]
        by (auto simp: accept_many_impl_def Let_def)
    next
      case split: (Inr or)
      obtain own results where or: "or = (own, results)" by fastforce
      show ?thesis
      proof (cases "batch_messages E x own")
        case (Inl er)
        then show ?thesis using claim sc assms Inr split or messages_never_runtime [of E x own]
          by (auto simp: accept_many_impl_def Let_def)
      next
        case msgs: (Inr msgs)
        note P = accept_many_parts [OF assms split [unfolded or] len msgs]
        have "accept_many_impl E x events w = record_batch E x ?d (sorted_batch ?d own msgs results)
            (wc\<lparr>sent := sent wc @ msgs\<rparr>)"
          using assms claim Inr split or msgs by (simp add: accept_many_impl_def Let_def)
        with record_batch_complete [where E = E and x = x and a = "sorted_batch ?d own msgs results" and w = "wc\<lparr>sent := sent wc @ msgs\<rparr>",
            OF P(2)] P(1) sc
        show ?thesis by (auto split: prod.splits)
      qed
    qed
  qed
qed

lemma batch_resolved:
  assumes "custody_accept_many E x events w = (Inr rs, w1)"
  shows "mapE (\<lambda>ev. resolve_custody_event_id ev None) events = Inr (map c_event rs)"
proof -
  let ?x = "x\<lparr>x_reservation := None, x_reserved_usd := 0\<rparr>"
  have run: "accept_many_impl E ?x events w = (Inr rs, w1)"
    using assms by (simp add: custody_accept_many_def split: if_split_asm)
  then obtain ps where ps: "mapE (prepare_payload E (x_tenant ?x) None) events = Inr ps"
    by (auto simp: accept_many_impl_def split: sum.splits)
  with accept_many_shape [OF ps, of w] run prepared_ids [OF ps] show ?thesis by simp
qed

text \<open>
  a batch answers every event and publishes no id twice. For every batch, in every state
  and whatever Kafka and Redis do: when the batch returns, its answers stand in the order of the
  events, one for each, about that event's id; the final check for unresolved events never
  fires; and no two messages the batch hands to Kafka carry the same event id.
\<close>

theorem batch_answers_every_event:
  "case custody_accept_many E x events w of (resp, w1) \<Rightarrow>
     (case resp of
        Inl er \<Rightarrow> er \<noteq> RuntimeError
      | Inr rs \<Rightarrow> mapE (\<lambda>ev. resolve_custody_event_id ev None) events = Inr (map c_event rs))
     \<and> (\<exists>msgs. sent w1 = sent w @ msgs \<and> distinct (map message_event msgs))"
proof (cases "x_on_down x = FailMode")
  case False
  then show ?thesis by (simp add: custody_accept_many_def)
next
  case True
  let ?x = "x\<lparr>x_reservation := None, x_reserved_usd := 0\<rparr>"
  have run: "custody_accept_many E x events w = accept_many_impl E ?x events w"
    using True by (simp add: custody_accept_many_def)
  show ?thesis
  proof (cases "mapE (prepare_payload E (x_tenant ?x) None) events")
    case (Inl er)
    then show ?thesis
      using prepare_never_runtime mapE_error [OF Inl] by (auto simp: run accept_many_impl_def)
  next
    case (Inr ps)
    with accept_many_shape [of E ?x events ps w] prepared_ids [OF Inr] show ?thesis
      by (auto simp: run split: sum.splits)
  qed
qed

text \<open>Steps without ids change nothing, and a batch runs under the same registry and envelope.\<close>

lemma no_ids [simp]:
  "remember_ids E x [] w = (True, w)" "mark_ids E x [] w = w" "release_ids E x [] w = (Inr (), w)"
  by (simp_all add: remember_ids_def remember_event_identities_def EVENT_ID_FINALIZE_RETRIES_def numeral_eq_Suc
      transition_event_identities_def mark_ids_def mark_event_identities_uncertain_def release_ids_def
      release_event_identities_def)

abbreviation batch_ctx :: "custody_ctx \<Rightarrow> custody_ctx" where
  "batch_ctx x \<equiv> x\<lparr>x_reservation := None, x_reserved_usd := 0\<rparr>"

lemma batch_ctx_same [simp]:
  "claim_ids E (batch_ctx x) = claim_ids E x" "remember_ids E (batch_ctx x) = remember_ids E x"
  "mark_ids E (batch_ctx x) = mark_ids E x" "release_ids E (batch_ctx x) = release_ids E x"
  "dest_topic (batch_ctx x) su = dest_topic x su"
  by (simp_all add: fun_eq_iff claim_ids_def remember_ids_def mark_ids_def release_ids_def dest_topic_def)

lemma batch_ctx_envelope: "x_reservation x = None \<Longrightarrow> build_envelope E (batch_ctx x) p = build_envelope E x p"
  by (simp add: build_envelope_def trusted_envelope_def truthy_def)

lemma deduplicate_one: "deduplicate [(p, e, fp)] =
    \<lparr>dd_seen = [(e, (fp, 0))], dd_unique = [(0, p, e, fp)], dd_aliases = [(0, [])], dd_results = [None]\<rparr>"
  by (simp add: deduplicate_def dedup_one_def)

lemma prepared_customer:
  assumes "prepare_payload E t r ev = Inr (p, e, fp)" and "map_of ev ''customerId'' = Some v"
  shows "map_of p ''customerId'' = Some v"
  using assms by (auto simp: prepare_payload_def Let_def update_conv' map_add_def split: if_splits)

text \<open>Recording the outcome of a batch of one message.\<close>

lemma record_one:
  assumes key: "bindE (json_index (JObj p) ''customerId'') json_text = Inr customer"
    and wp: "wp = w\<lparr>sent := sent w @ [m]\<rparr>"
    and m: "m = \<lparr>m_topic = dest_topic x su, m_key = customer, m_value = env, m_outcome = ce_outcome E 0\<rparr>"
    and d: "d = deduplicate [(p, e, fp)]"
  shows "record_batch E (batch_ctx x) d (sorted_batch d [(0, (p, e, fp), su, env)] [m] [None]) wp
    = (case accept_published E x p e fp su env w of (resp, w1) \<Rightarrow> (bindE resp (\<lambda>r. Inr [r]), w1))"
proof -
  have ack: "publish_with_ack w (dest_topic x su) customer env (ce_outcome E 0)
      = ((case outcome_error (ce_outcome E 0) of None \<Rightarrow> Inr () | Some er \<Rightarrow> Inl er), wp)"
    by (simp add: publish_with_ack_def wp m)
  note defs = record_batch_def sorted_batch_def sort_outcome_def finish_accepted_def answer_def aliases_of_def
    d deduplicate_one accept_published_def key outcome_error_def m
  show ?thesis
    by (cases "ce_outcome E 0")
       (use ack in \<open>simp_all add: defs split: prod.splits sum.splits bool.splits\<close>)
qed

lemma accept_many_one:
  assumes "map_of ev ''customerId'' = Some (JStr customer)"
    and "x_on_down x = FailMode" and "x_reservation x = None"
  shows "custody_accept_many E x [ev] w =
    (case custody_accept E x ev w of (resp, w1) \<Rightarrow> (bindE resp (\<lambda>r. Inr [r]), w1))"
proof (cases "prepare_payload E (x_tenant x) None ev")
  case (Inl er)
  then show ?thesis
    using assms by (simp add: custody_accept_many_def custody_accept_def accept_many_impl_def accept_impl_def)
next
  case (Inr prep)
  obtain p e fp where prep: "prep = (p, e, fp)" by (metis prod.collapse)
  have cust: "map_of p ''customerId'' = Some (JStr customer)"
    using prepared_customer [OF Inr [unfolded prep] assms(1)] .
  obtain c w1 where claim: "claim_ids E x [(e, fp)] w = (c, w1)" by fastforce
  let ?d = "deduplicate [(p, e, fp)]"
  note one = custody_accept_many_def custody_accept_def accept_many_impl_def accept_impl_def Inr prep
    deduplicate_one claim assms(2,3) Let_def
  show ?thesis
  proof (cases c)
    case (Inl er)
    then show ?thesis by (simp add: one)
  next
    case states: (Inr rs)
    then obtain st where rs: "rs = [st]" using claim_ids_length [of E x "[(e, fp)]" w rs w1] claim
      by (auto simp: length_Suc_conv)
    show ?thesis
    proof (cases "taken_reply (case st of None \<Rightarrow> Owner | Some s \<Rightarrow> s) e")
      case (Some r)
      then show ?thesis by (simp add: one states rs record_batch_def sorted_batch_def finish_accepted_def
            batch_messages_def answer_def aliases_of_def)
    next
      case None
      show ?thesis
      proof (cases "build_envelope E x p")
        case (Inl er)
        with None show ?thesis by (simp add: one states rs batch_ctx_envelope)
      next
        case env: (Inr se)
        obtain su env where se: "se = (su, env)" by fastforce
        define m where "m = \<lparr>m_topic = dest_topic x su, m_key = customer, m_value = env, m_outcome = ce_outcome E 0\<rparr>"
        have msgs: "batch_messages E (batch_ctx x) [(0, (p, e, fp), su, env)] = Inr [m]"
          using cust by (simp add: batch_messages_def json_index_def json_encode_def m_def)
        have key: "bindE (json_index (JObj p) ''customerId'') json_text = Inr customer"
          using cust by (simp add: json_index_def json_text_def)
        have "custody_accept_many E x [ev] w = record_batch E (batch_ctx x) ?d
            (sorted_batch ?d [(0, (p, e, fp), su, env)] [m] [None]) (w1\<lparr>sent := sent w1 @ [m]\<rparr>)"
          using None env se msgs by (simp add: one states rs batch_ctx_envelope)
        also have "\<dots> = (case accept_published E x p e fp su env w1 of (resp, w1) \<Rightarrow> (bindE resp (\<lambda>r. Inr [r]), w1))"
          using record_one [OF key refl m_def refl] .
        also have "accept_published E x p e fp su env w1 = custody_accept E x ev w"
          using None env se by (simp add: one states rs)
        finally show ?thesis .
      qed
    qed
  qed
qed

text \<open>
  a batch of one is a single event. For an event whose customer is text, the batch
  operation gives the same answer, the same messages and the same registry as the operation for
  one event, errors and outages included.
\<close>

theorem batch_of_one:
  assumes "map_of ev ''customerId'' = Some (JStr customer)"
    and "x_on_down x = FailMode" and "x_reservation x = None"
  shows "custody_accept_many E x [ev] w =
    (case custody_accept E x ev w of (resp, w1) \<Rightarrow> (bindE resp (\<lambda>r. Inr [r]), w1))"
  using accept_many_one [OF assms] .

section \<open>A concrete run\<close>

definition demo_canon :: "json \<Rightarrow> string" where
  "demo_canon j = (case bindE (json_index j ''payload'') (\<lambda>p. bindE (json_index p ''customerId'') json_text) of
     Inr t \<Rightarrow> t | Inl _ \<Rightarrow> [])"

definition demo_env :: "pub_outcome \<Rightarrow> custody_env" where
  "demo_env out = \<lparr>ce_digest = demo_hex, ce_canon = demo_canon, ce_now_ms = 0, ce_trace = ''t'',
     ce_outcome = (\<lambda>_. out), ce_claim_up = True, ce_remember_up = [], ce_mark_up = True, ce_release_up = True\<rparr>"

definition demo_ctx :: custody_ctx where
  "demo_ctx = \<lparr>x_tenant = None, x_api_key = None, x_topic = ''usage'', x_quarantine = ''late'', x_source = ''http'',
     x_reservation = None, x_reserved_usd = 0, x_max_age = 100, x_max_future = 100, x_on_down = FailMode\<rparr>"

definition demo_event :: "string \<Rightarrow> event" where
  "demo_event customer = [(''eventId'', JStr ''e1''), (''customerId'', JStr customer), (''timestamp'', JInt 0)]"

definition demo_start :: world where
  "demo_start = \<lparr>reg = empty_store, sent = []\<rparr>"

lemma demo_ctx_simps [simp]:
  "x_tenant demo_ctx = None" "x_reservation demo_ctx = None" "x_on_down demo_ctx = FailMode"
  "x_max_age demo_ctx = 100" "x_max_future demo_ctx = 100"
  by (simp_all add: demo_ctx_def)

lemma demo_env_simps [simp]:
  "ce_digest (demo_env out) = demo_hex" "ce_canon (demo_env out) = demo_canon" "ce_now_ms (demo_env out) = 0"
  "now_sec (demo_env out) = 0" "ce_outcome (demo_env out) i = out" "ce_claim_up (demo_env out)"
  "ce_remember_up (demo_env out) = []" "ce_mark_up (demo_env out)" "ce_release_up (demo_env out)"
  by (simp_all add: demo_env_def now_sec_def)

lemma demo_prepare: "prepare_payload (demo_env out) None None (demo_event c) = Inr (demo_event c, ''e1'', demo_hex c)"
  by (simp add: prepare_payload_def resolve_custody_event_id_def demo_event_def json_true_def json_text_def
      truthy_def canonical_payload_hash_def demo_canon_def json_index_def)

lemma demo_build:
  "\<exists>env. build_envelope (demo_env out) demo_ctx (demo_event c) = Inr (False, env)"
  by (simp add: build_envelope_def trusted_envelope_def demo_event_def json_index_def json_int_def suspicious_time_def
      truthy_def)


theorem batch_of_one_witness:
  "custody_accept_many (demo_env Acked) demo_ctx [demo_event ''acme''] demo_start =
    (case custody_accept (demo_env Acked) demo_ctx (demo_event ''acme'') demo_start of
       (resp, w1) \<Rightarrow> (bindE resp (\<lambda>r. Inr [r]), w1))"
  by (rule batch_of_one [of _ "''acme''"]) (simp_all add: demo_event_def)

lemma demo_first_accept:
  "\<exists>w1. custody_accept (demo_env Acked) demo_ctx (demo_event ''acme'') demo_start = (Inr (final_reply False ''e1''), w1)"
proof -
  obtain env where env: "build_envelope (demo_env Acked) demo_ctx (demo_event ''acme'') = Inr (False, env)"
    using demo_build by blast
  have key: "bindE (json_index (JObj (demo_event ''acme'')) ''customerId'') json_text = Inr ''acme''"
    by (simp add: demo_event_def json_index_def json_text_def)
  show ?thesis
    by (rule fresh_accept [OF _ env key]) (simp_all add: demo_prepare demo_start_def empty_registry live_def fresh_def)
qed

theorem accepted_never_republished_witness:
  "\<exists>w1 w2. custody_accept (demo_env Acked) demo_ctx (demo_event ''acme'') demo_start = (Inr (final_reply False ''e1''), w1)
     \<and> custody_accept (demo_env Acked) demo_ctx (demo_event ''other'') w1
         = (Inr (retry_reply ''conflict'' ''e1'' False), w2)
     \<and> sent w2 = sent w1"
proof -
  obtain w1 where first: "custody_accept (demo_env Acked) demo_ctx (demo_event ''acme'') demo_start
      = (Inr (final_reply False ''e1''), w1)" using demo_first_accept by blast
  obtain resp w2 where second: "custody_accept (demo_env Acked) demo_ctx (demo_event ''other'') w1 = (resp, w2)"
    by fastforce
  have "demo_hex ''other'' \<noteq> demo_hex ''acme''" by (simp add: demo_hex_def)
  with accepted_never_republished [OF first _ _ _ rtranclp.rtrancl_refl, of "demo_env Acked" demo_ctx
      "demo_event ''acme''" "''e1''" "demo_hex ''acme''" "demo_event ''other''" "demo_event ''other''" "demo_hex ''other''"]
  show ?thesis
    using first second
    by (simp add: demo_prepare demo_start_def empty_registry keeps_registry_def final_reply_def done_reply_def
        EVENT_ID_TTL_SECONDS_def)
qed

end
