(* ===== verification/Dispatcher.thy ===== *)
theory Dispatcher
  imports Outbox
begin

text \<open>
  \<^verbatim>\<open>src/api/ingestion.py\<close>, class \<open>KafkaProducerDispatcher\<close>: many request threads hand messages to one
  producer, whose polling thread runs the delivery callbacks. Each atomic action of a request
  thread and of the callback of its message is an event of one publication; the publications share the
  slots of a bounded semaphore and are interleaved freely.

  The lemmas show, over every interleaving, that a slot is given back exactly once, that the
  semaphore is never over-released, and that a delivery report which misses its deadline is
  reconciled exactly once, and none that does not.
\<close>

section \<open>One publication\<close>

text \<open>
  Where the request thread is, where the callback is, and what they share. \<open>result\<close> is what the
  request thread returned: \<open>Inr\<close> for an acknowledgement. \<open>reported\<close> is what Kafka reported, once it has.
\<close>

datatype main_pc = MStart | MProducing | MWaiting | MExpired | MFlagged | MLate | MDone
datatype callback_pc = CNone | CQueued | CReported | CSignalled | CReleased | CLate | CDone

record publication =
  m_pc :: main_pc
  c_pc :: callback_pc
  reported :: "bool option"
  failed :: bool
  delivered :: bool
  timed_out :: bool
  dispatched :: bool
  late_calls :: "bool list"
  result :: "unit res option"

definition new_publication :: publication where
  "new_publication = \<lparr>m_pc = MStart, c_pc = CNone, reported = None, failed = False, delivered = False,
     timed_out = False, dispatched = False, late_calls = [], result = None\<rparr>"

datatype pub_event =
    Acquire | ProduceOk | ProduceFull | ProduceError | Wake | Expire | FlagTimeout | CheckDelivered | LateMain
  | Report bool | Signal | ReleaseSlot | CheckTimeout | LateCallback

text \<open>\<open>dispatch_late\<close>: under its lock, at most one reconciliation is handed over.\<close>

definition dispatch_late :: "bool \<Rightarrow> publication \<Rightarrow> publication" where
  "dispatch_late succeeded p =
     (if dispatched p then p else p\<lparr>dispatched := True, late_calls := late_calls p @ [succeeded]\<rparr>)"

definition finish :: "unit res \<Rightarrow> publication \<Rightarrow> publication" where
  "finish r p = p\<lparr>m_pc := MDone, result := Some r\<rparr>"

text \<open>
  \<open>publish_and_wait\<close> and its callback, one action at a time; \<open>None\<close> where the action is not enabled.
  The producer runs the callback of a message it took once.
\<close>

fun pub_act :: "pub_event \<Rightarrow> nat \<times> publication \<Rightarrow> (nat \<times> publication) option" where
  "pub_act Acquire (slots, p) =
     (if m_pc p \<noteq> MStart then None
      else if slots = 0 then Some (slots, finish (Inl CustodyOverloaded) p)
      else Some (slots - 1, p\<lparr>m_pc := MProducing\<rparr>))"
| "pub_act ProduceOk (slots, p) =
     (if m_pc p = MProducing then Some (slots, p\<lparr>m_pc := MWaiting, c_pc := CQueued\<rparr>) else None)"
| "pub_act ProduceFull (slots, p) =
     (if m_pc p = MProducing then Some (Suc slots, finish (Inl CustodyOverloaded) p) else None)"
| "pub_act ProduceError (slots, p) =
     (if m_pc p = MProducing then Some (Suc slots, finish (Inl (KafkaUnavailable False)) p) else None)"
| "pub_act Wake (slots, p) =
     (if m_pc p = MWaiting \<and> delivered p
      then Some (slots, finish (if failed p then Inl (KafkaUnavailable False) else Inr ()) p) else None)"
| "pub_act Expire (slots, p) =
     (if m_pc p = MWaiting \<and> \<not> delivered p then Some (slots, p\<lparr>m_pc := MExpired\<rparr>) else None)"
| "pub_act FlagTimeout (slots, p) =
     (if m_pc p = MExpired then Some (slots, p\<lparr>m_pc := MFlagged, timed_out := True\<rparr>) else None)"
| "pub_act CheckDelivered (slots, p) =
     (if m_pc p \<noteq> MFlagged then None
      else if delivered p then Some (slots, p\<lparr>m_pc := MLate\<rparr>)
      else Some (slots, finish (Inl (KafkaUnavailable True)) p))"
| "pub_act LateMain (slots, p) =
     (if m_pc p = MLate
      then Some (slots, finish (Inl (KafkaUnavailable True)) (dispatch_late (\<not> failed p) p)) else None)"
| "pub_act (Report ok) (slots, p) =
     (if c_pc p = CQueued
      then Some (slots, p\<lparr>c_pc := CReported, reported := Some ok, failed := \<not> ok\<rparr>) else None)"
| "pub_act Signal (slots, p) =
     (if c_pc p = CReported then Some (slots, p\<lparr>c_pc := CSignalled, delivered := True\<rparr>) else None)"
| "pub_act ReleaseSlot (slots, p) =
     (if c_pc p = CSignalled then Some (Suc slots, p\<lparr>c_pc := CReleased\<rparr>) else None)"
| "pub_act CheckTimeout (slots, p) =
     (if c_pc p = CReleased then Some (slots, p\<lparr>c_pc := (if timed_out p then CLate else CDone)\<rparr>) else None)"
| "pub_act LateCallback (slots, p) =
     (if c_pc p = CLate then Some (slots, (dispatch_late (reported p = Some True) p)\<lparr>c_pc := CDone\<rparr>) else None)"

section \<open>All of them\<close>

text \<open>Publications that share the free slots, and one action of one of them.\<close>

record 'p pool =
  slots :: nat
  pubs :: "nat \<Rightarrow> 'p"

definition new_pool :: "nat \<Rightarrow> 'p \<Rightarrow> 'p pool" where
  "new_pool max_inflight p = \<lparr>slots = max_inflight, pubs = (\<lambda>_. p)\<rparr>"

inductive pool_step :: "('e \<Rightarrow> nat \<times> 'p \<Rightarrow> (nat \<times> 'p) option) \<Rightarrow> 'p pool \<Rightarrow> 'p pool \<Rightarrow> bool" for act where
  act: "act ev (slots d, pubs d i) = Some (n, p) \<Longrightarrow>
    pool_step act d (d\<lparr>slots := n, pubs := (pubs d)(i := p)\<rparr>)"

inductive_cases pool_step_cases: "pool_step act d d'"

definition pool_reach :: "('e \<Rightarrow> nat \<times> 'p \<Rightarrow> (nat \<times> 'p) option) \<Rightarrow> 'p \<Rightarrow> nat \<Rightarrow> 'p pool \<Rightarrow> bool" where
  "pool_reach act p max_inflight d \<longleftrightarrow> rtranclp (pool_step act) (new_pool max_inflight p) d"

text \<open>A schedule: which publication acts, and how.\<close>

fun run_schedule :: "('e \<Rightarrow> nat \<times> 'p \<Rightarrow> (nat \<times> 'p) option) \<Rightarrow> (nat \<times> 'e) list \<Rightarrow> 'p pool \<Rightarrow> 'p pool option" where
  "run_schedule act [] d = Some d"
| "run_schedule act ((i, ev) # rest) d =
     (case act ev (slots d, pubs d i) of
        None \<Rightarrow> None
      | Some (n, p) \<Rightarrow> run_schedule act rest (d\<lparr>slots := n, pubs := (pubs d)(i := p)\<rparr>))"

lemma run_schedule_reach:
  "run_schedule act evs d = Some d' \<Longrightarrow> pool_reach act p k d \<Longrightarrow> pool_reach act p k d'"
proof (induction act evs d rule: run_schedule.induct)
  case (2 act i ev rest d)
  obtain n q where ev: "act ev (slots d, pubs d i) = Some (n, q)"
    and rest: "run_schedule act rest (d\<lparr>slots := n, pubs := (pubs d)(i := q)\<rparr>) = Some d'"
    using "2.prems"(1) by (auto split: option.splits)
  have "pool_reach act p k (d\<lparr>slots := n, pubs := (pubs d)(i := q)\<rparr>)"
    using "2.prems"(2) pool_step.act [of act ev d i n q, OF ev] unfolding pool_reach_def by (rule rtranclp.rtrancl_into_rtrancl)
  with "2.IH" [OF ev refl rest] show ?case .
qed simp

text \<open>
  The contract of a slot protocol: each action keeps an invariant of the publication it belongs to,
  and takes a slot from the free ones exactly when the publication starts to hold one.
\<close>

locale slot_protocol =
  fixes act :: "'e \<Rightarrow> nat \<times> 'p \<Rightarrow> (nat \<times> 'p) option"
    and fresh :: 'p
    and holds :: "'p \<Rightarrow> bool"
    and inv :: "'p \<Rightarrow> bool"
  assumes fresh_inv: "inv fresh" and fresh_holds: "\<not> holds fresh"
    and act_inv: "act ev (n, p) = Some (n', p') \<Longrightarrow> inv p \<Longrightarrow> inv p'"
    and act_slots: "act ev (n, p) = Some (n', p') \<Longrightarrow> inv p \<Longrightarrow>
      n' + (if holds p' then 1 else 0) = n + (if holds p then 1 else 0)"
begin

lemma reach_inv: "pool_reach act fresh k d \<Longrightarrow> inv (pubs d i)"
  unfolding pool_reach_def
proof (induction rule: rtranclp_induct)
  case base
  then show ?case by (simp add: new_pool_def fresh_inv)
next
  case (step d d')
  then show ?case by (auto elim!: pool_step_cases dest: act_inv)
qed

lemma reach_holders:
  assumes "pool_reach act fresh k d"
  shows "finite {i. holds (pubs d i)} \<and> slots d + card {i. holds (pubs d i)} = k"
  using assms unfolding pool_reach_def
proof (induction rule: rtranclp_induct)
  case base
  then show ?case using fresh_holds by (simp add: new_pool_def)
next
  case (step d d')
  let ?H = "{i. holds (pubs d i)}"
  from step.hyps(2) obtain ev i n p where act: "act ev (slots d, pubs d i) = Some (n, p)"
    and d': "d' = d\<lparr>slots := n, pubs := (pubs d)(i := p)\<rparr>" by (elim pool_step_cases) auto
  have "inv (pubs d i)" using reach_inv [of k d i] step.hyps(1) by (simp add: pool_reach_def)
  note count = act_slots [OF act this]
  have H': "{j. holds (pubs d' j)} = (if holds p then insert i ?H else ?H - {i})"
    by (auto simp: d')
  show ?case
  proof (cases "holds (pubs d i)")
    case True
    then have "insert i ?H = ?H" "i \<in> ?H" by auto
    moreover from this have "Suc (card (?H - {i})) = card ?H" using step.IH by (metis card_Suc_Diff1)
    ultimately show ?thesis
      using step.IH count True unfolding H' by (cases "holds p") (simp_all add: d')
  next
    case False
    then have "?H - {i} = ?H" "i \<notin> ?H" by auto
    with step.IH count False show ?thesis
      unfolding H' by (cases "holds p") (simp_all add: d')
  qed
qed

lemma reach_slots:
  assumes "pool_reach act fresh k d"
  shows "slots d + card {i. holds (pubs d i)} = k"
    and "(\<And>i. \<not> holds (pubs d i)) \<Longrightarrow> slots d = k"
  using reach_holders [OF assms] by auto

end

text \<open>Finished: the request thread has returned, and so has the callback of a message that was taken.\<close>

definition settled :: "publication \<Rightarrow> bool" where
  "settled p \<longleftrightarrow> m_pc p = MDone \<and> c_pc p \<in> {CNone, CDone}"

section \<open>What one publication keeps\<close>

definition holds_slot :: "publication \<Rightarrow> bool" where
  "holds_slot p \<longleftrightarrow> m_pc p = MProducing \<or> c_pc p \<in> {CQueued, CReported, CSignalled}"

text \<open>Where the two threads can be, and what their flags say.\<close>

definition pub_control :: "publication \<Rightarrow> bool" where
  "pub_control p \<longleftrightarrow>
     (m_pc p \<in> {MStart, MProducing} \<longrightarrow> c_pc p = CNone)
   \<and> (m_pc p \<in> {MWaiting, MExpired, MFlagged, MLate} \<longrightarrow> c_pc p \<noteq> CNone)
   \<and> (reported p = None \<longleftrightarrow> c_pc p \<in> {CNone, CQueued})
   \<and> (delivered p \<longleftrightarrow> c_pc p \<in> {CSignalled, CReleased, CLate, CDone})
   \<and> (m_pc p = MDone \<longleftrightarrow> result p \<noteq> None)
   \<and> (m_pc p = MLate \<longrightarrow> delivered p)
   \<and> (c_pc p = CLate \<longrightarrow> timed_out p)"

text \<open>What the request thread returned, and why.\<close>

definition pub_outcome_ok :: "publication \<Rightarrow> bool" where
  "pub_outcome_ok p \<longleftrightarrow>
     (reported p \<noteq> None \<longrightarrow> failed p = (reported p = Some False))
   \<and> (timed_out p \<longleftrightarrow> m_pc p \<in> {MFlagged, MLate} \<or> result p = Some (Inl (KafkaUnavailable True)))
   \<and> (case result p of
        Some (Inr _) \<Rightarrow> reported p = Some True
      | Some (Inl e) \<Rightarrow> e = KafkaUnavailable True \<and> c_pc p \<noteq> CNone \<or> e = CustodyOverloaded \<and> c_pc p = CNone
          \<or> e = KafkaUnavailable False \<and> (c_pc p = CNone \<or> reported p = Some False)
      | None \<Rightarrow> True)"

text \<open>The reconciliations handed over.\<close>

definition pub_late_ok :: "publication \<Rightarrow> bool" where
  "pub_late_ok p \<longleftrightarrow>
     (if dispatched p then timed_out p \<and> (\<exists>ok. reported p = Some ok \<and> late_calls p = [ok]) else late_calls p = [])
   \<and> (c_pc p = CDone \<and> result p = Some (Inl (KafkaUnavailable True)) \<longrightarrow> dispatched p)"

definition pub_inv :: "publication \<Rightarrow> bool" where
  "pub_inv p \<longleftrightarrow> pub_control p \<and> pub_outcome_ok p \<and> pub_late_ok p"

lemma new_publication_inv: "pub_inv new_publication"
  by (simp add: pub_inv_def pub_control_def pub_outcome_ok_def pub_late_ok_def new_publication_def)

lemma pub_act_control:
  "pub_act ev (n, p) = Some (n', p') \<Longrightarrow> pub_control p \<Longrightarrow> pub_control p'"
  unfolding pub_control_def by (cases ev; simp add: finish_def dispatch_late_def split: if_split_asm; force)

lemma pub_act_outcome:
  "pub_act ev (n, p) = Some (n', p') \<Longrightarrow> pub_control p \<Longrightarrow> pub_outcome_ok p \<Longrightarrow> pub_outcome_ok p'"
  unfolding pub_control_def pub_outcome_ok_def
  by (cases ev; simp add: finish_def dispatch_late_def split: if_split_asm;
      force split: option.splits sum.splits)

lemma pub_act_late:
  "pub_act ev (n, p) = Some (n', p') \<Longrightarrow> pub_control p \<Longrightarrow> pub_outcome_ok p \<Longrightarrow> pub_late_ok p \<Longrightarrow> pub_late_ok p'"
  unfolding pub_control_def pub_outcome_ok_def pub_late_ok_def
  by (cases ev; simp add: finish_def dispatch_late_def split: if_split_asm; force)

lemma pub_act_inv: "pub_act ev (n, p) = Some (n', p') \<Longrightarrow> pub_inv p \<Longrightarrow> pub_inv p'"
  unfolding pub_inv_def using pub_act_control pub_act_outcome pub_act_late by blast

lemma pub_act_slots:
  "pub_act ev (n, p) = Some (n', p') \<Longrightarrow> pub_control p \<Longrightarrow>
   n' + (if holds_slot p' then 1 else 0) = n + (if holds_slot p then 1 else 0)"
  unfolding pub_control_def holds_slot_def
  by (cases ev; simp add: finish_def dispatch_late_def split: if_split_asm; force)

interpretation single: slot_protocol pub_act new_publication holds_slot pub_inv
proof
  show "pub_inv new_publication" by (rule new_publication_inv)
  show "\<not> holds_slot new_publication" by (simp add: holds_slot_def new_publication_def)
  show "pub_inv p'" if "pub_act ev (n, p) = Some (n', p')" "pub_inv p" for ev n p n' p'
    using that by (rule pub_act_inv)
  show "n' + (if holds_slot p' then 1 else 0) = n + (if holds_slot p then 1 else 0)"
    if "pub_act ev (n, p) = Some (n', p')" "pub_inv p" for ev n p n' p'
    using that by (intro pub_act_slots) (simp_all add: pub_inv_def)
qed


text \<open>
  no slot leaks and none is given back twice. Over every interleaving, the free slots and
  the messages in flight together are the in-flight limit; so at most that many messages are
  ever in flight, the semaphore is never released above its bound, and once every publication
  has finished every slot is free again.
\<close>

theorem slots_conserved:
  assumes "pool_reach pub_act new_publication max_inflight d"
  shows "slots d + card {i. holds_slot (pubs d i)} = max_inflight
    \<and> ((\<forall>i. settled (pubs d i) \<or> pubs d i = new_publication) \<longrightarrow> slots d = max_inflight)"
proof -
  have "settled (pubs d i) \<or> pubs d i = new_publication \<Longrightarrow> \<not> holds_slot (pubs d i)" for i
    by (auto simp: holds_slot_def settled_def new_publication_def)
  with single.reach_slots [OF assms] show ?thesis by blast
qed

section \<open>A schedule with a late report\<close>

definition demo_schedule :: "(nat \<times> pub_event) list" where
  "demo_schedule = map (Pair 0) [Acquire, ProduceOk, Expire, FlagTimeout, Report True, Signal, CheckDelivered,
     LateMain, ReleaseSlot, CheckTimeout, LateCallback]"

lemma demo_late_run:
  "\<exists>d. run_schedule pub_act demo_schedule (new_pool 1 new_publication) = Some d
     \<and> pool_reach pub_act new_publication 1 d \<and> settled (pubs d 0)
     \<and> result (pubs d 0) = Some (Inl (KafkaUnavailable True)) \<and> reported (pubs d 0) = Some True"
proof -
  obtain d where d: "run_schedule pub_act demo_schedule (new_pool 1 new_publication) = Some d"
    and p: "settled (pubs d 0)" "result (pubs d 0) = Some (Inl (KafkaUnavailable True))" "reported (pubs d 0) = Some True"
    by (simp add: demo_schedule_def new_pool_def new_publication_def finish_def dispatch_late_def settled_def)
  from run_schedule_reach [OF d, of new_publication 1] p d show ?thesis
    by (simp add: pool_reach_def)
qed


theorem slots_conserved_witness:
  "\<exists>d. run_schedule pub_act demo_schedule (new_pool 1 new_publication) = Some d
     \<and> slots d + card {i. holds_slot (pubs d i)} = 1"
  using demo_late_run slots_conserved by blast

section \<open>A message of a batch\<close>

text \<open>
  \<open>publish_batch_and_wait\<close>: the request thread offers every message, then waits for each until a
  common deadline. The outcome of a message is a cell both threads write; a message that was never taken
  counts as delivered. \<open>b_late\<close> is the request thread's local \<open>late_succeeded\<close>.
\<close>

record batch_message =
  b_pc :: main_pc
  bc_pc :: callback_pc
  b_reported :: "bool option"
  b_out :: pub_outcome
  b_delivered :: bool
  b_timed_out :: bool
  b_dispatched :: bool
  b_late :: bool
  b_late_calls :: "bool list"

definition new_batch_message :: batch_message where
  "new_batch_message = \<lparr>b_pc = MStart, bc_pc = CNone, b_reported = None, b_out = Acked, b_delivered = False,
     b_timed_out = False, b_dispatched = False, b_late = False, b_late_calls = []\<rparr>"

datatype batch_event =
    BAcquire | BProduceOk | BProduceFull | BProduceError | BWake | BExpire | BFlagTimeout | BOverwrite | BLateMain
  | BReport bool | BSignal | BReleaseSlot | BCheckTimeout | BLateCallback

definition batch_dispatch_late :: "bool \<Rightarrow> batch_message \<Rightarrow> batch_message" where
  "batch_dispatch_late succeeded p =
     (if b_dispatched p then p
      else p\<lparr>b_dispatched := True, b_late_calls := b_late_calls p @ [succeeded]\<rparr>)"

definition not_taken :: "pub_outcome \<Rightarrow> batch_message \<Rightarrow> batch_message" where
  "not_taken out p = p\<lparr>b_pc := MWaiting, b_out := out, b_delivered := True\<rparr>"

text \<open>
  A message may expire although it is delivered: the deadline can pass while others are awaited.
  \<open>BOverwrite\<close> looks whether the message was delivered meanwhile, keeps whether it succeeded, and sets the
  outcome to a timeout.
\<close>

fun batch_act :: "batch_event \<Rightarrow> nat \<times> batch_message \<Rightarrow> (nat \<times> batch_message) option" where
  "batch_act BAcquire (n, p) =
     (if b_pc p \<noteq> MStart then None
      else if n = 0 then Some (n, not_taken Overloaded p) else Some (n - 1, p\<lparr>b_pc := MProducing\<rparr>))"
| "batch_act BProduceOk (n, p) =
     (if b_pc p = MProducing then Some (n, p\<lparr>b_pc := MWaiting, bc_pc := CQueued\<rparr>) else None)"
| "batch_act BProduceFull (n, p) = (if b_pc p = MProducing then Some (Suc n, not_taken Overloaded p) else None)"
| "batch_act BProduceError (n, p) = (if b_pc p = MProducing then Some (Suc n, not_taken Down p) else None)"
| "batch_act BWake (n, p) =
     (if b_pc p = MWaiting \<and> b_delivered p then Some (n, p\<lparr>b_pc := MDone\<rparr>) else None)"
| "batch_act BExpire (n, p) = (if b_pc p = MWaiting then Some (n, p\<lparr>b_pc := MExpired\<rparr>) else None)"
| "batch_act BFlagTimeout (n, p) =
     (if b_pc p = MExpired then Some (n, p\<lparr>b_pc := MFlagged, b_timed_out := True\<rparr>) else None)"
| "batch_act BOverwrite (n, p) =
     (if b_pc p = MFlagged
      then Some (n, p\<lparr>b_pc := (if b_delivered p then MLate else MDone), b_late := (b_out p = Acked), b_out := Uncertain\<rparr>)
      else None)"
| "batch_act BLateMain (n, p) =
     (if b_pc p = MLate then Some (n, (batch_dispatch_late (b_late p) p)\<lparr>b_pc := MDone\<rparr>) else None)"
| "batch_act (BReport ok) (n, p) =
     (if bc_pc p = CQueued
      then Some (n, p\<lparr>bc_pc := CReported, b_reported := Some ok, b_out := (if ok then b_out p else Down)\<rparr>) else None)"
| "batch_act BSignal (n, p) =
     (if bc_pc p = CReported then Some (n, p\<lparr>bc_pc := CSignalled, b_delivered := True\<rparr>) else None)"
| "batch_act BReleaseSlot (n, p) =
     (if bc_pc p = CSignalled then Some (Suc n, p\<lparr>bc_pc := CReleased\<rparr>) else None)"
| "batch_act BCheckTimeout (n, p) =
     (if bc_pc p = CReleased then Some (n, p\<lparr>bc_pc := (if b_timed_out p then CLate else CDone)\<rparr>) else None)"
| "batch_act BLateCallback (n, p) =
     (if bc_pc p = CLate
      then Some (n, (batch_dispatch_late (b_reported p = Some True) p)\<lparr>bc_pc := CDone\<rparr>) else None)"

definition batch_settled :: "batch_message \<Rightarrow> bool" where
  "batch_settled p \<longleftrightarrow> b_pc p = MDone \<and> bc_pc p \<in> {CNone, CDone}"

definition batch_holds :: "batch_message \<Rightarrow> bool" where
  "batch_holds p \<longleftrightarrow> b_pc p = MProducing \<or> bc_pc p \<in> {CQueued, CReported, CSignalled}"

definition batch_control :: "batch_message \<Rightarrow> bool" where
  "batch_control p \<longleftrightarrow>
     (b_pc p \<in> {MStart, MProducing} \<longrightarrow> bc_pc p = CNone \<and> b_out p = Acked \<and> \<not> b_delivered p)
   \<and> (b_reported p = None \<longleftrightarrow> bc_pc p \<in> {CNone, CQueued})
   \<and> (b_pc p \<notin> {MStart, MProducing} \<longrightarrow>
        (b_delivered p \<longleftrightarrow> bc_pc p \<in> {CNone, CSignalled, CReleased, CLate, CDone}))
   \<and> (b_pc p = MLate \<longrightarrow> b_delivered p)
   \<and> (b_pc p \<in> {MStart, MProducing, MWaiting, MExpired} \<longrightarrow> \<not> b_timed_out p)
   \<and> (b_pc p \<in> {MFlagged, MLate} \<longrightarrow> b_timed_out p)
   \<and> (bc_pc p = CLate \<longrightarrow> b_timed_out p)
   \<and> (b_pc p = MDone \<longrightarrow> b_delivered p \<or> b_timed_out p)"

text \<open>What the shared cell says before the timeout overwrites it, and after.\<close>

definition batch_out_ok :: "batch_message \<Rightarrow> bool" where
  "batch_out_ok p \<longleftrightarrow>
     (if b_timed_out p \<and> b_pc p \<noteq> MFlagged
      then b_out p = Uncertain \<or> b_out p = Down \<and> b_reported p = Some False
      else (b_out p = Acked \<longleftrightarrow> b_pc p \<in> {MStart, MProducing} \<or> bc_pc p \<noteq> CNone \<and> b_reported p \<noteq> Some False)
         \<and> b_out p \<noteq> Uncertain \<and> (b_out p = Overloaded \<longrightarrow> bc_pc p = CNone))
   \<and> (b_pc p = MLate \<longrightarrow> b_late p = (b_reported p = Some True))"

definition batch_late_ok :: "batch_message \<Rightarrow> bool" where
  "batch_late_ok p \<longleftrightarrow>
     (if b_dispatched p then b_timed_out p \<and> b_late_calls p = [b_reported p = Some True] \<and> b_delivered p
      else b_late_calls p = [])
   \<and> (bc_pc p \<in> {CNone, CDone} \<and> b_pc p = MDone \<and> b_timed_out p \<longrightarrow> b_dispatched p)"

definition batch_inv :: "batch_message \<Rightarrow> bool" where
  "batch_inv p \<longleftrightarrow> batch_control p \<and> batch_out_ok p \<and> batch_late_ok p"

lemmas batch_act_defs = not_taken_def batch_dispatch_late_def

lemma batch_act_control:
  "batch_act ev (n, p) = Some (n', p') \<Longrightarrow> batch_control p \<Longrightarrow> batch_control p'"
  unfolding batch_control_def by (cases ev; simp add: batch_act_defs split: if_split_asm; force)

lemma batch_act_out:
  "batch_act ev (n, p) = Some (n', p') \<Longrightarrow> batch_control p \<Longrightarrow> batch_out_ok p \<Longrightarrow> batch_out_ok p'"
  unfolding batch_control_def batch_out_ok_def
  by (cases "b_pc p"; cases "bc_pc p"; simp; cases ev; simp add: batch_act_defs split: if_split_asm;
      clarsimp split: if_split_asm)

lemma batch_act_late:
  "batch_act ev (n, p) = Some (n', p') \<Longrightarrow> batch_control p \<Longrightarrow> batch_out_ok p \<Longrightarrow> batch_late_ok p \<Longrightarrow> batch_late_ok p'"
  unfolding batch_control_def batch_out_ok_def batch_late_ok_def
  by (cases "b_pc p"; cases "bc_pc p"; simp; cases ev; simp add: batch_act_defs split: if_split_asm;
      clarsimp split: if_split_asm)

lemma batch_act_slots:
  "batch_act ev (n, p) = Some (n', p') \<Longrightarrow> batch_control p \<Longrightarrow>
   n' + (if batch_holds p' then 1 else 0) = n + (if batch_holds p then 1 else 0)"
  unfolding batch_control_def batch_holds_def
  by (cases ev; simp add: batch_act_defs split: if_split_asm; force)

interpretation batch: slot_protocol batch_act new_batch_message batch_holds batch_inv
proof
  show "batch_inv new_batch_message"
    by (simp add: batch_inv_def batch_control_def batch_out_ok_def batch_late_ok_def new_batch_message_def)
  show "\<not> batch_holds new_batch_message" by (simp add: batch_holds_def new_batch_message_def)
  show "batch_inv p'" if "batch_act ev (n, p) = Some (n', p')" "batch_inv p" for ev n p n' p'
    using that batch_act_control batch_act_out batch_act_late unfolding batch_inv_def by blast
  show "n' + (if batch_holds p' then 1 else 0) = n + (if batch_holds p then 1 else 0)"
    if "batch_act ev (n, p) = Some (n', p')" "batch_inv p" for ev n p n' p'
    using that by (intro batch_act_slots) (simp_all add: batch_inv_def)
qed

text \<open>
  a batch accounts for every message, once. Over every interleaving, when a message of a
  batch has finished: if it was awaited to its end it is not reconciled, and its outcome is what
  happened to it (acknowledged only if Kafka reported success, overloaded only if Kafka never took
  it); if its deadline passed, its outcome is a failure, in doubt unless Kafka reported one, and
  exactly one reconciliation was handed over, which says whether Kafka has it.
\<close>

theorem batch_reports_reconciled_once:
  assumes "pool_reach batch_act new_batch_message max_inflight d" and "batch_settled (pubs d i)"
  defines "m \<equiv> pubs d i"
  shows "if b_timed_out m
    then (b_out m = Uncertain \<or> b_out m = Down \<and> b_reported m = Some False)
      \<and> b_late_calls m = [b_reported m = Some True]
    else b_late_calls m = [] \<and> b_out m \<noteq> Uncertain
      \<and> (b_out m = Acked \<longleftrightarrow> b_reported m = Some True)
      \<and> (b_out m = Overloaded \<longrightarrow> b_reported m = None)"
proof -
  have inv: "batch_control m" "batch_out_ok m" "batch_late_ok m"
    using batch.reach_inv [OF assms(1), of i] by (simp_all add: batch_inv_def m_def)
  have pcs: "b_pc m = MDone" "bc_pc m = CNone \<or> bc_pc m = CDone"
    using assms(2) by (simp_all add: batch_settled_def m_def)
  show ?thesis
  proof (cases "bc_pc m = CNone")
    case True
    with inv pcs(1) show ?thesis
      unfolding batch_control_def batch_out_ok_def batch_late_ok_def by (clarsimp split: if_split_asm)
  next
    case False
    then have "bc_pc m = CDone" using pcs(2) by simp
    with inv pcs(1) show ?thesis
      unfolding batch_control_def batch_out_ok_def batch_late_ok_def by (clarsimp split: if_split_asm)
  qed
qed

definition demo_batch_schedule :: "(nat \<times> batch_event) list" where
  "demo_batch_schedule = map (Pair 0) [BAcquire, BProduceOk, BExpire, BFlagTimeout, BOverwrite, BReport False, BSignal,
     BReleaseSlot, BCheckTimeout, BLateCallback]"

theorem batch_reports_reconciled_once_witness:
  "\<exists>d. run_schedule batch_act demo_batch_schedule (new_pool 1 new_batch_message) = Some d
     \<and> b_late_calls (pubs d 0) = [False]"
proof -
  obtain d where d: "run_schedule batch_act demo_batch_schedule (new_pool 1 new_batch_message) = Some d"
    and p: "batch_settled (pubs d 0)" "b_reported (pubs d 0) = Some False" "b_timed_out (pubs d 0)"
    by (simp add: demo_batch_schedule_def new_pool_def new_batch_message_def batch_act_defs batch_settled_def)
  have "pool_reach batch_act new_batch_message 1 d"
    using run_schedule_reach [OF d, of new_batch_message 1] by (simp add: pool_reach_def)
  from batch_reports_reconciled_once [OF this p(1)] p d show ?thesis by auto
qed

section \<open>Producers without a dispatcher\<close>

text \<open>
  \<open>publish_with_ack\<close> and \<open>publish_batch_with_ack\<close> on a bare producer poll in the calling thread, which
  runs the callbacks: \<open>polls\<close> lists what each poll before the deadline reports.
\<close>

datatype produced = Taken | QueueFull | Refused

fun poll_until :: "bool option list \<Rightarrow> unit res" where
  "poll_until [] = Inl (KafkaUnavailable True)"
| "poll_until (None # polls) = poll_until polls"
| "poll_until (Some ok # polls) = (if ok then Inr () else Inl (KafkaUnavailable False))"

definition publish_polling :: "produced \<Rightarrow> bool option list \<Rightarrow> unit res" where
  "publish_polling produced polls = (case produced of
     QueueFull \<Rightarrow> Inl CustodyOverloaded | Refused \<Rightarrow> Inl (KafkaUnavailable False) | Taken \<Rightarrow> poll_until polls)"

type_synonym outcomes = "pub_outcome option list"

definition offered :: "produced \<Rightarrow> pub_outcome option" where
  "offered produced = (case produced of Taken \<Rightarrow> None | QueueFull \<Rightarrow> Some Overloaded | Refused \<Rightarrow> Some Down)"

text \<open>A callback settles a pending outcome, once; \<open>remaining\<close> counts those still pending.\<close>

definition settle_report :: "nat \<times> bool \<Rightarrow> outcomes \<times> nat \<Rightarrow> outcomes \<times> nat" where
  "settle_report report st = (case (report, st) of ((i, ok), (outs, remaining)) \<Rightarrow>
     if outs ! i \<noteq> None then (outs, remaining)
     else (outs[i := Some (if ok then Acked else Down)], remaining - 1))"

fun poll_batch :: "(nat \<times> bool) list list \<Rightarrow> outcomes \<times> nat \<Rightarrow> outcomes \<times> nat" where
  "poll_batch [] st = st"
| "poll_batch (reports # polls) st =
     (if snd st = 0 then st else poll_batch polls (fold settle_report reports st))"

definition publish_batch_polling :: "produced list \<Rightarrow> (nat \<times> bool) list list \<Rightarrow> pub_outcome list" where
  "publish_batch_polling ps polls =
     (let outs = map offered ps;
          final = fst (poll_batch polls (outs, length (filter (\<lambda>out. out = None) outs)))
      in map (\<lambda>out. case out of None \<Rightarrow> Uncertain | Some r \<Rightarrow> r) final)"

lemma settle_reports_nth:
  assumes "fold settle_report reports (outs, n) = (outs', n')" and "\<forall>r \<in> set reports. fst r < length outs" and "i < length outs"
  shows "outs' ! i = (case outs ! i of Some r \<Rightarrow> Some r
      | None \<Rightarrow> map_option (\<lambda>ok. if ok then Acked else Down) (map_of reports i))
    \<and> length outs' = length outs"
  using assms
proof (induction reports arbitrary: outs n)
  case (Cons r reports)
  obtain j ok where r: "r = (j, ok)" by fastforce
  show ?case
  proof (cases "outs ! j")
    case None
    with Cons.prems Cons.IH [of "outs[j := Some (if ok then Acked else Down)]" "n - 1"] show ?thesis
      by (cases "i = j") (simp_all add: r settle_report_def cong: option.case_cong)
  next
    case (Some v)
    with Cons.prems Cons.IH [of outs n] show ?thesis
      by (cases "i = j") (simp_all add: r settle_report_def cong: option.case_cong)
  qed
qed (simp split: option.splits)

text \<open>The first report about a message decides: later ones change nothing.\<close>

lemma poll_until_first: "poll_until polls = (case filter (\<lambda>x. x \<noteq> None) polls of
    [] \<Rightarrow> Inl (KafkaUnavailable True) | x # _ \<Rightarrow> if x = Some True then Inr () else Inl (KafkaUnavailable False))"
  by (induction polls rule: poll_until.induct) auto

end
