(* ===== verification/Batcher.thy ===== *)
theory Batcher
  imports Custody_Facts
begin

text \<open>
  \<^verbatim>\<open>src/api/ingestion.py\<close>, class \<open>TokenEventCustodyBatcher\<close>: single events of concurrent callers are
  queued, collected by one worker into batches and handed to \<open>accept_many\<close>, one call for each
  context. Each atomic action of a caller, of \<open>close\<close> or of the worker is a step. What
  \<open>accept_many\<close> returns is an argument of the flush.

  The lemmas show that no request is lost or answered twice while the worker runs, that a
  request gets the answer about its own event under its own context, and that closing the batcher
  can abandon requests that are still queued.
\<close>

section \<open>State\<close>

record 'c request =
  q_id :: nat
  q_event :: event
  q_ctx :: 'c

datatype 'c item = Stop | Req "'c request"

datatype 'c worker = NoWorker | Idle | Collecting "'c request list" | Flushing "'c request list" | Returned

record 'c batcher =
  max_batch :: nat
  max_queue :: nat
  queue :: "'c item list"
  closed :: bool
  stop_owed :: bool
  worker :: "'c worker"
  answers :: "nat \<Rightarrow> custody_reply res option"
  next_id :: nat

definition make_batcher :: "int \<Rightarrow> rat \<Rightarrow> int \<Rightarrow> 'c batcher res" where
  "make_batcher batch_size wait_seconds queue_size =
     (if batch_size < 1 then Inl ValueError
      else if wait_seconds < 0 then Inl ValueError
      else if queue_size < batch_size then Inl ValueError
      else Inr \<lparr>max_batch = nat batch_size, max_queue = nat queue_size, queue = [], closed = False, stop_owed = False,
             worker = NoWorker, answers = (\<lambda>_. None), next_id = 0\<rparr>)"

section \<open>Operations\<close>

text \<open>\<open>accept\<close> up to its \<open>await\<close>: the future is named by the next id.\<close>

definition batcher_accept :: "event \<Rightarrow> 'c \<Rightarrow> 'c batcher \<Rightarrow> nat res \<times> 'c batcher" where
  "batcher_accept ev ctx b =
     (if closed b then (Inl RuntimeError, b)
      else if length (queue b) \<ge> max_queue b then (Inl CustodyOverloaded, b)
      else (Inr (next_id b),
            b\<lparr>queue := queue b @ [Req \<lparr>q_id = next_id b, q_event = ev, q_ctx = ctx\<rparr>], next_id := Suc (next_id b),
              worker := (if worker b = NoWorker then Idle else worker b)\<rparr>))"

text \<open>\<open>close\<close>: marks the batcher closed, then waits for room to queue the stop mark.\<close>

definition batcher_close :: "'c batcher \<Rightarrow> 'c batcher" where
  "batcher_close b = (if closed b then b else b\<lparr>closed := True, stop_owed := (worker b \<noteq> NoWorker)\<rparr>)"

definition put_stop :: "'c batcher \<Rightarrow> 'c batcher" where
  "put_stop b =
     (if stop_owed b \<and> length (queue b) < max_queue b
      then b\<lparr>queue := queue b @ [Stop], stop_owed := False\<rparr> else b)"

text \<open>The worker takes the first item, more items while there is room and time, or runs out of time.\<close>

definition take_item :: "'c batcher \<Rightarrow> 'c batcher" where
  "take_item b =
     (case (worker b, queue b) of
        (Idle, Stop # rest) \<Rightarrow> b\<lparr>queue := rest, worker := Returned\<rparr>
      | (Idle, Req r # rest) \<Rightarrow>
          b\<lparr>queue := rest, worker := (if max_batch b \<le> 1 then Flushing [r] else Collecting [r])\<rparr>
      | (Collecting rs, Stop # rest) \<Rightarrow> b\<lparr>queue := rest, closed := True, worker := Flushing rs\<rparr>
      | (Collecting rs, Req r # rest) \<Rightarrow>
          b\<lparr>queue := rest,
            worker := (if max_batch b \<le> Suc (length rs) then Flushing (rs @ [r]) else Collecting (rs @ [r]))\<rparr>
      | _ \<Rightarrow> b)"

definition collect_timeout :: "'c batcher \<Rightarrow> 'c batcher" where
  "collect_timeout b = (case worker b of Collecting rs \<Rightarrow> b\<lparr>worker := Flushing rs\<rparr> | _ \<Rightarrow> b)"

text \<open>One group of \<open>_flush\<close>: its results by position, or the same error for every request of the group.\<close>

definition group_answers :: "custody_reply list res \<Rightarrow> 'c request list \<Rightarrow> (nat \<times> custody_reply res) list" where
  "group_answers resp rs =
     (case resp of
        Inl e \<Rightarrow> map (\<lambda>r. (q_id r, Inl e)) rs
      | Inr replies \<Rightarrow>
          if length replies \<noteq> length rs then map (\<lambda>r. (q_id r, Inl RuntimeError)) rs
          else zip (map q_id rs) (map Inr replies))"

definition set_answer :: "nat \<times> custody_reply res \<Rightarrow> (nat \<Rightarrow> custody_reply res option) \<Rightarrow> nat \<Rightarrow> custody_reply res option" where
  "set_answer ia m = (if m (fst ia) = None then m(fst ia \<mapsto> snd ia) else m)"

definition context_groups :: "'c request list \<Rightarrow> ('c \<times> 'c request list) list" where
  "context_groups rs = group_by q_ctx rs"

definition flush_answers ::
  "('c \<Rightarrow> event list \<Rightarrow> custody_reply list res) \<Rightarrow> 'c request list \<Rightarrow> (nat \<times> custody_reply res) list" where
  "flush_answers accept_many rs =
     concat (map (\<lambda>(ctx, g). group_answers (accept_many ctx (map q_event g)) g) (context_groups rs))"

definition finish_flush :: "('c \<Rightarrow> event list \<Rightarrow> custody_reply list res) \<Rightarrow> 'c batcher \<Rightarrow> 'c batcher" where
  "finish_flush accept_many b =
     (case worker b of
        Flushing rs \<Rightarrow> b\<lparr>answers := fold set_answer (flush_answers accept_many rs) (answers b),
                         worker := (if closed b then Returned else Idle)\<rparr>
      | _ \<Rightarrow> b)"

text \<open>\<open>A\<close> is what the calls of \<open>accept_many\<close> may do.\<close>

inductive batcher_step ::
  "('c \<Rightarrow> event list \<Rightarrow> custody_reply list res) set \<Rightarrow> 'c batcher \<Rightarrow> 'c batcher \<Rightarrow> bool" for A where
  submit: "batcher_step A b (snd (batcher_accept ev ctx b))"
| close: "batcher_step A b (batcher_close b)"
| stop: "batcher_step A b (put_stop b)"
| take_one: "batcher_step A b (take_item b)"
| timeout: "batcher_step A b (collect_timeout b)"
| flush: "accept_many \<in> A \<Longrightarrow> batcher_step A b (finish_flush accept_many b)"

section \<open>No request is lost or answered twice\<close>

definition queued :: "'c batcher \<Rightarrow> 'c request list" where
  "queued b = concat (map (\<lambda>x. case x of Stop \<Rightarrow> [] | Req r \<Rightarrow> [r]) (queue b))"

definition in_hand :: "'c batcher \<Rightarrow> 'c request list" where
  "in_hand b = (case worker b of Collecting rs \<Rightarrow> rs | Flushing rs \<Rightarrow> rs | _ \<Rightarrow> [])"

definition waiting :: "'c batcher \<Rightarrow> nat list" where
  "waiting b = map q_id (in_hand b @ queued b)"

text \<open>A batch that is still collected has room.\<close>

definition roomy :: "nat \<Rightarrow> 'c worker \<Rightarrow> bool" where
  "roomy k w = (case w of Collecting rs \<Rightarrow> length rs < k | _ \<Rightarrow> True)"

lemma roomy_simps [simp]:
  "roomy k NoWorker" "roomy k Idle" "roomy k Returned" "roomy k (Flushing rs)"
  "roomy k (Collecting rs) \<longleftrightarrow> length rs < k"
  by (simp_all add: roomy_def)

text \<open>Every admitted request waits in one place or has its answer, in the order admitted; batches are bounded.\<close>

definition accounted :: "'c batcher \<Rightarrow> bool" where
  "accounted b \<longleftrightarrow> sorted (waiting b) \<and> distinct (waiting b)
     \<and> set (waiting b) = {i. i < next_id b \<and> answers b i = None}
     \<and> (\<forall>i. answers b i \<noteq> None \<longrightarrow> i < next_id b)
     \<and> (worker b = NoWorker \<longrightarrow> queue b = [] \<and> \<not> stop_owed b)
     \<and> roomy (max_batch b) (worker b)
     \<and> (\<not> closed b \<longrightarrow> Stop \<notin> set (queue b) \<and> \<not> stop_owed b \<and> worker b \<noteq> Returned)
     \<and> length (queue b) \<le> max_queue b \<and> length (in_hand b) \<le> max_batch b \<and> 1 \<le> max_batch b"

lemma set_answers: "fold set_answer xs m i = (case m i of Some v \<Rightarrow> Some v | None \<Rightarrow> map_of xs i)"
proof (induction xs arbitrary: m)
  case (Cons x xs)
  then show ?case by (cases "m i") (auto simp: set_answer_def split: option.splits prod.splits)
qed (simp split: option.splits)

lemma group_answers_ids: "map fst (group_answers resp rs) = map q_id rs"
  by (simp add: group_answers_def comp_def split: sum.splits)

lemma flush_answers_ids: "map fst (flush_answers accept_many rs) = map q_id (concat (map snd (context_groups rs)))"
  by (simp add: flush_answers_def map_concat comp_def case_prod_beta group_answers_ids)

lemma context_groups_set: "set (concat (map snd (context_groups rs))) = set rs"
  using group_by_mset [of q_ctx rs] by (metis context_groups_def set_mset_mset)

lemma flush_answered: "i \<in> q_id ` set rs \<longleftrightarrow> map_of (flush_answers accept_many rs) i \<noteq> None"
  unfolding map_of_eq_None_iff not_not
  using flush_answers_ids [of accept_many rs] context_groups_set [of rs] by (metis list.set_map)

lemma waiting_simps:
  "queued (b\<lparr>queue := Stop # q\<rparr>) = queued (b\<lparr>queue := q\<rparr>)"
  "queued (b\<lparr>queue := Req r # q\<rparr>) = r # queued (b\<lparr>queue := q\<rparr>)"
  "queued (b\<lparr>queue := q @ [Req r]\<rparr>) = queued (b\<lparr>queue := q\<rparr>) @ [r]"
  "queued (b\<lparr>queue := q @ [Stop]\<rparr>) = queued (b\<lparr>queue := q\<rparr>)"
  by (simp_all add: queued_def)

lemma queued_queue [simp]: "queued (b\<lparr>queue := queue b\<rparr>) = queued b"
  by (simp add: queued_def)

lemma accounted_submit:
  assumes "accounted b"
  shows "accounted (snd (batcher_accept ev ctx b))"
proof (cases "closed b \<or> length (queue b) \<ge> max_queue b")
  case True
  with assms show ?thesis by (auto simp: batcher_accept_def)
next
  case False
  define b' where "b' = snd (batcher_accept ev ctx b)"
  have sel: "answers b' = answers b" "next_id b' = Suc (next_id b)" "max_queue b' = max_queue b"
    "max_batch b' = max_batch b" "length (queue b') = Suc (length (queue b))" "worker b' \<noteq> NoWorker"
    "in_hand b' = in_hand b" "waiting b' = waiting b @ [next_id b]"
    "roomy k (worker b') = roomy k (worker b)" "Stop \<in> set (queue b') \<longleftrightarrow> Stop \<in> set (queue b)"
    "closed b' = closed b" "stop_owed b' = stop_owed b" "worker b' = Returned \<longleftrightarrow> worker b = Returned" for k
    using False by (auto simp: b'_def batcher_accept_def in_hand_def waiting_def queued_def)
  have old: "i < next_id b" if "i \<in> set (waiting b)" for i using assms that by (simp add: accounted_def)
  have "answers b (next_id b) = None" using assms by (auto simp: accounted_def)
  then have "set (waiting b') = {i. i < next_id b' \<and> answers b' i = None}"
    using assms by (auto simp: accounted_def sel less_Suc_eq)
  moreover have "sorted (waiting b')" "distinct (waiting b')"
    using assms old by (auto simp: accounted_def sel sorted_append less_imp_le)
  ultimately have "accounted b'"
    using assms False unfolding accounted_def by (auto simp: sel less_Suc_eq)
  then show ?thesis by (simp add: b'_def)
qed

lemma accounted_take:
  assumes "accounted b"
  shows "accounted (take_item b)"
proof (cases "queue b")
  case (Cons x rest)
  show ?thesis
  proof (cases x)
    case Stop
    with assms Cons show ?thesis
      by (cases "worker b") (simp_all add: take_item_def accounted_def waiting_def in_hand_def queued_def)
  next
    case (Req r)
    with assms Cons show ?thesis
      by (cases "worker b") (auto simp: take_item_def accounted_def waiting_def in_hand_def queued_def)
  qed
qed (use assms in \<open>cases "worker b"; simp add: take_item_def\<close>)

lemma accounted_flush:
  assumes "accounted b"
  shows "accounted (finish_flush accept_many b)"
proof (cases "worker b")
  case (Flushing rs)
  define b' where "b' = finish_flush accept_many b"
  have w: "waiting b = map q_id rs @ waiting b'"
    by (simp add: waiting_def b'_def finish_flush_def Flushing in_hand_def queued_def)
  have ans: "answers b' i = (case answers b i of Some v \<Rightarrow> Some v | None \<Rightarrow> map_of (flush_answers accept_many rs) i)" for i
    by (simp add: b'_def finish_flush_def Flushing set_answers)
  have sel: "next_id b' = next_id b" "queue b' = queue b" "max_queue b' = max_queue b" "max_batch b' = max_batch b"
    "in_hand b' = []" "worker b' \<noteq> NoWorker"
    "roomy k (worker b')" "closed b' = closed b" "stop_owed b' = stop_owed b" "\<not> closed b \<Longrightarrow> worker b' \<noteq> Returned" for k
    by (simp_all add: b'_def finish_flush_def Flushing in_hand_def)
  have d: "distinct (map q_id rs @ waiting b')" "set (map q_id rs @ waiting b') = {i. i < next_id b \<and> answers b i = None}"
    using assms by (simp_all add: accounted_def flip: w)
  have none: "answers b' i = None \<longleftrightarrow> answers b i = None \<and> i \<notin> q_id ` set rs" for i
    using flush_answered [of i rs accept_many] by (auto simp: ans split: option.splits)
  have "set (waiting b') = {i. i < next_id b' \<and> answers b' i = None}"
    using d by (auto simp: none sel)
  moreover have "i < next_id b'" if "answers b' i \<noteq> None" for i
    using that d(2) assms by (auto simp: none sel accounted_def)
  moreover have "sorted (waiting b')" using assms by (simp add: accounted_def w sorted_append)
  ultimately have "accounted b'" using d(1) assms by (simp add: accounted_def sel)
  then show ?thesis by (simp add: b'_def)
qed (use assms in \<open>simp_all add: finish_flush_def\<close>)

lemma accounted_step: "batcher_step A b b' \<Longrightarrow> accounted b \<Longrightarrow> accounted b'"
proof (induction rule: batcher_step.induct)
  case (close b)
  then show ?case by (auto simp: batcher_close_def accounted_def waiting_def in_hand_def queued_def)
next
  case (stop b)
  then show ?case by (auto simp: put_stop_def accounted_def waiting_def in_hand_def queued_def)
next
  case (timeout b)
  then show ?case
    by (auto simp: collect_timeout_def accounted_def waiting_def in_hand_def queued_def split: worker.splits)
qed (simp_all add: accounted_submit accounted_take accounted_flush)

lemma make_batcher_accounted: "make_batcher m t q = Inr b \<Longrightarrow> accounted b"
  by (auto simp: make_batcher_def accounted_def waiting_def in_hand_def queued_def split: if_splits)

lemma accounted_steps: "rtranclp (batcher_step A) b b' \<Longrightarrow> accounted b \<Longrightarrow> accounted b'"
  by (induction rule: rtranclp_induct) (auto intro: accounted_step)

lemma answer_kept_step:
  assumes "batcher_step A b b'" and "answers b i = Some r"
  shows "answers b' i = Some r"
  using assms
  by (induction rule: batcher_step.induct)
     (auto simp: batcher_accept_def batcher_close_def put_stop_def take_item_def collect_timeout_def finish_flush_def
       set_answers split: worker.splits list.splits item.splits)

lemma next_id_step: "batcher_step A b b' \<Longrightarrow> next_id b \<le> next_id b'"
  by (induction rule: batcher_step.induct)
     (auto simp: batcher_accept_def batcher_close_def put_stop_def take_item_def collect_timeout_def finish_flush_def
       split: worker.splits list.splits item.splits)

lemma answer_kept: "rtranclp (batcher_step A) b b' \<Longrightarrow> answers b i = Some r \<Longrightarrow> answers b' i = Some r"
  by (induction rule: rtranclp_induct) (auto intro: answer_kept_step)

text \<open>
  C12: the batcher loses no request and answers none twice. From its creation on, whatever
  callers, closers and the worker do in whatever order, each admitted request is in exactly one
  place: it waits, in the order of admission, or it has its answer, which never changes again; and
  neither a batch nor the queue ever exceeds its bound.
\<close>

theorem requests_accounted:
  assumes "make_batcher m t q = Inr b0" and "rtranclp (batcher_step A) b0 b" and "rtranclp (batcher_step A) b b'"
  shows "sorted (waiting b) \<and> distinct (waiting b)
    \<and> set (waiting b) = {i. i < next_id b \<and> answers b i = None}
    \<and> (case answers b i of None \<Rightarrow> True | Some r \<Rightarrow> answers b' i = Some r)
    \<and> length (in_hand b) \<le> max_batch b \<and> length (queue b) \<le> max_queue b"
  using accounted_steps [OF assms(2) make_batcher_accounted [OF assms(1)]] answer_kept [OF assms(3)]
  by (auto simp: accounted_def split: option.splits)

section \<open>Draining\<close>

lemma reaches_idle:
  assumes "accounted b" and "\<not> closed b" and "worker b \<noteq> NoWorker" and "acc \<in> A"
  shows "\<exists>b'. rtranclp (batcher_step A) b b' \<and> worker b' = Idle \<and> queue b' = queue b \<and> closed b' = closed b"
proof -
  have flush: "rtranclp (batcher_step A) b (finish_flush acc b)" for b
    using assms(4) by (intro r_into_rtranclp batcher_step.flush)
  have tick: "rtranclp (batcher_step A) b (collect_timeout b)" for b
    by (rule r_into_rtranclp) (rule batcher_step.timeout)
  define b1 where "b1 = finish_flush acc (collect_timeout b)"
  have "rtranclp (batcher_step A) b b1" unfolding b1_def using tick flush by (rule rtranclp_trans)
  moreover have "worker b1 = Idle" "queue b1 = queue b" "closed b1 = closed b"
    using assms by (auto simp: b1_def collect_timeout_def finish_flush_def accounted_def split: worker.splits)
  ultimately show ?thesis by blast
qed

lemma drains:
  assumes "accounted b" and "\<not> closed b" and "worker b = Idle" and "acc \<in> A"
  shows "\<exists>b'. rtranclp (batcher_step A) b b' \<and> waiting b' = []"
  using assms
proof (induction "length (queue b)" arbitrary: b)
  case 0
  then show ?case by (intro exI [of _ b]) (simp add: waiting_def in_hand_def queued_def)
next
  case (Suc n)
  then obtain x rest where q: "queue b = x # rest" by (cases "queue b") auto
  have "x \<noteq> Stop" using Suc.prems(1,2) by (auto simp: accounted_def q)
  then obtain r where x: "x = Req r" by (cases x) auto
  have take: "rtranclp (batcher_step A) b (take_item b)" by (rule r_into_rtranclp) (rule batcher_step.take_one)
  have sel: "queue (take_item b) = rest" "closed (take_item b) = closed b" "worker (take_item b) \<noteq> NoWorker"
    using Suc.prems(3) by (simp_all add: take_item_def q x)
  from reaches_idle [OF accounted_take [OF Suc.prems(1)], of acc A] sel Suc.prems(2,4) obtain b1 where
    b1: "rtranclp (batcher_step A) (take_item b) b1" "worker b1 = Idle" "queue b1 = rest" "closed b1 = closed b" by auto
  have steps: "rtranclp (batcher_step A) b b1" using take b1(1) by (rule rtranclp_trans)
  have "n = length (queue b1)" using Suc.hyps(2) b1(3) q by simp
  from Suc.hyps(1) [OF this accounted_steps [OF steps Suc.prems(1)]] b1 Suc.prems(2,4)
  obtain b' where "rtranclp (batcher_step A) b1 b'" "waiting b' = []" by auto
  with steps show ?case by (blast intro: rtranclp_trans)
qed


section \<open>Every caller gets its own answer\<close>

text \<open>
  The contract of the batch operation: a batch that returns answers event by event, each answer
  about the id of its event. Custody provides it.
\<close>

locale batch_service =
  fixes accept_many :: "'c \<Rightarrow> event list \<Rightarrow> custody_reply list res"
  assumes answers_in_order:
    "accept_many ctx evs = Inr rs \<Longrightarrow> mapE (\<lambda>ev. resolve_custody_event_id ev None) evs = Inr (map c_event rs)"
begin

lemma group_own:
  assumes "(i, Inr reply) \<in> set (group_answers (accept_many ctx (map q_event g)) g)"
  shows "\<exists>r \<in> set g. q_id r = i \<and> resolve_custody_event_id (q_event r) None = Inr (c_event reply)"
proof -
  obtain replies where acc: "accept_many ctx (map q_event g) = Inr replies"
    using assms by (cases "accept_many ctx (map q_event g)") (auto simp: group_answers_def)
  then have len: "length replies = length g"
    and mem: "(i, Inr reply :: custody_reply res) \<in> set (zip (map q_id g) (map Inr replies))"
    using assms by (auto simp: group_answers_def split: if_split_asm)
  obtain k where k: "k < length g" "q_id (g ! k) = i" "replies ! k = reply"
    using mem len by (auto simp: set_zip)
  have "resolve_custody_event_id (map q_event g ! k) None = Inr (map c_event replies ! k)"
    using mapE_nth [OF answers_in_order [OF acc]] k(1) by simp
  with k len show ?thesis by (auto intro!: bexI [of _ "g ! k"])
qed

lemma flush_own:
  assumes "(i, Inr reply) \<in> set (flush_answers accept_many rs)"
  shows "\<exists>r \<in> set rs. q_id r = i \<and> resolve_custody_event_id (q_event r) None = Inr (c_event reply)"
proof -
  obtain ctx g where g: "(ctx, g) \<in> set (context_groups rs)"
    and mem: "(i, Inr reply) \<in> set (group_answers (accept_many ctx (map q_event g)) g)"
    using assms by (auto simp: flush_answers_def)
  have "set g \<subseteq> set rs" using context_groups_set [of rs] g by force
  with group_own [OF mem] show ?thesis by blast
qed

end

definition custody_service ::
  "(custody_ctx \<Rightarrow> custody_env) \<Rightarrow> (custody_ctx \<Rightarrow> world) \<Rightarrow> custody_ctx \<Rightarrow> event list \<Rightarrow> custody_reply list res" where
  "custody_service E w x evs = fst (custody_accept_many (E x) x evs (w x))"

interpretation custody: batch_service "custody_service E w" for E w
  by unfold_locales (metis batch_resolved custody_service_def prod.collapse)

text \<open>
  every caller gets the answer about its own event. When the worker has flushed a batch
  through custody, in any reachable state and whatever the contexts of the requests, a request
  whose caller is answered is answered with the id of the event it sent.
\<close>

theorem batched_reply_is_own:
  assumes "make_batcher m t q = Inr b0" and "rtranclp (batcher_step A) b0 b" and "worker b = Flushing rs"
    and "r \<in> set rs" and "answers (finish_flush (custody_service E w) b) (q_id r) = Some (Inr reply)"
  shows "resolve_custody_event_id (q_event r) None = Inr (c_event reply)"
proof -
  have acc: "accounted b" using accounted_steps [OF assms(2) make_batcher_accounted [OF assms(1)]] .
  then have d: "distinct (map q_id rs)" and "set (waiting b) = {i. i < next_id b \<and> answers b i = None}"
    using assms(3) by (simp_all add: accounted_def waiting_def in_hand_def)
  moreover have "q_id r \<in> set (waiting b)" using assms(3,4) by (simp add: waiting_def in_hand_def)
  ultimately have none: "answers b (q_id r) = None" by blast
  have "map_of (flush_answers (custody_service E w) rs) (q_id r) = Some (Inr reply)"
    using assms(3,5) none by (simp add: finish_flush_def set_answers)
  from custody.flush_own [OF map_of_SomeD [OF this]] obtain r' where
    r': "r' \<in> set rs" "q_id r' = q_id r" "resolve_custody_event_id (q_event r') None = Inr (c_event reply)" by blast
  have "r' = r" using d r'(1,2) assms(4) by (auto simp: distinct_map inj_on_def)
  with r'(3) show ?thesis by simp
qed

section \<open>Closing abandons queued requests\<close>

definition demo_batcher :: "nat batcher" where
  "demo_batcher = \<lparr>max_batch = 1, max_queue = 2, queue = [], closed = False, stop_owed = False, worker = NoWorker,
     answers = (\<lambda>_. None), next_id = 0\<rparr>"

definition two_requests :: "nat batcher" where
  "two_requests = snd (batcher_accept (demo_event ''b'') 0 (snd (batcher_accept (demo_event ''a'') 0 demo_batcher)))"

definition closed_early :: "nat batcher" where
  "closed_early = finish_flush (\<lambda>_ _. Inl RedisError) (batcher_close (take_item two_requests))"

lemma demo_batcher_made: "make_batcher 1 0 2 = Inr demo_batcher"
  by (simp add: make_batcher_def demo_batcher_def)

lemma two_requests_reached: "rtranclp (batcher_step A) demo_batcher two_requests"
  unfolding two_requests_def by (rule rtranclp.rtrancl_into_rtrancl [OF r_into_rtranclp]) (rule batcher_step.submit)+

lemma two_requests_state: "queue two_requests =
    [Req \<lparr>q_id = 0, q_event = demo_event ''a'', q_ctx = 0\<rparr>, Req \<lparr>q_id = 1, q_event = demo_event ''b'', q_ctx = 0\<rparr>]"
  "worker two_requests = Idle" "closed two_requests = False" "next_id two_requests = 2" "max_batch two_requests = 1"
  "answers two_requests i = None"
  by (simp_all add: two_requests_def batcher_accept_def demo_batcher_def)

text \<open>Once the worker has returned, an admitted request that is still queued is never answered.\<close>

lemma returned_stays:
  assumes "rtranclp (batcher_step A) b b'" and "worker b = Returned"
  shows "worker b' = Returned \<and> answers b' = answers b"
  using assms(1)
proof (induction rule: rtranclp_induct)
  case (step b' b'')
  from step.hyps(2) step.IH show ?case
    by (induction rule: batcher_step.induct)
       (auto simp: batcher_accept_def batcher_close_def put_stop_def take_item_def collect_timeout_def finish_flush_def)
qed (simp add: assms(2))

theorem close_abandons_requests:
  "\<exists>b. rtranclp (batcher_step {\<lambda>_ _. Inl RedisError}) demo_batcher b \<and> next_id b = 2
     \<and> (\<forall>b'. rtranclp (batcher_step A) b b' \<longrightarrow> answers b' 1 = None)"
proof (intro exI conjI allI impI)
  let ?A = "{\<lambda>_ _. Inl RedisError}"
  have "batcher_step ?A two_requests (take_item two_requests)" by (rule batcher_step.take_one)
  moreover have "batcher_step ?A (take_item two_requests) (batcher_close (take_item two_requests))"
    by (rule batcher_step.close)
  moreover have "batcher_step ?A (batcher_close (take_item two_requests)) closed_early"
    unfolding closed_early_def by (rule batcher_step.flush) simp
  ultimately show "rtranclp (batcher_step ?A) demo_batcher closed_early"
    using two_requests_reached [of ?A] by (blast intro: rtranclp.rtrancl_into_rtrancl)
  show "next_id closed_early = 2"
    by (simp add: closed_early_def finish_flush_def batcher_close_def take_item_def two_requests_state)
  fix b' assume "rtranclp (batcher_step A) closed_early b'"
  moreover have "worker closed_early = Returned" "answers closed_early 1 = None"
    by (simp_all add: closed_early_def finish_flush_def batcher_close_def take_item_def two_requests_state
        set_answer_def flush_answers_def context_groups_def group_by_def group_answers_def)
  ultimately show "answers b' 1 = None" by (simp add: returned_stays)
qed

theorem requests_accounted_witness: "waiting two_requests = [0, 1] \<and> distinct (waiting two_requests)"
  using requests_accounted [OF demo_batcher_made two_requests_reached [of UNIV] rtranclp.rtrancl_refl]
  by (simp add: waiting_def in_hand_def queued_def two_requests_state)


definition demo_queue :: "custody_ctx batcher" where
  "demo_queue = \<lparr>max_batch = 1, max_queue = 2, queue = [], closed = False, stop_owed = False, worker = NoWorker,
     answers = (\<lambda>_. None), next_id = 0\<rparr>"

definition demo_flushing :: "custody_ctx batcher" where
  "demo_flushing = take_item (snd (batcher_accept (demo_event ''acme'') demo_ctx demo_queue))"

lemma demo_service: "custody_service (\<lambda>_. demo_env Acked) (\<lambda>_. demo_start) demo_ctx [demo_event ''acme'']
    = Inr [final_reply False ''e1'']"
  using demo_first_accept accept_many_one [of "demo_event ''acme''" "''acme''" demo_ctx "demo_env Acked" demo_start]
  by (auto simp: custody_service_def demo_event_def)

theorem batched_reply_is_own_witness:
  "answers (finish_flush (custody_service (\<lambda>_. demo_env Acked) (\<lambda>_. demo_start)) demo_flushing) 0
     = Some (Inr (final_reply False ''e1''))
   \<and> resolve_custody_event_id (demo_event ''acme'') None = Inr (c_event (final_reply False ''e1''))"
proof -
  let ?r = "\<lparr>q_id = 0, q_event = demo_event ''acme'', q_ctx = demo_ctx\<rparr>"
  have made: "make_batcher 1 0 2 = Inr demo_queue" by (simp add: make_batcher_def demo_queue_def)
  have steps: "rtranclp (batcher_step UNIV) demo_queue demo_flushing"
    unfolding demo_flushing_def
    by (rule rtranclp.rtrancl_into_rtrancl [OF r_into_rtranclp]) (rule batcher_step.submit, rule batcher_step.take_one)
  have w: "worker demo_flushing = Flushing [?r]" "answers demo_flushing = (\<lambda>_. None)" "closed demo_flushing = False"
    by (simp_all add: demo_flushing_def take_item_def batcher_accept_def demo_queue_def)
  have a: "answers (finish_flush (custody_service (\<lambda>_. demo_env Acked) (\<lambda>_. demo_start)) demo_flushing) (q_id ?r)
      = Some (Inr (final_reply False ''e1''))"
    by (simp add: finish_flush_def w set_answer_def flush_answers_def context_groups_def group_by_def
        group_answers_def demo_service)
  from batched_reply_is_own [OF made steps w(1) _ a] a show ?thesis by simp
qed

end
