(* ===== verification/Usage.thy ===== *)
theory Usage
  imports Tenant_Keys Calendar
begin

text \<open>
  Reads of the usage counters the stream job writes: \<^verbatim>\<open>src/api/usage_query.py\<close> (lifetime counters),
  \<^verbatim>\<open>src/api/usage_buckets.py\<close> (monthly, daily and session buckets), \<^verbatim>\<open>src/api/rollup_store.py\<close> (costs of all
  customers in a period) and \<^verbatim>\<open>src/api/billing_dims.py\<close> (counters of metadata dimensions, with their
  increments).

  The lemmas show that the index of a period and the key scan it replaces give the same costs,
  and what an adjustment or an increment changes.
\<close>

section \<open>Lifetime counters\<close>

definition counter :: "store \<Rightarrow> key \<Rightarrow> string \<Rightarrow> int res" where
  "counter s k f = int_or0 (rget s (k @ '':'' @ f))"

definition amount :: "store \<Rightarrow> key \<Rightarrow> string \<Rightarrow> rat res" where
  "amount s k f = float_or0 (rget s (k @ '':'' @ f))"

definition int_or_none :: "cell option \<Rightarrow> int option res" where
  "int_or_none c = (case c of None \<Rightarrow> Inr None | Some v \<Rightarrow> bindE (py_int v) (\<lambda>i. Inr (Some i)))"

record global_usage =
  gu_events :: int
  gu_tokens :: int
  gu_input :: int
  gu_output :: int
  gu_cost :: rat
  gu_window_end :: "int option"

definition get_global :: "store \<Rightarrow> string option \<Rightarrow> global_usage res" where
  "get_global s tenant_id =
     (let ns = global_ns_for_read s tenant_id in
      bindE (counter s ns ''total_events'') (\<lambda>ev.
      bindE (counter s ns ''total_tokens'') (\<lambda>tt.
      bindE (counter s ns ''input_tokens'') (\<lambda>ti.
      bindE (counter s ns ''output_tokens'') (\<lambda>to.
      bindE (amount s ns ''total_cost_usd'') (\<lambda>cost.
      bindE (int_or_none (rget s (ns @ '':last_window_end''))) (\<lambda>we.
        Inr \<lparr>gu_events = ev, gu_tokens = tt, gu_input = ti, gu_output = to, gu_cost = cost, gu_window_end = we\<rparr>)))))))"

record customer_usage =
  cu_customer :: string
  cu_tokens :: int
  cu_input :: int
  cu_output :: int
  cu_cache_read :: int
  cu_reasoning :: int
  cu_events :: int
  cu_cost :: rat

definition get_customer :: "store \<Rightarrow> string option \<Rightarrow> string \<Rightarrow> customer_usage option res" where
  "get_customer s tenant_id customer_id =
     (let k = customer_prefix_for_read s tenant_id customer_id in
      case rget s (k @ '':total_tokens'') of
        None \<Rightarrow> Inr None
      | Some total_text \<Rightarrow>
          bindE (py_int total_text) (\<lambda>tt.
          bindE (counter s k ''input_tokens'') (\<lambda>ti.
          bindE (counter s k ''output_tokens'') (\<lambda>to.
          bindE (counter s k ''cache_read_tokens'') (\<lambda>cr.
          bindE (counter s k ''reasoning_tokens'') (\<lambda>rt.
          bindE (counter s k ''event_count'') (\<lambda>ec.
          bindE (amount s k ''cost_usd'') (\<lambda>cost.
            Inr (Some \<lparr>cu_customer = customer_id, cu_tokens = tt, cu_input = ti, cu_output = to, cu_cache_read = cr,
                   cu_reasoning = rt, cu_events = ec, cu_cost = cost\<rparr>)))))))))"

record export_counters =
  xc_events :: int
  xc_input :: int
  xc_output :: int
  xc_cost :: rat

definition customer_counters :: "store \<Rightarrow> string option \<Rightarrow> string \<Rightarrow> export_counters res" where
  "customer_counters s tenant_id customer_id =
     (let k = customer_prefix_for_read s tenant_id customer_id in
      bindE (counter s k ''event_count'') (\<lambda>ec.
      bindE (counter s k ''input_tokens'') (\<lambda>ti.
      bindE (counter s k ''output_tokens'') (\<lambda>to.
      bindE (amount s k ''cost_usd'') (\<lambda>cost.
        Inr \<lparr>xc_events = ec, xc_input = ti, xc_output = to, xc_cost = cost\<rparr>)))))"

definition customer_cost_usd :: "store \<Rightarrow> string option \<Rightarrow> string \<Rightarrow> rat res" where
  "customer_cost_usd s tenant_id customer_id =
     amount s (customer_prefix_for_read s tenant_id customer_id) ''cost_usd''"

record model_usage =
  mu_model :: string
  mu_tokens :: int
  mu_input :: int
  mu_output :: int
  mu_cost :: rat

definition get_customer_model :: "store \<Rightarrow> string option \<Rightarrow> string \<Rightarrow> string \<Rightarrow> model_usage option res" where
  "get_customer_model s tenant_id customer_id model_id =
     (let k = customer_prefix_for_read s tenant_id customer_id @ '':model:'' @ model_id in
      case rget s (k @ '':total_tokens'') of
        None \<Rightarrow> Inr None
      | Some total_text \<Rightarrow>
          bindE (py_int total_text) (\<lambda>tt.
          bindE (counter s k ''input_tokens'') (\<lambda>ti.
          bindE (counter s k ''output_tokens'') (\<lambda>to.
          bindE (amount s k ''cost_usd'') (\<lambda>cost.
            Inr (Some \<lparr>mu_model = model_id, mu_tokens = tt, mu_input = ti, mu_output = to, mu_cost = cost\<rparr>))))))"

text \<open>ZREVRANGE from 0 to \<open>limit - 1\<close>; a negative end counts from the last element.\<close>

definition zrevrange_from_0 :: "(string \<times> rat) list \<Rightarrow> int \<Rightarrow> (string \<times> rat) list" where
  "zrevrange_from_0 z stop_at =
     take (nat (if stop_at < 0 then int (length z) + stop_at + 1 else stop_at + 1)) (rev z)"

definition list_customer_spans :: "store \<Rightarrow> string option \<Rightarrow> string \<Rightarrow> int \<Rightarrow> (string \<times> rat) list" where
  "list_customer_spans s tenant_id customer_id limit =
     zrevrange_from_0 (zsets s (customer_prefix_for_read s tenant_id customer_id @ '':spans'')) (limit - 1)"

section \<open>Usage of one model by all customers\<close>

definition parse_model_input_key :: "key \<Rightarrow> string \<Rightarrow> (string \<times> key \<times> key) option" where
  "parse_model_input_key k model_id =
     (let parts = split_on (CHR '':'') k in
      if 6 \<le> length parts \<and> parts ! 0 = ''tenant'' \<and> parts ! 2 = ''customer''
      then (let cid = parts ! 3; cust = ''tenant:'' @ parts ! 1 @ '':customer:'' @ cid
            in Some (cid, cust @ '':model:'' @ model_id, cust))
      else if 4 \<le> length parts \<and> parts ! 0 = ''customer''
      then (let cid = parts ! 1; cust = ''customer:'' @ cid
            in Some (cid, cust @ '':model:'' @ model_id, cust))
      else None)"

record model_row =
  mr_customer :: string
  mr_model_key :: key
  mr_prefix :: key
  mr_input :: int
  mr_output :: int
  mr_tenant :: bool

definition model_row_of :: "store \<Rightarrow> bool \<Rightarrow> string \<times> key \<times> key \<Rightarrow> model_row res" where
  "model_row_of s tenant_scoped parsed =
     (case parsed of (cid, model_key, cust) \<Rightarrow>
        bindE (counter s model_key ''input_tokens'') (\<lambda>ti.
        bindE (counter s model_key ''output_tokens'') (\<lambda>to.
          Inr \<lparr>mr_customer = cid, mr_model_key = model_key, mr_prefix = cust, mr_input = ti, mr_output = to,
               mr_tenant = tenant_scoped\<rparr>)))"

fun collect_rows ::
  "store \<Rightarrow> string \<Rightarrow> bool \<Rightarrow> key list \<Rightarrow> (string \<times> model_row) list \<Rightarrow> (string \<times> model_row) list res" where
  "collect_rows s model_id tenant_scoped [] by_cid = Inr by_cid"
| "collect_rows s model_id tenant_scoped (k # ks) by_cid =
     (case parse_model_input_key k model_id of
        None \<Rightarrow> collect_rows s model_id tenant_scoped ks by_cid
      | Some (cid, model_key, cust) \<Rightarrow>
          if map_of by_cid cid \<noteq> None \<and> \<not> tenant_scoped
          then collect_rows s model_id tenant_scoped ks by_cid
          else bindE (model_row_of s tenant_scoped (cid, model_key, cust)) (\<lambda>row.
                 collect_rows s model_id tenant_scoped ks (AList.update cid row by_cid)))"

definition iter_model_usage_rows :: "store \<Rightarrow> string option \<Rightarrow> string \<Rightarrow> model_row list res" where
  "iter_model_usage_rows s tenant_id model_id =
     bindE (if has_tenant tenant_id
            then collect_rows s model_id True
              (scan s (''tenant:'' @ the tenant_id @ '':customer:*:model:'' @ model_id @ '':input_tokens'')) []
            else Inr []) (\<lambda>by_cid.
     bindE (collect_rows s model_id False (scan s (''customer:*:model:'' @ model_id @ '':input_tokens'')) by_cid)
       (\<lambda>by_cid. Inr (map snd by_cid)))"

text \<open>One pipeline: the model's, the customer's and the global cost.\<close>

definition apply_model_cost_adjustment :: "store \<Rightarrow> string option \<Rightarrow> model_row \<Rightarrow> rat \<Rightarrow> unit res \<times> store" where
  "apply_model_cost_adjustment s tenant_id row adjustment =
     multi [\<lambda>s. incrbyfloat s (mr_model_key row @ '':cost_usd'') adjustment,
            \<lambda>s. incrbyfloat s (mr_prefix row @ '':cost_usd'') adjustment,
            \<lambda>s. incrbyfloat s (global_key_for_write tenant_id ''total_cost_usd'') adjustment] s"

section \<open>Buckets\<close>

definition DAY_BUCKET_TTL :: int where "DAY_BUCKET_TTL = 400 * 86400"
definition SESSION_TTL_SEC :: int where "SESSION_TTL_SEC = 90 * 86400"

definition rollup_month_key :: "string \<Rightarrow> string \<Rightarrow> key" where
  "rollup_month_key customer_id period = ''rollup:'' @ customer_id @ '':period:'' @ period"

definition rollup_day_key :: "string \<Rightarrow> string \<Rightarrow> key" where
  "rollup_day_key customer_id date = ''rollup:'' @ customer_id @ '':d:'' @ date"

definition model_period_key :: "string \<Rightarrow> string \<Rightarrow> string \<Rightarrow> key" where
  "model_period_key customer_id model_id period = ''rollup:'' @ customer_id @ '':model:'' @ model_id @ '':period:'' @ period"

definition period_customers_index :: "string \<Rightarrow> key" where
  "period_customers_index period = ''idx:period:'' @ period @ '':customers''"

record usage_bucket =
  ub_input :: int
  ub_output :: int
  ub_tokens :: int
  ub_events :: int
  ub_cost :: rat
  ub_cache_read :: int
  ub_reasoning :: int

text \<open>The fields of a bucket in the order they are read, given how to read one.\<close>

definition read_bucket :: "(string \<Rightarrow> cell option) \<Rightarrow> usage_bucket option res" where
  "read_bucket field =
     bindE (int_or0 (field ''input_tokens'')) (\<lambda>ti.
     bindE (int_or0 (field ''output_tokens'')) (\<lambda>to.
     bindE (int_or0 (field ''total_tokens'')) (\<lambda>tt.
     bindE (int_or0 (field ''event_count'')) (\<lambda>ec.
     bindE (float_or0 (field ''cost_usd'')) (\<lambda>cost.
     bindE (int_or0 (field ''cache_read_tokens'')) (\<lambda>cr.
     bindE (int_or0 (field ''reasoning_tokens'')) (\<lambda>rt.
       Inr (if ec = 0 \<and> tt = 0 then None
            else Some \<lparr>ub_input = ti, ub_output = to, ub_tokens = tt, ub_events = ec, ub_cost = cost,
                   ub_cache_read = cr, ub_reasoning = rt\<rparr>))))))))"

definition read_usage_bucket :: "store \<Rightarrow> key \<Rightarrow> usage_bucket option res" where
  "read_usage_bucket s k = (if \<not> rexists s k then Inr None else read_bucket (hget s k))"

definition read_session :: "store \<Rightarrow> string \<Rightarrow> string option \<Rightarrow> (cell option \<times> usage_bucket) option res" where
  "read_session s session_id tenant_id =
     bindE (scope_prefix_for_read s tenant_id ''session'' session_id) (\<lambda>k.
       if rget s (k @ '':cost_usd'') = None \<and> rget s (k @ '':event_count'') = None then Inr None
       else bindE (read_bucket (\<lambda>f. rget s (k @ '':'' @ f))) (\<lambda>b.
         Inr (map_option (\<lambda>b. (rget s (k @ '':customer_id''), b)) b)))"

section \<open>Costs of a period\<close>

fun indexed_costs :: "store \<Rightarrow> string \<Rightarrow> string list \<Rightarrow> (string \<times> rat) list \<Rightarrow> (string \<times> rat) list res" where
  "indexed_costs s period [] out = Inr out"
| "indexed_costs s period (cid # cids) out =
     bindE (read_usage_bucket s (rollup_month_key cid period)) (\<lambda>b.
       indexed_costs s period cids (case b of None \<Rightarrow> out | Some d \<Rightarrow> AList.update cid (ub_cost d) out))"

definition month_key_customer :: "key \<Rightarrow> string option" where
  "month_key_customer k =
     (let parts = split_on (CHR '':'') k in
      if length parts = 4 \<and> parts ! 0 = ''rollup'' \<and> parts ! 2 = ''period'' then Some (parts ! 1) else None)"

fun scanned_costs :: "store \<Rightarrow> key list \<Rightarrow> (string \<times> rat) list \<Rightarrow> (string \<times> rat) list res" where
  "scanned_costs s [] out = Inr out"
| "scanned_costs s (k # ks) out =
     (case month_key_customer k of
        None \<Rightarrow> scanned_costs s ks out
      | Some cid \<Rightarrow>
          bindE (read_usage_bucket s k) (\<lambda>b.
            scanned_costs s ks (case b of None \<Rightarrow> out | Some d \<Rightarrow> AList.update cid (ub_cost d) out)))"

definition list_customer_period_costs :: "store \<Rightarrow> string \<Rightarrow> (string \<times> rat) list res" where
  "list_customer_period_costs s period =
     (let members = sets s (period_customers_index period) in
      if members \<noteq> [] then indexed_costs s period members []
      else scanned_costs s (scan s (''rollup:*:period:'' @ period)) [])"

section \<open>Metadata dimensions\<close>

definition DIM_TTL_SEC :: int where "DIM_TTL_SEC = 400 * 86400"
definition MAX_METADATA_KEYS :: nat where "MAX_METADATA_KEYS = 8"

text \<open>\<open>ALLOWED_DIMS\<close>, from the setting's text: the trimmed, non-empty names between commas.\<close>

definition allowed_dims :: "string \<Rightarrow> string list" where
  "allowed_dims raw_dims = filter (\<lambda>d. d \<noteq> []) (map py_strip (split_on (CHR '','') raw_dims))"

definition validate_metadata :: "string list \<Rightarrow> (string \<times> json) list \<Rightarrow> (string \<times> string) list option res" where
  "validate_metadata allowed metadata =
     (if metadata = [] then Inr None
      else if length metadata > MAX_METADATA_KEYS then Inl ValueError
      else bindE (mapE (\<lambda>(k, v).
             if k \<notin> set allowed then Inl ValueError
             else (case v of JStr t \<Rightarrow> (if t = [] then Inl ValueError else Inr (k, t)) | _ \<Rightarrow> Inl ValueError)) metadata)
             (\<lambda>kvs. Inr (Some kvs)))"

definition dim_base :: "string \<Rightarrow> string \<Rightarrow> key" where
  "dim_base k v = ''dim:'' @ k @ '':'' @ v"

definition dim_commands :: "string \<Rightarrow> rat \<Rightarrow> string \<times> string \<Rightarrow> (store \<Rightarrow> store res) list" where
  "dim_commands period cost_usd entry =
     (let base = dim_base (fst entry) (snd entry);
          sfxs = ['':cost_usd'', '':event_count'', '':period:'' @ period @ '':cost_usd'', '':period:'' @ period @ '':event_count'']
      in [\<lambda>s. incrbyfloat s (base @ '':cost_usd'') cost_usd,
          \<lambda>s. incrby s (base @ '':event_count'') 1,
          \<lambda>s. incrbyfloat s (base @ '':period:'' @ period @ '':cost_usd'') cost_usd,
          \<lambda>s. incrby s (base @ '':period:'' @ period @ '':event_count'') 1]
         @ map (\<lambda>sfx s. Inr (expire s (base @ sfx) (of_int DIM_TTL_SEC))) sfxs)"

definition increment_dims ::
  "string list \<Rightarrow> (string \<times> string) list \<Rightarrow> rat \<Rightarrow> int \<Rightarrow> store \<Rightarrow> unit res \<times> store" where
  "increment_dims allowed metadata cost_usd event_ts_ms s =
     (if metadata = [] \<or> cost_usd \<le> 0 then (Inr (), s)
      else (case billing_period_month event_ts_ms of
              Inl e \<Rightarrow> (Inl e, s)
            | Inr period \<Rightarrow>
                multi (concat (map (dim_commands period cost_usd) (filter (\<lambda>e. fst e \<in> set allowed) metadata))) s))"

text \<open>The cost and number of events of a dimension value, for a period or for its lifetime.\<close>

definition read_dim_usage ::
  "string list \<Rightarrow> store \<Rightarrow> string \<Rightarrow> string \<Rightarrow> string option \<Rightarrow> (rat \<times> int) option res" where
  "read_dim_usage allowed s k v period =
     (if k \<notin> set allowed then Inr None
      else
        let base = dim_base k v;
            p = (case truthy period of None \<Rightarrow> base | Some m \<Rightarrow> base @ '':period:'' @ m);
            cost = rget s (p @ '':cost_usd''); events = rget s (p @ '':event_count'')
        in if cost = None \<and> events = None then Inr None
           else bindE (float_or0 cost) (\<lambda>c. bindE (int_or0 events) (\<lambda>n. Inr (Some (c, n)))))"

section \<open>What an increment of dimensions leaves to read\<close>

definition dim_keys :: "string \<Rightarrow> string \<times> string \<Rightarrow> key list" where
  "dim_keys period entry =
     (let base = dim_base (fst entry) (snd entry) in
      [base @ '':cost_usd'', base @ '':event_count'',
       base @ '':period:'' @ period @ '':cost_usd'', base @ '':period:'' @ period @ '':event_count''])"

lemma incrby_read:
  "incrby s k n = Inr s' \<Longrightarrow>
     rget s' k' = (if k' = k then Some (CInt (ok_or 0 (int_or0 (rget s k)) + n)) else rget s k') \<and> isOk (int_or0 (rget s k))"
  by (auto simp: incrby_def rget_def update_conv' split: sum.splits)

lemma multi_expires:
  "multi (map (\<lambda>sfx s. Inr (expire s (base @ sfx) secs)) sfxs) s = (Inr (), fold (\<lambda>sfx s. expire s (base @ sfx) secs) sfxs s)"
  by (induction sfxs arbitrary: s) simp_all

lemma rget_fold_expire: "rget (fold (\<lambda>sfx s. expire s (base @ sfx) secs) sfxs s) k = rget s k"
  by (induction sfxs arbitrary: s) simp_all

text \<open>One dimension: the four counters, each raised, and nothing else.\<close>

lemma dim_commands_read:
  assumes "multi (dim_commands period cost entry) s = (Inr (), s')"
  defines "base \<equiv> dim_base (fst entry) (snd entry)"
  shows "k \<notin> set (dim_keys period entry) \<Longrightarrow> rget s' k = rget s k"
    and "sfx \<in> {[], '':period:'' @ period} \<Longrightarrow>
      rget s' (base @ sfx @ '':cost_usd'') = Some (num_cell (num0 (rget s (base @ sfx @ '':cost_usd'')) + cost))
      \<and> rget s' (base @ sfx @ '':event_count'') = Some (CInt (ok_or 0 (int_or0 (rget s (base @ sfx @ '':event_count''))) + 1))"
proof -
  obtain s1 s2 s3 s4 where c: "incrbyfloat s (base @ '':cost_usd'') cost = Inr s1"
      "incrby s1 (base @ '':event_count'') 1 = Inr s2"
      "incrbyfloat s2 (base @ '':period:'' @ period @ '':cost_usd'') cost = Inr s3"
      "incrby s3 (base @ '':period:'' @ period @ '':event_count'') 1 = Inr s4"
    and e: "\<And>k. rget s' k = rget s4 k"
    using assms(1)
    by (auto simp: dim_commands_def Let_def simp flip: base_def split: sum.splits)
  note r = rget_incrbyfloat [OF c(1)] incrby_read [OF c(2)] rget_incrbyfloat [OF c(3)] incrby_read [OF c(4)]
  show "k \<notin> set (dim_keys period entry) \<Longrightarrow> rget s' k = rget s k"
    using r by (simp add: e dim_keys_def Let_def flip: base_def)
  show "sfx \<in> {[], '':period:'' @ period} \<Longrightarrow>
      rget s' (base @ sfx @ '':cost_usd'') = Some (num_cell (num0 (rget s (base @ sfx @ '':cost_usd'')) + cost))
      \<and> rget s' (base @ sfx @ '':event_count'') = Some (CInt (ok_or 0 (int_or0 (rget s (base @ sfx @ '':event_count''))) + 1))"
    using r by (auto simp: e)
qed

lemma dim_keys_shape: "k \<in> set (dim_keys period entry) \<Longrightarrow> \<exists>r. k = ''dim:'' @ fst entry @ CHR '':'' # r"
  by (auto simp: dim_keys_def dim_base_def Let_def)

lemma dim_keys_apart:
  assumes "plain (fst d)" and "plain (fst e)" and "fst d \<noteq> fst e" and "k \<in> set (dim_keys p d)"
  shows "k \<notin> set (dim_keys p e)"
proof
  assume "k \<in> set (dim_keys p e)"
  then obtain r r' where "fst d @ CHR '':'' # r = fst e @ CHR '':'' # r'"
    using dim_keys_shape [OF assms(4)] dim_keys_shape [of k p e] by auto
  with assms(1-3) plain_split show False by blast
qed

lemma other_dims_read:
  assumes "multi (concat (map (dim_commands p cost) es)) s = (Inr (), s')"
    and "\<And>e. e \<in> set es \<Longrightarrow> k \<notin> set (dim_keys p e)"
  shows "rget s' k = rget s k"
  using assms
proof (induction es arbitrary: s)
  case (Cons e es)
  then obtain s1 where "multi (dim_commands p cost e) s = (Inr (), s1)"
    and "multi (concat (map (dim_commands p cost) es)) s1 = (Inr (), s')"
    by (auto simp: multi_append)
  with Cons show ?case using dim_commands_read(1) [of p cost e s s1 k] by simp
qed simp

text \<open>The four counters of one dimension after all the dimensions of an event are counted.\<close>

lemma dims_read:
  assumes run: "multi (concat (map (dim_commands p cost) (xs @ (k, v) # ys))) s = (Inr (), s')"
    and apart: "\<And>e. e \<in> set xs \<union> set ys \<Longrightarrow> fst e \<noteq> k"
    and pl: "plain k" "\<And>e. e \<in> set xs \<union> set ys \<Longrightarrow> plain (fst e)"
    and sfx: "sfx \<in> {[], '':period:'' @ p}"
  defines "base \<equiv> dim_base k v"
  shows "rget s' (base @ sfx @ '':cost_usd'') = Some (num_cell (num0 (rget s (base @ sfx @ '':cost_usd'')) + cost))"
    and "rget s' (base @ sfx @ '':event_count'') = Some (CInt (ok_or 0 (int_or0 (rget s (base @ sfx @ '':event_count''))) + 1))"
proof -
  obtain s1 s2 where m: "multi (concat (map (dim_commands p cost) xs)) s = (Inr (), s1)"
    "multi (dim_commands p cost (k, v)) s1 = (Inr (), s2)"
    "multi (concat (map (dim_commands p cost) ys)) s2 = (Inr (), s')"
    using run by (auto simp: multi_append)
  have mem: "base @ sfx @ '':cost_usd'' \<in> set (dim_keys p (k, v))" "base @ sfx @ '':event_count'' \<in> set (dim_keys p (k, v))"
    using sfx by (auto simp: base_def dim_keys_def Let_def)
  have away: "q \<notin> set (dim_keys p e)" if "q \<in> set (dim_keys p (k, v))" "e \<in> set xs \<union> set ys" for q e
    using dim_keys_apart [OF _ pl(2) _ that(1)] that(2) pl(1) apart [of e] by simp
  have s1: "rget s1 q = rget s q" and s2: "rget s' q = rget s2 q" if "q \<in> set (dim_keys p (k, v))" for q
    using other_dims_read [OF m(1)] other_dims_read [OF m(3)] away [OF that] by simp_all
  note r = dim_commands_read(2) [OF m(2), of sfx, simplified, folded base_def]
  show "rget s' (base @ sfx @ '':cost_usd'') = Some (num_cell (num0 (rget s (base @ sfx @ '':cost_usd'')) + cost))"
    using r sfx s1 [OF mem(1)] s2 [OF mem(1)] by auto
  show "rget s' (base @ sfx @ '':event_count'') = Some (CInt (ok_or 0 (int_or0 (rget s (base @ sfx @ '':event_count''))) + 1))"
    using r sfx s1 [OF mem(2)] s2 [OF mem(2)] by auto
qed

text \<open>The counters a read starts from: nothing stored reads as no cost and no events.\<close>

definition dim_totals :: "(rat \<times> int) option \<Rightarrow> rat \<times> int" where
  "dim_totals u = (case u of None \<Rightarrow> (0, 0) | Some t \<Rightarrow> t)"

lemma read_dim_totals:
  assumes "read_dim_usage allowed s k v period = Inr u" and "k \<in> set allowed"
  defines "sfx \<equiv> (case truthy period of None \<Rightarrow> [] | Some m \<Rightarrow> '':period:'' @ m)"
  shows "float_or0 (rget s (dim_base k v @ sfx @ '':cost_usd'')) = Inr (fst (dim_totals u))
     \<and> int_or0 (rget s (dim_base k v @ sfx @ '':event_count'')) = Inr (snd (dim_totals u))"
  using assms(1,2)
  by (auto simp: read_dim_usage_def sfx_def dim_totals_def Let_def split: option.splits if_splits)

lemma float_or0_num0: "float_or0 c = Inr q \<Longrightarrow> num0 c = q"
  by (auto simp: float_or0_def num0_def py_float_def dest: cell_true_num split: option.splits if_splits)

text \<open>
  dimension counters round-trip. Counting an event's metadata and reading one of its
  dimensions back gives the earlier cost plus the event's cost and one more event, for the
  lifetime and for the event's own month, whatever other dimensions the event carries.
\<close>

theorem dimension_roundtrip:
  assumes run: "increment_dims allowed metadata cost ts s = (Inr (), s')" and pos: "0 < cost"
    and month: "billing_period_month ts = Inr p" and period: "period = None \<or> period = Some p" and "p \<noteq> []"
    and entry: "(k, v) \<in> set metadata" "k \<in> set allowed" "distinct (map fst metadata)"
    and pl: "\<forall>e \<in> set metadata. plain (fst e)"
    and before: "read_dim_usage allowed s k v period = Inr u"
  shows "read_dim_usage allowed s' k v period = Inr (Some (fst (dim_totals u) + cost, snd (dim_totals u) + 1))"
proof -
  let ?es = "filter (\<lambda>e. fst e \<in> set allowed) metadata"
  obtain xs ys where es: "?es = xs @ (k, v) # ys"
    using entry split_list [of "(k, v)" ?es] by auto
  have d: "distinct (map fst ?es)" using entry(3) by (simp add: distinct_map_filter)
  have run': "multi (concat (map (dim_commands p cost) (xs @ (k, v) # ys))) s = (Inr (), s')"
    using run pos month entry(1) by (auto simp: increment_dims_def es split: if_splits)
  have apart: "fst e \<noteq> k" if "e \<in> set xs \<union> set ys" for e
    using d that by (auto simp: es)
  have plains: "plain (fst e)" if "e \<in> set ?es" for e using pl that by auto
  define sfx where "sfx = (case truthy period of None \<Rightarrow> [] | Some m \<Rightarrow> '':period:'' @ m)"
  have sfx: "sfx \<in> {[], '':period:'' @ p}"
    using period by (auto simp: sfx_def truthy_def split: list.splits option.splits)
  have "plain k" using pl entry(1) by fastforce
  note new = dims_read [OF run' apart this plains sfx, unfolded es, simplified]
  note old = read_dim_totals [OF before entry(2), folded sfx_def]
  show ?thesis
    using new old entry(2) period
    by (auto simp: read_dim_usage_def sfx_def truthy_def float_or0_num0 Let_def split: list.splits option.splits)
qed

definition demo_metadata :: "(string \<times> string) list" where
  "demo_metadata = [(''room_id'', ''a''), (''feature'', ''chat'')]"

lemma demo_month: "billing_period_month 0 = Inr ''1970-01''"
  by code_simp

definition int_store :: "store \<Rightarrow> bool" where
  "int_store s \<longleftrightarrow> (\<forall>k. rget s k = None \<or> (\<exists>i. rget s k = Some (CInt i)))"

lemma int_store_num: "int_store s \<Longrightarrow> is_num (rget s k) \<and> isOk (int_or0 (rget s k)) \<and> (\<exists>i. num0 (rget s k) = of_int i)"
  unfolding int_store_def by (metis int_or0_simps isOk_iff is_num_simps(1,2) num0_simps(1,2) of_int_0)

lemma num_cell_of_int [simp]: "num_cell (of_int i) = CInt i"
  by (simp add: num_cell_def)

lemma int_store_incrs:
  assumes "int_store s"
  shows "\<exists>s'. incrbyfloat s k (of_int n) = Inr s' \<and> int_store s'" and "\<exists>s'. incrby s k m = Inr s' \<and> int_store s'"
proof -
  obtain s1 where s1: "incrbyfloat s k (of_int n) = Inr s1" using incrbyfloat_ok int_store_num [OF assms] by blast
  obtain i where "num0 (rget s k) = of_int i" using int_store_num [OF assms] by blast
  then have "num_cell (num0 (rget s k) + of_int n) = CInt (i + n)" by (metis num_cell_of_int of_int_add)
  with assms rget_incrbyfloat [OF s1] s1
  show "\<exists>s'. incrbyfloat s k (of_int n) = Inr s' \<and> int_store s'" by (auto simp: int_store_def)
  obtain s2 where s2: "incrby s k m = Inr s2"
    using int_store_num [OF assms, of k] by (auto simp: incrby_def isOk_iff)
  with assms incrby_read [OF s2] show "\<exists>s'. incrby s k m = Inr s' \<and> int_store s'"
    by (auto simp: int_store_def)
qed

lemma int_store_expires: "int_store s \<Longrightarrow> int_store (fold (\<lambda>sfx s. expire s (base @ sfx) secs) sfxs s)"
  by (simp add: int_store_def rget_fold_expire)

lemma dim_commands_run:
  assumes "int_store s"
  shows "\<exists>s'. multi (dim_commands p (of_int n) e) s = (Inr (), s') \<and> int_store s'"
proof -
  let ?b = "dim_base (fst e) (snd e)"
  obtain s1 where 1: "incrbyfloat s (?b @ '':cost_usd'') (of_int n) = Inr s1" "int_store s1"
    using int_store_incrs [OF assms] by blast
  obtain s2 where 2: "incrby s1 (?b @ '':event_count'') 1 = Inr s2" "int_store s2"
    using int_store_incrs [OF 1(2)] by blast
  obtain s3 where 3: "incrbyfloat s2 (?b @ '':period:'' @ p @ '':cost_usd'') (of_int n) = Inr s3" "int_store s3"
    using int_store_incrs [OF 2(2)] by blast
  obtain s4 where 4: "incrby s3 (?b @ '':period:'' @ p @ '':event_count'') 1 = Inr s4" "int_store s4"
    using int_store_incrs [OF 3(2)] by blast
  show ?thesis
    using 4(2) by (simp add: dim_commands_def Let_def 1(1) 2(1) 3(1) [simplified] 4(1) [simplified] int_store_def)
qed

lemma dims_run:
  "int_store s \<Longrightarrow> \<exists>s'. multi (concat (map (dim_commands p (of_int n)) es)) s = (Inr (), s')"
proof (induction es arbitrary: s)
  case (Cons e es)
  then show ?case using dim_commands_run [OF Cons.prems, of p n e] by (fastforce simp: multi_append)
qed simp

lemma demo_dims_run: "fst (increment_dims [''room_id'', ''feature''] demo_metadata 2 0 empty_store) = Inr ()"
proof -
  have "int_store empty_store" by (simp add: int_store_def rget_def empty_store_def)
  then have "\<exists>s'. multi (concat (map (dim_commands ''1970-01'' 2)
      (filter (\<lambda>e. fst e \<in> set [''room_id'', ''feature'']) demo_metadata))) empty_store = (Inr (), s')"
    using dims_run [of empty_store "''1970-01''" 2] by simp
  then show ?thesis by (auto simp: increment_dims_def demo_month)
qed

theorem dimension_roundtrip_witness:
  "read_dim_usage [''room_id'', ''feature'']
     (snd (increment_dims [''room_id'', ''feature''] demo_metadata 2 0 empty_store)) ''room_id'' ''a'' None
   = Inr (Some (2, 1))"
proof -
  have run: "increment_dims [''room_id'', ''feature''] demo_metadata 2 0 empty_store
      = (Inr (), snd (increment_dims [''room_id'', ''feature''] demo_metadata 2 0 empty_store))"
    using demo_dims_run by (metis prod.collapse)
  have before: "read_dim_usage [''room_id'', ''feature''] empty_store ''room_id'' ''a'' None = Inr None"
    by (simp add: read_dim_usage_def empty_store_def rget_def truthy_def Let_def)
  show ?thesis
    using dimension_roundtrip [OF run _ demo_month _ _ _ _ _ _ before]
    by (simp add: demo_metadata_def dim_totals_def)
qed

text \<open>
  The keys of a dimension do not separate value from period: reading the lifetime of a value that
  ends in \<open>:period:\<close> and a month reads the month of the value before it.
\<close>

lemma dim_value_alias:
  "m \<noteq> [] \<Longrightarrow> read_dim_usage allowed s k (v @ '':period:'' @ m) None = read_dim_usage allowed s k v (Some m)"
  by (cases m) (simp_all add: read_dim_usage_def dim_base_def truthy_def Let_def)

end
