(* ===== verification/Api_Ingest.thy ===== *)
theory Api_Ingest
  imports Custody_Facts Usage Auth
begin

text \<open>
  The public entrance of events, \<^verbatim>\<open>/ingest\<close> and \<^verbatim>\<open>/ingest/batch\<close> of \<^verbatim>\<open>src/api/main.py\<close>: authentication,
  metadata validation, event custody and the HTTP answer. The request body has been validated by
  pydantic, which is an argument: a function from a JSON value to an event or to its error
  message. The batcher in front of custody is used as its callers see it when the request is
  alone in its batch: refused when the queue is full, answered by custody otherwise.

  The lemmas show what an HTTP status promises about the event.
\<close>

section \<open>Requests and answers\<close>

record ingest_input =
  in_customer :: string
  in_model :: string
  in_provider :: string
  in_input :: int
  in_output :: int
  in_cache_read :: int
  in_cache_write :: int
  in_reasoning :: int
  in_embedding :: int
  in_event :: "string option"
  in_request :: "string option"
  in_span :: "string option"
  in_parent_span :: "string option"
  in_session :: "string option"
  in_latency :: int
  in_environment :: "string option"
  in_timestamp :: "int option"
  in_metadata :: "(string \<times> string) list option"

definition opt_field :: "string \<Rightarrow> ('a \<Rightarrow> json) \<Rightarrow> 'a option \<Rightarrow> (string \<times> json) list" where
  "opt_field f j v = (case v of None \<Rightarrow> [] | Some x \<Rightarrow> [(f, j x)])"

definition metadata_json :: "(string \<times> string) list \<Rightarrow> json" where
  "metadata_json m = JObj (map (\<lambda>(k, v). (k, JStr v)) m)"

text \<open>\<open>model_dump(exclude_none=True)\<close>: the fields in the order of the class, without those that are None.\<close>

definition dump_event :: "ingest_input \<Rightarrow> event" where
  "dump_event i =
     [(''customerId'', JStr (in_customer i)), (''modelId'', JStr (in_model i)), (''provider'', JStr (in_provider i)),
      (''inputTokens'', JInt (in_input i)), (''outputTokens'', JInt (in_output i)),
      (''cacheReadTokens'', JInt (in_cache_read i)), (''cacheWriteTokens'', JInt (in_cache_write i)),
      (''reasoningTokens'', JInt (in_reasoning i)), (''embeddingTokens'', JInt (in_embedding i))]
     @ opt_field ''eventId'' JStr (in_event i) @ opt_field ''requestId'' JStr (in_request i)
     @ opt_field ''spanId'' JStr (in_span i) @ opt_field ''parentSpanId'' JStr (in_parent_span i)
     @ opt_field ''sessionId'' JStr (in_session i) @ [(''latencyMs'', JInt (in_latency i))]
     @ opt_field ''environment'' JStr (in_environment i) @ opt_field ''timestamp'' JInt (in_timestamp i)
     @ opt_field ''metadata'' metadata_json (in_metadata i)"

text \<open>The event handed to custody: with the validated metadata, and with a new id if it has no id field.\<close>

definition event_dict :: "ingest_input \<Rightarrow> (string \<times> string) list option \<Rightarrow> string \<Rightarrow> event" where
  "event_dict i meta fresh_id =
     (let ev = dump_event i;
          ev = (case meta of None \<Rightarrow> ev | Some m \<Rightarrow> AList.update ''metadata'' (metadata_json m) ev)
      in if map_of ev ''eventId'' = None then ev @ [(''eventId'', JStr fresh_id)] else ev)"

definition metadata_items :: "ingest_input \<Rightarrow> (string \<times> json) list" where
  "metadata_items i = (case in_metadata i of None \<Rightarrow> [] | Some m \<Rightarrow> map (\<lambda>(k, v). (k, JStr v)) m)"

record ingest_config =
  ic_topic :: string
  ic_quarantine :: string
  ic_max_age :: int
  ic_max_future :: int

text \<open>The context of a request; the key id the registry of keys stores is text.\<close>

definition http_context :: "ingest_config \<Rightarrow> string option \<Rightarrow> json \<Rightarrow> custody_ctx" where
  "http_context cfg tenant_id key_id =
     \<lparr>x_tenant = tenant_id, x_api_key = (case key_id of JStr k \<Rightarrow> Some k | _ \<Rightarrow> None), x_topic = ic_topic cfg,
      x_quarantine = ic_quarantine cfg, x_source = ''http'', x_reservation = None, x_reserved_usd = 0,
      x_max_age = ic_max_age cfg, x_max_future = ic_max_future cfg, x_on_down = FailMode\<rparr>"

section \<open>One event\<close>

definition batched_accept :: "custody_env \<Rightarrow> bool \<Rightarrow> event \<Rightarrow> custody_ctx \<Rightarrow> world \<Rightarrow> custody_reply res \<times> world" where
  "batched_accept CE room ev ctx w =
     (if \<not> room then (Inl CustodyOverloaded, w)
      else (case custody_accept_many CE ctx [ev] w of
              (Inl e, w1) \<Rightarrow> (Inl e, w1)
            | (Inr [r], w1) \<Rightarrow> (Inr r, w1)
            | (Inr _, w1) \<Rightarrow> (Inl RuntimeError, w1)))"

text \<open>The answer: the HTTP code, the status or the code of the detail, the event id and whether it was a repeat.\<close>

record http_reply =
  hr_code :: nat
  hr_status :: string
  hr_event :: "string option"
  hr_idempotent :: bool
  hr_retry_after :: bool

definition http_error :: "nat \<Rightarrow> string \<Rightarrow> bool \<Rightarrow> http_reply" where
  "http_error code c retry = \<lparr>hr_code = code, hr_status = c, hr_event = None, hr_idempotent = False, hr_retry_after = retry\<rparr>"

definition status_reply :: "custody_reply \<Rightarrow> http_reply" where
  "status_reply r =
     (let status = c_status r in
      if status = ''pending'' then http_error 503 ''event_pending'' True
      else if status = ''conflict'' then http_error 409 ''event_id_conflict'' False
      else if status \<in> set [''unavailable'', ''uncertain'']
        then http_error 503 (if status = ''uncertain'' then ''custody_uncertain'' else ''kafka_unavailable'') True
      else if status = ''overloaded'' then http_error 429 ''custody_overloaded'' True
      else \<lparr>hr_code = 202, hr_status = status, hr_event = Some (c_event r),
             hr_idempotent = (c_idempotent r = Some True), hr_retry_after = False\<rparr>)"

definition metadata_400 :: "string list \<Rightarrow> ingest_input \<Rightarrow> (string \<times> string) list option res" where
  "metadata_400 allowed i =
     (case validate_metadata allowed (metadata_items i) of
        Inl e \<Rightarrow> Inl (if e = ValueError then HTTPException 400 else e)
      | Inr m \<Rightarrow> Inr m)"

text \<open>The checks before custody, and the answer after it.\<close>

definition ingest_prepare ::
  "auth_env \<Rightarrow> digest \<Rightarrow> string list \<Rightarrow> ingest_config \<Rightarrow> string \<Rightarrow> string option \<Rightarrow> ingest_input \<Rightarrow> store \<Rightarrow>
     (event \<times> custody_ctx) res" where
  "ingest_prepare E H allowed cfg fresh_id api_key i s =
     bindE (require_api_key E H s api_key) (\<lambda>_.
     bindE (require_customer_access E H s (in_customer i) api_key) (\<lambda>_.
     bindE (metadata_400 allowed i) (\<lambda>meta.
     bindE (resolve_key_context H s api_key) (\<lambda>(_, key_id).
       Inr (event_dict i meta fresh_id, http_context cfg (resolve_tenant_from_key H s api_key) key_id)))))"

definition ingest_answer :: "custody_reply res \<Rightarrow> http_reply res" where
  "ingest_answer resp = (case resp of
     Inr r \<Rightarrow> Inr (status_reply r)
   | Inl e \<Rightarrow> if e = RedisError then Inr (http_error 503 ''identity_store_unavailable'' True)
              else if e = CustodyOverloaded then Inr (http_error 429 ''custody_overloaded'' True)
              else Inl e)"

definition ingest_event ::
  "auth_env \<Rightarrow> digest \<Rightarrow> string list \<Rightarrow> ingest_config \<Rightarrow> custody_env \<Rightarrow> bool \<Rightarrow> string \<Rightarrow>
     string option \<Rightarrow> ingest_input \<Rightarrow> world \<Rightarrow> http_reply res \<times> world" where
  "ingest_event E H allowed cfg CE room fresh_id api_key i w =
     (case ingest_prepare E H allowed cfg fresh_id api_key i (reg w) of
        Inl e \<Rightarrow> (Inl e, w)
      | Inr (ev, ctx) \<Rightarrow>
          (case batched_accept CE room ev ctx w of (resp, w1) \<Rightarrow> (ingest_answer resp, w1)))"

section \<open>A batch\<close>

record batch_item =
  bi_reply :: custody_reply
  bi_message :: "string option"

definition rejected_item :: "string \<Rightarrow> string \<Rightarrow> batch_item" where
  "rejected_item event_id message = \<lparr>bi_reply = retry_reply ''rejected'' event_id False, bi_message = Some message\<rparr>"

record batch_args =
  ba_validate :: "json \<Rightarrow> string + ingest_input"
  ba_str :: "json \<Rightarrow> string"
  ba_uuid :: "nat \<Rightarrow> string"
  ba_error_text :: "err \<Rightarrow> string"

text \<open>The id a rejected event is answered under.\<close>

definition raw_event_id :: "batch_args \<Rightarrow> nat \<Rightarrow> json \<Rightarrow> string" where
  "raw_event_id A index doc =
     (case doc of
        JObj kvs \<Rightarrow> (case map_of kvs ''eventId'' of
                       Some v \<Rightarrow> if json_true v then ba_str A v else ba_uuid A index
                     | None \<Rightarrow> ba_uuid A index)
      | _ \<Rightarrow> ba_uuid A index)"

definition input_event_id :: "batch_args \<Rightarrow> nat \<Rightarrow> ingest_input \<Rightarrow> string" where
  "input_event_id A index i = (case truthy (in_event i) of Some e \<Rightarrow> e | None \<Rightarrow> ba_uuid A index)"

text \<open>One event of the batch: rejected, prepared for custody, or an exception the loop does not catch.\<close>

definition prepare_item ::
  "auth_env \<Rightarrow> digest \<Rightarrow> string list \<Rightarrow> batch_args \<Rightarrow> store \<Rightarrow> string option \<Rightarrow> nat \<Rightarrow> json \<Rightarrow>
     (batch_item + event) res" where
  "prepare_item E H allowed A s api_key index doc =
     (case ba_validate A doc of
        Inl msg \<Rightarrow> Inr (Inl (rejected_item (raw_event_id A index doc) msg))
      | Inr i \<Rightarrow>
          (case bindE (require_customer_access E H s (in_customer i) api_key)
                  (\<lambda>_. validate_metadata allowed (metadata_items i)) of
             Inl e \<Rightarrow>
               (case e of
                  ValueError \<Rightarrow> Inr (Inl (rejected_item (input_event_id A index i) (ba_error_text A e)))
                | HTTPException _ \<Rightarrow> Inr (Inl (rejected_item (input_event_id A index i) (ba_error_text A e)))
                | _ \<Rightarrow> Inl e)
           | Inr meta \<Rightarrow> Inr (Inr (event_dict i meta (input_event_id A index i)))))"

definition failed_item :: "event \<Rightarrow> batch_item res" where
  "failed_item ev =
     bindE (bindE (json_index (JObj ev) ''eventId'') json_text) (\<lambda>e.
       Inr \<lparr>bi_reply = retry_reply ''failed'' e True, bi_message = None\<rparr>)"

text \<open>What custody says of the prepared events; when Redis is down they have all failed.\<close>

definition custody_items :: "custody_env \<Rightarrow> custody_ctx \<Rightarrow> event list \<Rightarrow> world \<Rightarrow> batch_item list res \<times> world" where
  "custody_items CE ctx evs w =
     (if evs = [] then (Inr [], w)
      else (case custody_accept_many CE ctx evs w of
              (Inr rs, w1) \<Rightarrow> (Inr (map (\<lambda>r. \<lparr>bi_reply = r, bi_message = None\<rparr>) rs), w1)
            | (Inl e, w1) \<Rightarrow> if e = RedisError then (mapE failed_item evs, w1) else (Inl e, w1)))"

definition prepared_of :: "(batch_item + event) list \<Rightarrow> (nat \<times> event) list" where
  "prepared_of xs = concat (map (\<lambda>(i, x). case x of Inl _ \<Rightarrow> [] | Inr ev \<Rightarrow> [(i, ev)]) (zip [0..<length xs] xs))"

definition rejected_of :: "(batch_item + event) list \<Rightarrow> (nat \<times> batch_item) list" where
  "rejected_of xs = concat (map (\<lambda>(i, x). case x of Inl r \<Rightarrow> [(i, r)] | Inr _ \<Rightarrow> []) (zip [0..<length xs] xs))"

definition merge :: "nat \<Rightarrow> (nat \<times> batch_item) list \<Rightarrow> (nat \<times> batch_item) list \<Rightarrow> batch_item list" where
  "merge n rejected accepted =
     (let put = (\<lambda>(i, r) rs. rs[i := Some r]);
          merged = fold put accepted (fold put rejected (replicate n None))
      in map the (filter (\<lambda>x. x \<noteq> None) merged))"

text \<open>The statuses of the wire format.\<close>

definition wire_item :: "batch_item \<Rightarrow> batch_item" where
  "wire_item b = (if c_status (bi_reply b) \<in> set [''unavailable'', ''uncertain'']
                  then b\<lparr>bi_reply := (bi_reply b)\<lparr>c_status := ''failed''\<rparr>\<rparr> else b)"

definition item_ok :: "batch_item \<Rightarrow> bool" where
  "item_ok b \<longleftrightarrow> c_status (bi_reply b) \<in> set [''accepted'', ''quarantined''] \<or> c_idempotent (bi_reply b) = Some True"

definition bad_with :: "string \<Rightarrow> batch_item list \<Rightarrow> nat" where
  "bad_with status bs = length (filter (\<lambda>b. \<not> item_ok b \<and> c_status (bi_reply b) = status) bs)"

record batch_reply =
  br_code :: nat
  br_status :: string
  br_results :: "batch_item list"
  br_retry_after :: bool

definition batch_answer :: "batch_item list \<Rightarrow> batch_reply" where
  "batch_answer bs =
     (let accepted = length (filter item_ok bs);
          failed = length (filter (\<lambda>b. \<not> item_ok b) bs);
          answer = (\<lambda>code status retry. \<lparr>br_code = code, br_status = status, br_results = bs, br_retry_after = retry\<rparr>)
      in if failed = 0 then answer 202 ''accepted'' False
         else if accepted = 0 then
           (if bad_with ''conflict'' bs = failed then answer 409 ''conflict'' False
            else if bad_with ''rejected'' bs = failed then answer 207 ''rejected'' False
            else if bad_with ''overloaded'' bs = failed then answer 429 ''overloaded'' True
            else answer 503 ''failed'' True)
         else answer 207 ''partial'' False)"

definition ingest_batch ::
  "auth_env \<Rightarrow> digest \<Rightarrow> string list \<Rightarrow> ingest_config \<Rightarrow> custody_env \<Rightarrow> batch_args \<Rightarrow>
     string option \<Rightarrow> json list \<Rightarrow> world \<Rightarrow> batch_reply res \<times> world" where
  "ingest_batch E H allowed cfg CE A api_key events w =
     (case bindE (require_api_key E H (reg w) api_key) (\<lambda>_.
           bindE (if length events > 1000 then Inl (HTTPException 400) else Inr ()) (\<lambda>_.
           bindE (resolve_key_context H (reg w) api_key) (\<lambda>(_, key_id).
           bindE (mapE (\<lambda>(index, doc). prepare_item E H allowed A (reg w) api_key index doc)
                    (zip [0..<length events] events)) (\<lambda>xs.
             Inr (xs, http_context cfg (resolve_tenant_from_key H (reg w) api_key) key_id))))) of
        Inl e \<Rightarrow> (Inl e, w)
      | Inr (xs, ctx) \<Rightarrow>
          (case custody_items CE ctx (map snd (prepared_of xs)) w of
             (Inl e, w1) \<Rightarrow> (Inl e, w1)
           | (Inr items, w1) \<Rightarrow>
               (Inr (batch_answer (map wire_item
                  (merge (length events) (rejected_of xs) (zip (map fst (prepared_of xs)) items)))), w1)))"

section \<open>What a 202 promises\<close>

lemma accept_fail_mode:
  assumes run: "accept_impl E x ev w = (Inr r, w1)" and fm: "x_on_down x = FailMode"
    and prep: "prepare_payload E (x_tenant x) (x_reservation x) ev = Inr (p, e, fp)"
  shows "c_status r \<in> {''pending'', ''conflict'', ''uncertain'', ''unavailable'', ''overloaded''}
    \<or> r = done_reply ''accepted'' e True \<and> sent w1 = sent w
    \<or> (\<exists>su env k. r = final_reply su e \<and> build_envelope E x p = Inr (su, env) \<and> ce_outcome E 0 = Acked
        \<and> sent w1 = sent w @ [\<lparr>m_topic = dest_topic x su, m_key = k, m_value = env, m_outcome = Acked\<rparr>])"
proof -
  obtain rs wc where claim: "claim_ids E x [(e, fp)] w = (Inr rs, wc)"
    using run prep by (auto simp: accept_impl_def split: prod.splits sum.splits)
  note sc = registry_steps_sent(1) [OF claim]
  let ?taken = "taken_reply (case hd rs of None \<Rightarrow> Owner | Some st \<Rightarrow> st) e"
  show ?thesis
  proof (cases ?taken)
    case (Some r')
    then have "r' = r" "w1 = wc" using run prep claim by (auto simp: accept_impl_def)
    with Some sc show ?thesis by (auto simp: taken_reply_def retry_reply_def split: option.splits id_state.splits)
  next
    case None
    then obtain su env where env: "build_envelope E x p = Inr (su, env)"
      and pub: "accept_published E x p e fp su env wc = (Inr r, w1)"
      using run prep claim fm by (auto simp: accept_impl_def split: sum.splits prod.splits)
    then obtain k where k: "bindE (json_index (JObj p) ''customerId'') json_text = Inr k"
      by (auto simp: accept_published_def split: sum.splits)
    show ?thesis
    proof (cases "ce_outcome E 0 = Acked")
      case True
      let ?m = "\<lparr>m_topic = dest_topic x su, m_key = k, m_value = env, m_outcome = Acked\<rparr>"
      obtain b w2 where rem: "remember_ids E x [(e, fp)] (wc\<lparr>sent := sent wc @ [?m]\<rparr>) = (b, w2)" by fastforce
      show ?thesis
      proof (cases b)
        case True
        with rem \<open>ce_outcome E 0 = Acked\<close> pub k have "r = final_reply su e" "w1 = w2"
          by (simp_all add: accept_published_def publish_with_ack_def outcome_error_def)
        with registry_steps_sent(2) [OF rem] sc env \<open>ce_outcome E 0 = Acked\<close> show ?thesis by auto
      next
        case False
        with rem \<open>ce_outcome E 0 = Acked\<close> pub k show ?thesis
          by (simp add: accept_published_def publish_with_ack_def outcome_error_def retry_reply_def) auto
      qed
    next
      case False
      then show ?thesis
        using pub k
        by (cases "ce_outcome E 0") (auto simp: accept_published_def publish_with_ack_def outcome_error_def retry_reply_def
            split: prod.splits sum.splits)
    qed
  qed
qed

lemma dump_head: "\<exists>rest. dump_event i = (''customerId'', JStr (in_customer i)) # rest"
  unfolding dump_event_def append_Cons by blast

lemma dump_customer: "map_of (event_dict i meta u) ''customerId'' = Some (JStr (in_customer i))"
proof -
  obtain rest where "dump_event i = (''customerId'', JStr (in_customer i)) # rest" using dump_head by blast
  then show ?thesis by (simp add: event_dict_def Let_def split: option.split)
qed

text \<open>The custody call behind an answer.\<close>

lemma ingest_event_custody:
  assumes "ingest_event E H allowed cfg CE room u api_key i w = (Inr reply, w1)" and "hr_code reply = 202"
  obtains meta key_id r where
    "custody_accept CE (http_context cfg (resolve_tenant_from_key H (reg w) api_key) key_id) (event_dict i meta u) w = (Inr r, w1)"
    and "reply = status_reply r"
proof -
  obtain ev ctx where prep: "ingest_prepare E H allowed cfg u api_key i (reg w) = Inr (ev, ctx)"
    and out: "(case batched_accept CE room ev ctx w of (resp, w1) \<Rightarrow> (ingest_answer resp, w1)) = (Inr reply, w1)"
    using assms(1) by (auto simp: ingest_event_def split: sum.splits)
  obtain meta key_id where ev: "ev = event_dict i meta u"
    and ctx: "ctx = http_context cfg (resolve_tenant_from_key H (reg w) api_key) key_id"
    using prep by (auto simp: ingest_prepare_def)
  obtain r where r: "batched_accept CE room ev ctx w = (Inr r, w1)" "reply = status_reply r"
    using out assms(2) by (auto simp: ingest_answer_def http_error_def split: sum.splits prod.splits if_splits)
  have one: "custody_accept_many CE ctx [ev] w =
    (case custody_accept CE ctx ev w of (resp, w1) \<Rightarrow> (bindE resp (\<lambda>r. Inr [r]), w1))"
    unfolding ev by (rule accept_many_one [OF dump_customer]) (simp_all add: ctx http_context_def)
  have "custody_accept CE ctx ev w = (Inr r, w1)"
    using r(1) by (cases "custody_accept CE ctx ev w"; cases "fst (custody_accept CE ctx ev w)")
      (auto simp: batched_accept_def one split: if_splits)
  with r(2) that show thesis unfolding ev ctx by blast
qed

text \<open>
  C26: what a 202 of \<open>/ingest\<close> promises. The event has an id, which the answer names, and is
  about the customer the request was checked for. If the answer does not say that it is a repeat,
  exactly one message has been handed to Kafka, it carries this event id, Kafka has acknowledged
  it, and the id is recorded as accepted with the event's payload for thirty days; if it does,
  nothing has been handed to Kafka.
\<close>

theorem ingest_accepted_durable:
  assumes run: "ingest_event E H allowed cfg CE room u api_key i w = (Inr reply, w1)"
    and code: "hr_code reply = 202" and zwf: "zwf_all (reg w)"
  shows "\<exists>ev p e fp. let t = resolve_tenant_from_key H (reg w) api_key in
      map_of ev ''customerId'' = Some (JStr (in_customer i)) \<and> prepare_payload CE t None ev = Inr (p, e, fp)
      \<and> hr_event reply = Some e
      \<and> (if hr_idempotent reply then sent w1 = sent w
         else (\<exists>m. sent w1 = sent w @ [m] \<and> message_event m = Inr (JStr e) \<and> m_outcome m = Acked)
            \<and> accepted_until (cell_of (ce_digest CE) t e) fp (of_int (now_sec CE + EVENT_ID_TTL_SECONDS)) (reg w1))"
proof -
  let ?t = "resolve_tenant_from_key H (reg w) api_key"
  obtain meta key_id r where acc: "custody_accept CE (http_context cfg ?t key_id) (event_dict i meta u) w = (Inr r, w1)"
    and reply: "reply = status_reply r" by (rule ingest_event_custody [OF run code])
  let ?x = "http_context cfg ?t key_id" and ?ev = "event_dict i meta u"
  have x: "x_tenant ?x = ?t" "x_reservation ?x = None" "x_on_down ?x = FailMode" by (simp_all add: http_context_def)
  obtain p e fp where prep: "prepare_payload CE ?t None ?ev = Inr (p, e, fp)"
    using acc by (auto simp: custody_accept_def accept_impl_def x split: sum.splits)
  note shape = accept_fail_mode [OF acc [unfolded custody_accept_def] x(3), unfolded x, OF prep]
  have st: "c_status r \<notin> {''pending'', ''conflict'', ''uncertain'', ''unavailable'', ''overloaded''}"
    using code by (auto simp: reply status_reply_def http_error_def Let_def split: if_splits)
  have hr: "hr_event reply = Some (c_event r)" "hr_idempotent reply \<longleftrightarrow> c_idempotent r = Some True"
    using st by (simp_all add: reply status_reply_def Let_def)
  from shape st consider (again) "r = done_reply ''accepted'' e True" "sent w1 = sent w"
    | (fresh) su env k where "r = final_reply su e" "build_envelope CE ?x p = Inr (su, env)"
        "sent w1 = sent w @ [\<lparr>m_topic = dest_topic ?x su, m_key = k, m_value = env, m_outcome = Acked\<rparr>]"
    by blast
  then show ?thesis
  proof cases
    case again
    with hr prep dump_customer [of i meta u] show ?thesis by (auto simp: done_reply_def Let_def)
  next
    case fresh
    have "accepted_until (cell_of (ce_digest CE) ?t e) fp (of_int (now_sec CE + EVENT_ID_TTL_SECONDS)) (reg w1)"
      using custody_accepts [OF acc [unfolded custody_accept_def] _ zwf, of p e fp] prep fresh(1)
      by (simp add: x final_reply_def done_reply_def keeps_registry_def)
    moreover have "message_event \<lparr>m_topic = dest_topic ?x su, m_key = k, m_value = env, m_outcome = Acked\<rparr> = Inr (JStr e)"
      using envelope_event [OF fresh(2) prepared_event [OF prep]] by (simp add: message_event_def)
    ultimately show ?thesis using fresh hr prep dump_customer [of i meta u]
      by (auto simp: final_reply_def done_reply_def Let_def)
  qed
qed

section \<open>Merging the results of a batch\<close>

definition put_item :: "nat \<times> batch_item \<Rightarrow> batch_item option list \<Rightarrow> batch_item option list" where
  "put_item e rs = rs[fst e := Some (snd e)]"

text \<open>The results in the order of the events, each rejected one in its place and each other one from custody.\<close>

fun weave :: "(batch_item + event) list \<Rightarrow> batch_item list \<Rightarrow> batch_item list" where
  "weave [] items = []"
| "weave (Inl r # xs) items = r # weave xs items"
| "weave (Inr ev # xs) [] = weave xs []"
| "weave (Inr ev # xs) (it # items) = it # weave xs items"

definition prepared_from :: "nat \<Rightarrow> (batch_item + event) list \<Rightarrow> (nat \<times> event) list" where
  "prepared_from k xs = concat (map (\<lambda>(i, x). case x of Inl _ \<Rightarrow> [] | Inr ev \<Rightarrow> [(i, ev)]) (zip [k..<k + length xs] xs))"

definition rejected_from :: "nat \<Rightarrow> (batch_item + event) list \<Rightarrow> (nat \<times> batch_item) list" where
  "rejected_from k xs = concat (map (\<lambda>(i, x). case x of Inl r \<Rightarrow> [(i, r)] | Inr _ \<Rightarrow> []) (zip [k..<k + length xs] xs))"

lemma from_simps [simp]:
  "prepared_from k [] = []" "rejected_from k [] = []"
  "prepared_from k (Inl r # xs) = prepared_from (Suc k) xs"
  "prepared_from k (Inr ev # xs) = (k, ev) # prepared_from (Suc k) xs"
  "rejected_from k (Inl r # xs) = (k, r) # rejected_from (Suc k) xs"
  "rejected_from k (Inr ev # xs) = rejected_from (Suc k) xs"
  by (simp_all add: prepared_from_def rejected_from_def upt_conv_Cons del: upt_Suc)

lemma rejected_from_index: "e \<in> set (rejected_from k xs) \<Longrightarrow> k \<le> fst e"
proof (induction xs arbitrary: k)
  case (Cons x xs)
  then show ?case by (cases x) (fastforce dest: Suc_leD)+
qed simp

lemma put_commute:
  "(\<And>e. e \<in> set es \<Longrightarrow> fst e \<noteq> k) \<Longrightarrow> put_item (k, it) (fold put_item es rs) = fold put_item es (put_item (k, it) rs)"
proof (induction es arbitrary: rs)
  case (Cons e es)
  have "put_item e (put_item (k, it) rs) = put_item (k, it) (put_item e rs)"
    using Cons.prems [of e] by (simp add: put_item_def list_update_swap)
  with Cons show ?case by simp
qed simp

lemma put_next: "put_item (length P, it) (P @ None # rest) = (P @ [Some it]) @ rest"
  by (simp add: put_item_def)

lemma fold_items:
  "length items = length (prepared_from (length P) xs) \<Longrightarrow>
   fold put_item (zip (map fst (prepared_from (length P) xs)) items)
     (fold put_item (rejected_from (length P) xs) (P @ replicate (length xs) None))
   = P @ map Some (weave xs items)"
proof (induction xs arbitrary: P items)
  case (Cons x xs)
  show ?case
  proof (cases x)
    case (Inl r)
    then show ?thesis using Cons.IH [of items "P @ [Some r]"] Cons.prems by (simp add: put_next)
  next
    case (Inr ev)
    then obtain it its where items: "items = it # its" using Cons.prems by (cases items) auto
    have away: "e \<in> set (rejected_from (Suc (length P)) xs) \<Longrightarrow> fst e \<noteq> length P" for e
      using rejected_from_index [of e "Suc (length P)" xs] by auto
    show ?thesis
      using Cons.IH [of its "P @ [Some it]"] Cons.prems Inr
      by (simp add: items put_commute [OF away] put_next)
  qed
qed simp

lemma merge_weave:
  assumes "length items = length (prepared_of xs)"
  shows "merge (length xs) (rejected_of xs) (zip (map fst (prepared_of xs)) items) = weave xs items"
proof -
  have put: "(\<lambda>(i, r) rs. rs[i := Some r]) = put_item" by (auto simp: put_item_def fun_eq_iff)
  have "fold put_item (zip (map fst (prepared_of xs)) items) (fold put_item (rejected_of xs) (replicate (length xs) None))
      = map Some (weave xs items)"
    using fold_items [of items "[]" xs] assms
    by (simp add: prepared_of_def rejected_of_def prepared_from_def rejected_from_def)
  then show ?thesis by (simp add: merge_def put filter_map o_def)
qed

text \<open>The id under which an event of the batch is answered.\<close>

definition item_id :: "batch_item + event \<Rightarrow> string res" where
  "item_id x = (case x of Inl r \<Rightarrow> Inr (c_event (bi_reply r)) | Inr ev \<Rightarrow> resolve_custody_event_id ev None)"

lemma weave_ids:
  "mapE (\<lambda>ev. resolve_custody_event_id ev None) (map snd (prepared_from k xs)) = Inr (map (c_event \<circ> bi_reply) items) \<Longrightarrow>
   mapE item_id xs = Inr (map (c_event \<circ> bi_reply) (weave xs items))"
proof (induction xs arbitrary: k items)
  case (Cons x xs)
  show ?case
  proof (cases x)
    case (Inl r)
    then show ?thesis using Cons.IH [of "Suc k" items] Cons.prems by (simp add: item_id_def)
  next
    case (Inr ev)
    then show ?thesis
      using Cons.IH [of "Suc k" "tl items"] Cons.prems by (cases items) (auto simp: item_id_def)
  qed
qed simp

lemma never_redis:
  "json_text j \<noteq> Inl RedisError" "resolve_custody_event_id ev r \<noteq> Inl RedisError" "prepare_payload E t r ev \<noteq> Inl RedisError"
proof -
  show t: "json_text j \<noteq> Inl RedisError" for j by (simp add: json_text_def split: json.splits)
  show r: "resolve_custody_event_id ev r \<noteq> Inl RedisError"
    using t by (simp add: resolve_custody_event_id_def split: option.splits)
  show "prepare_payload E t r ev \<noteq> Inl RedisError"
    using r bindE_error [of "resolve_custody_event_id ev r"] by (auto simp: prepare_payload_def Let_def)
qed

lemma mapE_same:
  assumes "mapE f xs = Inr ys" and "mapE g xs = Inr zs" and "\<And>x y z. f x = Inr y \<Longrightarrow> g x = Inr z \<Longrightarrow> h z = y"
  shows "map h zs = ys"
  using assms(1,2) by (induction xs arbitrary: ys zs) (auto dest: assms(3))

lemma failed_item_id:
  "resolve_custody_event_id ev None = Inr e \<Longrightarrow> failed_item ev = Inr it \<Longrightarrow> (c_event \<circ> bi_reply) it = e"
  by (auto simp: resolve_custody_event_id_def failed_item_def json_index_def truthy_def split: option.splits if_splits)

lemma custody_items_ids:
  assumes run: "custody_items CE ctx evs w = (Inr items, w1)"
  shows "mapE (\<lambda>ev. resolve_custody_event_id ev None) evs = Inr (map (c_event \<circ> bi_reply) items)"
proof (cases "evs = []")
  case False
  obtain resp w2 where acc: "custody_accept_many CE ctx evs w = (resp, w2)" by fastforce
  show ?thesis
  proof (cases resp)
    case (Inr rs)
    with run acc False have "items = map (\<lambda>r. \<lparr>bi_reply = r, bi_message = None\<rparr>) rs" by (auto simp: custody_items_def)
    with batch_resolved [OF acc [unfolded Inr]] show ?thesis by (simp add: o_def)
  next
    case (Inl er)
    with run acc False have er: "er = RedisError" and items: "mapE failed_item evs = Inr items"
      by (auto simp: custody_items_def split: if_splits)
    obtain ps where "mapE (prepare_payload CE (x_tenant ctx) None) evs = Inr ps"
    proof (cases "mapE (prepare_payload CE (x_tenant ctx) None) evs")
      case (Inl e2)
      then have "e2 \<noteq> RedisError" using mapE_error never_redis(3) by metis
      moreover have "e2 = er \<or> er = ValueError"
        using acc \<open>resp = Inl er\<close> Inl by (auto simp: custody_accept_many_def accept_many_impl_def split: if_splits)
      ultimately show ?thesis using er by simp
    qed (use that in blast)
    from prepared_ids [OF this] have ids: "mapE (\<lambda>ev. resolve_custody_event_id ev None) evs = Inr (map event_of ps)" .
    have "map (c_event \<circ> bi_reply) items = map event_of ps"
      by (rule mapE_same [OF ids items]) (rule failed_item_id)
    with ids show ?thesis by simp
  qed
qed (use run in \<open>auto simp: custody_items_def\<close>)

lemma opt_field_map [simp]:
  "map_of (opt_field f j v) f = map_option j v"
  "f \<noteq> g \<Longrightarrow> map_of (opt_field f j v) g = None"
  by (auto simp: opt_field_def split: option.splits)

lemma dump_event_id: "map_of (dump_event i) ''eventId'' = map_option JStr (in_event i)"
  by (simp add: dump_event_def map_add_def split: option.split)

lemma event_dict_id: "map_of (event_dict i meta u) ''eventId'' = Some (JStr (case in_event i of None \<Rightarrow> u | Some e \<Rightarrow> e))"
proof -
  define ev where "ev = (case meta of None \<Rightarrow> dump_event i | Some m \<Rightarrow> AList.update ''metadata'' (metadata_json m) (dump_event i))"
  have "map_of ev ''eventId'' = map_option JStr (in_event i)"
    by (simp add: ev_def update_conv' dump_event_id split: option.split)
  then show ?thesis
    by (cases "in_event i") (simp_all add: event_dict_def Let_def map_add_def flip: ev_def)
qed

definition expected_id :: "batch_args \<Rightarrow> nat \<times> json \<Rightarrow> string" where
  "expected_id A e = (case ba_validate A (snd e) of
     Inl _ \<Rightarrow> raw_event_id A (fst e) (snd e) | Inr i \<Rightarrow> input_event_id A (fst e) i)"

lemma prepare_item_id:
  assumes "prepare_item E H allowed A s k (fst e) (snd e) = Inr x" and "item_id x = Inr eid"
  shows "eid = expected_id A e"
proof (cases "ba_validate A (snd e)")
  case (Inl msg)
  with assms show ?thesis by (auto simp: prepare_item_def item_id_def expected_id_def rejected_item_def)
next
  case (Inr i)
  consider (rej) msg where "x = Inl (rejected_item (input_event_id A (fst e) i) msg)"
    | (prep) meta where "x = Inr (event_dict i meta (input_event_id A (fst e) i))"
    using assms(1) Inr by (auto simp: prepare_item_def split: sum.splits err.splits)
  then show ?thesis
  proof cases
    case rej
    with assms(2) Inr show ?thesis by (simp add: item_id_def expected_id_def rejected_item_def)
  next
    case prep
    with assms(2) have "resolve_custody_event_id (event_dict i meta (input_event_id A (fst e) i)) None = Inr eid"
      by (simp add: item_id_def)
    then have "eid = (case in_event i of None \<Rightarrow> input_event_id A (fst e) i | Some e \<Rightarrow> e)" "eid \<noteq> []"
      by (auto simp: resolve_custody_event_id_def event_dict_id truthy_def json_true_def json_text_def split: if_splits)
    then show ?thesis using Inr by (auto simp: expected_id_def input_event_id_def truthy_def split: option.splits list.splits)
  qed
qed

lemma prepared_items_ids:
  "mapE (\<lambda>e. prepare_item E H allowed A s k (fst e) (snd e)) es = Inr xs \<Longrightarrow> mapE item_id xs = Inr ids \<Longrightarrow>
   ids = map (expected_id A) es"
proof (induction es arbitrary: xs ids)
  case (Cons e es)
  then show ?case by (auto dest: prepare_item_id)
qed simp

lemma wire_item_event [simp]: "c_event (bi_reply (wire_item b)) = c_event (bi_reply b)"
  by (simp add: wire_item_def)

lemma all_bad_with:
  assumes "\<forall>b \<in> set bs. \<not> item_ok b"
  shows "bad_with st bs = length (filter (\<lambda>b. \<not> item_ok b) bs) \<longleftrightarrow> (\<forall>b \<in> set bs. c_status (bi_reply b) = st)"
proof -
  let ?f = "filter (\<lambda>b. c_status (bi_reply b) = st) bs"
  have "filter (\<lambda>b. \<not> item_ok b) bs = bs" "filter (\<lambda>b. \<not> item_ok b \<and> c_status (bi_reply b) = st) bs = ?f"
    using assms by (auto simp: filter_id_conv intro: filter_cong)
  moreover have "length ?f = length bs \<longleftrightarrow> filter (\<lambda>b. c_status (bi_reply b) \<noteq> st) bs = []"
    using sum_length_filter_compl [of "\<lambda>b. c_status (bi_reply b) = st" bs] by auto
  ultimately show ?thesis by (simp add: bad_with_def filter_empty_conv)
qed

text \<open>What the results of a batch have in common, as one HTTP code.\<close>

definition common_code :: "batch_item list \<Rightarrow> nat" where
  "common_code rs =
     (let all = (\<lambda>st. list_all (\<lambda>b. c_status (bi_reply b) = st) rs) in
      if list_all item_ok rs then 202 else if list_ex item_ok rs then 207
      else if all ''conflict'' then 409 else if all ''rejected'' then 207
      else if all ''overloaded'' then 429 else 503)"

lemma batch_answer_code: "br_results (batch_answer rs) = rs" "br_code (batch_answer rs) = common_code rs"
proof -
  show "br_results (batch_answer rs) = rs" by (simp add: batch_answer_def Let_def)
  show "br_code (batch_answer rs) = common_code rs"
  proof (cases "\<exists>b \<in> set rs. item_ok b")
    case True
    then show ?thesis by (auto simp: batch_answer_def common_code_def Let_def filter_empty_conv list_all_iff list_ex_iff)
  next
    case False
    then have bad: "\<forall>b \<in> set rs. \<not> item_ok b" by blast
    note all = all_bad_with [OF bad]
    have none: "filter item_ok rs = []" "list_ex item_ok rs = False"
      using bad by (auto simp: filter_empty_conv list_ex_iff)
    have "filter (\<lambda>b. \<not> item_ok b) rs = []  \<longleftrightarrow> list_all item_ok rs" by (simp add: filter_empty_conv list_all_iff)
    then show ?thesis by (simp add: batch_answer_def common_code_def Let_def none all list_all_iff)
  qed
qed

text \<open>
  C27: a batch answers every event. When \<open>/ingest/batch\<close> returns an answer, its results are in the
  order of the events, one for each, under the id of that event (its own, or the one generated for
  it), whether it was rejected before custody or answered by it; and the HTTP code says what the
  results have in common: 202 when all are accepted, 207 when some are, and when none is, 409 for
  conflicts only, 207 for rejections only, 429 for overload only and 503 otherwise.
\<close>

theorem batch_answers_in_order:
  assumes "ingest_batch E H allowed cfg CE A api_key events w = (Inr reply, w1)"
  shows "map (c_event \<circ> bi_reply) (br_results reply) = map (expected_id A) (zip [0..<length events] events)
    \<and> br_code reply = common_code (br_results reply)"
proof -
  obtain key_id xs items where prep: "mapE (\<lambda>(index, doc). prepare_item E H allowed A (reg w) api_key index doc)
        (zip [0..<length events] events) = Inr xs"
    and run: "custody_items CE (http_context cfg (resolve_tenant_from_key H (reg w) api_key) key_id)
        (map snd (prepared_of xs)) w = (Inr items, w1)"
    and reply: "reply = batch_answer (map wire_item
        (merge (length events) (rejected_of xs) (zip (map fst (prepared_of xs)) items)))"
    using assms by (auto simp: ingest_batch_def split: sum.splits prod.splits)
  have len: "length xs = length events" using mapE_length [OF prep] by simp
  note ids = custody_items_ids [OF run]
  have "length items = length (prepared_of xs)" using mapE_length [OF ids] by simp
  note w = merge_weave [OF this, unfolded len]
  have "mapE item_id xs = Inr (map (c_event \<circ> bi_reply) (weave xs items))"
    using ids by (intro weave_ids [of 0]) (simp add: prepared_of_def prepared_from_def)
  from prepared_items_ids [OF prep [unfolded case_prod_unfold] this]
  have "map (c_event \<circ> bi_reply) (map wire_item (weave xs items)) = map (expected_id A) (zip [0..<length events] events)"
    by (simp add: o_def)
  then show ?thesis by (simp add: reply w batch_answer_code)
qed

section \<open>Concrete requests\<close>

definition demo_input :: ingest_input where
  "demo_input = \<lparr>in_customer = ''acme'', in_model = ''m'', in_provider = ''openai'', in_input = 10, in_output = 2,
     in_cache_read = 0, in_cache_write = 0, in_reasoning = 0, in_embedding = 0, in_event = Some ''e1'', in_request = None,
     in_span = None, in_parent_span = None, in_session = None, in_latency = 0, in_environment = None,
     in_timestamp = Some 0, in_metadata = None\<rparr>"

definition demo_config :: ingest_config where
  "demo_config = \<lparr>ic_topic = ''usage'', ic_quarantine = ''late'', ic_max_age = 100, ic_max_future = 100\<rparr>"

definition demo_auth :: auth_env where
  "demo_auth = \<lparr>API_KEY = [], ADMIN_API_KEY = [], AUTH_OPTIONAL = True\<rparr>"

lemma demo_anyone: "require_api_key demo_auth H s None = Inr ()" "require_customer_access demo_auth H s c None = Inr ()"
    "resolve_key_context H s None = Inr (JNull, JNull)" "resolve_tenant_from_key H s None = None"
  by (simp_all add: require_api_key_def require_customer_access_def is_global_api_key_def truthy_def demo_auth_def
      open_mode_def resolve_customer_from_key_def resolve_key_context_def is_tenant_key_def resolve_tenant_from_key_def)

abbreviation demo_http :: custody_ctx where
  "demo_http \<equiv> http_context demo_config None JNull"

lemma demo_input_accepted:
  "\<exists>w1. custody_accept (demo_env Acked) demo_http (event_dict demo_input None []) demo_start = (Inr (final_reply False ''e1''), w1)"
proof -
  have ev: "event_dict demo_input None [] = dump_event demo_input"
    by (simp add: event_dict_def dump_event_id demo_input_def [THEN arg_cong, of in_event])
  have x: "x_tenant demo_http = None" "x_reservation demo_http = None" "x_on_down demo_http = FailMode"
    by (simp_all add: http_context_def)
  have prep: "prepare_payload (demo_env Acked) None None (dump_event demo_input) = Inr (dump_event demo_input, ''e1'', demo_hex ''acme'')"
    by (simp add: prepare_payload_def resolve_custody_event_id_def dump_event_def demo_input_def opt_field_def json_true_def
        json_text_def truthy_def canonical_payload_hash_def demo_canon_def json_index_def)
  have "\<exists>env. build_envelope (demo_env Acked) demo_http (dump_event demo_input) = Inr (False, env)"
    by (simp add: build_envelope_def trusted_envelope_def dump_event_def demo_input_def opt_field_def json_index_def
        json_int_def suspicious_time_def truthy_def http_context_def demo_config_def)
  then obtain env where env: "build_envelope (demo_env Acked) demo_http (dump_event demo_input) = Inr (False, env)" by blast
  have key: "bindE (json_index (JObj (dump_event demo_input)) ''customerId'') json_text = Inr ''acme''"
    by (simp add: dump_event_def demo_input_def json_index_def json_text_def)
  show ?thesis
    unfolding ev
    by (rule fresh_accept [OF _ env key]) (simp_all add: x prep demo_start_def empty_registry live_def fresh_def)
qed

lemma demo_ingest:
  "\<exists>w1. ingest_event demo_auth id [] demo_config (demo_env Acked) True [] None demo_input demo_start
     = (Inr (status_reply (final_reply False ''e1'')), w1)"
proof -
  obtain w1 where acc: "custody_accept (demo_env Acked) demo_http (event_dict demo_input None []) demo_start
      = (Inr (final_reply False ''e1''), w1)" using demo_input_accepted by blast
  have one: "custody_accept_many (demo_env Acked) demo_http [event_dict demo_input None []] demo_start = (Inr [final_reply False ''e1''], w1)"
    using accept_many_one [OF dump_customer [of demo_input None "[]"], where x = demo_http and E = "demo_env Acked" and w = demo_start]
    by (simp add: acc) (simp add: http_context_def)
  have meta: "metadata_400 [] demo_input = Inr None"
    by (simp add: metadata_400_def metadata_items_def demo_input_def validate_metadata_def)
  show ?thesis
    by (simp add: ingest_event_def ingest_prepare_def demo_anyone meta batched_accept_def one ingest_answer_def)
qed

theorem ingest_accepted_durable_witness:
  "\<exists>(w1 :: world) m. sent w1 = [m] \<and> message_event m = Inr (JStr ''e1'') \<and> m_outcome m = Acked"
proof -
  obtain w1 where run: "ingest_event demo_auth id [] demo_config (demo_env Acked) True [] None demo_input demo_start
     = (Inr (status_reply (final_reply False ''e1'')), w1)" using demo_ingest by blast
  have st: "hr_code (status_reply (final_reply False ''e1'')) = 202" "hr_event (status_reply (final_reply False ''e1'')) = Some ''e1''"
    "\<not> hr_idempotent (status_reply (final_reply False ''e1''))"
    by (simp_all add: status_reply_def final_reply_def done_reply_def Let_def)
  have "zwf_all (reg demo_start)" by (simp add: demo_start_def empty_registry)
  from ingest_accepted_durable [OF run st(1) this] st
  have "\<exists>m. sent w1 = [m] \<and> message_event m = Inr (JStr ''e1'') \<and> m_outcome m = Acked"
    by (auto simp: demo_start_def Let_def)
  then show ?thesis by blast
qed

theorem batch_answers_in_order_witness:
  "\<exists>reply w1. ingest_batch demo_auth id [] demo_config (demo_env Acked)
      \<lparr>ba_validate = (\<lambda>_. Inl ''bad''), ba_str = (\<lambda>_. []), ba_uuid = (\<lambda>_. ''u''), ba_error_text = (\<lambda>_. [])\<rparr> None [JObj []] demo_start
      = (Inr reply, w1)
    \<and> map (c_event \<circ> bi_reply) (br_results reply) = [''u''] \<and> br_code reply = 207"
proof -
  let ?A = "\<lparr>ba_validate = (\<lambda>_. Inl ''bad''), ba_str = (\<lambda>_. []), ba_uuid = (\<lambda>_. ''u''), ba_error_text = (\<lambda>_. [])\<rparr> :: batch_args"
  have run: "ingest_batch demo_auth id [] demo_config (demo_env Acked) ?A None [JObj []] demo_start
      = (Inr (batch_answer [rejected_item ''u'' ''bad'']), demo_start)"
    by (simp add: ingest_batch_def demo_anyone prepare_item_def raw_event_id_def prepared_of_def rejected_of_def
        custody_items_def merge_def wire_item_def rejected_item_def retry_reply_def)
  show ?thesis
    using batch_answers_in_order [OF run] run
    by (auto simp: expected_id_def raw_event_id_def batch_answer_code common_code_def rejected_item_def retry_reply_def item_ok_def)
qed

section \<open>An empty event id\<close>

text \<open>
  An event with an empty \<open>eventId\<close> passes validation and keeps it, so custody refuses the whole
  call: the exception is not one the endpoint answers for.
\<close>

lemma empty_event_id_raises:
  assumes "ingest_prepare E H allowed cfg u api_key i (reg w) = Inr (ev, ctx)" and "in_event i = Some []"
  shows "ingest_event E H allowed cfg CE True u api_key i w = (Inl ValueError, w)"
proof -
  obtain meta key_id where ev: "ev = event_dict i meta u" and ctx: "x_on_down ctx = FailMode"
    using assms(1) by (auto simp: ingest_prepare_def http_context_def)
  have "prepare_payload CE t None ev = Inl ValueError" for t
    using assms(2) by (simp add: ev prepare_payload_def resolve_custody_event_id_def truthy_def event_dict_id json_true_def)
  with assms(1) ctx show ?thesis
    by (simp add: ingest_event_def batched_accept_def custody_accept_many_def accept_many_impl_def ingest_answer_def)
qed

end
