(* ===== verification/Rerate.thy ===== *)
theory Rerate
  imports Usage Auth Pricing
begin

text \<open>
  Retroactive re-rating, \<^verbatim>\<open>/rerate/preview\<close> and \<^verbatim>\<open>/rerate/apply\<close> of \<^verbatim>\<open>src/api/main.py\<close>: the change of a
  flat price is computed from each customer's token counters and applied to the model's, the
  customer's and the global cost and, the other way round, to the customer's balance.

  The lemmas follow one row through the pipeline and the balance adjustment, then the whole loop:
  what each counter is after it, in terms of what it was before.
\<close>

record rerate_request =
  rr_model :: string
  rr_old_input :: rat
  rr_new_input :: rat
  rr_old_output :: rat
  rr_new_output :: rat
  rr_start :: "int option"
  rr_end :: "int option"

definition assert_flat_rerate :: "catalog \<Rightarrow> string \<Rightarrow> unit res" where
  "assert_flat_rerate c model_id =
     bindE (pricing_of c model_id) (\<lambda>p. if pricing_mode p \<noteq> ''flat'' then Inl (HTTPException 422) else Inr ())"

definition row_adjustment :: "rerate_request \<Rightarrow> model_row \<Rightarrow> rat" where
  "row_adjustment req row =
     of_int (mr_input row) / 1000000 * (rr_new_input req - rr_old_input req)
     + of_int (mr_output row) / 1000000 * (rr_new_output req - rr_old_output req)"

section \<open>Preview\<close>

record preview_row =
  pv_customer :: string
  pv_input :: int
  pv_output :: int
  pv_adjustment :: rat

record preview_reply =
  pr_model :: string
  pr_affected :: nat
  pr_total :: rat
  pr_adjustments :: "preview_row list"

definition preview_rows :: "rerate_request \<Rightarrow> model_row list \<Rightarrow> preview_reply" where
  "preview_rows req rows =
     (let hit = filter (\<lambda>row. \<bar>row_adjustment req row\<bar> > 1 / 1000) rows;
          out = map (\<lambda>row. \<lparr>pv_customer = mr_customer row, pv_input = mr_input row, pv_output = mr_output row,
                       pv_adjustment = round_to 6 (row_adjustment req row)\<rparr>) hit
      in \<lparr>pr_model = rr_model req, pr_affected = length out,
          pr_total = round_to 4 (sum_list (map (row_adjustment req) hit)),
          pr_adjustments = take 50 (sort_key pv_adjustment out)\<rparr>)"

definition preview_rerate ::
  "auth_env \<Rightarrow> digest \<Rightarrow> catalog \<Rightarrow> store \<Rightarrow> string option \<Rightarrow> rerate_request \<Rightarrow> preview_reply res" where
  "preview_rerate E H c s x_api_key req =
     bindE (require_admin_key E x_api_key) (\<lambda>_.
     bindE (assert_flat_rerate c (rr_model req)) (\<lambda>_.
     bindE (iter_model_usage_rows s (resolve_tenant_from_key H s x_api_key) (rr_model req)) (\<lambda>rows.
       Inr (preview_rows req rows))))"

section \<open>Apply\<close>

definition skipped :: "rerate_request \<Rightarrow> model_row \<Rightarrow> bool" where
  "skipped req row \<longleftrightarrow> \<bar>row_adjustment req row\<bar> < 1 / 1000"

text \<open>The counters of one row, then the balance of a customer that has one.\<close>

definition apply_row :: "string option \<Rightarrow> rerate_request \<Rightarrow> model_row \<Rightarrow> store \<Rightarrow> unit res \<times> store" where
  "apply_row tenant_id req row s =
     (let adjustment = row_adjustment req row in
      case apply_model_cost_adjustment s tenant_id row adjustment of
        (Inl e, s1) \<Rightarrow> (Inl e, s1)
      | (Inr _, s1) \<Rightarrow>
          let budget_bal = budget_prefix_for_read s1 tenant_id (mr_customer row) @ '':balance_usd'' in
          if rexists s1 budget_bal
          then (case incrbyfloat s1 budget_bal (- adjustment) of Inl e \<Rightarrow> (Inl e, s1) | Inr s2 \<Rightarrow> (Inr (), s2))
          else (Inr (), s1))"

fun apply_rows ::
  "string option \<Rightarrow> rerate_request \<Rightarrow> model_row list \<Rightarrow> nat \<Rightarrow> rat \<Rightarrow> store \<Rightarrow> (nat \<times> rat) res \<times> store" where
  "apply_rows tenant_id req [] applied acc s = (Inr (applied, acc), s)"
| "apply_rows tenant_id req (row # rows) applied acc s =
     (if skipped req row then apply_rows tenant_id req rows applied acc s
      else (case apply_row tenant_id req row s of
              (Inl e, s1) \<Rightarrow> (Inl e, s1)
            | (Inr _, s1) \<Rightarrow> apply_rows tenant_id req rows (applied + 1) (acc + row_adjustment req row) s1))"

record rerate_reply =
  rp_model :: string
  rp_adjusted :: nat
  rp_total :: rat
  rp_status :: string

definition apply_rerate ::
  "auth_env \<Rightarrow> digest \<Rightarrow> catalog \<Rightarrow> store \<Rightarrow> string option \<Rightarrow> rerate_request \<Rightarrow> rerate_reply res \<times> store" where
  "apply_rerate E H c s x_api_key req =
     (let tenant_id = resolve_tenant_from_key H s x_api_key in
      case bindE (require_admin_key E x_api_key) (\<lambda>_. bindE (assert_flat_rerate c (rr_model req)) (\<lambda>_.
             iter_model_usage_rows s tenant_id (rr_model req))) of
        Inl e \<Rightarrow> (Inl e, s)
      | Inr rows \<Rightarrow>
          (case apply_rows tenant_id req rows 0 0 s of
             (Inl e, s1) \<Rightarrow> (Inl e, s1)
           | (Inr (applied, acc), s1) \<Rightarrow>
               (Inr \<lparr>rp_model = rr_model req, rp_adjusted = applied, rp_total = round_to 4 acc, rp_status = ''applied''\<rparr>, s1)))"

section \<open>The shape of a row\<close>

text \<open>A row's counters are under its customer's key, and the customer's id has no colon.\<close>

definition row_ok :: "model_row \<Rightarrow> bool" where
  "row_ok row \<longleftrightarrow> plain (mr_customer row)
     \<and> (\<exists>w. mr_prefix row = w @ ''customer:'' @ mr_customer row \<and> (w = [] \<or> (\<exists>t. plain t \<and> w = ''tenant:'' @ t @ '':'')))
     \<and> (\<exists>m. mr_model_key row = mr_prefix row @ '':model:'' @ m)"

lemma split_on_plain: "w \<in> set (split_on (CHR '':'') k) \<Longrightarrow> plain w"
  using split_on_pieces unfolding plain_def by blast

lemma split_on_nth_plain: "i < length (split_on (CHR '':'') k) \<Longrightarrow> plain (split_on (CHR '':'') k ! i)"
  using split_on_plain nth_mem by blast

lemma parse_row_ok:
  assumes "parse_model_input_key k model_id = Some (cid, model_key, cust)"
  shows "row_ok \<lparr>mr_customer = cid, mr_model_key = model_key, mr_prefix = cust, mr_input = i, mr_output = j, mr_tenant = b\<rparr>"
  using assms split_on_nth_plain [of 1 k] split_on_nth_plain [of 3 k]
  by (auto simp: parse_model_input_key_def row_ok_def Let_def split: if_splits)

definition rows_ok :: "(string \<times> model_row) list \<Rightarrow> bool" where
  "rows_ok by_cid \<longleftrightarrow> distinct (map fst by_cid) \<and> (\<forall>e \<in> set by_cid. row_ok (snd e) \<and> mr_customer (snd e) = fst e)"

lemma set_update: "e \<in> set (AList.update k v al) \<Longrightarrow> e = (k, v) \<or> e \<in> set al"
  by (induction al) (auto split: if_splits)

lemma collect_rows_ok:
  "collect_rows s m b ks by_cid = Inr out \<Longrightarrow> rows_ok by_cid \<Longrightarrow> rows_ok out"
proof (induction ks arbitrary: by_cid)
  case (Cons k ks)
  show ?case
  proof (cases "parse_model_input_key k m")
    case (Some p)
    obtain cid mk cust where p: "p = (cid, mk, cust)" by (cases p)
    show ?thesis
    proof (cases "map_of by_cid cid \<noteq> None \<and> \<not> b")
      case False
      then obtain row where row: "model_row_of s b (cid, mk, cust) = Inr row"
        and rest: "collect_rows s m b ks (AList.update cid row by_cid) = Inr out"
        using Cons.prems(1) Some p by (auto split: if_splits)
      have "row_ok row \<and> mr_customer row = cid"
        using row parse_row_ok [OF Some [unfolded p]] by (auto simp: model_row_of_def)
      then have "rows_ok (AList.update cid row by_cid)"
        using Cons.prems(2) set_update by (fastforce simp: rows_ok_def distinct_update)
      then show ?thesis by (rule Cons.IH [OF rest])
    qed (use Cons Some p in auto)
  qed (use Cons in auto)
qed simp

lemma rows_wellformed:
  assumes "iter_model_usage_rows s t m = Inr rows"
  shows "distinct (map mr_customer rows)" and "\<forall>row \<in> set rows. row_ok row"
proof -
  define tks where "tks = scan s (''tenant:'' @ the t @ '':customer:*:model:'' @ m @ '':input_tokens'')"
  define ks where "ks = scan s (''customer:*:model:'' @ m @ '':input_tokens'')"
  obtain b0 by_cid where b0: "(if has_tenant t then collect_rows s m True tks [] else Inr []) = Inr b0"
    and b1: "collect_rows s m False ks b0 = Inr by_cid" and rows: "rows = map snd by_cid"
    using assms unfolding iter_model_usage_rows_def tks_def [symmetric] ks_def [symmetric] by blast
  have "rows_ok []" by (simp add: rows_ok_def)
  then have "rows_ok b0" using b0 collect_rows_ok [of s m True tks "[]" b0] by (cases "has_tenant t") auto
  then have ok: "rows_ok by_cid" by (rule collect_rows_ok [OF b1])
  from ok have "map mr_customer rows = map fst by_cid" by (auto simp: rows rows_ok_def)
  with ok show "distinct (map mr_customer rows)" by (simp add: rows_ok_def)
  from ok show "\<forall>row \<in> set rows. row_ok row" by (auto simp: rows rows_ok_def)
qed

section \<open>The effect of the loop on every key\<close>

definition balance_key :: "store \<Rightarrow> string option \<Rightarrow> model_row \<Rightarrow> key" where
  "balance_key s t row = budget_prefix_for_read s t (mr_customer row) @ '':balance_usd''"

definition share :: "bool \<Rightarrow> rat \<Rightarrow> rat" where
  "share b a = (if b then a else 0)"

text \<open>What applying a row adds to the number under a key.\<close>

definition row_effect :: "store \<Rightarrow> string option \<Rightarrow> rerate_request \<Rightarrow> model_row \<Rightarrow> key \<Rightarrow> rat" where
  "row_effect s t req row k =
     (let a = row_adjustment req row in
      share (k = mr_model_key row @ '':cost_usd'') a + share (k = mr_prefix row @ '':cost_usd'') a
      + share (k = global_key_for_write t ''total_cost_usd'') a
      - share (k = balance_key s t row \<and> rexists s (balance_key s t row)) a)"

definition same_budgets :: "store \<Rightarrow> store \<Rightarrow> bool" where
  "same_budgets s s' \<longleftrightarrow> (\<forall>p. \<forall>f \<in> {''balance_usd'', ''held_usd''}. rexists s' (p @ '':'' @ f) = rexists s (p @ '':'' @ f))"

lemma same_budgets_trans: "same_budgets s s1 \<Longrightarrow> same_budgets s1 s2 \<Longrightarrow> same_budgets s s2"
  by (simp add: same_budgets_def)

lemma same_budgets_read:
  assumes "same_budgets s s'"
  shows "budget_prefix_for_read s' t c = budget_prefix_for_read s t c"
proof -
  have "budget_present s' p = budget_present s p" for p
    using assms by (simp add: same_budgets_def budget_present_def)
  then show ?thesis by (simp only: budget_read.read_def)
qed

lemma same_budgets_balance:
  assumes "same_budgets s s'"
  shows "balance_key s' t row = balance_key s t row" and "rexists s' (balance_key s t row) = rexists s (balance_key s t row)"
  using assms same_budgets_read [OF assms] by (simp_all add: balance_key_def same_budgets_def)

lemma same_budgets_effect:
  "same_budgets s s' \<Longrightarrow> row_effect s' t req row k = row_effect s t req row k"
  by (simp add: row_effect_def same_budgets_balance)

lemma incr_same_budgets:
  assumes run: "incrbyfloat s k x = Inr s'" and k: "(\<exists>w f. k = w @ '':'' @ f \<and> plain f \<and> f \<notin> {''balance_usd'', ''held_usd''}) \<or> rexists s k"
  shows "same_budgets s s'"
  unfolding same_budgets_def
proof (intro allI ballI)
  fix p f assume f: "f \<in> {''balance_usd'', ''held_usd''}"
  then have "plain f" by auto
  from k have "k \<noteq> p @ '':'' @ f \<or> rexists s k"
    using plain_last [OF \<open>plain f\<close>, of _ p] f by fastforce
  with run show "rexists s' (p @ '':'' @ f) = rexists s (p @ '':'' @ f)"
    by (auto simp: rexists_iff rget_incrbyfloat [OF run] incrbyfloat_frame [OF run])
qed

lemma apply_row_effect:
  assumes "apply_row t req row s = (Inr (), s')"
  shows "num0 (rget s' k) = num0 (rget s k) + row_effect s t req row k" and "same_budgets s s'"
proof -
  let ?a = "row_adjustment req row"
  obtain s1 s2 s3 where c: "incrbyfloat s (mr_model_key row @ '':cost_usd'') ?a = Inr s1"
      "incrbyfloat s1 (mr_prefix row @ '':cost_usd'') ?a = Inr s2"
      "incrbyfloat s2 (global_key_for_write t ''total_cost_usd'') ?a = Inr s3"
    and b: "(if rexists s3 (balance_key s3 t row) then incrbyfloat s3 (balance_key s3 t row) (- ?a) else Inr s3) = Inr s'"
    using assms
    by (auto simp: apply_row_def apply_model_cost_adjustment_def balance_key_def Let_def split: sum.splits if_splits)
  have g: "\<exists>w. global_key_for_write t ''total_cost_usd'' = w @ '':total_cost_usd''"
    by (auto simp: global_key_for_write_def key_simps scoped_def)
  note r = rget_incrbyfloat [OF c(1)] rget_incrbyfloat [OF c(2)] rget_incrbyfloat [OF c(3)]
  note h = incrbyfloat_frame(1) [OF c(1)] incrbyfloat_frame(1) [OF c(2)] incrbyfloat_frame(1) [OF c(3)]
  have "same_budgets s s1" "same_budgets s1 s2"
    by (rule incr_same_budgets [OF c(1)], fastforce) (rule incr_same_budgets [OF c(2)], fastforce)
  moreover have "same_budgets s2 s3"
    using g by (intro incr_same_budgets [OF c(3)]) fastforce
  ultimately have sb3: "same_budgets s s3" by (blast intro: same_budgets_trans)
  moreover have "same_budgets s3 s'"
    using b incr_same_budgets [of s3 _ _ s'] by (auto simp: same_budgets_def split: if_split_asm)
  ultimately show "same_budgets s s'" by (rule same_budgets_trans)
  have n3: "num0 (rget s3 k) = num0 (rget s k) + share (k = mr_model_key row @ '':cost_usd'') ?a
      + share (k = mr_prefix row @ '':cost_usd'') ?a + share (k = global_key_for_write t ''total_cost_usd'') ?a"
    by (simp add: r share_def)
  have "num0 (rget s' k) = num0 (rget s3 k) - share (k = balance_key s3 t row \<and> rexists s3 (balance_key s3 t row)) ?a"
    using b rget_incrbyfloat [of s3 "balance_key s3 t row" "- ?a" s' k] by (auto simp: share_def split: if_split_asm)
  with n3 show "num0 (rget s' k) = num0 (rget s k) + row_effect s t req row k"
    by (simp add: row_effect_def Let_def same_budgets_balance [OF sb3])
qed

lemma apply_rows_effect:
  assumes "apply_rows t req rows n acc s = (Inr (n', acc'), s')"
  defines "hit \<equiv> filter (\<lambda>row. \<not> skipped req row) rows"
  shows "n' = n + length hit \<and> acc' = acc + sum_list (map (row_adjustment req) hit)"
    and "num0 (rget s' k) = num0 (rget s k) + sum_list (map (\<lambda>row. row_effect s t req row k) hit)"
proof -
  have "n' = n + length (filter (\<lambda>row. \<not> skipped req row) rows)
      \<and> acc' = acc + sum_list (map (row_adjustment req) (filter (\<lambda>row. \<not> skipped req row) rows))
      \<and> num0 (rget s' k) = num0 (rget s k) + sum_list (map (\<lambda>row. row_effect s t req row k) (filter (\<lambda>row. \<not> skipped req row) rows))"
    using assms(1)
  proof (induction rows arbitrary: n acc s)
    case (Cons row rows)
    show ?case
    proof (cases "skipped req row")
      case False
      with Cons.prems obtain s1 where one: "apply_row t req row s = (Inr (), s1)"
        and rest: "apply_rows t req rows (n + 1) (acc + row_adjustment req row) s1 = (Inr (n', acc'), s')"
        by (auto split: prod.splits sum.splits)
      show ?thesis
        using Cons.IH [OF rest] False apply_row_effect(1) [OF one]
          same_budgets_effect [OF apply_row_effect(2) [OF one]]
        by simp
    qed (use Cons in simp)
  qed simp
  then show "n' = n + length hit \<and> acc' = acc + sum_list (map (row_adjustment req) hit)"
    and "num0 (rget s' k) = num0 (rget s k) + sum_list (map (\<lambda>row. row_effect s t req row k) hit)"
    by (simp_all add: hit_def)
qed

section \<open>Whose key is whose\<close>

lemma row_keys:
  assumes "row_ok r"
  obtains w m where "mr_prefix r = w @ ''customer'' @ CHR '':'' # mr_customer r"
    and "mr_model_key r = w @ ''customer'' @ CHR '':'' # mr_customer r @ CHR '':'' # ''model:'' @ m"
    and "plain (mr_customer r)" and "w = [] \<or> (\<exists>t. plain t \<and> w = ''tenant'' @ CHR '':'' # t @ CHR '':'' # [])"
  using assms unfolding row_ok_def by fastforce

lemma prefix_customer:
  assumes "row_ok r" and "row_ok r0" and "mr_prefix r = mr_prefix r0"
  shows "mr_customer r = mr_customer r0"
proof -
  obtain w where "mr_prefix r = (w @ ''customer'') @ CHR '':'' # mr_customer r" "plain (mr_customer r)"
    by (rule row_keys [OF assms(1)]) auto
  moreover obtain w0 where "mr_prefix r0 = (w0 @ ''customer'') @ CHR '':'' # mr_customer r0" "plain (mr_customer r0)"
    by (rule row_keys [OF assms(2)]) auto
  ultimately show ?thesis using assms(3) plain_last by metis
qed

lemma tail_customer:
  assumes w: "w = [] \<or> (\<exists>t. plain t \<and> w = ''tenant'' @ CHR '':'' # t @ CHR '':'' # [])"
    and v: "v = [] \<or> (\<exists>t. plain t \<and> v = ''tenant'' @ CHR '':'' # t @ CHR '':'' # [])"
    and eq: "w @ ''customer'' @ CHR '':'' # x = v @ ''customer'' @ CHR '':'' # y"
  shows "w = v \<and> x = y"
proof (cases "w = []"; cases "v = []")
  assume "w \<noteq> []" "v \<noteq> []"
  then obtain t t' where t: "plain t" "w = ''tenant'' @ CHR '':'' # t @ CHR '':'' # []"
    and t': "plain t'" "v = ''tenant'' @ CHR '':'' # t' @ CHR '':'' # []"
    using w v by blast
  have "t @ CHR '':'' # ''customer'' @ CHR '':'' # x = t' @ CHR '':'' # ''customer'' @ CHR '':'' # y"
    using eq t t' by simp
  from plain_split [OF t(1) t'(1) this] t t' show ?thesis by simp
qed (use w v eq in auto)

lemma model_key_customer:
  assumes "row_ok r" and "row_ok r0" and "mr_model_key r = mr_model_key r0"
  shows "mr_customer r = mr_customer r0"
proof -
  obtain w m where 1: "mr_model_key r = w @ ''customer'' @ CHR '':'' # mr_customer r @ CHR '':'' # ''model:'' @ m"
    "plain (mr_customer r)" "w = [] \<or> (\<exists>t. plain t \<and> w = ''tenant'' @ CHR '':'' # t @ CHR '':'' # [])"
    by (rule row_keys [OF assms(1)]) blast
  obtain v m' where 2: "mr_model_key r0 = v @ ''customer'' @ CHR '':'' # mr_customer r0 @ CHR '':'' # ''model:'' @ m'"
    "plain (mr_customer r0)" "v = [] \<or> (\<exists>t. plain t \<and> v = ''tenant'' @ CHR '':'' # t @ CHR '':'' # [])"
    by (rule row_keys [OF assms(2)]) blast
  have "mr_customer r @ CHR '':'' # ''model:'' @ m = mr_customer r0 @ CHR '':'' # ''model:'' @ m'"
    using tail_customer [OF 1(3) 2(3)] assms(3) 1(1) 2(1) by metis
  from plain_split [OF 1(2) 2(2) this] show ?thesis by blast
qed

lemma model_key_neq_prefix:
  assumes "row_ok r" and "row_ok r0"
  shows "mr_model_key r \<noteq> mr_prefix r0"
proof
  assume eq: "mr_model_key r = mr_prefix r0"
  obtain w m where 1: "mr_model_key r = w @ ''customer'' @ CHR '':'' # mr_customer r @ CHR '':'' # ''model:'' @ m"
    "w = [] \<or> (\<exists>t. plain t \<and> w = ''tenant'' @ CHR '':'' # t @ CHR '':'' # [])"
    by (rule row_keys [OF assms(1)]) blast
  obtain v where 2: "mr_prefix r0 = v @ ''customer'' @ CHR '':'' # mr_customer r0"
    "plain (mr_customer r0)" "v = [] \<or> (\<exists>t. plain t \<and> v = ''tenant'' @ CHR '':'' # t @ CHR '':'' # [])"
    by (rule row_keys [OF assms(2)]) blast
  have "mr_customer r @ CHR '':'' # ''model:'' @ m = mr_customer r0"
    using tail_customer [OF 1(2) 2(3)] eq 1(1) 2(1) by metis
  with 2(2) show False by (metis in_set_conv_decomp plain_def)
qed

lemma read_prefix_inj:
  assumes "budget_prefix_for_read s t c = budget_prefix_for_read s t c'"
  shows "c = c'"
proof -
  have two: "budget_prefix_for_read s t x = scoped t ''budget'' x \<or> budget_prefix_for_read s t x = ''budget:'' @ x" for x
    using budget_read.read_cases [of s t x] by (simp add: key_simps)
  have mixed: "scoped t ''budget'' x = ''budget:'' @ y \<Longrightarrow> x = y" for x y
    by (cases "has_tenant t") (simp_all add: scoped_def)
  have same: "scoped t ''budget'' x = scoped t ''budget'' y \<Longrightarrow> x = y" for x y by simp
  consider "scoped t ''budget'' c = scoped t ''budget'' c'" | "scoped t ''budget'' c = ''budget:'' @ c'"
    | "''budget:'' @ c = scoped t ''budget'' c'" | "''budget:'' @ c = ''budget:'' @ c'"
    using two [of c] two [of c'] assms by fastforce
  then show ?thesis
    by cases (erule same, erule mixed, metis mixed, simp only: same_append_eq)
qed

lemma global_key_end: "\<exists>w. global_key_for_write t ''total_cost_usd'' = w @ CHR '':'' # ''total_cost_usd''"
  by (auto simp: global_key_for_write_def key_simps scoped_def)

text \<open>Keys that end in different fields are different.\<close>

lemma field_keys_apart [simp]:
  "x @ '':cost_usd'' \<noteq> y @ '':balance_usd''"
  "x @ '':balance_usd'' \<noteq> y @ '':cost_usd''"
  "x @ '':cost_usd'' \<noteq> global_key_for_write t ''total_cost_usd''"
  "global_key_for_write t ''total_cost_usd'' \<noteq> x @ '':cost_usd''"
  "x @ '':balance_usd'' \<noteq> global_key_for_write t ''total_cost_usd''"
  "global_key_for_write t ''total_cost_usd'' \<noteq> x @ '':balance_usd''"
proof -
  have ends: "x @ CHR '':'' # f \<noteq> y @ CHR '':'' # g" if "plain f" "plain g" "f \<noteq> g" for f g x y
    using that plain_last by blast
  obtain w where g: "global_key_for_write t ''total_cost_usd'' = w @ CHR '':'' # ''total_cost_usd''"
    using global_key_end by blast
  show 1: "x @ '':cost_usd'' \<noteq> y @ '':balance_usd''" by (rule ends) simp_all
  show "x @ '':balance_usd'' \<noteq> y @ '':cost_usd''" by (rule ends) simp_all
  show 3: "x @ '':cost_usd'' \<noteq> global_key_for_write t ''total_cost_usd''" unfolding g by (rule ends) simp_all
  then show "global_key_for_write t ''total_cost_usd'' \<noteq> x @ '':cost_usd''" by (rule not_sym)
  show 5: "x @ '':balance_usd'' \<noteq> global_key_for_write t ''total_cost_usd''" unfolding g by (rule ends) simp_all
  then show "global_key_for_write t ''total_cost_usd'' \<noteq> x @ '':balance_usd''" by (rule not_sym)
qed

lemma effect_global: "row_effect s t req r (global_key_for_write t ''total_cost_usd'') = row_adjustment req r"
  by (simp add: row_effect_def share_def balance_key_def Let_def)

lemma effect_cost:
  assumes "row_ok r" and "row_ok r0" and "mr_customer r = mr_customer r0 \<longleftrightarrow> r = r0"
  shows "row_effect s t req r (mr_prefix r0 @ '':cost_usd'') = share (r = r0) (row_adjustment req r)"
    and "row_effect s t req r (mr_model_key r0 @ '':cost_usd'') = share (r = r0) (row_adjustment req r)"
  using assms prefix_customer [OF assms(1,2)] model_key_customer [OF assms(1,2)]
    model_key_neq_prefix [OF assms(1,2)] model_key_neq_prefix [OF assms(2,1)]
  by (auto simp: row_effect_def share_def balance_key_def Let_def)

lemma effect_balance:
  assumes "mr_customer r = mr_customer r0 \<longleftrightarrow> r = r0"
  shows "row_effect s t req r (balance_key s t r0) = - share (r = r0) (share (rexists s (balance_key s t r0)) (row_adjustment req r))"
  using assms read_prefix_inj [of s t "mr_customer r" "mr_customer r0"]
  by (auto simp: row_effect_def share_def balance_key_def Let_def)

lemma sum_share:
  "distinct rows \<Longrightarrow> sum_list (map (\<lambda>r. share (r = r0) (g r)) rows) = share (r0 \<in> set rows) (g r0)"
  by (induction rows) (auto simp: share_def)

lemma sum_effect:
  assumes "distinct (map mr_customer rows)" and r0: "r0 \<in> set rows"
    and eff: "\<And>r. r \<in> set rows \<Longrightarrow> (mr_customer r = mr_customer r0 \<longleftrightarrow> r = r0) \<Longrightarrow> f r = share (r = r0) (g r)"
  shows "sum_list (map f (filter P rows)) = share (P r0) (g r0)"
proof -
  have "mr_customer r = mr_customer r0 \<longleftrightarrow> r = r0" if "r \<in> set rows" for r
    using assms(1) r0 that by (auto simp: distinct_map inj_on_def)
  with eff have "map f (filter P rows) = map (\<lambda>r. share (r = r0) (g r)) (filter P rows)" by simp
  moreover have "distinct (filter P rows)" using assms(1) by (simp add: distinct_map)
  ultimately show ?thesis using sum_share [of "filter P rows" r0 g] r0 by (simp only: set_filter) simp
qed

text \<open>Applying a re-rate that returned: the rows it went over and the loop's result.\<close>

lemma apply_rerate_rows:
  assumes "apply_rerate E H c s x_api_key req = (Inr reply, s')"
  obtains rows n acc where "iter_model_usage_rows s (resolve_tenant_from_key H s x_api_key) (rr_model req) = Inr rows"
    and "apply_rows (resolve_tenant_from_key H s x_api_key) req rows 0 0 s = (Inr (n, acc), s')"
    and "rp_adjusted reply = n" and "rp_total reply = round_to 4 acc"
  using assms by (auto simp: apply_rerate_def Let_def split: sum.splits prod.splits)

text \<open>The rows that are applied, and what they add up to.\<close>

definition applied_rows :: "rerate_request \<Rightarrow> model_row list \<Rightarrow> model_row list" where
  "applied_rows req rows = filter (\<lambda>row. \<not> skipped req row) rows"

definition total_adjustment :: "rerate_request \<Rightarrow> model_row list \<Rightarrow> rat" where
  "total_adjustment req rows = sum_list (map (row_adjustment req) (applied_rows req rows))"

text \<open>
  what a re-rate moves. When \<open>/rerate/apply\<close> returns, it has gone over the usage rows of the
  model; the global cost has risen by exactly the sum of the adjustments of the rows it did not
  skip, which the reply gives rounded to four decimals; and the cost of every row's customer and
  of its use of the model has risen by that row's own adjustment, or not at all if it was skipped.
\<close>

theorem rerate_moves_costs:
  assumes "apply_rerate E H c s x_api_key req = (Inr reply, s')"
  shows "\<exists>rows. iter_model_usage_rows s (resolve_tenant_from_key H s x_api_key) (rr_model req) = Inr rows
     \<and> rp_adjusted reply = length (applied_rows req rows) \<and> rp_total reply = round_to 4 (total_adjustment req rows)
     \<and> (let g = global_key_for_write (resolve_tenant_from_key H s x_api_key) ''total_cost_usd'' in
        num0 (rget s' g) = num0 (rget s g) + total_adjustment req rows)
     \<and> (\<forall>row \<in> set rows. \<forall>p \<in> {mr_prefix row, mr_model_key row}.
          num0 (rget s' (p @ '':cost_usd'')) = num0 (rget s (p @ '':cost_usd''))
            + (if skipped req row then 0 else row_adjustment req row))"
proof -
  let ?t = "resolve_tenant_from_key H s x_api_key"
  obtain rows n acc where it: "iter_model_usage_rows s ?t (rr_model req) = Inr rows"
    and loop: "apply_rows ?t req rows 0 0 s = (Inr (n, acc), s')"
    and reply: "rp_adjusted reply = n" "rp_total reply = round_to 4 acc"
    by (rule apply_rerate_rows [OF assms])
  note wf = rows_wellformed [OF it]
  have "num0 (rget s' (p @ '':cost_usd'')) = num0 (rget s (p @ '':cost_usd'')) + (if skipped req row then 0 else row_adjustment req row)"
    if row: "row \<in> set rows" and p: "p \<in> {mr_prefix row, mr_model_key row}" for row p
  proof -
    have "sum_list (map (\<lambda>r. row_effect s ?t req r (p @ '':cost_usd'')) (filter (\<lambda>r. \<not> skipped req r) rows))
        = share (\<not> skipped req row) (row_adjustment req row)"
      using p wf(2) row effect_cost by (intro sum_effect [OF wf(1) row]) auto
    with apply_rows_effect(2) [OF loop] show ?thesis by (simp add: share_def)
  qed
  with it reply apply_rows_effect(1) [OF loop]
    apply_rows_effect(2) [OF loop, of "global_key_for_write ?t ''total_cost_usd''"]
  show ?thesis by (auto simp: effect_global applied_rows_def total_adjustment_def Let_def)
qed

text \<open>
  C25: a re-rate conserves credit. For every customer it goes over who has a budget, cost plus
  balance is the same after as before: what a price change adds to the cost it takes from the
  balance, and what it takes off the cost it credits back.
\<close>

theorem rerate_conserves_credit:
  assumes "apply_rerate E H c s x_api_key req = (Inr reply, s')"
    and "iter_model_usage_rows s (resolve_tenant_from_key H s x_api_key) (rr_model req) = Inr rows"
    and "row \<in> set rows" and "rexists s (balance_key s (resolve_tenant_from_key H s x_api_key) row)"
  shows "num0 (rget s' (mr_prefix row @ '':cost_usd''))
       + num0 (rget s' (balance_key s (resolve_tenant_from_key H s x_api_key) row))
     = num0 (rget s (mr_prefix row @ '':cost_usd''))
       + num0 (rget s (balance_key s (resolve_tenant_from_key H s x_api_key) row))"
proof -
  let ?t = "resolve_tenant_from_key H s x_api_key"
  obtain n acc where loop: "apply_rows ?t req rows 0 0 s = (Inr (n, acc), s')"
    using apply_rerate_rows [OF assms(1)] assms(2) by (metis sum.inject(2))
  note wf = rows_wellformed [OF assms(2)]
  have "sum_list (map (\<lambda>r. row_effect s ?t req r (mr_prefix row @ '':cost_usd'')) (filter (\<lambda>r. \<not> skipped req r) rows))
      = share (\<not> skipped req row) (row_adjustment req row)"
    using wf(2) assms(3) effect_cost by (intro sum_effect [OF wf(1) assms(3)]) auto
  moreover have "sum_list (map (\<lambda>r. row_effect s ?t req r (balance_key s ?t row)) (filter (\<lambda>r. \<not> skipped req r) rows))
      = share (\<not> skipped req row) (- row_adjustment req row)"
    using effect_balance assms(4)
    by (intro sum_effect [OF wf(1) assms(3), of _ "\<lambda>r. - row_adjustment req r"]) (auto simp: share_def)
  ultimately show ?thesis
    using apply_rows_effect(2) [OF loop, of "mr_prefix row @ '':cost_usd''"]
      apply_rows_effect(2) [OF loop, of "balance_key s ?t row"]
    by (simp add: share_def)
qed

section \<open>A concrete re-rate\<close>

definition demo_usage :: store where
  "demo_usage = empty_store\<lparr>kv := [(''customer:acme:model:m:input_tokens'', CInt 1000000),
     (''customer:acme:model:m:cost_usd'', CInt 3), (''customer:acme:cost_usd'', CInt 5),
     (''budget:acme:balance_usd'', CInt 10)]\<rparr>"

definition demo_request :: rerate_request where
  "demo_request = \<lparr>rr_model = ''m'', rr_old_input = 3, rr_new_input = 2, rr_old_output = 0, rr_new_output = 0,
     rr_start = None, rr_end = None\<rparr>"

definition demo_catalog :: catalog where
  "demo_catalog = \<lparr>version = JStr ''1'', cache_read_multiplier = 1,
     defaults = \<lparr>pricing_mode = ''flat'', input_per_m = 1, output_per_m = 1, embedding_per_m = 1, tiers = []\<rparr>,
     models = [], prefix_models = []\<rparr>"

definition demo_open_env :: auth_env where
  "demo_open_env = \<lparr>API_KEY = [], ADMIN_API_KEY = [], AUTH_OPTIONAL = True\<rparr>"

definition demo_row :: model_row where
  "demo_row = \<lparr>mr_customer = ''acme'', mr_model_key = ''customer:acme:model:m'', mr_prefix = ''customer:acme'',
     mr_input = 1000000, mr_output = 0, mr_tenant = False\<rparr>"

lemma demo_rows: "iter_model_usage_rows demo_usage None ''m'' = Inr [demo_row]"
  by (simp add: iter_model_usage_rows_def demo_usage_def demo_row_def scan_def empty_store_def
      parse_model_input_key_def model_row_of_def counter_def rget_def Let_def)

lemma demo_key: "resolve_tenant_from_key H s None = None" "require_admin_key demo_open_env None = Inr ()"
  by (simp_all add: resolve_tenant_from_key_def require_admin_key_def demo_open_env_def truthy_def is_admin_key_def
      check_global_key_def)

lemma demo_flat: "assert_flat_rerate demo_catalog ''m'' = Inr ()"
  by (simp add: assert_flat_rerate_def demo_catalog_def pricing_of_def normalize_model_id_def)

lemma demo_row_adjustment: "row_adjustment demo_request demo_row = - 1"
  by (simp add: row_adjustment_def demo_request_def demo_row_def)

lemma demo_not_skipped: "\<not> skipped demo_request demo_row" "rr_model demo_request = ''m''"
  by (simp_all add: skipped_def demo_row_adjustment) (simp add: demo_request_def)

lemma demo_apply:
  "\<exists>s'. apply_rerate demo_open_env H demo_catalog demo_usage None demo_request
     = (Inr \<lparr>rp_model = ''m'', rp_adjusted = 1, rp_total = round_to 4 (- 1), rp_status = ''applied''\<rparr>, s')"
proof -
  have "\<exists>s'. apply_row None demo_request demo_row demo_usage = (Inr (), s')"
    by (simp add: apply_row_def apply_model_cost_adjustment_def demo_row_adjustment)
       (simp add: demo_row_def demo_usage_def incrbyfloat_def rget_def empty_store_def global_key_for_write_def
        global_key_def num_cell_def budget_prefix_for_read_def budget_prefix_def rexists_def Let_def)
  then show ?thesis
    by (auto simp: apply_rerate_def demo_key demo_flat demo_rows demo_not_skipped demo_row_adjustment)
qed

theorem rerate_moves_costs_witness:
  "\<exists>s'. num0 (rget s' ''global:total_cost_usd'') = - 1 \<and> num0 (rget s' ''customer:acme:cost_usd'') = 4"
proof -
  obtain s' reply where run: "apply_rerate demo_open_env id demo_catalog demo_usage None demo_request = (Inr reply, s')"
    using demo_apply by blast
  show ?thesis
    using rerate_moves_costs [OF run]
    by (simp add: demo_key demo_rows demo_not_skipped applied_rows_def total_adjustment_def demo_row_adjustment
        global_key_for_write_def global_key_def Let_def)
       (auto simp: demo_row_def demo_usage_def rget_def empty_store_def)
qed

theorem rerate_conserves_credit_witness:
  "\<exists>s'. num0 (rget s' ''customer:acme:cost_usd'') + num0 (rget s' ''budget:acme:balance_usd'') = 15"
proof -
  obtain s' reply where run: "apply_rerate demo_open_env id demo_catalog demo_usage None demo_request = (Inr reply, s')"
    using demo_apply by blast
  have it: "iter_model_usage_rows demo_usage (resolve_tenant_from_key id demo_usage None) (rr_model demo_request) = Inr [demo_row]"
    by (simp add: demo_key demo_request_def demo_rows)
  have bk: "balance_key demo_usage None demo_row = ''budget:acme:balance_usd''"
    by (simp add: balance_key_def budget_prefix_for_read_def budget_prefix_def demo_row_def)
  show ?thesis
    using rerate_conserves_credit [OF run it, of demo_row]
    by (auto simp: demo_key bk) (auto simp: demo_row_def demo_usage_def rget_def rexists_def empty_store_def)
qed

end
