(* ===== verification/Billing_Export.thy ===== *)
theory Billing_Export
  imports Usage
begin

text \<open>
  \<^verbatim>\<open>src/api/billing_export.py\<close>: the periodic export of each linked customer's usage since the last
  report to Stripe, Metronome and Orb. The platforms are arguments: what each attempt to reach them
  comes to, and the log of what they were sent. The lemmas follow the counters of what was reported
  and compare them with that log.
\<close>

section \<open>Settings\<close>

record export_env =
  STRIPE_API_KEY :: string
  stripe_installed :: bool
  METRONOME_API_TOKEN :: string
  ORB_API_KEY :: string
  EXPORT_TARGETS :: string
  STRIPE_EXPORT_MODE :: string
  EXPORT_PERIOD :: string
  METER_EVENT_NAME :: string
  COST_METER_EVENT_NAME :: string
  METRONOME_BILLABLE_METRIC :: string
  ORB_EVENT_NAME :: string

text \<open>The client library is loaded when a key is configured and the package is there.\<close>

definition stripe_on :: "export_env \<Rightarrow> bool" where
  "stripe_on V \<longleftrightarrow> STRIPE_API_KEY V \<noteq> [] \<and> stripe_installed V"

definition cost_mode :: "export_env \<Rightarrow> bool" where
  "cost_mode V \<longleftrightarrow> STRIPE_EXPORT_MODE V = ''cost''"

definition export_targets :: "export_env \<Rightarrow> string list" where
  "export_targets V = map (py_lower \<circ> py_strip) (filter (\<lambda>t. py_strip t \<noteq> []) (split_on (CHR '','') (EXPORT_TARGETS V)))"

definition export_period_key :: "export_env \<Rightarrow> key" where
  "export_period_key V = ''billing:export:last_period:'' @ EXPORT_PERIOD V"

definition should_run_export_cycle :: "export_env \<Rightarrow> int \<Rightarrow> store \<Rightarrow> bool res" where
  "should_run_export_cycle V now_ms s =
     (if EXPORT_PERIOD V \<noteq> ''monthly'' then Inr True
      else bindE (billing_period_month now_ms) (\<lambda>current. Inr (rget s (export_period_key V) \<noteq> Some (CTxt current))))"

definition mark_export_cycle :: "export_env \<Rightarrow> int \<Rightarrow> store \<Rightarrow> store res" where
  "mark_export_cycle V now_ms s =
     (if EXPORT_PERIOD V = ''monthly''
      then bindE (billing_period_month now_ms) (\<lambda>p. Inr (rset s (export_period_key V) (CTxt p)))
      else Inr s)"

section \<open>Linked customers\<close>

definition platform_keys :: "(string \<times> string) list" where
  "platform_keys = [(''stripe'', ''stripe_customer_id''), (''metronome'', ''metronome_customer_id''),
     (''orb'', ''orb_customer_id'')]"

definition billing_key :: "string \<Rightarrow> string \<Rightarrow> key" where
  "billing_key customer_id f = ''billing:'' @ customer_id @ '':'' @ f"

definition link_customer_platform :: "store \<Rightarrow> string \<Rightarrow> string \<Rightarrow> cell \<Rightarrow> store res" where
  "link_customer_platform s customer_id platform external_customer_id =
     (case map_of platform_keys (py_lower platform) of
        None \<Rightarrow> Inl ValueError
      | Some f \<Rightarrow> Inr (rset s (billing_key customer_id f) external_customer_id))"

definition link_customer_stripe :: "store \<Rightarrow> string \<Rightarrow> cell \<Rightarrow> store res" where
  "link_customer_stripe s customer_id stripe_customer_id =
     link_customer_platform s customer_id ''stripe'' stripe_customer_id"

definition discover_billable_customers :: "store \<Rightarrow> string list" where
  "discover_billable_customers s =
     (let found = concat (map (\<lambda>(p, f). scan s (''billing:*:'' @ f)) platform_keys);
          parts = map (split_on (CHR '':'')) found
      in sort (remdups (map (\<lambda>ws. ws ! 1) (filter (\<lambda>ws. 3 \<le> length ws) parts))))"

record export_usage =
  xu_customer :: string
  xu_stripe :: "cell option"
  xu_metronome :: "cell option"
  xu_orb :: "cell option"
  xu_new_events :: int
  xu_total_events :: int
  xu_new_input :: int
  xu_new_output :: int
  xu_total_input :: int
  xu_total_output :: int
  xu_total_cost :: rat
  xu_new_cost :: rat

definition collect_customer_usage :: "store \<Rightarrow> string \<Rightarrow> string option \<Rightarrow> export_usage option res" where
  "collect_customer_usage s customer_id tenant_id =
     (let stripe = rget s (billing_key customer_id ''stripe_customer_id'');
          metronome = rget s (billing_key customer_id ''metronome_customer_id'');
          orb = rget s (billing_key customer_id ''orb_customer_id'')
      in if \<not> cell_true stripe \<and> \<not> cell_true metronome \<and> \<not> cell_true orb then Inr None
         else bindE (customer_counters s tenant_id customer_id) (\<lambda>x.
              bindE (int_or0 (rget s (billing_key customer_id ''last_reported_events''))) (\<lambda>last_events.
              bindE (int_or0 (rget s (billing_key customer_id ''last_reported_input_tokens''))) (\<lambda>last_input.
              bindE (int_or0 (rget s (billing_key customer_id ''last_reported_output_tokens''))) (\<lambda>last_output.
              bindE (float_or0 (rget s (billing_key customer_id ''last_reported_cost_usd''))) (\<lambda>last_cost.
                Inr (Some
                  \<lparr>xu_customer = customer_id, xu_stripe = stripe, xu_metronome = metronome, xu_orb = orb,
                   xu_new_events = max 0 (xc_events x - last_events), xu_total_events = xc_events x,
                   xu_new_input = max 0 (xc_input x - last_input), xu_new_output = max 0 (xc_output x - last_output),
                   xu_total_input = xc_input x, xu_total_output = xc_output x, xu_total_cost = xc_cost x,
                   xu_new_cost = max 0 (xc_cost x - last_cost)\<rparr>)))))))"

section \<open>Reports\<close>

definition export_value :: "export_env \<Rightarrow> export_usage \<Rightarrow> int" where
  "export_value V u = (if cost_mode V then py_round (xu_new_cost u * 100) else xu_new_events u)"

definition meter_event_name :: "export_env \<Rightarrow> string" where
  "meter_event_name V = (if cost_mode V then COST_METER_EVENT_NAME V else METER_EVENT_NAME V)"

text \<open>\<open>strftime("%Y%m%d%H")\<close> and \<open>isoformat()\<close> of a UTC time in seconds.\<close>

definition utc_hour_text :: "int \<Rightarrow> string res" where
  "utc_hour_text now =
     (case ymd (now div 86400) of (y, m, d) \<Rightarrow>
        if y < 1 \<or> 9999 < y then Inl ValueError
        else Inr (pad0 4 (int_str y) @ pad0 2 (nat_str m) @ pad0 2 (nat_str d) @ pad0 2 (int_str (now mod 86400 div 3600))))"

definition utc_iso_text :: "int \<Rightarrow> string res" where
  "utc_iso_text now =
     bindE (billing_period_day (now * 1000)) (\<lambda>day.
       let sec = now mod 86400 in
       Inr (day @ ''T'' @ pad0 2 (int_str (sec div 3600)) @ '':'' @ pad0 2 (int_str (sec mod 3600 div 60)) @ '':''
            @ pad0 2 (int_str (sec mod 60)) @ ''+00:00''))"

definition idempotency_key :: "export_env \<Rightarrow> string \<Rightarrow> int \<Rightarrow> string res" where
  "idempotency_key V customer_id now =
     bindE (if EXPORT_PERIOD V = ''monthly'' then billing_period_month (now * 1000) else utc_hour_text now) (\<lambda>period.
       Inr (''fluxmeter-'' @ customer_id @ ''-'' @ period @ ''-'' @ STRIPE_EXPORT_MODE V))"

text \<open>What an attempt to reach a platform comes to; what a platform has taken in.\<close>

datatype attempt = Delivered | HttpFailure nat | OtherFailure

datatype bill_body =
    Meter string int
  | MetronomeCost rat
  | MetronomeCounts int int int
  | OrbEvents "(string \<times> string \<times> int) list"

record bill =
  bl_customer :: string
  bl_external :: "cell option"
  bl_name :: string
  bl_time :: string
  bl_id :: string
  bl_body :: bill_body

text \<open>Up to \<open>max_attempts\<close> attempts; a status that is not worth a retry ends them.\<close>

fun stripe_retry :: "nat \<Rightarrow> attempt list \<Rightarrow> bool" where
  "stripe_retry 0 outs = False"
| "stripe_retry (Suc n) [] = False"
| "stripe_retry (Suc n) (out # outs) =
     (case out of
        Delivered \<Rightarrow> True
      | HttpFailure status \<Rightarrow> if status \<notin> set [429, 500, 502, 503, 504] then False else stripe_retry n outs
      | OtherFailure \<Rightarrow> stripe_retry n outs)"

text \<open>The outcomes of an export: the attempts at Stripe, and whether the others took their report.\<close>

record outcomes_of_export =
  oe_stripe :: "attempt list"
  oe_metronome :: bool
  oe_orb :: bool

text \<open>Each report: None when it raised, otherwise the bills it delivered (none when it was skipped).\<close>

definition report_to_stripe :: "export_env \<Rightarrow> attempt list \<Rightarrow> export_usage \<Rightarrow> int \<Rightarrow> int \<Rightarrow> bill list option" where
  "report_to_stripe V outs u val now =
     (if val \<le> 0 then Some []
      else if \<not> stripe_on V then Some []
      else if stripe_retry 3 outs
        then Some [\<lparr>bl_customer = xu_customer u, bl_external = xu_stripe u, bl_name = meter_event_name V,
                    bl_time = int_str now, bl_id = [], bl_body = Meter (meter_event_name V) val\<rparr>]
      else None)"

definition report_to_metronome :: "export_env \<Rightarrow> bool \<Rightarrow> export_usage \<Rightarrow> string \<Rightarrow> string \<Rightarrow> bill list option" where
  "report_to_metronome V up u timestamp_iso transaction_id =
     (let send = (\<lambda>body. if up then Some [\<lparr>bl_customer = xu_customer u, bl_external = xu_metronome u,
                      bl_name = METRONOME_BILLABLE_METRIC V, bl_time = timestamp_iso, bl_id = transaction_id, bl_body = body\<rparr>]
                    else None) in
      if METRONOME_API_TOKEN V = [] then Some []
      else if cost_mode V then (if xu_new_cost u \<le> 0 then Some [] else send (MetronomeCost (xu_new_cost u)))
      else if xu_new_events u \<le> 0 \<and> xu_new_input u \<le> 0 then Some []
      else send (MetronomeCounts (xu_new_input u) (xu_new_output u) (xu_new_events u)))"

definition orb_events :: "export_env \<Rightarrow> export_usage \<Rightarrow> string \<Rightarrow> (string \<times> string \<times> int) list" where
  "orb_events V u ikey =
     (if cost_mode V
      then (let cents = py_round (xu_new_cost u * 100) in
            if cents \<le> 0 then [] else [(ikey @ ''-cost'', ''cost_usd_cents'', cents)])
      else (if xu_new_input u > 0 then [(ikey @ ''-input'', ''input'', xu_new_input u)] else [])
         @ (if xu_new_output u > 0 then [(ikey @ ''-output'', ''output'', xu_new_output u)] else []))"

definition report_to_orb :: "export_env \<Rightarrow> bool \<Rightarrow> export_usage \<Rightarrow> string \<Rightarrow> string \<Rightarrow> bill list option" where
  "report_to_orb V up u timestamp_iso ikey =
     (if ORB_API_KEY V = [] then Some []
      else let events = orb_events V u ikey in
        if events = [] then Some []
        else if up then Some [\<lparr>bl_customer = xu_customer u, bl_external = xu_orb u, bl_name = ORB_EVENT_NAME V,
                               bl_time = timestamp_iso, bl_id = ikey, bl_body = OrbEvents events\<rparr>]
        else None)"

definition has_exportable_delta :: "export_env \<Rightarrow> export_usage \<Rightarrow> bool" where
  "has_exportable_delta V u =
     (if cost_mode V then xu_new_cost u > 0
      else xu_new_events u > 0 \<or> xu_new_input u > 0 \<or> xu_new_output u > 0)"

definition mark_customer_reported :: "store \<Rightarrow> export_usage \<Rightarrow> store" where
  "mark_customer_reported s u =
     (let cid = xu_customer u in
      set_all s [(billing_key cid ''last_reported_events'', CInt (xu_total_events u)),
                 (billing_key cid ''last_reported_cost_usd'', CFlt (xu_total_cost u)),
                 (billing_key cid ''last_reported_input_tokens'', CInt (xu_total_input u)),
                 (billing_key cid ''last_reported_output_tokens'', CInt (xu_total_output u))])"

section \<open>Exporting\<close>

record exporter =
  ex_db :: store
  ex_bills :: "bill list"

text \<open>The targets that are enabled and linked, in the order they are tried, with what each report comes to.\<close>

definition target_reports ::
  "export_env \<Rightarrow> outcomes_of_export \<Rightarrow> export_usage \<Rightarrow> string list \<Rightarrow> int \<Rightarrow> string \<Rightarrow> string \<Rightarrow> bill list option list" where
  "target_reports V oc u targets now stamp txn =
     (if ''stripe'' \<in> set targets \<and> cell_true (xu_stripe u) \<and> export_value V u > 0
      then [report_to_stripe V (oe_stripe oc) u (export_value V u) now] else [])
     @ (if ''metronome'' \<in> set targets \<and> cell_true (xu_metronome u)
        then [report_to_metronome V (oe_metronome oc) u stamp txn] else [])
     @ (if ''orb'' \<in> set targets \<and> cell_true (xu_orb u) then [report_to_orb V (oe_orb oc) u stamp txn] else [])"

definition export_customer_to_targets ::
  "export_env \<Rightarrow> outcomes_of_export \<Rightarrow> exporter \<Rightarrow> export_usage \<Rightarrow> string list \<Rightarrow> int \<Rightarrow> nat res \<times> exporter" where
  "export_customer_to_targets V oc x u targets now =
     (if \<not> has_exportable_delta V u then (Inr 0, x)
      else (case bindE (utc_iso_text now) (\<lambda>stamp. bindE (idempotency_key V (xu_customer u) now) (\<lambda>txn. Inr (stamp, txn))) of
              Inl e \<Rightarrow> (Inl e, x)
            | Inr (stamp, txn) \<Rightarrow>
                let reports = target_reports V oc u targets now stamp txn;
                    delivered = filter (\<lambda>r. r \<noteq> None) reports;
                    x1 = x\<lparr>ex_bills := ex_bills x @ concat (map the delivered)\<rparr>
                in (Inr (length delivered),
                    if delivered \<noteq> [] then x1\<lparr>ex_db := mark_customer_reported (ex_db x1) u\<rparr> else x1)))"

definition export_enabled :: "export_env \<Rightarrow> bool" where
  "export_enabled V \<longleftrightarrow>
     (let targets = export_targets V in
      ''stripe'' \<in> set targets \<and> STRIPE_API_KEY V \<noteq> [] \<or> ''metronome'' \<in> set targets \<and> METRONOME_API_TOKEN V \<noteq> []
      \<or> ''orb'' \<in> set targets \<and> ORB_API_KEY V \<noteq> [])"

fun export_all ::
  "export_env \<Rightarrow> (string \<Rightarrow> outcomes_of_export) \<Rightarrow> string list \<Rightarrow> int \<Rightarrow> string list \<Rightarrow> nat \<Rightarrow> exporter \<Rightarrow> nat res \<times> exporter" where
  "export_all V outs targets now [] n x = (Inr n, x)"
| "export_all V outs targets now (cid # cids) n x =
     (case collect_customer_usage (ex_db x) cid None of
        Inl e \<Rightarrow> (Inl e, x)
      | Inr None \<Rightarrow> export_all V outs targets now cids n x
      | Inr (Some u) \<Rightarrow>
          (case export_customer_to_targets V (outs cid) x u targets now of
             (Inl e, x1) \<Rightarrow> (Inl e, x1)
           | (Inr k, x1) \<Rightarrow> export_all V outs targets now cids (if k > 0 then n + 1 else n) x1))"

text \<open>One turn of the loop after its sleep; an exception is logged and the next turn starts over. The clock is read before, in and
  after the export.\<close>

definition export_turn ::
  "export_env \<Rightarrow> (string \<Rightarrow> outcomes_of_export) \<Rightarrow> int \<Rightarrow> int \<Rightarrow> int \<Rightarrow> exporter \<Rightarrow> nat res \<times> exporter" where
  "export_turn V outs start_ms now end_ms x =
     (case should_run_export_cycle V start_ms (ex_db x) of
        Inl e \<Rightarrow> (Inl e, x)
      | Inr False \<Rightarrow> (Inr 0, x)
      | Inr True \<Rightarrow>
          (case export_all V outs (export_targets V) now (discover_billable_customers (ex_db x)) 0 x of
             (Inl e, x1) \<Rightarrow> (Inl e, x1)
           | (Inr n, x1) \<Rightarrow>
               if n > 0 then (case mark_export_cycle V end_ms (ex_db x1) of
                                Inl e \<Rightarrow> (Inl e, x1) | Inr s \<Rightarrow> (Inr n, x1\<lparr>ex_db := s\<rparr>))
               else (Inr 0, x1)))"

section \<open>What was billed and what was counted\<close>

definition events_billed :: "bill_body \<Rightarrow> int" where
  "events_billed b = (case b of Meter n k \<Rightarrow> k | MetronomeCounts i j k \<Rightarrow> k | _ \<Rightarrow> 0)"

definition billed :: "string \<Rightarrow> bill list \<Rightarrow> int" where
  "billed c bs = sum_list (map (\<lambda>b. if bl_customer b = c then events_billed (bl_body b) else 0) bs)"

definition reported :: "store \<Rightarrow> string \<Rightarrow> int" where
  "reported s c = ok_or 0 (int_or0 (rget s (billing_key c ''last_reported_events'')))"

definition counted_events :: "store \<Rightarrow> string \<Rightarrow> int" where
  "counted_events s c = ok_or 0 (int_or0 (rget s (''customer:'' @ c @ '':event_count'')))"

text \<open>
  The one target: Metronome with a token, or Stripe with its client, both billed by events.
\<close>

definition single_target :: "export_env \<Rightarrow> bool" where
  "single_target V \<longleftrightarrow> \<not> cost_mode V
     \<and> (export_targets V = [''metronome''] \<and> METRONOME_API_TOKEN V \<noteq> [] \<or> export_targets V = [''stripe''] \<and> stripe_on V)"

lemma billed_simps [simp]: "billed c [] = 0" "billed c (bs @ bs') = billed c bs + billed c bs'"
  by (simp_all add: billed_def)

lemma billing_key_eq:
  "plain f \<Longrightarrow> plain f' \<Longrightarrow> billing_key c f = billing_key c' f' \<longleftrightarrow> c = c' \<and> f = f'"
  using plain_last [of f f' c c'] by (auto simp: billing_key_def)

lemma billing_key_customer [simp]: "billing_key c f \<noteq> CHR ''c'' # r" "CHR ''c'' # r \<noteq> billing_key c f"
  by (simp_all add: billing_key_def)

lemma marked:
  "reported (mark_customer_reported s u) c = (if c = xu_customer u then xu_total_events u else reported s c)"
  "counted_events (mark_customer_reported s u) c = counted_events s c"
  by (auto simp: reported_def counted_events_def mark_customer_reported_def Let_def rget_set_all map_of_Cons_code billing_key_eq
      simp flip: append.assoc split: option.split)

lemma cycle_marked:
  assumes "mark_export_cycle V t s = Inr s'"
  shows "reported s' c = reported s c" and "counted_events s' c = counted_events s c"
proof -
  have "export_period_key V = billing_key ''export:last_period'' ''monthly''" if "EXPORT_PERIOD V = ''monthly''"
    using that by (simp add: export_period_key_def billing_key_def)
  then show "reported s' c = reported s c" "counted_events s' c = counted_events s c"
    using assms by (auto simp: mark_export_cycle_def reported_def counted_events_def billing_key_eq split: if_splits)
qed

lemma collected:
  assumes "collect_customer_usage s c None = Inr (Some u)"
  shows "xu_customer u = c" and "xu_total_events u = counted_events s c"
    and "xu_new_events u = max 0 (counted_events s c - reported s c)"
  using assms
  by (auto simp: collect_customer_usage_def customer_counters_def counter_def counted_events_def reported_def
      customer_prefix_for_read_def customer_prefix_def Let_def split: if_splits)

text \<open>With one target a report comes to nothing, or to bills over exactly the new events.\<close>

lemma single_report:
  assumes V: "single_target V" and nn: "0 \<le> xu_new_events u"
    and r: "Some bs \<in> set (target_reports V oc u (export_targets V) now stamp txn)"
  shows "target_reports V oc u (export_targets V) now stamp txn = [Some bs]"
    and "billed c bs = (if c = xu_customer u then xu_new_events u else 0)"
proof -
  from V consider (m) "export_targets V = [''metronome'']" "METRONOME_API_TOKEN V \<noteq> []" "\<not> cost_mode V"
    | (st) "export_targets V = [''stripe'']" "stripe_on V" "\<not> cost_mode V"
    by (auto simp: single_target_def)
  then have "target_reports V oc u (export_targets V) now stamp txn = [Some bs]
      \<and> billed c bs = (if c = xu_customer u then xu_new_events u else 0)"
  proof cases
    case m
    then show ?thesis using r nn
      by (auto simp: target_reports_def report_to_metronome_def billed_def events_billed_def Let_def split: if_splits)
  next
    case st
    then show ?thesis using r nn
      by (auto simp: target_reports_def report_to_stripe_def billed_def events_billed_def export_value_def split: if_splits)
  qed
  then show "target_reports V oc u (export_targets V) now stamp txn = [Some bs]"
    and "billed c bs = (if c = xu_customer u then xu_new_events u else 0)" by simp_all
qed

text \<open>The invariant: what was billed is what was recorded as reported, and no more than was counted.\<close>

definition billing_inv :: "exporter \<Rightarrow> bool" where
  "billing_inv x \<longleftrightarrow> (\<forall>c. billed c (ex_bills x) = reported (ex_db x) c \<and> reported (ex_db x) c \<le> counted_events (ex_db x) c)"

lemma export_customer_inv:
  assumes V: "single_target V" and inv: "billing_inv x"
    and u: "collect_customer_usage (ex_db x) cid None = Inr (Some u)"
    and run: "export_customer_to_targets V oc x u (export_targets V) now = (r, x1)"
  shows "billing_inv x1"
proof -
  note c = collected [OF u]
  have le: "reported (ex_db x) cid \<le> counted_events (ex_db x) cid" and eq: "billed cid (ex_bills x) = reported (ex_db x) cid"
    using inv by (simp_all add: billing_inv_def)
  have nn: "0 \<le> xu_new_events u" by (simp add: c)
  show ?thesis
  proof (cases "x1 = x")
    case False
    then obtain stamp txn bs where mem: "Some bs \<in> set (target_reports V oc u (export_targets V) now stamp txn)"
      and x1: "x1 = x\<lparr>ex_bills := ex_bills x @ concat (map the (filter (\<lambda>r. r \<noteq> None) (target_reports V oc u (export_targets V) now stamp txn))),
                 ex_db := mark_customer_reported (ex_db x) u\<rparr>"
      using run by (auto simp: export_customer_to_targets_def Let_def filter_empty_conv split: if_splits sum.splits)
    from x1 have x1: "x1 = x\<lparr>ex_bills := ex_bills x @ bs, ex_db := mark_customer_reported (ex_db x) u\<rparr>"
      by (simp add: single_report(1) [OF V nn mem])
    show ?thesis
      using inv le eq unfolding billing_inv_def
      by (simp add: x1 marked single_report(2) [OF V nn mem] c)
  qed (use inv in simp)
qed

lemma export_all_inv:
  "single_target V \<Longrightarrow> billing_inv x \<Longrightarrow> export_all V outs (export_targets V) now cids n x = (r, x1) \<Longrightarrow> billing_inv x1"
proof (induction cids arbitrary: n x)
  case (Cons cid cids)
  show ?case
  proof (cases "collect_customer_usage (ex_db x) cid None")
    case (Inr ou)
    show ?thesis
    proof (cases ou)
      case (Some u)
      obtain r1 x2 where one: "export_customer_to_targets V (outs cid) x u (export_targets V) now = (r1, x2)" by fastforce
      have "billing_inv x2" by (rule export_customer_inv [OF Cons.prems(1,2) Inr [unfolded Some] one])
      with Cons Inr Some one show ?thesis by (cases r1) auto
    qed (use Cons Inr in simp)
  qed (use Cons in simp)
qed simp

lemma export_turn_inv:
  assumes "single_target V" and "billing_inv x" and "export_turn V outs a now b x = (r, x1)"
  shows "billing_inv x1"
proof -
  obtain r2 x2 where all: "export_all V outs (export_targets V) now (discover_billable_customers (ex_db x)) 0 x = (r2, x2)"
    by fastforce
  note inv2 = export_all_inv [OF assms(1,2) all]
  show ?thesis
    using assms(2,3) inv2 all cycle_marked
    by (auto simp: export_turn_def billing_inv_def split: sum.splits bool.splits if_splits)
qed

text \<open>
  The engine counts, the exporter exports: counting leaves the billing records alone and never
  lowers a customer's event count.
\<close>

inductive billing_step :: "export_env \<Rightarrow> exporter \<Rightarrow> exporter \<Rightarrow> bool" for V where
  count: "(\<And>c f. rget s (billing_key c f) = rget (ex_db x) (billing_key c f)) \<Longrightarrow>
    (\<And>c. counted_events (ex_db x) c \<le> counted_events s c) \<Longrightarrow> billing_step V x (x\<lparr>ex_db := s\<rparr>)"
| turn: "export_turn V outs a now b x = (r, x1) \<Longrightarrow> billing_step V x x1"

lemma billing_step_inv: "billing_step V x x1 \<Longrightarrow> single_target V \<Longrightarrow> billing_inv x \<Longrightarrow> billing_inv x1"
proof (induction rule: billing_step.induct)
  case (count s x)
  then show ?case
    by (fastforce simp: billing_inv_def reported_def intro: order_trans)
next
  case (turn outs a now b x r x1)
  then show ?case using export_turn_inv by blast
qed


section \<open>Concrete exports\<close>

definition demo_export_env :: "string \<Rightarrow> export_env" where
  "demo_export_env targets = \<lparr>STRIPE_API_KEY = ''sk'', stripe_installed = True, METRONOME_API_TOKEN = ''tok'', ORB_API_KEY = [],
     EXPORT_TARGETS = targets, STRIPE_EXPORT_MODE = ''events'', EXPORT_PERIOD = ''hourly'', METER_EVENT_NAME = ''e'',
     COST_METER_EVENT_NAME = ''c'', METRONOME_BILLABLE_METRIC = ''u'', ORB_EVENT_NAME = ''u''\<rparr>"

definition demo_linked :: exporter where
  "demo_linked = \<lparr>ex_db = empty_store\<lparr>kv := [(''billing:acme:metronome_customer_id'', CTxt ''m1''),
     (''billing:acme:stripe_customer_id'', CTxt ''s1''), (''customer:acme:event_count'', CInt 7)]\<rparr>, ex_bills = []\<rparr>"

definition demo_outcomes :: "bool \<Rightarrow> string \<Rightarrow> outcomes_of_export" where
  "demo_outcomes up c = \<lparr>oe_stripe = [Delivered], oe_metronome = up, oe_orb = True\<rparr>"

lemma demo_fields [simp]:
  "STRIPE_API_KEY (demo_export_env t) = ''sk''" "stripe_installed (demo_export_env t)" "METRONOME_API_TOKEN (demo_export_env t) = ''tok''"
  "STRIPE_EXPORT_MODE (demo_export_env t) = ''events''" "EXPORT_PERIOD (demo_export_env t) = ''hourly''"
  "\<not> cost_mode (demo_export_env t)" "stripe_on (demo_export_env t)"
  by (simp_all add: demo_export_env_def cost_mode_def stripe_on_def)

lemma demo_times: "utc_iso_text 0 = Inr ''1970-01-01T00:00:00+00:00''" "utc_hour_text 0 = Inr ''1970010100''"
  by code_simp+

lemma demo_targets:
  "export_targets (demo_export_env ''metronome'') = [''metronome'']"
  "export_targets (demo_export_env ''stripe, Metronome'') = [''stripe'', ''metronome'']"
  by code_simp+

definition demo_usage_of :: export_usage where
  "demo_usage_of = \<lparr>xu_customer = ''acme'', xu_stripe = Some (CTxt ''s1''), xu_metronome = Some (CTxt ''m1''), xu_orb = None,
     xu_new_events = 7, xu_total_events = 7, xu_new_input = 0, xu_new_output = 0, xu_total_input = 0, xu_total_output = 0,
     xu_total_cost = 0, xu_new_cost = 0\<rparr>"

lemma demo_discover: "discover_billable_customers (ex_db demo_linked) = [''acme'']"
  by (simp add: discover_billable_customers_def demo_linked_def scan_def platform_keys_def empty_store_def)

lemma demo_collect: "collect_customer_usage (ex_db demo_linked) ''acme'' None = Inr (Some demo_usage_of)"
  by (simp add: collect_customer_usage_def demo_linked_def rget_def empty_store_def billing_key_def demo_usage_of_def
      customer_counters_def counter_def amount_def customer_prefix_for_read_def customer_prefix_def)

lemma demo_key_of: "idempotency_key (demo_export_env t) ''acme'' 0 = Inr ''fluxmeter-acme-1970010100-events''"
  by (simp add: idempotency_key_def demo_times)

lemma demo_export:
  "ex_db (snd (export_turn (demo_export_env t) (demo_outcomes up) 0 0 0 demo_linked)) = mark_customer_reported (ex_db demo_linked) demo_usage_of"
  if "filter (\<lambda>r. r \<noteq> None) (target_reports (demo_export_env t) (demo_outcomes up ''acme'') demo_usage_of (export_targets (demo_export_env t)) 0
        ''1970-01-01T00:00:00+00:00'' ''fluxmeter-acme-1970010100-events'') \<noteq> []"
  using that
  by (simp add: export_turn_def should_run_export_cycle_def mark_export_cycle_def demo_discover demo_collect
      export_customer_to_targets_def demo_times demo_key_of has_exportable_delta_def
      demo_usage_of_def [THEN arg_cong, of xu_new_events] demo_usage_of_def [THEN arg_cong, of xu_customer] Let_def)


text \<open>
  With two platforms one delivered report marks the usage as reported for both: when Metronome is
  down while Stripe takes its report, the next export finds nothing left for Metronome.
\<close>

lemma partial_failure_marks_reported:
  "reported (ex_db (snd (export_turn (demo_export_env ''stripe, Metronome'') (demo_outcomes False) 0 0 0 demo_linked))) ''acme'' = 7"
proof -
  have "ex_db (snd (export_turn (demo_export_env ''stripe, Metronome'') (demo_outcomes False) 0 0 0 demo_linked))
      = mark_customer_reported (ex_db demo_linked) demo_usage_of"
    by (rule demo_export)
      (simp add: demo_targets target_reports_def demo_usage_of_def report_to_stripe_def demo_outcomes_def export_value_def
        numeral_3_eq_3)
  then show ?thesis by (simp add: marked demo_usage_of_def)
qed

text \<open>Without a token a report is skipped, and yet the usage is marked as reported.\<close>

lemma unconfigured_target_marks_reported:
  assumes "METRONOME_API_TOKEN V = []" and "cell_true (xu_metronome u)" and "has_exportable_delta V u"
    and "export_customer_to_targets V oc x u [''metronome''] now = (Inr n, x1)"
  shows "ex_db x1 = mark_customer_reported (ex_db x) u \<and> ex_bills x1 = ex_bills x"
  using assms
  by (auto simp: export_customer_to_targets_def target_reports_def report_to_metronome_def Let_def split: sum.splits)

end
