(* ===== verification/Api_Endpoints.thy ===== *)
theory Api_Endpoints
  imports Rerate Budget_Facts Reservation Billing_Export
begin

text \<open>
  The HTTP endpoints of \<^verbatim>\<open>src/api/main.py\<close> over usage, budgets, holds, caps, webhooks, billing links,
  API keys and pricing. An endpoint is its checks in their order, the operation of the component it
  calls, and the mapping of that operation's errors to HTTP errors. Requests are a datatype, and
  \<open>serve\<close> dispatches them, as the routes do.

  The lemmas show what a caller without the admin key can change, and that a read changes nothing.
\<close>

section \<open>State and surroundings\<close>

record api_state =
  ap_budget :: budget_state
  ap_catalog :: "catalog option"

abbreviation ap_db :: "api_state \<Rightarrow> store" where
  "ap_db st \<equiv> db (ap_budget st)"

definition with_db :: "api_state \<Rightarrow> store \<Rightarrow> api_state" where
  "with_db st s = st\<lparr>ap_budget := (ap_budget st)\<lparr>db := s\<rparr>\<rparr>"

record api_env =
  ae_auth :: auth_env
  ae_digest :: digest
  ae_dims :: "string list"
  ae_fail_policy :: string
  ae_pricing_file :: "json option"
  ae_redis_up :: bool
  ae_now :: rat
  ae_uuid :: string
  ae_token :: string

definition caller_tenant :: "api_env \<Rightarrow> store \<Rightarrow> string option \<Rightarrow> string option" where
  "caller_tenant A s api_key = resolve_tenant_from_key (ae_digest A) s api_key"

definition as_reader :: "api_env \<Rightarrow> store \<Rightarrow> string option \<Rightarrow> 'a res \<Rightarrow> 'a res" where
  "as_reader A s api_key m = bindE (require_api_key (ae_auth A) (ae_digest A) s api_key) (\<lambda>_. m)"

definition as_customer :: "api_env \<Rightarrow> store \<Rightarrow> string option \<Rightarrow> string \<Rightarrow> 'a res \<Rightarrow> 'a res" where
  "as_customer A s api_key customer_id m =
     bindE (require_customer_access (ae_auth A) (ae_digest A) s customer_id api_key) (\<lambda>_. m)"

definition as_admin :: "api_env \<Rightarrow> string option \<Rightarrow> api_state \<Rightarrow> 'a res \<times> api_state \<Rightarrow> 'a res \<times> api_state" where
  "as_admin A api_key st f = (case require_admin_key (ae_auth A) api_key of Inl e \<Rightarrow> (Inl e, st) | Inr _ \<Rightarrow> f)"

text \<open>\<open>None\<close> is answered with 404.\<close>

definition or_404 :: "'a option res \<Rightarrow> 'a res" where
  "or_404 m = bindE m (\<lambda>v. case v of None \<Rightarrow> Inl (HTTPException 404) | Some x \<Rightarrow> Inr x)"

section \<open>Usage\<close>

definition get_global_usage :: "api_env \<Rightarrow> store \<Rightarrow> string option \<Rightarrow> global_usage res" where
  "get_global_usage A s api_key = as_reader A s api_key (get_global s (caller_tenant A s api_key))"

definition get_customer_usage :: "api_env \<Rightarrow> store \<Rightarrow> string option \<Rightarrow> string \<Rightarrow> customer_usage res" where
  "get_customer_usage A s api_key customer_id =
     as_reader A s api_key (or_404 (get_customer s (caller_tenant A s api_key) customer_id))"

definition get_customer_model_usage :: "api_env \<Rightarrow> store \<Rightarrow> string option \<Rightarrow> string \<Rightarrow> string \<Rightarrow> model_usage res" where
  "get_customer_model_usage A s api_key customer_id model_id =
     as_reader A s api_key (or_404 (get_customer_model s (caller_tenant A s api_key) customer_id model_id))"

record bucket_response =
  bu_customer :: string
  bu_bucket :: string
  bu_usage :: usage_bucket

definition digits :: "string \<Rightarrow> bool" where
  "digits w = list_all (\<lambda>c. digit_val c \<noteq> None) w"

definition is_month :: "string \<Rightarrow> bool" where
  "is_month w \<longleftrightarrow> length w = 7 \<and> digits (take 4 w) \<and> w ! 4 = CHR ''-'' \<and> digits (drop 5 w)"

definition is_date :: "string \<Rightarrow> bool" where
  "is_date w \<longleftrightarrow> length w = 10 \<and> is_month (take 7 w) \<and> w ! 7 = CHR ''-'' \<and> digits (drop 8 w)"

definition bucket_usage_response :: "string \<Rightarrow> string \<Rightarrow> usage_bucket \<Rightarrow> bucket_response" where
  "bucket_usage_response customer_id bucket d = \<lparr>bu_customer = customer_id, bu_bucket = bucket, bu_usage = d\<rparr>"

definition get_customer_period_usage :: "api_env \<Rightarrow> store \<Rightarrow> string option \<Rightarrow> string \<Rightarrow> string \<Rightarrow> bucket_response res" where
  "get_customer_period_usage A s api_key customer_id period =
     as_reader A s api_key
       (if \<not> is_month period then Inl (HTTPException 400)
        else bindE (or_404 (read_usage_bucket s (rollup_month_key customer_id period)))
               (\<lambda>d. Inr (bucket_usage_response customer_id period d)))"

definition get_customer_day_usage :: "api_env \<Rightarrow> store \<Rightarrow> string option \<Rightarrow> string \<Rightarrow> string \<Rightarrow> bucket_response res" where
  "get_customer_day_usage A s api_key customer_id date =
     as_reader A s api_key
       (if \<not> is_date date then Inl (HTTPException 400)
        else bindE (or_404 (read_usage_bucket s (rollup_day_key customer_id date)))
               (\<lambda>d. Inr (bucket_usage_response customer_id date d)))"

definition get_session_usage :: "api_env \<Rightarrow> store \<Rightarrow> string option \<Rightarrow> string \<Rightarrow> (cell option \<times> usage_bucket) res" where
  "get_session_usage A s api_key session_id =
     as_reader A s api_key
       (bindE (or_404 (read_session s session_id (caller_tenant A s api_key))) (\<lambda>(c, d).
          if cell_true c then as_customer A s api_key (cell_text c) (Inr (c, d)) else Inr (c, d)))"

definition get_dim_usage :: "api_env \<Rightarrow> store \<Rightarrow> string option \<Rightarrow> string \<Rightarrow> string \<Rightarrow> string option \<Rightarrow> (rat \<times> int) res" where
  "get_dim_usage A s api_key dim_key dim_value period =
     as_reader A s api_key
       (if (case truthy period of None \<Rightarrow> False | Some p \<Rightarrow> \<not> is_month p) then Inl (HTTPException 400)
        else or_404 (read_dim_usage (ae_dims A) s dim_key dim_value period))"

record span_usage =
  sp_customer :: "cell option"
  sp_tokens :: int
  sp_calls :: int
  sp_cost :: rat
  sp_duration :: int

definition get_span_usage :: "api_env \<Rightarrow> store \<Rightarrow> string option \<Rightarrow> string \<Rightarrow> span_usage res" where
  "get_span_usage A s api_key span_id =
     as_reader A s api_key
       (bindE (scope_prefix_for_read s (caller_tenant A s api_key) ''span'' span_id) (\<lambda>k.
        case rget s (k @ '':cost_usd'') of
          None \<Rightarrow> Inl (HTTPException 404)
        | Some cost \<Rightarrow>
            bindE (counter s k ''total_tokens'') (\<lambda>tt.
            bindE (counter s k ''call_count'') (\<lambda>calls.
            bindE (py_float cost) (\<lambda>c.
            bindE (counter s k ''duration_ms'') (\<lambda>ms.
              Inr \<lparr>sp_customer = rget s (k @ '':customer_id''), sp_tokens = tt, sp_calls = calls, sp_cost = c, sp_duration = ms\<rparr>))))))"

definition get_customer_top_spans :: "api_env \<Rightarrow> store \<Rightarrow> string option \<Rightarrow> string \<Rightarrow> int \<Rightarrow> (string \<times> rat) list res" where
  "get_customer_top_spans A s api_key customer_id limit =
     as_reader A s api_key (Inr (list_customer_spans s (caller_tenant A s api_key) customer_id limit))"

section \<open>Budgets\<close>

definition fetch_customer_budget :: "store \<Rightarrow> string \<Rightarrow> string option \<Rightarrow> (snapshot \<times> rat) res" where
  "fetch_customer_budget s customer_id tenant_id =
     bindE (or_404 (budget_snapshot s (norm_tenant tenant_id) customer_id)) (\<lambda>snap.
     bindE (customer_cost_usd s tenant_id customer_id) (\<lambda>spent. Inr (snap, spent)))"

definition get_customer_budget :: "api_env \<Rightarrow> store \<Rightarrow> string option \<Rightarrow> string \<Rightarrow> (snapshot \<times> rat) res" where
  "get_customer_budget A s api_key customer_id =
     as_reader A s api_key (as_customer A s api_key customer_id
       (fetch_customer_budget s customer_id (caller_tenant A s api_key)))"

text \<open>An error of a budget operation becomes 400 or 404.\<close>

definition budget_error :: "err \<Rightarrow> err" where
  "budget_error e = (if e = InvalidBudget then HTTPException 400 else if e = BudgetNotFound then HTTPException 404 else e)"

definition set_customer_budget ::
  "api_env \<Rightarrow> string option \<Rightarrow> string \<Rightarrow> rat \<Rightarrow> rat option \<Rightarrow> int option \<Rightarrow> api_state \<Rightarrow> (snapshot \<times> rat) res \<times> api_state" where
  "set_customer_budget A api_key customer_id balance_usd alert max_rpm st =
     as_admin A api_key st
       (let t = caller_tenant A (ap_db st) api_key in
        case configure (ap_budget st) (norm_tenant t) customer_id balance_usd alert max_rpm of
          (Inl e, b) \<Rightarrow> (Inl (budget_error e), st\<lparr>ap_budget := b\<rparr>)
        | (Inr _, b) \<Rightarrow> (fetch_customer_budget (db b) customer_id t, st\<lparr>ap_budget := b\<rparr>))"

definition check_budget ::
  "api_env \<Rightarrow> string option \<Rightarrow> string \<Rightarrow> rat \<Rightarrow> string option \<Rightarrow> string option \<Rightarrow> api_state \<Rightarrow> decision res \<times> api_state" where
  "check_budget A api_key customer_id estimated_cost_usd parent_span_id session_id st =
     (let s = ap_db st in
      case as_reader A s api_key (as_customer A s api_key customer_id
             (resolve_key_context (ae_digest A) s api_key)) of
        Inl e \<Rightarrow> (Inl e, st)
      | Inr (_, key_id) \<Rightarrow>
          (case budget_check (ap_budget st) (norm_tenant (caller_tenant A s api_key)) (ae_fail_policy A) (ae_redis_up A)
                  (ae_now A) \<lparr>q_customer = customer_id, q_estimate = estimated_cost_usd, q_span = parent_span_id,
                   q_session = session_id, q_key = (case key_id of JStr k \<Rightarrow> Some k | _ \<Rightarrow> None), q_count = True\<rparr> of
             (r, b) \<Rightarrow> (r, st\<lparr>ap_budget := b\<rparr>)))"

definition topup_customer_budget ::
  "api_env \<Rightarrow> string option \<Rightarrow> string \<Rightarrow> rat \<Rightarrow> api_state \<Rightarrow> top_up_reply res \<times> api_state" where
  "topup_customer_budget A api_key customer_id amount_usd st =
     as_admin A api_key st
       (case top_up (ap_budget st) (norm_tenant (caller_tenant A (ap_db st) api_key)) customer_id amount_usd of
          (Inl e, b) \<Rightarrow> (Inl (budget_error e), st\<lparr>ap_budget := b\<rparr>)
        | (Inr r, b) \<Rightarrow> (Inr r, st\<lparr>ap_budget := b\<rparr>))"

definition set_customer_package ::
  "api_env \<Rightarrow> string option \<Rightarrow> string \<Rightarrow> int \<Rightarrow> api_state \<Rightarrow> (string \<times> int) res \<times> api_state" where
  "set_customer_package A api_key customer_id toks st =
     as_admin A api_key st
       (case set_package (ap_db st) (norm_tenant (caller_tenant A (ap_db st) api_key)) customer_id toks of
          Inl e \<Rightarrow> (Inl (budget_error e), st)
        | Inr (r, s) \<Rightarrow> (Inr r, with_db st s))"

definition get_customer_package :: "api_env \<Rightarrow> store \<Rightarrow> string option \<Rightarrow> string \<Rightarrow> (string \<times> int) res" where
  "get_customer_package A s api_key customer_id =
     as_reader A s api_key (as_customer A s api_key customer_id
       (package_balance s (norm_tenant (caller_tenant A s api_key)) customer_id))"

section \<open>Holds, caps and webhooks\<close>

definition budget_exists :: "store \<Rightarrow> string option \<Rightarrow> string \<Rightarrow> bool" where
  "budget_exists s t customer_id = rexists s (budget_prefix_for_read s t customer_id @ '':balance_usd'')"

definition reserve_budget ::
  "api_env \<Rightarrow> string option \<Rightarrow> string \<Rightarrow> rat \<Rightarrow> string option \<Rightarrow> api_state \<Rightarrow> hold_reply res \<times> api_state" where
  "reserve_budget A api_key customer_id estimated_cost_usd parent_span_id st =
     as_admin A api_key st
       (let s = ap_db st; t = caller_tenant A s api_key in
        if estimated_cost_usd \<le> 0 then (Inl (HTTPException 400), st)
        else if \<not> budget_exists s t customer_id then (Inl (HTTPException 404), st)
        else (case hold_reserve (norm_tenant t) s customer_id estimated_cost_usd parent_span_id of
                Inl e \<Rightarrow> (Inl e, st) | Inr (r, s') \<Rightarrow> (Inr r, with_db st s')))"

definition reconcile_budget ::
  "api_env \<Rightarrow> string option \<Rightarrow> string \<Rightarrow> rat \<Rightarrow> rat \<Rightarrow> string option \<Rightarrow> api_state \<Rightarrow>
     (reconcile_reply \<times> rat) res \<times> api_state" where
  "reconcile_budget A api_key customer_id reserved_usd actual_usd parent_span_id st =
     as_admin A api_key st
       (let s = ap_db st; t = caller_tenant A s api_key in
        if \<not> budget_exists s t customer_id then (Inl (HTTPException 404), st)
        else (case hold_reconcile (norm_tenant t) s customer_id reserved_usd parent_span_id of
                Inl e \<Rightarrow> (Inl e, st) | Inr (r, s') \<Rightarrow> (Inr (r, actual_usd), with_db st s')))"

definition set_hierarchy_cap ::
  "api_env \<Rightarrow> string option \<Rightarrow> string \<Rightarrow> string \<Rightarrow> string \<Rightarrow> rat \<Rightarrow> api_state \<Rightarrow> unit res \<times> api_state" where
  "set_hierarchy_cap A api_key customer_id kind scope_id max_cost_usd st =
     as_admin A api_key st
       (if kind \<notin> set [''span'', ''session''] then (Inl (HTTPException 400), st)
        else if max_cost_usd < 0 then (Inl (HTTPException 400), st)
        else (case scope_prefix (caller_tenant A (ap_db st) api_key) kind scope_id of
                Inl e \<Rightarrow> (Inl e, st)
              | Inr k \<Rightarrow> (Inr (), with_db st (set_all (ap_db st)
                  [(k @ '':max_cost_usd'', CFlt max_cost_usd), (k @ '':cap_customer_id'', CTxt customer_id)]))))"

definition set_budget_webhook ::
  "api_env \<Rightarrow> string option \<Rightarrow> string \<Rightarrow> string \<Rightarrow> string option \<Rightarrow> api_state \<Rightarrow> unit res \<times> api_state" where
  "set_budget_webhook A api_key customer_id url secret st =
     as_admin A api_key st
       (let s = ap_db st; t = caller_tenant A s api_key; write_key = budget_prefix_for_write t customer_id in
        if \<not> budget_exists s t customer_id then (Inl (HTTPException 404), st)
        else let s1 = rset s (write_key @ '':webhook_url'') (CTxt url);
                 s2 = (case truthy secret of None \<Rightarrow> s1 | Some w \<Rightarrow> rset s1 (write_key @ '':webhook_secret'') (CTxt w))
             in (Inr (), with_db st s2))"

definition get_budget_webhook :: "api_env \<Rightarrow> string option \<Rightarrow> string \<Rightarrow> api_state \<Rightarrow> cell res \<times> api_state" where
  "get_budget_webhook A api_key customer_id st =
     as_admin A api_key st
       (let s = ap_db st; t = caller_tenant A s api_key;
            url = rget s (budget_prefix_for_read s t customer_id @ '':webhook_url'');
            url = (if cell_true url then url else rget s (budget_prefix_for_write t customer_id @ '':webhook_url''))
        in (if cell_true url then Inr (the url) else Inl (HTTPException 404), st))"

section \<open>Billing links, API keys, pricing\<close>

definition link_billing_platform ::
  "api_env \<Rightarrow> string option \<Rightarrow> string \<Rightarrow> string \<Rightarrow> string \<Rightarrow> api_state \<Rightarrow> string res \<times> api_state" where
  "link_billing_platform A api_key customer_id platform external st =
     as_admin A api_key st
       (let p = py_lower platform in
        if p \<notin> set [''stripe'', ''metronome'', ''orb''] then (Inl (HTTPException 400), st)
        else if external = [] then (Inl (HTTPException 400), st)
        else (case link_customer_platform (ap_db st) customer_id p (CTxt external) of
                Inl e \<Rightarrow> (Inl e, st) | Inr s \<Rightarrow> (Inr p, with_db st s)))"

text \<open>What a JSON value is as the argument of SET.\<close>

definition redis_value :: "json \<Rightarrow> cell res" where
  "redis_value j = (case j of JStr t \<Rightarrow> Inr (CTxt t) | JInt i \<Rightarrow> Inr (CInt i) | JFlt q \<Rightarrow> Inr (CFlt q) | _ \<Rightarrow> Inl RedisError)"

definition link_stripe :: "api_env \<Rightarrow> string option \<Rightarrow> string \<Rightarrow> json \<Rightarrow> api_state \<Rightarrow> unit res \<times> api_state" where
  "link_stripe A api_key customer_id body st =
     as_admin A api_key st
       (case json_get body ''stripe_customer_id'' JNull of
          Inl e \<Rightarrow> (Inl e, st)
        | Inr j \<Rightarrow>
            if \<not> json_true j then (Inl (HTTPException 400), st)
            else (case bindE (redis_value j) (link_customer_stripe (ap_db st) customer_id) of
                    Inl e \<Rightarrow> (Inl e, st) | Inr s \<Rightarrow> (Inr (), with_db st s)))"

definition create_api_key :: "api_env \<Rightarrow> string option \<Rightarrow> string \<Rightarrow> api_state \<Rightarrow> (string \<times> string) res \<times> api_state" where
  "create_api_key A api_key customer_id st =
     as_admin A api_key st
       (case create_customer_api_key (ae_digest A) (ap_db st) customer_id (ae_uuid A) (ae_token A) of
          (ids, s) \<Rightarrow> (Inr ids, with_db st s))"

definition set_api_key_budget_endpoint ::
  "api_env \<Rightarrow> string option \<Rightarrow> string \<Rightarrow> string \<Rightarrow> rat option \<Rightarrow> rat option \<Rightarrow> api_state \<Rightarrow> key_budget res \<times> api_state" where
  "set_api_key_budget_endpoint A api_key customer_id key_id daily monthly st =
     as_admin A api_key st
       (let meta_raw = rget (ap_db st) (apikey_meta key_id) in
        if \<not> cell_true meta_raw then (Inl (HTTPException 404), st)
        else (case bindE (json_loads (the meta_raw)) (\<lambda>meta. json_get meta ''customer_id'' JNull) of
                Inl e \<Rightarrow> (Inl e, st)
              | Inr c \<Rightarrow>
                  if c \<noteq> JStr customer_id then (Inl (HTTPException 404), st)
                  else (case set_api_key_budget (ap_db st) key_id daily monthly of
                          Inl e \<Rightarrow> (Inl e, st) | Inr (r, s) \<Rightarrow> (Inr r, with_db st s))))"

definition delete_api_key :: "api_env \<Rightarrow> string option \<Rightarrow> string \<Rightarrow> api_state \<Rightarrow> unit res \<times> api_state" where
  "delete_api_key A api_key key_id st =
     as_admin A api_key st
       (case revoke_customer_api_key (ap_db st) key_id of
          Inl e \<Rightarrow> (Inl e, st)
        | Inr (revoked, s) \<Rightarrow> if revoked then (Inr (), with_db st s) else (Inl (HTTPException 404), with_db st s))"

definition get_pricing :: "api_env \<Rightarrow> store \<Rightarrow> string option \<Rightarrow> json res" where
  "get_pricing A s api_key =
     as_reader A s api_key
       (let snap = rget s ''pricing:current'' in
        if cell_true snap then json_loads (the snap)
        else (case ae_pricing_file A of None \<Rightarrow> Inl (HTTPException 404) | Some j \<Rightarrow> Inr j))"

text \<open>A catalog that does not load is a 400 when the loader raised a \<open>TypeError\<close> or a \<open>ValueError\<close>.\<close>

definition load_error :: "err \<Rightarrow> err" where
  "load_error e = (if e \<in> set [TypeError, ValueError] then HTTPException 400 else e)"

definition update_pricing :: "api_env \<Rightarrow> string option \<Rightarrow> json \<Rightarrow> api_state \<Rightarrow> json res \<times> api_state" where
  "update_pricing A api_key body st =
     as_admin A api_key st
       (case make_catalog body of
          Inl e \<Rightarrow> (Inl (load_error e), st)
        | Inr c \<Rightarrow> (json_get body ''version'' (JStr ''unknown''),
                    (with_db st (rset (ap_db st) ''pricing:current'' (CJson body)))\<lparr>ap_catalog := Some c\<rparr>))"

definition validate_pricing :: "api_env \<Rightarrow> string option \<Rightarrow> json \<Rightarrow> api_state \<Rightarrow> nat res \<times> api_state" where
  "validate_pricing A api_key body st =
     as_admin A api_key st
       (case make_catalog body of
          Inl e \<Rightarrow> (Inl (load_error e), st)
        | Inr c \<Rightarrow> (bindE (json_get body ''models'' (JObj [])) (\<lambda>m. Inr (length (obj_items m))), st))"

definition get_reconciliation_snapshot :: "api_env \<Rightarrow> string option \<Rightarrow> api_state \<Rightarrow> json res \<times> api_state" where
  "get_reconciliation_snapshot A api_key st =
     as_admin A api_key st
       (let snap = rget (ap_db st) ''reconciliation:last'' in
        (if cell_true snap then json_loads (the snap) else Inr (JObj [(''status'', JStr ''no_data'')]), st))"

section \<open>Dispatch\<close>

datatype api_request =
    GetGlobal
  | GetCustomer string
  | GetModel string string
  | GetPeriod string string
  | GetDay string string
  | GetSession string
  | GetDim string string "string option"
  | GetSpan string
  | GetTopSpans string int
  | GetBudget string
  | GetPackage string
  | GetPricing
  | CheckBudget string rat "string option" "string option"
  | SetBudget string rat "rat option" "int option"
  | TopUp string rat
  | SetPackage string int
  | Reserve string rat "string option"
  | Reconcile string rat rat "string option"
  | SetCap string string string rat
  | SetWebhook string string "string option"
  | GetWebhook string
  | LinkPlatform string string string
  | LinkStripe string json
  | CreateKey string
  | SetKeyBudget string string "rat option" "rat option"
  | DeleteKey string
  | UpdatePricing json
  | ValidatePricing json
  | GetReconciliation
  | PreviewRerate rerate_request
  | ApplyRerate rerate_request

text \<open>The outcome of a request without its body: it was answered, or it raised.\<close>

definition no_body :: "'a res \<Rightarrow> unit res" where
  "no_body r = (case r of Inl e \<Rightarrow> Inl e | Inr _ \<Rightarrow> Inr ())"

definition read_only :: "api_state \<Rightarrow> 'a res \<Rightarrow> unit res \<times> api_state" where
  "read_only st r = (no_body r, st)"

definition ended :: "'a res \<times> api_state \<Rightarrow> unit res \<times> api_state" where
  "ended rs = (no_body (fst rs), snd rs)"

definition current_catalog :: "api_env \<Rightarrow> api_state \<Rightarrow> (catalog \<times> catalog option) res" where
  "current_catalog A st =
     (case (ap_catalog st, ae_pricing_file A) of
        (None, None) \<Rightarrow> Inl RuntimeError
      | (c, f) \<Rightarrow> get_catalog (case f of None \<Rightarrow> JNull | Some j \<Rightarrow> j) c)"

text \<open>The re-rating endpoints, which load the catalog on first use.\<close>

definition serve_rerate :: "api_env \<Rightarrow> string option \<Rightarrow> bool \<Rightarrow> rerate_request \<Rightarrow> api_state \<Rightarrow> unit res \<times> api_state" where
  "serve_rerate A api_key apply_it q st =
     as_admin A api_key st
       (case current_catalog A st of
          Inl e \<Rightarrow> (Inl e, st)
        | Inr (c, cached) \<Rightarrow>
            let st1 = st\<lparr>ap_catalog := cached\<rparr> in
            if apply_it
            then (case apply_rerate (ae_auth A) (ae_digest A) c (ap_db st) api_key q of (r, s) \<Rightarrow> (no_body r, with_db st1 s))
            else (no_body (preview_rerate (ae_auth A) (ae_digest A) c (ap_db st) api_key q), st1))"

fun serve :: "api_env \<Rightarrow> string option \<Rightarrow> api_request \<Rightarrow> api_state \<Rightarrow> unit res \<times> api_state" where
  "serve A k GetGlobal st = read_only st (get_global_usage A (ap_db st) k)"
| "serve A k (GetCustomer c) st = read_only st (get_customer_usage A (ap_db st) k c)"
| "serve A k (GetModel c m) st = read_only st (get_customer_model_usage A (ap_db st) k c m)"
| "serve A k (GetPeriod c p) st = read_only st (get_customer_period_usage A (ap_db st) k c p)"
| "serve A k (GetDay c d) st = read_only st (get_customer_day_usage A (ap_db st) k c d)"
| "serve A k (GetSession i) st = read_only st (get_session_usage A (ap_db st) k i)"
| "serve A k (GetDim d v p) st = read_only st (get_dim_usage A (ap_db st) k d v p)"
| "serve A k (GetSpan i) st = read_only st (get_span_usage A (ap_db st) k i)"
| "serve A k (GetTopSpans c n) st = read_only st (get_customer_top_spans A (ap_db st) k c n)"
| "serve A k (GetBudget c) st = read_only st (get_customer_budget A (ap_db st) k c)"
| "serve A k (GetPackage c) st = read_only st (get_customer_package A (ap_db st) k c)"
| "serve A k GetPricing st = read_only st (get_pricing A (ap_db st) k)"
| "serve A k (CheckBudget c x sp se) st = ended (check_budget A k c x sp se st)"
| "serve A k (SetBudget c x a m) st = ended (set_customer_budget A k c x a m st)"
| "serve A k (TopUp c x) st = ended (topup_customer_budget A k c x st)"
| "serve A k (SetPackage c n) st = ended (set_customer_package A k c n st)"
| "serve A k (Reserve c x sp) st = ended (reserve_budget A k c x sp st)"
| "serve A k (Reconcile c x y sp) st = ended (reconcile_budget A k c x y sp st)"
| "serve A k (SetCap c kd i x) st = ended (set_hierarchy_cap A k c kd i x st)"
| "serve A k (SetWebhook c u w) st = ended (set_budget_webhook A k c u w st)"
| "serve A k (GetWebhook c) st = ended (get_budget_webhook A k c st)"
| "serve A k (LinkPlatform c p x) st = ended (link_billing_platform A k c p x st)"
| "serve A k (LinkStripe c b) st = ended (link_stripe A k c b st)"
| "serve A k (CreateKey c) st = ended (create_api_key A k c st)"
| "serve A k (SetKeyBudget c i d m) st = ended (set_api_key_budget_endpoint A k c i d m st)"
| "serve A k (DeleteKey i) st = ended (delete_api_key A k i st)"
| "serve A k (UpdatePricing b) st = ended (update_pricing A k b st)"
| "serve A k (ValidatePricing b) st = ended (validate_pricing A k b st)"
| "serve A k GetReconciliation st = ended (get_reconciliation_snapshot A k st)"
| "serve A k (PreviewRerate q) st = serve_rerate A k False q st"
| "serve A k (ApplyRerate q) st = serve_rerate A k True q st"

section \<open>Who can change what\<close>

lemma as_admin_denied: "require_admin_key (ae_auth A) k = Inl e \<Longrightarrow> as_admin A k st f = (Inl e, st)"
  by (simp add: as_admin_def)

lemmas admin_endpoints =
  set_customer_budget_def topup_customer_budget_def set_customer_package_def reserve_budget_def reconcile_budget_def
  set_hierarchy_cap_def set_budget_webhook_def get_budget_webhook_def link_billing_platform_def link_stripe_def
  create_api_key_def set_api_key_budget_endpoint_def delete_api_key_def update_pricing_def validate_pricing_def
  get_reconciliation_snapshot_def serve_rerate_def

lemma check_budget_counter:
  assumes run: "check_budget A api_key c x sp se st = (r, st')"
  shows "ap_catalog st' = ap_catalog st"
    and "k \<noteq> rate_limit_key (norm_tenant (caller_tenant A (ap_db st) api_key)) c (trunc_int (ae_now A) div 60) \<Longrightarrow>
      rget (ap_db st') k = rget (ap_db st) k"
proof -
  let ?t = "norm_tenant (caller_tenant A (ap_db st) api_key)"
  obtain auth where auth: "as_reader A (ap_db st) api_key (as_customer A (ap_db st) api_key c
      (resolve_key_context (ae_digest A) (ap_db st) api_key)) = auth" by blast
  have "ap_catalog st' = ap_catalog st
    \<and> (k \<noteq> rate_limit_key ?t c (trunc_int (ae_now A) div 60) \<longrightarrow> rget (ap_db st') k = rget (ap_db st) k)"
  proof (cases auth)
    case (Inl e)
    with run auth have "st' = st" unfolding check_budget_def Let_def by simp
    then show ?thesis by simp
  next
    case (Inr p)
    obtain i key_id where p: "p = (i, key_id)" by fastforce
    let ?q = "\<lparr>q_customer = c, q_estimate = x, q_span = sp, q_session = se,
      q_key = (case key_id of JStr k \<Rightarrow> Some k | _ \<Rightarrow> None), q_count = True\<rparr>"
    obtain r1 b where chk: "budget_check (ap_budget st) ?t (ae_fail_policy A) (ae_redis_up A) (ae_now A) ?q = (r1, b)" by fastforce
    have "st' = st\<lparr>ap_budget := b\<rparr>"
      using run auth Inr p chk unfolding check_budget_def Let_def by simp
    then show ?thesis using check_changes_only_counter [OF chk, of k] by simp
  qed
  then show "ap_catalog st' = ap_catalog st"
    and "k \<noteq> rate_limit_key ?t c (trunc_int (ae_now A) div 60) \<Longrightarrow> rget (ap_db st') k = rget (ap_db st) k" by simp_all
qed

text \<open>
  C28: only the administrator changes anything. Whatever request is made of these endpoints by a
  caller whose key does not pass the admin check, the state afterwards is the state before; the one
  exception is a budget check, after which at most the request counter of the checked customer, for
  the caller's tenant and the current minute, holds another value.
\<close>

theorem changes_need_admin:
  assumes "require_admin_key (ae_auth A) api_key = Inl e" and "serve A api_key req st = (r, st')"
  shows "st' = st \<or> (\<exists>c x sp se. req = CheckBudget c x sp se \<and> ap_catalog st' = ap_catalog st
    \<and> (\<forall>k. k \<noteq> rate_limit_key (norm_tenant (caller_tenant A (ap_db st) api_key)) c (trunc_int (ae_now A) div 60)
          \<longrightarrow> rget (ap_db st') k = rget (ap_db st) k))"
proof (cases "\<exists>c x sp se. req = CheckBudget c x sp se")
  case True
  then obtain c x sp se where req: "req = CheckBudget c x sp se" by blast
  obtain r1 where run: "check_budget A api_key c x sp se st = (r1, st')"
    using assms(2) by (cases "check_budget A api_key c x sp se st") (auto simp: req ended_def)
  show ?thesis
    by (intro disjI2 exI conjI) (rule req, rule check_budget_counter(1) [OF run], simp add: check_budget_counter(2) [OF run])
next
  case False
  have "st' = st"
    using assms False
    by (cases req) (simp_all add: read_only_def ended_def admin_endpoints as_admin_denied [OF assms(1)])
  then show ?thesis ..
qed

section \<open>Concrete requests\<close>

definition demo_api :: api_env where
  "demo_api = \<lparr>ae_auth = \<lparr>API_KEY = ''api'', ADMIN_API_KEY = ''adm'', AUTH_OPTIONAL = False\<rparr>, ae_digest = id, ae_dims = [],
     ae_fail_policy = ''closed'', ae_pricing_file = None, ae_redis_up = True, ae_now = 0, ae_uuid = ''u'', ae_token = ''t''\<rparr>"

definition demo_api_start :: api_state where
  "demo_api_start = \<lparr>ap_budget = \<lparr>db = empty_store, cache = []\<rparr>, ap_catalog = None\<rparr>"

lemma demo_not_admin: "\<exists>e. require_admin_key (ae_auth demo_api) (Some ''api'') = Inl e"
  by (simp add: demo_api_def require_admin_key_def is_admin_key_def truthy_def open_mode_def check_global_key_def)

theorem changes_need_admin_witness:
  "snd (serve demo_api (Some ''api'') (SetBudget ''acme'' 100 None None) demo_api_start) = demo_api_start"
proof -
  obtain e where "require_admin_key (ae_auth demo_api) (Some ''api'') = Inl e" using demo_not_admin by blast
  from changes_need_admin [OF this prod.collapse [symmetric], of "SetBudget ''acme'' 100 None None" demo_api_start]
  show ?thesis by simp
qed

section \<open>Reading another customer's usage\<close>

text \<open>
  The usage endpoints check that a key is valid, not whose it is: any key that passes reads any
  customer's usage, also a key that is refused access to that customer's budget.
\<close>

lemma usage_open_to_any_key:
  assumes "require_api_key (ae_auth A) (ae_digest A) s k = Inr ()"
  shows "get_customer_usage A s k customer_id = or_404 (get_customer s (caller_tenant A s k) customer_id)"
  using assms by (simp add: get_customer_usage_def as_reader_def)

definition demo_scoped :: store where
  "demo_scoped = empty_store\<lparr>kv := [(''apikey:kacme'', CJson (JObj [(''customer_id'', JStr ''acme''), (''key_id'', JStr ''i1'')])),
     (''customer:other:total_tokens'', CInt 5)]\<rparr>"

lemma other_customers_usage_readable:
  "get_customer_budget demo_api demo_scoped (Some ''kacme'') ''other'' = Inl (HTTPException 403)"
  "isOk (get_customer_usage demo_api demo_scoped (Some ''kacme'') ''other'')"
proof -
  have ctx: "resolve_key_context id demo_scoped (Some ''kacme'') = Inr (JStr ''acme'', JStr ''i1'')"
    by (simp add: resolve_key_context_def demo_scoped_def rget_def apikey_entry_def read_context_def apikey_meta_def
        json_true_def json_text_def truthy_def empty_store_def)
  have tn: "resolve_tenant_from_key id demo_scoped (Some ''kacme'') = None"
    by (simp add: resolve_tenant_from_key_def demo_scoped_def rget_def truthy_def empty_store_def)
  have key: "require_api_key (ae_auth demo_api) (ae_digest demo_api) demo_scoped (Some ''kacme'') = Inr ()"
    by (simp add: require_api_key_def is_global_api_key_def demo_api_def truthy_def is_scoped_api_key_def
        resolve_customer_from_key_def ctx json_true_def open_mode_def)
  have acc: "require_customer_access (ae_auth demo_api) (ae_digest demo_api) demo_scoped ''other'' (Some ''kacme'') = Inl (HTTPException 403)"
    by (simp add: require_customer_access_def is_global_api_key_def is_admin_key_def demo_api_def truthy_def resolve_customer_from_key_def ctx)
  show "get_customer_budget demo_api demo_scoped (Some ''kacme'') ''other'' = Inl (HTTPException 403)"
    by (simp add: get_customer_budget_def as_reader_def as_customer_def key acc)
  have t: "caller_tenant demo_api demo_scoped (Some ''kacme'') = None"
    by (simp add: caller_tenant_def tn) (simp add: demo_api_def tn)
  show "isOk (get_customer_usage demo_api demo_scoped (Some ''kacme'') ''other'')"
    unfolding usage_open_to_any_key [OF key] t
    by (simp add: or_404_def get_customer_def customer_prefix_for_read_def customer_prefix_def
        demo_scoped_def rget_def empty_store_def counter_def amount_def Let_def)
qed

end
