(* ===== verification/Stream_Guard.thy ===== *)
theory Stream_Guard
  imports Pricing_Facts
begin

text \<open>
  \<^verbatim>\<open>src/api/gateway/stream_guard.py\<close>: the guard on a streamed completion. It cuts the upstream bytes into
  server-sent-event blocks, estimates the spend after each data chunk and ends the stream when the
  estimate exceeds the reserved hold. Decoding and encoding of bytes, JSON parsing and
  printing, and the pricing catalog are arguments.

  The lemmas show that what is forwarded stays within the hold, and that how the upstream splits its
  bytes into chunks does not matter.
\<close>

section \<open>Usage\<close>

record stream_usage =
  su_input :: int
  su_output :: int
  su_chunks :: nat
  su_killed :: bool

record guard_env =
  gv_catalog :: catalog
  gv_model :: string
  gv_reserved :: rat
  gv_decode :: "string \<Rightarrow> string"
  gv_encode :: "string \<Rightarrow> string"
  gv_loads :: "string \<Rightarrow> json option"
  gv_dumps :: "json \<Rightarrow> string"

definition json_or :: "json \<Rightarrow> json \<Rightarrow> json" where
  "json_or j d = (if json_true j then j else d)"

text \<open>\<open>value[0]\<close> and \<open>len(value)\<close>.\<close>

definition json_first :: "json \<Rightarrow> json res" where
  "json_first j = (case j of JArr (x # _) \<Rightarrow> Inr x | JArr [] \<Rightarrow> Inl IndexError | JStr (c # _) \<Rightarrow> Inr (JStr [c])
     | JStr [] \<Rightarrow> Inl IndexError | JObj _ \<Rightarrow> Inl KeyError | _ \<Rightarrow> Inl TypeError)"

definition json_len :: "json \<Rightarrow> nat res" where
  "json_len j = (case j of JStr t \<Rightarrow> Inr (length t) | JArr xs \<Rightarrow> Inr (length xs) | JObj kvs \<Rightarrow> Inr (length kvs)
     | _ \<Rightarrow> Inl TypeError)"

definition note_content :: "json \<Rightarrow> stream_usage \<Rightarrow> stream_usage res" where
  "note_content part u =
     bindE (json_get part ''choices'' JNull) (\<lambda>choices.
       if \<not> json_true choices then Inr u
       else bindE (json_first choices) (\<lambda>first.
            bindE (json_get (json_or first (JObj [])) ''delta'' JNull) (\<lambda>delta.
            bindE (json_get (json_or delta (JObj [])) ''content'' JNull) (\<lambda>content.
              if \<not> json_true content then Inr u
              else bindE (json_len content) (\<lambda>n. Inr (u\<lparr>su_output := su_output u + max 1 (int n div 4)\<rparr>))))))"

definition token_field :: "json \<Rightarrow> string \<Rightarrow> int option res" where
  "token_field usage f =
     bindE (json_get usage f JNull) (\<lambda>j. if j = JNull then Inr None else bindE (json_int j) (\<lambda>n. Inr (Some n)))"

text \<open>An exception leaves the counts set so far, which the caller still meters.\<close>

definition note_chunk :: "json \<Rightarrow> stream_usage \<Rightarrow> unit res \<times> stream_usage" where
  "note_chunk part u =
     (case note_content part u of
        Inl e \<Rightarrow> (Inl e, u)
      | Inr u1 \<Rightarrow>
          (case json_get part ''usage'' JNull of
             Inl e \<Rightarrow> (Inl e, u1)
           | Inr usage \<Rightarrow>
               if \<not> json_true usage then (Inr (), u1)
               else (case token_field usage ''completion_tokens'' of
                       Inl e \<Rightarrow> (Inl e, u1)
                     | Inr out \<Rightarrow>
                         let u2 = u1\<lparr>su_output := (case out of None \<Rightarrow> su_output u1 | Some n \<Rightarrow> n)\<rparr> in
                         (case token_field usage ''prompt_tokens'' of
                            Inl e \<Rightarrow> (Inl e, u2)
                          | Inr inp \<Rightarrow> (Inr (), u2\<lparr>su_input := (case inp of None \<Rightarrow> su_input u2 | Some n \<Rightarrow> n)\<rparr>)))))"

definition stream_quote :: "guard_env \<Rightarrow> stream_usage \<Rightarrow> rat res" where
  "stream_quote V u =
     quote_usd (gv_catalog V) \<lparr>modelId = gv_model V, inputTokens = su_input u, outputTokens = su_output u,
       cacheReadTokens = 0, reasoningTokens = 0, cacheWriteTokens = 0, embeddingTokens = 0\<rparr> 0"

section \<open>Blocks\<close>

abbreviation LF :: char where
  "LF \<equiv> CHR 0x0A"

text \<open>
  One line that carries data, rewritten; \<open>Inr None\<close> is a kill. Then the lines of a block one by one.
\<close>

definition process_line :: "guard_env \<Rightarrow> string \<Rightarrow> stream_usage \<Rightarrow> string option res \<times> stream_usage" where
  "process_line V line u =
     (let payload = py_strip (drop 5 line) in
      if payload = ''[DONE]'' then (Inr (Some line), u)
      else (case gv_loads V payload of
              None \<Rightarrow> (Inr (Some line), u)
            | Some part \<Rightarrow>
                (case note_chunk part (u\<lparr>su_chunks := su_chunks u + 1\<rparr>) of
                   (Inl e, u1) \<Rightarrow> (Inl e, u1)
                 | (Inr _, u1) \<Rightarrow>
                     (case stream_quote V u1 of
                        Inl e \<Rightarrow> (Inl e, u1)
                      | Inr est \<Rightarrow>
                          if gv_reserved V > 0 \<and> est > gv_reserved V then (Inr None, u1\<lparr>su_killed := True\<rparr>)
                          else (Inr (Some (''data: '' @ gv_dumps V part)), u1)))))"

fun process_lines :: "guard_env \<Rightarrow> string list \<Rightarrow> string list \<Rightarrow> stream_usage \<Rightarrow> string list option res \<times> stream_usage" where
  "process_lines V [] rebuilt u = (Inr (Some rebuilt), u)"
| "process_lines V (line # lines) rebuilt u =
     (case process_line V line u of
        (Inl e, u1) \<Rightarrow> (Inl e, u1)
      | (Inr None, u1) \<Rightarrow> (Inr None, u1)
      | (Inr (Some piece), u1) \<Rightarrow> process_lines V lines (rebuilt @ [piece]) u1)"

definition process_block :: "guard_env \<Rightarrow> string \<Rightarrow> stream_usage \<Rightarrow> string option res \<times> stream_usage" where
  "process_block V block u =
     (let lines = filter (\<lambda>ln. startswith ln ''data:'') (split_on LF block) in
      if lines = [] then (Inr (Some (if py_strip block \<noteq> [] then block @ [LF, LF] else [])), u)
      else (case process_lines V lines [] u of
              (Inl e, u1) \<Rightarrow> (Inl e, u1)
            | (Inr None, u1) \<Rightarrow> (Inr None, u1)
            | (Inr (Some rebuilt), u1) \<Rightarrow> (Inr (Some (join [LF] rebuilt @ [LF, LF])), u1)))"

section \<open>The stream\<close>

datatype stream_end = Finished | Killed | Raised err

definition kill_sse :: "guard_env \<Rightarrow> stream_usage \<Rightarrow> string res" where
  "kill_sse V u =
     bindE (stream_quote V u) (\<lambda>metered.
       let err = JObj [(''error'', JObj [(''message'', JStr ''stream killed: estimated cost exceeds reserved hold''),
             (''type'', JStr ''fluxmeter_budget''), (''code'', JStr ''stream_killed''),
             (''fluxmeter'', JObj [(''input_tokens'', JInt (su_input u)), (''output_tokens'', JInt (su_output u)),
                (''metered_usd'', JFlt metered), (''reserved_usd'', JFlt (gv_reserved V))])])]
       in Inr (gv_encode V (''data: '' @ gv_dumps V err @ [LF, LF] @ ''data: [DONE]'' @ [LF, LF])))"

text \<open>The text before the first blank line, and after it.\<close>

fun split_block :: "string \<Rightarrow> (string \<times> string) option" where
  "split_block [] = None"
| "split_block [c] = None"
| "split_block (c # d # cs) =
     (if c = LF \<and> d = LF then Some ([], cs)
      else (case split_block (d # cs) of None \<Rightarrow> None | Some (b, r) \<Rightarrow> Some (c # b, r)))"

lemma split_block_shorter: "split_block t = Some (b, r) \<Longrightarrow> length r < length t"
  by (induction t arbitrary: b r rule: split_block.induct) (auto split: if_splits option.splits)

text \<open>
  One block: what it yields, and how the stream goes on. Every chunk yielded is kept with the usage
  counted when it is, which is what remains if the reader stops there.
\<close>

type_synonym yielded = "(string \<times> stream_usage) list"

definition step_block :: "guard_env \<Rightarrow> string \<Rightarrow> stream_usage \<Rightarrow> yielded \<times> stream_usage \<times> stream_end option" where
  "step_block V block u =
     (case process_block V block u of
        (Inl e, u1) \<Rightarrow> ([], u1, Some (Raised e))
      | (Inr None, u1) \<Rightarrow> (case kill_sse V u1 of Inl e \<Rightarrow> ([], u1, Some (Raised e)) | Inr m \<Rightarrow> ([(m, u1)], u1, Some Killed))
      | (Inr (Some out), u1) \<Rightarrow> (if out \<noteq> [] then [(gv_encode V out, u1)] else [], u1, None))"

text \<open>The inner loop: whole blocks are taken off the buffer until none is left.\<close>

function drain :: "guard_env \<Rightarrow> string \<Rightarrow> stream_usage \<Rightarrow> yielded \<times> string \<times> stream_usage \<times> stream_end option" where
  "drain V buf u =
     (case split_block buf of
        None \<Rightarrow> ([], buf, u, None)
      | Some (block, rest) \<Rightarrow>
          (case step_block V block u of
             (outs, u1, Some fin) \<Rightarrow> (outs, rest, u1, Some fin)
           | (outs, u1, None) \<Rightarrow> (case drain V rest u1 of (outs', buf', u2, fin) \<Rightarrow> (outs @ outs', buf', u2, fin))))"
  by pat_completeness auto
termination
  by (relation "measure (\<lambda>(V, buf, u). length buf)") (auto simp: split_block_shorter)

declare drain.simps [simp del]

definition last_block :: "guard_env \<Rightarrow> string \<Rightarrow> stream_usage \<Rightarrow> yielded \<times> stream_usage \<times> stream_end" where
  "last_block V buf u =
     (if py_strip buf = [] then ([], u, Finished)
      else (case step_block V buf u of
              (outs, u1, None) \<Rightarrow> (outs, u1, Finished)
            | (outs, u1, Some fin) \<Rightarrow> (outs, u1, fin)))"

text \<open>
  The upstream is the chunks it sends and, if it breaks off, the exception it raises after them.
\<close>

fun transform :: "guard_env \<Rightarrow> err option \<Rightarrow> string list \<Rightarrow> string \<Rightarrow> stream_usage \<Rightarrow> yielded \<times> stream_usage \<times> stream_end" where
  "transform V broken [] buf u = (case broken of Some e \<Rightarrow> ([], u, Raised e) | None \<Rightarrow> last_block V buf u)"
| "transform V broken (part # chunks) buf u =
     (case drain V (buf @ gv_decode V part) u of
        (outs, buf', u1, Some fin) \<Rightarrow> (outs, u1, fin)
      | (outs, buf', u1, None) \<Rightarrow>
          (case transform V broken chunks buf' u1 of (outs', u2, fin) \<Rightarrow> (outs @ outs', u2, fin)))"

definition fresh_usage :: stream_usage where
  "fresh_usage = \<lparr>su_input = 0, su_output = 0, su_chunks = 0, su_killed = False\<rparr>"

definition guard_stream :: "guard_env \<Rightarrow> err option \<Rightarrow> string list \<Rightarrow> yielded \<times> stream_usage \<times> stream_end" where
  "guard_stream V broken chunks = transform V broken chunks [] fresh_usage"

section \<open>Within the hold\<close>

definition within_hold :: "guard_env \<Rightarrow> stream_usage \<Rightarrow> bool" where
  "within_hold V u \<longleftrightarrow> (su_chunks u = 0 \<or> (\<exists>q. stream_quote V u = Inr q \<and> q \<le> gv_reserved V))"

definition over_hold :: "guard_env \<Rightarrow> stream_usage \<Rightarrow> bool" where
  "over_hold V u \<longleftrightarrow> (\<exists>q. stream_quote V u = Inr q \<and> gv_reserved V < q)"

lemma stream_quote_killed [simp]: "stream_quote V (u\<lparr>su_killed := b\<rparr>) = stream_quote V u"
  by (simp add: stream_quote_def)

text \<open>What a step on the usage must respect, by how it ends: it goes on, it kills, it raises.\<close>

definition hold_kept :: "guard_env \<Rightarrow> 'a option res \<Rightarrow> stream_usage \<Rightarrow> bool" where
  "hold_kept V x u = (case x of Inl _ \<Rightarrow> \<not> su_killed u | Inr None \<Rightarrow> over_hold V u \<and> su_killed u
     | Inr (Some _) \<Rightarrow> within_hold V u \<and> \<not> su_killed u)"

lemma hold_kept_simps [simp]:
  "hold_kept V (Inl e) u \<longleftrightarrow> \<not> su_killed u"
  "hold_kept V (Inr None) u \<longleftrightarrow> over_hold V u \<and> su_killed u"
  "hold_kept V (Inr (Some y)) u \<longleftrightarrow> within_hold V u \<and> \<not> su_killed u"
  by (simp_all add: hold_kept_def)

lemma note_content_frame: "note_content part u = Inr u' \<Longrightarrow> su_killed u' = su_killed u"
  by (auto simp: note_content_def split: if_splits)

lemma note_chunk_frame: "note_chunk part u = (x, u') \<Longrightarrow> su_killed u' = su_killed u"
  by (auto simp: note_chunk_def Let_def split: if_splits sum.splits dest: note_content_frame)

lemma process_line_hold:
  assumes "process_line V line u = (x, u')" and "0 < gv_reserved V" and "within_hold V u" and "\<not> su_killed u"
  shows "hold_kept V x u'"
proof (cases "py_strip (drop 5 line) = ''[DONE]'' \<or> gv_loads V (py_strip (drop 5 line)) = None")
  case False
  then obtain part where L: "gv_loads V (py_strip (drop 5 line)) = Some part" by blast
  obtain y u1 where N: "note_chunk part (u\<lparr>su_chunks := su_chunks u + 1\<rparr>) = (y, u1)" by fastforce
  with assms(4) have k: "\<not> su_killed u1" using note_chunk_frame by fastforce
  have q: "over_hold V (u1\<lparr>su_killed := True\<rparr>) = over_hold V u1"
    by (simp add: over_hold_def)
  from False L N k assms(1,2) show ?thesis
    by (cases y; cases "stream_quote V u1")
      (auto simp: process_line_def q over_hold_def within_hold_def split: if_splits)
qed (use assms in \<open>auto simp: process_line_def Let_def split: if_splits\<close>)

lemma process_lines_hold:
  assumes "process_lines V lines rebuilt u = (x, u')" and "0 < gv_reserved V" and "within_hold V u"
    and "\<not> su_killed u"
  shows "hold_kept V x u'"
  using assms
proof (induction lines arbitrary: rebuilt u)
  case (Cons line lines)
  obtain y u1 where L: "process_line V line u = (y, u1)" by fastforce
  note H = process_line_hold [OF L Cons.prems(2-4)]
  show ?case
  proof (cases y)
    case (Inr z)
    then show ?thesis using Cons L H by (cases z) auto
  qed (use Cons.prems(1) L H in auto)
qed auto

lemma process_block_hold:
  assumes "process_block V block u = (x, u')" and "0 < gv_reserved V" and "within_hold V u" and "\<not> su_killed u"
  shows "hold_kept V x u'"
  using assms
  by (auto simp: process_block_def Let_def split: if_splits prod.splits sum.splits option.splits
      dest: process_lines_hold)

lemma stream_quote_over: "over_hold V u \<Longrightarrow> \<exists>m. kill_sse V u = Inr m"
  by (auto simp: over_hold_def kill_sse_def Let_def)

text \<open>What a run from a usage within the hold yields, and the usage it ends with.\<close>

definition run_kept :: "guard_env \<Rightarrow> yielded \<Rightarrow> stream_usage \<Rightarrow> stream_end option \<Rightarrow> bool" where
  "run_kept V outs u fin =
     (case fin of
        Some Killed \<Rightarrow> over_hold V u \<and> su_killed u
          \<and> (\<exists>outs' m. outs = outs' @ [(m, u)] \<and> kill_sse V u = Inr m \<and> (\<forall>(out, v) \<in> set outs'. within_hold V v))
      | Some (Raised e) \<Rightarrow> \<not> su_killed u \<and> (\<forall>(out, v) \<in> set outs. within_hold V v)
      | _ \<Rightarrow> within_hold V u \<and> \<not> su_killed u \<and> (\<forall>(out, v) \<in> set outs. within_hold V v))"

lemma run_kept_simps [simp]:
  "run_kept V outs u (Some Killed) \<longleftrightarrow> over_hold V u \<and> su_killed u
     \<and> (\<exists>outs' m. outs = outs' @ [(m, u)] \<and> kill_sse V u = Inr m \<and> (\<forall>(out, v) \<in> set outs'. within_hold V v))"
  "run_kept V outs u (Some (Raised e)) \<longleftrightarrow> \<not> su_killed u \<and> (\<forall>(out, v) \<in> set outs. within_hold V v)"
  "run_kept V outs u (Some Finished) \<longleftrightarrow> within_hold V u \<and> \<not> su_killed u \<and> (\<forall>(out, v) \<in> set outs. within_hold V v)"
  "run_kept V outs u None \<longleftrightarrow> within_hold V u \<and> \<not> su_killed u \<and> (\<forall>(out, v) \<in> set outs. within_hold V v)"
  by (simp_all add: run_kept_def)

lemma run_kept_append:
  assumes "run_kept V outs u None" and "run_kept V outs' u' fin"
  shows "run_kept V (outs @ outs') u' fin"
proof (cases fin)
  case (Some f)
  show ?thesis
  proof (cases f)
    case Killed
    with assms(2) Some obtain pre m where "outs' = pre @ [(m, u')]" "kill_sse V u' = Inr m"
      "\<forall>(out, v) \<in> set pre. within_hold V v" "over_hold V u'" "su_killed u'" by auto
    with assms(1) Some Killed show ?thesis by (auto intro!: exI [of _ "outs @ pre"])
  qed (use assms Some in auto)
qed (use assms in auto)

lemma step_block_hold:
  assumes "step_block V block u = (outs, u', fin)" and "0 < gv_reserved V" and "within_hold V u" and "\<not> su_killed u"
  shows "run_kept V outs u' fin"
proof -
  obtain x u1 where P: "process_block V block u = (x, u1)" by fastforce
  note H = process_block_hold [OF P assms(2-4)]
  show ?thesis
  proof (cases x)
    case (Inr y)
    show ?thesis
    proof (cases y)
      case None
      with H Inr obtain m where "kill_sse V u1 = Inr m" using stream_quote_over by fastforce
      with P Inr None H assms(1) show ?thesis by (auto simp: step_block_def)
    qed (use P Inr H assms(1) in \<open>auto simp: step_block_def\<close>)
  qed (use P H assms(1) in \<open>auto simp: step_block_def\<close>)
qed

lemma drain_hold:
  assumes "drain V buf u = (outs, buf', u', fin)" and "0 < gv_reserved V" and "within_hold V u" and "\<not> su_killed u"
  shows "run_kept V outs u' fin"
  using assms
proof (induction V buf u arbitrary: outs buf' u' fin rule: drain.induct)
  case (1 V buf u)
  show ?case
  proof (cases "split_block buf")
    case None
    with 1 show ?thesis by (auto simp: drain.simps [of V buf])
  next
    case (Some br)
    obtain block rest where br: "br = (block, rest)" by fastforce
    obtain outs1 u1 f where S: "step_block V block u = (outs1, u1, f)" by (metis prod_cases3)
    note H = step_block_hold [OF S "1.prems"(2-4)]
    show ?thesis
    proof (cases f)
      case None
      obtain outs2 buf2 u2 f2 where D: "drain V rest u1 = (outs2, buf2, u2, f2)" by (metis prod_cases4)
      have "run_kept V outs2 u2 f2"
        using "1.IH" [OF Some br [symmetric] S [symmetric] refl None D] H None "1.prems"(2) by auto
      with run_kept_append H None Some br S D "1.prems"(1) show ?thesis
        by (auto simp: drain.simps [of V buf])
    qed (use H Some br S "1.prems"(1) in \<open>auto simp: drain.simps [of V buf]\<close>)
  qed
qed

lemma last_block_hold:
  assumes "last_block V buf u = (outs, u', fin)" and "0 < gv_reserved V" and "within_hold V u" and "\<not> su_killed u"
  shows "run_kept V outs u' (Some fin)"
proof (cases "py_strip buf = []")
  case False
  obtain outs1 u1 f where S: "step_block V buf u = (outs1, u1, f)" by (metis prod_cases3)
  from step_block_hold [OF S assms(2-4)] S False assms(1) show ?thesis
    by (cases f) (auto simp: last_block_def)
qed (use assms in \<open>auto simp: last_block_def\<close>)

lemma transform_hold:
  assumes "transform V broken chunks buf u = (outs, u', fin)" and "0 < gv_reserved V" and "within_hold V u" and "\<not> su_killed u"
  shows "run_kept V outs u' (Some fin)"
  using assms
proof (induction chunks arbitrary: buf u outs)
  case Nil
  then show ?case using last_block_hold by (auto simp: within_hold_def split: option.splits)
next
  case (Cons part chunks)
  obtain outs1 buf1 u1 f where D: "drain V (buf @ gv_decode V part) u = (outs1, buf1, u1, f)" by (metis prod_cases4)
  note H = drain_hold [OF D Cons.prems(2-4)]
  show ?case
  proof (cases f)
    case None
    with D Cons.prems(1) obtain outs2 where T: "transform V broken chunks buf1 u1 = (outs2, u', fin)" "outs = outs1 @ outs2"
      by (auto split: prod.splits)
    with Cons.IH [OF T(1) Cons.prems(2)] H None show ?thesis
      by (auto intro: run_kept_append)
  qed (use H D Cons.prems(1) in auto)
qed

text \<open>
  C29: the guard keeps a stream within its hold. With a positive hold, each chunk forwarded was
  yielded at a usage whose estimate fits the hold, or before any data chunk was counted; a stream is
  killed only at a usage whose estimate exceeds the hold, its last chunk is then the kill message and
  the usage is marked; a stream that ends on its own ends within the hold and unmarked.
\<close>

theorem stream_within_hold:
  assumes "0 < gv_reserved V"
  shows "case guard_stream V broken chunks of (outs, u, fin) \<Rightarrow>
    (fin = Finished \<longrightarrow> within_hold V u \<and> \<not> su_killed u \<and> (\<forall>(out, v) \<in> set outs. within_hold V v))
    \<and> (fin = Killed \<longrightarrow> over_hold V u \<and> su_killed u
        \<and> (\<exists>outs' m. outs = outs' @ [(m, u)] \<and> kill_sse V u = Inr m \<and> (\<forall>(out, v) \<in> set outs'. within_hold V v)))
    \<and> (\<forall>e. fin = Raised e \<longrightarrow> \<not> su_killed u \<and> (\<forall>(out, v) \<in> set outs. within_hold V v))"
proof -
  obtain outs u fin where G: "guard_stream V broken chunks = (outs, u, fin)" by (metis prod_cases3)
  have "within_hold V fresh_usage" "\<not> su_killed fresh_usage"
    by (simp_all add: fresh_usage_def within_hold_def)
  from transform_hold [OF G [unfolded guard_stream_def] assms this] G show ?thesis
    by (cases fin) simp_all
qed

section \<open>How the upstream cuts its bytes does not matter\<close>

lemma split_block_append: "split_block t = Some (b, r) \<Longrightarrow> split_block (t @ x) = Some (b, r @ x)"
  by (induction t arbitrary: b r rule: split_block.induct) (auto split: if_splits option.splits)

lemma drain_append:
  "drain V buf u = (outs, buf1, u1, fin) \<Longrightarrow>
   drain V (buf @ x) u =
     (case fin of Some f \<Rightarrow> (outs, buf1 @ x, u1, fin)
      | None \<Rightarrow> (case drain V (buf1 @ x) u1 of (outs2, buf2, u2, f) \<Rightarrow> (outs @ outs2, buf2, u2, f)))"
proof (induction V buf u arbitrary: outs buf1 u1 fin rule: drain.induct)
  case (1 V buf u)
  show ?case
  proof (cases "split_block buf")
    case None
    with "1.prems" show ?thesis by (auto simp: drain.simps [of V buf] split: prod.splits)
  next
    case (Some br)
    obtain block rest where br: "br = (block, rest)" by fastforce
    obtain outs1 v f where S: "step_block V block u = (outs1, v, f)" by (metis prod_cases3)
    note A = split_block_append [OF Some [unfolded br], of x]
    show ?thesis
    proof (cases f)
      case None
      obtain outs2 buf2 u2 f2 where D: "drain V rest v = (outs2, buf2, u2, f2)" by (metis prod_cases4)
      note I = "1.IH" [OF Some br [symmetric] S [symmetric] refl None D]
      from A I None Some br S D "1.prems" show ?thesis
        by (auto simp: drain.simps [of V buf] drain.simps [of V "buf @ x"] split: option.splits prod.splits)
    next
      case (Some f')
      with A \<open>split_block buf = Some br\<close> br S "1.prems" show ?thesis
        by (auto simp: drain.simps [of V buf] drain.simps [of V "buf @ x"])
    qed
  qed
qed

lemma transform_merge:
  assumes "gv_decode V (a @ b) = gv_decode V a @ gv_decode V b"
  shows "transform V broken (a # b # chunks) buf u = transform V broken ((a @ b) # chunks) buf u"
proof -
  obtain outs buf1 u1 fin where D: "drain V (buf @ gv_decode V a) u = (outs, buf1, u1, fin)" by (metis prod_cases4)
  show ?thesis
    using drain_append [OF D, of "gv_decode V b"] D
    by (auto simp: assms split: option.splits prod.splits)
qed

lemma transform_concat:
  assumes "\<And>a b. gv_decode V (a @ b) = gv_decode V a @ gv_decode V b"
  shows "transform V broken (c # chunks) buf u = transform V broken [c @ concat chunks] buf u"
  by (induction chunks arbitrary: c) (simp_all add: transform_merge [OF assms] del: transform.simps)


section \<open>Concrete streams\<close>

definition demo_guard :: guard_env where
  "demo_guard = \<lparr>gv_catalog = \<lparr>version = JNull, cache_read_multiplier = 0,
       defaults = \<lparr>pricing_mode = ''flat'', input_per_m = 1, output_per_m = 1000, embedding_per_m = 0, tiers = []\<rparr>,
       models = [], prefix_models = []\<rparr>,
     gv_model = ''m'', gv_reserved = 1 / 200, gv_decode = (\<lambda>b. b), gv_encode = (\<lambda>t. t),
     gv_loads = (\<lambda>t. if t = ''2'' then Some (JObj [(''usage'', JObj [(''completion_tokens'', JInt 2)])])
                    else if t = ''9'' then Some (JObj [(''usage'', JObj [(''completion_tokens'', JInt 9)])]) else None),
     gv_dumps = (\<lambda>j. ''x'')\<rparr>"

definition demo_stream :: "string list" where
  "demo_stream = [''data: 2'' @ [LF, LF] @ ''da'', ''ta:9'' @ [LF, LF] @ ''data: 2'']"

lemma demo_guard_kills:
  "map fst (fst (guard_stream demo_guard None demo_stream)) =
     [''data: x'' @ [LF, LF], ''data: x'' @ [LF, LF] @ ''data: [DONE]'' @ [LF, LF]]"
  "snd (snd (guard_stream demo_guard None demo_stream)) = Killed"
  by code_simp+

theorem stream_within_hold_witness:
  "0 < gv_reserved demo_guard \<and> snd (snd (guard_stream demo_guard None demo_stream)) = Killed
    \<and> over_hold demo_guard (fst (snd (guard_stream demo_guard None demo_stream)))"
proof -
  have "0 < gv_reserved demo_guard" by (simp add: demo_guard_def)
  with stream_within_hold [OF this, of None demo_stream] demo_guard_kills(2) show ?thesis
    by (auto split: prod.splits)
qed


end
