(* ===== verification/Gateway.thy ===== *)
theory Gateway
  imports Stream_Guard Budget_Facts Reservation_Books Custody_Facts
begin

text \<open>
  The gateway: \<^verbatim>\<open>src/api/gateway/ingest.py\<close> (usage handed to custody through the outbox),
  \<^verbatim>\<open>proxy.py\<close> (estimate, gate, reserve, upstream, meter) and \<^verbatim>\<open>routes.py\<close>. What the upstream
  answers, when its chunks come, when the reader goes away, and whether Redis answers each step are
  arguments.

  The lemmas, in \<open>Gateway_Facts\<close> and \<open>Gateway_Runs\<close>, show that a refused completion leaves no hold, that an upstream error closes the hold,
  and that a stream is metered exactly once however it ends.
\<close>

section \<open>Recording usage\<close>

record gateway_env =
  ge_auth :: auth_env
  ge_digest :: digest
  ge_catalog :: catalog
  ge_default_input :: int
  ge_fail_policy :: string
  ge_upstream_key :: string
  ge_topic :: string
  ge_max_age :: int
  ge_max_future :: int
  ge_decode :: "string \<Rightarrow> string"
  ge_encode :: "string \<Rightarrow> string"
  ge_loads :: "string \<Rightarrow> json option"
  ge_dumps :: "json \<Rightarrow> string"

record usage_args =
  ua_customer :: string
  ua_model :: string
  ua_input :: int
  ua_output :: int
  ua_span :: "string option"
  ua_session :: "string option"
  ua_metadata :: "(string \<times> string) list option"
  ua_tenant :: "string option"
  ua_key :: "string option"
  ua_reservation :: "string option"
  ua_reserved :: rat
  ua_event :: "string option"

definition text_field :: "string \<Rightarrow> string option \<Rightarrow> (string \<times> json) list" where
  "text_field f v = (case truthy v of None \<Rightarrow> [] | Some t \<Rightarrow> [(f, JStr t)])"

definition usage_event :: "int \<Rightarrow> usage_args \<Rightarrow> event" where
  "usage_event now_ms a =
     [(''customerId'', JStr (ua_customer a)), (''modelId'', JStr (ua_model a)),
      (''inputTokens'', JInt (max 0 (ua_input a))), (''outputTokens'', JInt (max 0 (ua_output a))),
      (''timestamp'', JInt now_ms)]
     @ text_field ''parentSpanId'' (ua_span a) @ text_field ''sessionId'' (ua_session a)
     @ (case ua_metadata a of None \<Rightarrow> [] | Some [] \<Rightarrow> []
        | Some m \<Rightarrow> [(''metadata'', JObj (map (\<lambda>(k, v). (k, JStr v)) m))])
     @ text_field ''eventId'' (ua_event a)"

text \<open>\<open>buffer_publish\<close> is the outbox; its clock and the outcome of its publication are those of the call.\<close>

definition gateway_hook :: "custody_env \<Rightarrow> buffer_publish" where
  "gateway_hook CE = (\<lambda>w topic envelope. publish_envelope w (of_int (ce_now_ms CE) / 1000) topic envelope (ce_outcome CE 0))"

definition gateway_context :: "gateway_env \<Rightarrow> custody_env \<Rightarrow> usage_args \<Rightarrow> custody_ctx" where
  "gateway_context E CE a =
     \<lparr>x_tenant = ua_tenant a, x_api_key = ua_key a, x_topic = ge_topic E, x_quarantine = ge_topic E,
      x_source = ''gateway'', x_reservation = ua_reservation a, x_reserved_usd = ua_reserved a,
      x_max_age = ge_max_age E, x_max_future = ge_max_future E, x_on_down = BufferMode (Some (gateway_hook CE))\<rparr>"

definition usage_status :: "custody_reply \<Rightarrow> string" where
  "usage_status r =
     (if c_status r \<in> set [''accepted'', ''quarantined''] \<or> c_idempotent r = Some True then ''accepted''
      else if c_status r = ''buffered'' then ''buffered''
      else if c_status r = ''conflict'' then ''conflict''
      else if c_status r = ''pending'' then ''pending''
      else c_status r)"

definition ingest_usage :: "gateway_env \<Rightarrow> custody_env \<Rightarrow> usage_args \<Rightarrow> world \<Rightarrow> (string \<times> string) res \<times> world" where
  "ingest_usage E CE a w =
     (case custody_accept CE (gateway_context E CE a) (usage_event (ce_now_ms CE) a) w of
        (Inl e, w1) \<Rightarrow> (Inl e, w1)
      | (Inr r, w1) \<Rightarrow> (Inr (usage_status r, c_event r), w1))"

section \<open>One completion\<close>

text \<open>
  What happens around one request. The upstream cannot be reached, or it answers with a code, a
  body that may be JSON, and for a stream its chunks and how they break off. The reader takes all
  chunks, or leaves after some of them.
\<close>

datatype upstream = NoReply err | Answered nat "json option" "string list" "err option"

record surroundings =
  tu_check_up :: bool
  tu_open_up :: bool
  tu_settle_up :: bool
  tu_refresh_up :: bool
  tu_now :: rat
  tu_uuid :: string
  tu_clock :: "nat \<Rightarrow> rat"
  tu_custody :: custody_env
  tu_upstream :: upstream
  tu_reads :: "nat option"

record completion_args =
  ca_customer :: string
  ca_body :: json
  ca_provider :: "string option"
  ca_span :: "string option"
  ca_session :: "string option"
  ca_key :: "string option"
  ca_tenant :: "string option"

datatype gateway_body =
    DeniedByCheck decision
  | DeniedByHold hold_reply
  | MissingProviderKey
  | Relayed json
  | Streamed "string list"

record gateway_reply =
  gr_code :: nat
  gr_body :: gateway_body
  gr_receipt :: "(string \<times> rat) option"

record gateway_state =
  gw_world :: world
  gw_cache :: "((string \<times> string) \<times> cached) list"

definition budget_denied_response :: "gateway_body \<Rightarrow> gateway_reply" where
  "budget_denied_response gate = \<lparr>gr_code = 402, gr_body = gate, gr_receipt = None\<rparr>"

text \<open>The model is text or an integer.\<close>

definition asked_model :: "json \<Rightarrow> string res" where
  "asked_model body =
     bindE (json_get body ''model'' JNull) (\<lambda>m. if json_true m then json_text m else Inr ''unknown'')"

definition asked_max_tokens :: "json \<Rightarrow> int option res" where
  "asked_max_tokens body =
     bindE (json_get body ''max_tokens'' JNull) (\<lambda>m.
       Inr (case m of JFlt q \<Rightarrow> Some (trunc_int q) | JInt n \<Rightarrow> Some n | JBool b \<Rightarrow> Some (if b then 1 else 0)
              | _ \<Rightarrow> None))"

text \<open>The header shows the hold with six decimals.\<close>

definition reservation_headers :: "string \<Rightarrow> rat \<Rightarrow> (string \<times> rat) option" where
  "reservation_headers rid reserved = (if rid = [] then None else Some (rid, round_to 6 reserved))"

definition settle :: "surroundings \<Rightarrow> string \<Rightarrow> world \<Rightarrow> unit res \<times> world" where
  "settle T rid w =
     (if rid = [] then (Inr (), w)
      else if \<not> tu_settle_up T then (Inl RedisError, w)
      else (case hold_settle (reg w) rid of Inl e \<Rightarrow> (Inl e, w) | Inr (_, s) \<Rightarrow> (Inr (), w\<lparr>reg := s\<rparr>)))"

definition proxy_ingest ::
  "gateway_env \<Rightarrow> surroundings \<Rightarrow> completion_args \<Rightarrow> string \<Rightarrow> string \<Rightarrow> rat \<Rightarrow> int \<Rightarrow> int \<Rightarrow>
     (string \<times> string) list option \<Rightarrow> world \<Rightarrow> (string \<times> string) res \<times> world" where
  "proxy_ingest E T C model rid reserved input_tokens output_tokens meta w =
     ingest_usage E (tu_custody T)
       \<lparr>ua_customer = ca_customer C, ua_model = model, ua_input = input_tokens, ua_output = output_tokens,
        ua_span = ca_span C, ua_session = ca_session C, ua_metadata = meta, ua_tenant = ca_tenant C,
        ua_key = ca_key C, ua_reservation = Some rid, ua_reserved = reserved, ua_event = None\<rparr> w"

text \<open>\<open>int(usage.get(field) or 0)\<close>, for the usage of a whole answer.\<close>

definition count_or_0 :: "json \<Rightarrow> string \<Rightarrow> int res" where
  "count_or_0 usage f = bindE (json_get usage f JNull) (\<lambda>j. if json_true j then json_int j else Inr 0)"

definition answer_counts :: "json \<Rightarrow> (int \<times> int) res" where
  "answer_counts data =
     bindE (json_get data ''usage'' JNull) (\<lambda>u.
     bindE (count_or_0 (json_or u (JObj [])) ''prompt_tokens'') (\<lambda>i.
     bindE (count_or_0 (json_or u (JObj [])) ''completion_tokens'') (\<lambda>out. Inr (i, out))))"

definition non_stream ::
  "gateway_env \<Rightarrow> surroundings \<Rightarrow> completion_args \<Rightarrow> string \<Rightarrow> string \<Rightarrow> rat \<Rightarrow> world \<Rightarrow> gateway_reply res \<times> world" where
  "non_stream E T C model rid reserved w =
     (case tu_upstream T of
        NoReply e \<Rightarrow> (Inl e, w)
      | Answered code body parts broken \<Rightarrow>
          if code \<ge> 400
          then (case settle T rid w of
                  (Inl e, w1) \<Rightarrow> (Inl e, w1)
                | (Inr _, w1) \<Rightarrow>
                    (case body of
                       None \<Rightarrow> (Inl ValueError, w1)
                     | Some j \<Rightarrow> (Inr \<lparr>gr_code = code, gr_body = Relayed j, gr_receipt = None\<rparr>, w1)))
          else (case body of
                  None \<Rightarrow> (Inl ValueError, w)
                | Some data \<Rightarrow>
                    (case answer_counts data of
                       Inl e \<Rightarrow> (Inl e, w)
                     | Inr (i, out) \<Rightarrow>
                         (case proxy_ingest E T C model rid reserved i out None w of
                            (Inl e, w1) \<Rightarrow> (Inl e, w1)
                          | (Inr _, w1) \<Rightarrow>
                              (Inr \<lparr>gr_code = 200, gr_body = Relayed data,
                                    gr_receipt = reservation_headers rid reserved\<rparr>, w1)))))"

section \<open>Streaming\<close>

text \<open>
  The chunks on their way to the reader: a chunk that comes a minute or more after the last refresh
  first refreshes the hold, and the stream ends there if Redis is down. The monotonic clock runs like
  the wall clock, so one clock stands for both.
\<close>

fun relay :: "surroundings \<Rightarrow> string \<Rightarrow> rat \<Rightarrow> nat \<Rightarrow> yielded \<Rightarrow> store \<Rightarrow> string list \<times> store \<times> stream_usage option" where
  "relay T rid due i [] s = ([], s, None)"
| "relay T rid due i ((part, u) # ys) s =
     (if rid = [] \<or> tu_clock T i < due
      then (case relay T rid due (i + 1) ys s of (parts, s', stopped) \<Rightarrow> (part # parts, s', stopped))
      else if \<not> tu_refresh_up T then ([], s, Some u)
      else (case relay T rid (tu_clock T i + 60) (i + 1) ys (snd (hold_refresh s (tu_clock T i) rid None)) of
              (parts, s', stopped) \<Rightarrow> (part # parts, s', stopped)))"

text \<open>What reaches the reader before it leaves, and the usage the guard has counted then.\<close>

definition read_by :: "nat option \<Rightarrow> yielded \<Rightarrow> stream_usage \<Rightarrow> yielded \<times> stream_usage" where
  "read_by reads outs u =
     (case reads of
        None \<Rightarrow> (outs, u)
      | Some n \<Rightarrow>
          if n < length outs then (take n outs, if n = 0 then fresh_usage else snd (outs ! (n - 1)))
          else (outs, u))"

text \<open>The \<open>finally\<close> block: usage is recorded and every exception of that is dropped.\<close>

definition meter_stream ::
  "gateway_env \<Rightarrow> surroundings \<Rightarrow> completion_args \<Rightarrow> string \<Rightarrow> string \<Rightarrow> rat \<Rightarrow> stream_usage \<Rightarrow> world \<Rightarrow> world" where
  "meter_stream E T C model rid reserved u w =
     (if su_input u \<noteq> 0 \<or> su_output u \<noteq> 0 \<or> reserved > 0
      then snd (proxy_ingest E T C model rid reserved (su_input u) (su_output u)
             (if su_killed u then Some [(''_stream_killed'', ''true'')] else None) w)
      else w)"

definition guard_for :: "gateway_env \<Rightarrow> string \<Rightarrow> rat \<Rightarrow> guard_env" where
  "guard_for E model reserved =
     \<lparr>gv_catalog = ge_catalog E, gv_model = model, gv_reserved = reserved, gv_decode = ge_decode E,
      gv_encode = ge_encode E, gv_loads = ge_loads E, gv_dumps = ge_dumps E\<rparr>"

definition run_stream ::
  "gateway_env \<Rightarrow> surroundings \<Rightarrow> completion_args \<Rightarrow> string \<Rightarrow> string \<Rightarrow> rat \<Rightarrow> world \<Rightarrow> string list \<times> world" where
  "run_stream E T C model rid reserved w =
     (case tu_upstream T of
        NoReply e \<Rightarrow> ([], meter_stream E T C model rid reserved fresh_usage w)
      | Answered code body parts broken \<Rightarrow>
          if code \<ge> 400
          then (case settle T rid w of
                  (Inl e, w1) \<Rightarrow> ([], meter_stream E T C model rid reserved fresh_usage w1)
                | (Inr _, w1) \<Rightarrow>
                    (if broken = None then [concat parts] else [],
                     if rid = [] then meter_stream E T C model rid reserved fresh_usage w1 else w1))
          else (case guard_stream (guard_for E model reserved) broken parts of
                  (outs, u, fin) \<Rightarrow>
                    (case read_by (tu_reads T) outs u of
                       (ys, v) \<Rightarrow>
                         (case relay T rid (tu_clock T 0 + 60) 1 ys (reg w) of
                            (delivered, s, stopped) \<Rightarrow>
                              (delivered, meter_stream E T C model rid reserved
                                 (case stopped of Some x \<Rightarrow> x | None \<Rightarrow> v) (w\<lparr>reg := s\<rparr>))))))"

section \<open>The life of a completion\<close>

definition checked :: "gateway_env \<Rightarrow> surroundings \<Rightarrow> completion_args \<Rightarrow> rat \<Rightarrow> gateway_state \<Rightarrow> decision res \<times> gateway_state" where
  "checked E T C estimated g =
     (case budget_check \<lparr>db = reg (gw_world g), cache = gw_cache g\<rparr> (norm_tenant (ca_tenant C)) (ge_fail_policy E)
             (tu_check_up T) (tu_now T)
             \<lparr>q_customer = ca_customer C, q_estimate = estimated, q_span = ca_span C, q_session = ca_session C,
              q_key = ca_key C, q_count = True\<rparr> of
        (r, b) \<Rightarrow> (r, \<lparr>gw_world = (gw_world g)\<lparr>reg := db b\<rparr>, gw_cache = cache b\<rparr>))"

definition on_world :: "gateway_state \<Rightarrow> world \<Rightarrow> gateway_state" where
  "on_world g w = g\<lparr>gw_world := w\<rparr>"

definition with_hold ::
  "gateway_env \<Rightarrow> surroundings \<Rightarrow> completion_args \<Rightarrow> string \<Rightarrow> bool \<Rightarrow> rat \<Rightarrow> gateway_state \<Rightarrow> gateway_reply res \<times> gateway_state" where
  "with_hold E T C model stream estimated g =
     (if \<not> tu_open_up T then (Inl RedisError, g)
      else (case hold_open (norm_tenant (ca_tenant C)) (reg (gw_world g)) (tu_now T) (tu_uuid T) (ca_customer C)
                   estimated (ca_span C) None of
              Inl e \<Rightarrow> (Inl e, g)
            | Inr (hold, s) \<Rightarrow>
                let w = (gw_world g)\<lparr>reg := s\<rparr> in
                if \<not> h_allowed hold then (Inr (budget_denied_response (DeniedByHold hold)), on_world g w)
                else
                  let reserved = (case h_reserved hold of None \<Rightarrow> estimated | Some q \<Rightarrow> if q = 0 then estimated else q) in
                  if stream
                  then (case run_stream E T C model (tu_uuid T) reserved w of
                          (delivered, w1) \<Rightarrow>
                            (Inr \<lparr>gr_code = 200, gr_body = Streamed delivered,
                                  gr_receipt = reservation_headers (tu_uuid T) reserved\<rparr>, on_world g w1))
                  else (case non_stream E T C model (tu_uuid T) reserved w of (r, w1) \<Rightarrow> (r, on_world g w1))))"

definition asked :: "gateway_env \<Rightarrow> json \<Rightarrow> (string \<times> bool \<times> rat) res" where
  "asked E body =
     bindE (asked_model body) (\<lambda>model.
     bindE (json_get body ''stream'' JNull) (\<lambda>stream.
     bindE (asked_max_tokens body) (\<lambda>mx.
     bindE (estimate_completion_usd (ge_default_input E) (ge_catalog E) model mx None) (\<lambda>estimated.
       Inr (model, json_true stream, estimated)))))"

definition provider_auth :: "gateway_env \<Rightarrow> completion_args \<Rightarrow> string option" where
  "provider_auth E C =
     (case truthy (ca_provider C) of
        Some t \<Rightarrow> Some t
      | None \<Rightarrow> if ge_upstream_key E = [] then None else Some (''Bearer '' @ ge_upstream_key E))"

definition handle_chat_completion ::
  "gateway_env \<Rightarrow> surroundings \<Rightarrow> completion_args \<Rightarrow> gateway_state \<Rightarrow> gateway_reply res \<times> gateway_state" where
  "handle_chat_completion E T C g =
     (case asked E (ca_body C) of
        Inl e \<Rightarrow> (Inl e, g)
      | Inr (model, stream, estimated) \<Rightarrow>
          (case checked E T C estimated g of
             (Inl e, g1) \<Rightarrow> (Inl e, g1)
           | (Inr gate, g1) \<Rightarrow>
               if \<not> d_allowed gate then (Inr (budget_denied_response (DeniedByCheck gate)), g1)
               else if provider_auth E C = None
               then (Inr \<lparr>gr_code = 401, gr_body = MissingProviderKey, gr_receipt = None\<rparr>, g1)
               else with_hold E T C model stream estimated g1))"

text \<open>The route: the caller's key first, then the customer header, access to that customer, and the body.\<close>

definition chat_completions ::
  "gateway_env \<Rightarrow> surroundings \<Rightarrow> string option \<Rightarrow> string option \<Rightarrow> string option \<Rightarrow> string option \<Rightarrow> string option \<Rightarrow>
     json option \<Rightarrow> gateway_state \<Rightarrow> gateway_reply res \<times> gateway_state" where
  "chat_completions E T api_key customer span_id session_id authorization body g =
     (let s = reg (gw_world g) in
      case require_api_key (ge_auth E) (ge_digest E) s api_key of
        Inl e \<Rightarrow> (Inl e, g)
      | Inr _ \<Rightarrow>
          (case truthy customer of
             None \<Rightarrow> (Inl (HTTPException 400), g)
           | Some c \<Rightarrow>
               (case require_customer_access (ge_auth E) (ge_digest E) s c api_key of
                  Inl e \<Rightarrow> (Inl e, g)
                | Inr _ \<Rightarrow>
                    (case body of
                       None \<Rightarrow> (Inl (HTTPException 400), g)
                     | Some j \<Rightarrow>
                         (case resolve_key_context (ge_digest E) s api_key of
                            Inl e \<Rightarrow> (Inl e, g)
                          | Inr (_, key_id) \<Rightarrow>
                              handle_chat_completion E T
                                \<lparr>ca_customer = c, ca_body = j, ca_provider = authorization, ca_span = span_id,
                                 ca_session = session_id, ca_key = (case key_id of JStr k \<Rightarrow> Some k | _ \<Rightarrow> None),
                                 ca_tenant = resolve_tenant_from_key (ge_digest E) s api_key\<rparr> g)))))"

end
