(* ===== verification/Gateway_Facts.thy ===== *)
theory Gateway_Facts
  imports Gateway
begin

text \<open>
  Properties of the gateway: what the steps of a completion leave alone, that usage handed to custody
  is acknowledged or in the outbox, and what holds of refused, failed and streamed completions.
\<close>

section \<open>What a step leaves to the identity registry\<close>

definition quiet :: "store \<Rightarrow> store \<Rightarrow> bool" where
  "quiet s s' \<longleftrightarrow> raw s' = raw s \<and> (zwf_all s \<longrightarrow> zwf_all s')"

lemma quiet_refl [simp]: "quiet s s"
  by (simp add: quiet_def)

lemma quiet_trans: "quiet s s1 \<Longrightarrow> quiet s1 s2 \<Longrightarrow> quiet s s2"
  by (auto simp: quiet_def)

lemma registry_keys: "PENDING_KEY \<noteq> snd (bucket wn)" "record_key r \<noteq> fst (bucket wn)"
  by (auto simp: PENDING_KEY_def bucket_def record_key_def)

lemma quietI:
  assumes "\<And>wn. hget s' (fst (bucket wn)) = hget s (fst (bucket wn))"
    and "\<And>k. k \<noteq> PENDING_KEY \<Longrightarrow> zsets s' k = zsets s k"
    and "zwf (zsets s PENDING_KEY) \<Longrightarrow> zwf (zsets s' PENDING_KEY)"
  shows "quiet s s'"
proof -
  have "zscore s' (snd (bucket wn)) = zscore s (snd (bucket wn))" for wn
    using assms(2) [of "snd (bucket wn)"] registry_keys(1) [of wn] by (auto simp: zscore_def fun_eq_iff)
  then have "raw s' = raw s" by (auto simp: raw_def fun_eq_iff assms(1))
  moreover have "zwf_all s'" if z: "zwf_all s"
    unfolding zwf_all_def
  proof
    fix k show "zwf (zsets s' k)"
      using z assms(2,3) by (cases "k = PENDING_KEY") (simp_all add: zwf_all_def)
  qed
  ultimately show ?thesis by (simp add: quiet_def)
qed

lemma hget_expire [simp]: "hget (expire s k x) = hget s"
  by (auto simp: fun_eq_iff expire_def hget_def hash_of_def)

lemma refresh_quiet: "quiet s (snd (hold_refresh s now rid ex))"
  by (rule quietI) (auto simp: hold_refresh_def Let_def zwf_insort)

lemma relay_quiet: "relay T rid due i ys s = (parts, s', stopped) \<Longrightarrow> quiet s s'"
proof (induction T rid due i ys s arbitrary: parts s' stopped rule: relay.induct)
  case (2 T rid due i part u ys s)
  then show ?case
    using refresh_quiet quiet_trans by (fastforce split: if_splits prod.splits)
qed simp

lemma incrby_quiet:
  assumes "incrby s k n = Inr s'"
  shows "hget s' = hget s" and "zsets s' = zsets s"
  using incrby_frame [OF assms] by (simp_all add: fun_eq_iff hget_def)

lemma counted_same:
  assumes "counted b k c d = (r, b')"
  shows "hget (db b') = hget (db b) \<and> zsets (db b') = zsets (db b)"
  using assms incrby_quiet by (fastforce simp: counted_def increment_rate_limit_def
      split: if_splits prod.splits sum.splits)

lemma check_redis_same:
  "check_redis b t now q = (r, b') \<Longrightarrow> hget (db b') = hget (db b) \<and> zsets (db b') = zsets (db b)"
  by (auto simp: check_redis_def Let_def dest!: counted_same
      split: if_splits prod.splits sum.splits option.splits)

lemma budget_check_same:
  assumes "budget_check b t policy up now q = (r, b')"
  shows "hget (db b') = hget (db b)" and "zsets (db b') = zsets (db b)"
    and "k \<noteq> rate_limit_key t (q_customer q) (trunc_int now div 60) \<Longrightarrow> rget (db b') k = rget (db b) k"
proof -
  obtain r1 b1 where run: "check_redis b t now (q\<lparr>q_estimate := max 0 (q_estimate q)\<rparr>) = (r1, b1)" by fastforce
  have alt: "db b' = db b \<or> db b' = db b1"
    using assms run by (auto simp: budget_check_def Let_def split: if_splits sum.splits)
  with check_redis_same [OF run] show "hget (db b') = hget (db b)" "zsets (db b') = zsets (db b)" by auto
  show "k \<noteq> rate_limit_key t (q_customer q) (trunc_int now div 60) \<Longrightarrow> rget (db b') k = rget (db b) k"
    using alt check_redis_frame [OF run, of k] by auto
qed

lemma checked_same:
  assumes "checked E T C est g = (r, g')"
  shows "hget (reg (gw_world g')) = hget (reg (gw_world g))" and "zsets (reg (gw_world g')) = zsets (reg (gw_world g))"
    and "k \<noteq> rate_limit_key (norm_tenant (ca_tenant C)) (ca_customer C) (trunc_int (tu_now T) div 60) \<Longrightarrow>
      rget (reg (gw_world g')) k = rget (reg (gw_world g)) k"
    and "sent (gw_world g') = sent (gw_world g)"
proof -
  obtain r1 b where run: "budget_check \<lparr>db = reg (gw_world g), cache = gw_cache g\<rparr> (norm_tenant (ca_tenant C))
      (ge_fail_policy E) (tu_check_up T) (tu_now T) \<lparr>q_customer = ca_customer C, q_estimate = est, q_span = ca_span C,
        q_session = ca_session C, q_key = ca_key C, q_count = True\<rparr> = (r1, b)" by fastforce
  with assms have g': "gw_world g' = (gw_world g)\<lparr>reg := db b\<rparr>" by (auto simp: checked_def)
  from budget_check_same(1,2) [OF run] budget_check_same(3) [OF run, of k] g'
  show "hget (reg (gw_world g')) = hget (reg (gw_world g))" "zsets (reg (gw_world g')) = zsets (reg (gw_world g))"
    "k \<noteq> rate_limit_key (norm_tenant (ca_tenant C)) (ca_customer C) (trunc_int (tu_now T) div 60) \<Longrightarrow>
      rget (reg (gw_world g')) k = rget (reg (gw_world g)) k"
    "sent (gw_world g') = sent (gw_world g)" by simp_all
qed

lemma checked_quiet:
  assumes "checked E T C est g = (r, g')"
  shows "quiet (reg (gw_world g)) (reg (gw_world g'))"
  by (rule quietI) (simp_all add: checked_same [OF assms])

lemma hold_open_quiet:
  assumes "hold_open t s now rid c est sp ex = Inr (r, s')"
  shows "quiet s s'"
  using assms
proof (cases rule: hold_open_cases)
  case (opened sk sh ss s1 s2)
  note S = span_hold_spec [OF opened(6)] and I = incr_num(4,5) [OF opened(7)]
  show ?thesis
  proof (rule quietI)
    show "hget s' (fst (bucket wn)) = hget s (fst (bucket wn))" for wn
      using registry_keys(2) [of rid wn] S(3) I(1) by (auto simp: opened(8) fun_eq_iff)
    show "k \<noteq> PENDING_KEY \<Longrightarrow> zsets s' k = zsets s k" for k
      using S(4) I(2) by (simp add: opened(8))
    show "zwf (zsets s PENDING_KEY) \<Longrightarrow> zwf (zsets s' PENDING_KEY)"
      using S(4) I(2) by (simp add: opened(8) zwf_insort)
  qed
qed simp

section \<open>Usage is acknowledged or in the outbox\<close>

definition same_outbox :: "store \<Rightarrow> store \<Rightarrow> bool" where
  "same_outbox s s' \<longleftrightarrow> rget s' = rget s \<and> zsets s' OUTBOX_PENDING = zsets s OUTBOX_PENDING"

lemma same_outbox_refl [simp]: "same_outbox s s"
  by (simp add: same_outbox_def)

lemma transition_outbox:
  "transition_event_identities H s t now target [(e, fp)] = (n, s') \<Longrightarrow> same_outbox s s'"
  using outbox_not_registry
  by (auto simp: transition_event_identities_def Let_def group_single transition_script_def transition_one_def
      put_identity_def touch_def same_outbox_def fun_eq_iff split: if_splits)

lemma remember_outbox:
  assumes "remember_ids E x [(e, fp)] w = (b, w')"
  shows "same_outbox (reg w) (reg w')" and "sent w' = sent w"
proof -
  have "same_outbox s s'" if "remember_attempts n H s t now [(e, fp)] up = (b, s')" for n H s t now up s'
    using that transition_outbox
    by (induction n H s t now "[(e, fp)]" up rule: remember_attempts.induct)
       (auto split: if_splits prod.splits)
  then show "same_outbox (reg w) (reg w')" "sent w' = sent w"
    using assms by (auto simp: remember_ids_def remember_event_identities_def split: prod.splits)
qed

lemma mark_outbox:
  "same_outbox (reg w) (reg (mark_ids E x [(e, fp)] w))" "sent (mark_ids E x [(e, fp)] w) = sent w"
  using transition_outbox
  by (auto simp: mark_ids_def mark_event_identities_uncertain_def) (metis prod.collapse)

text \<open>The payload under which the usage of a reservation is recorded.\<close>

definition metered_payload :: "custody_env \<Rightarrow> usage_args \<Rightarrow> string \<Rightarrow> event" where
  "metered_payload CE a rid = AList.update ''eventId'' (JStr (''res:'' @ rid)) (usage_event (ce_now_ms CE) a)"

lemma usage_event_fields:
  "map_of (usage_event n a) ''timestamp'' = Some (JInt n)"
  "map_of (usage_event n a) ''customerId'' = Some (JStr (ua_customer a))"
  "map_of (usage_event n a) ''inputTokens'' = Some (JInt (max 0 (ua_input a)))"
  "map_of (usage_event n a) ''outputTokens'' = Some (JInt (max 0 (ua_output a)))"
  by (simp_all add: usage_event_def)

lemma metered_prepared:
  assumes "ua_reservation a = Some rid" and "rid \<noteq> []"
  shows "\<exists>fp. prepare_payload CE t (ua_reservation a) (usage_event (ce_now_ms CE) a)
    = Inr (metered_payload CE a rid, ''res:'' @ rid, fp)"
  using assms
  by (simp add: prepare_payload_def resolve_custody_event_id_def truthy_def metered_payload_def Let_def
      update_conv' usage_event_fields split: list.splits)

lemma metered_envelope:
  "\<exists>su env. build_envelope CE x (metered_payload CE a rid) = Inr (su, env)
     \<and> envelope_ids env = Inr (''res:'' @ rid, ua_customer a)"
  by (simp add: build_envelope_def trusted_envelope_def metered_payload_def json_index_def Let_def update_conv'
      usage_event_fields json_int_def envelope_ids_def json_text_def json_encode_def)

definition delivered_or_kept :: "pub_outcome \<Rightarrow> string \<Rightarrow> json \<Rightarrow> store \<Rightarrow> bool" where
  "delivered_or_kept out e env s \<longleftrightarrow>
     (if out = Acked then rget s (outbox_key e) = None \<and> e \<notin> fst ` set (zsets s OUTBOX_PENDING)
      else in_outbox s e env)"

lemma same_outbox_delivered: "same_outbox s s' \<Longrightarrow> delivered_or_kept out e env s' = delivered_or_kept out e env s"
  by (simp add: delivered_or_kept_def same_outbox_def in_outbox_def)

lemma envelope_published:
  assumes "envelope_ids env = Inr (e, c)"
  shows "case publish_envelope w now topic env out of (r, w') \<Rightarrow>
    sent w' = sent w @ [\<lparr>m_topic = topic, m_key = c, m_value = env, m_outcome = out\<rparr>]
    \<and> delivered_or_kept out e env (reg w')"
  using assms in_outbox_stored
  by (cases out)
     (auto simp: publish_envelope_def publish_with_ack_def outcome_error_def outbox_remove_def outbox_store_def
        delivered_or_kept_def)

lemma buffered_kept:
  assumes "accept_buffered E x bp e fp su env w = (r, w')" and "bp w (dest_topic x su) env = (b, w1)"
  shows "sent w' = sent w1" and "same_outbox (reg w1) (reg w')"
proof -
  obtain ok w2 where rem: "remember_ids E x [(e, fp)] w1 = (ok, w2)" by fastforce
  note R = remember_outbox [OF rem]
  have "same_outbox (reg w1) (reg (mark_ids E x [(e, fp)] w2))"
    using R(1) mark_outbox(1) [of w2 E x e fp] by (simp add: same_outbox_def)
  with R rem assms mark_outbox(2) show "sent w' = sent w1" "same_outbox (reg w1) (reg w')"
    by (auto simp: accept_buffered_def split: sum.splits bool.splits)
qed

lemma fresh_buffered:
  assumes prep: "prepare_payload CE (x_tenant x) (x_reservation x) ev = Inr (p, e, fp)"
    and env: "build_envelope CE x p = Inr (su, env)" "envelope_ids env = Inr (e, c)"
    and down: "x_on_down x = BufferMode (Some (gateway_hook CE))"
    and z: "zwf_all (reg w)" and up: "ce_claim_up CE"
    and new: "fst (live (of_int (now_sec CE)) (reg w) (cell_of (ce_digest CE) (x_tenant x) e)) = None"
    and run: "custody_accept CE x ev w = (r, w')"
  shows "sent w' = sent w @ [\<lparr>m_topic = dest_topic x su, m_key = c, m_value = env, m_outcome = ce_outcome CE 0\<rparr>]"
    and "delivered_or_kept (ce_outcome CE 0) e env (reg w')"
proof -
  obtain wc where cl: "claim_ids CE x [(e, fp)] w = (Inr [Some Owner], wc)" and sc: "sent wc = sent w"
    using claim_new [OF z up new] by blast
  have acc: "accept_buffered CE x (gateway_hook CE) e fp su env wc = (r, w')"
    using run by (simp add: custody_accept_def accept_impl_def prep cl taken_reply_def env(1) down)
  obtain rb wb where pub: "gateway_hook CE wc (dest_topic x su) env = (rb, wb)" by fastforce
  have P: "sent wb = sent wc @ [\<lparr>m_topic = dest_topic x su, m_key = c, m_value = env, m_outcome = ce_outcome CE 0\<rparr>]"
    "delivered_or_kept (ce_outcome CE 0) e env (reg wb)"
    using envelope_published [OF env(2), where w = wc and now = "of_int (ce_now_ms CE) / 1000" and topic = "dest_topic x su"
        and out = "ce_outcome CE 0"]
      pub by (simp_all add: gateway_hook_def)
  note B = buffered_kept [OF acc pub]
  show "sent w' = sent w @ [\<lparr>m_topic = dest_topic x su, m_key = c, m_value = env, m_outcome = ce_outcome CE 0\<rparr>]"
    using B(1) P(1) sc by simp
  show "delivered_or_kept (ce_outcome CE 0) e env (reg w')"
    using same_outbox_delivered [OF B(2)] P(2) by simp
qed

lemma usage_metered:
  assumes rid: "ua_reservation a = Some rid" "rid \<noteq> []" and "zwf_all (reg w)" and "ce_claim_up CE"
    and "fst (live (of_int (now_sec CE)) (reg w) (cell_of (ce_digest CE) (ua_tenant a) (''res:'' @ rid))) = None"
    and run: "ingest_usage E CE a w = (r, w')"
  shows "\<exists>su env. build_envelope CE (gateway_context E CE a) (metered_payload CE a rid) = Inr (su, env)
    \<and> sent w' = sent w @ [\<lparr>m_topic = ge_topic E, m_key = ua_customer a, m_value = env, m_outcome = ce_outcome CE 0\<rparr>]
    \<and> delivered_or_kept (ce_outcome CE 0) (''res:'' @ rid) env (reg w')"
proof -
  let ?x = "gateway_context E CE a"
  have x: "x_tenant ?x = ua_tenant a" "x_reservation ?x = ua_reservation a"
    "x_on_down ?x = BufferMode (Some (gateway_hook CE))" "dest_topic ?x su = ge_topic E" for su
    by (simp_all add: gateway_context_def dest_topic_def)
  obtain fp where prep: "prepare_payload CE (x_tenant ?x) (x_reservation ?x) (usage_event (ce_now_ms CE) a)
      = Inr (metered_payload CE a rid, ''res:'' @ rid, fp)"
    using metered_prepared [OF rid] x(2) by metis
  obtain su env where env: "build_envelope CE ?x (metered_payload CE a rid) = Inr (su, env)"
    "envelope_ids env = Inr (''res:'' @ rid, ua_customer a)"
    using metered_envelope by blast
  obtain ra where "custody_accept CE ?x (usage_event (ce_now_ms CE) a) w = (ra, w')"
    using run by (auto simp: ingest_usage_def split: prod.splits sum.splits)
  from fresh_buffered [OF prep env x(3) assms(3,4) _ this] assms(5) env(1) x(1,4) show ?thesis by auto
qed

section \<open>Refused completions\<close>

lemma open_denied: "hold_open t s now rid c est sp ex = Inr (r, s') \<Longrightarrow> \<not> h_allowed r \<Longrightarrow> s' = s"
  by (erule hold_open_cases) (auto simp: open_result_def Let_def)

text \<open>
  C32: a refused completion leaves nothing behind. When the gateway answers that the budget check or
  the hold refused the request, or that there is no key for the provider, nothing was handed to Kafka, no
  reservation was opened or closed, and every Redis key but the caller's request counter of the
  current minute holds what it held.
\<close>

theorem refused_leaves_nothing:
  assumes "handle_chat_completion E T C g = (Inr r, g')"
    and "gr_body r = MissingProviderKey \<or> (\<exists>d. gr_body r = DeniedByCheck d) \<or> (\<exists>h. gr_body r = DeniedByHold h)"
  shows "sent (gw_world g') = sent (gw_world g)
    \<and> hget (reg (gw_world g')) = hget (reg (gw_world g)) \<and> zsets (reg (gw_world g')) = zsets (reg (gw_world g))
    \<and> (\<forall>k. k \<noteq> rate_limit_key (norm_tenant (ca_tenant C)) (ca_customer C) (trunc_int (tu_now T) div 60) \<longrightarrow>
         rget (reg (gw_world g')) k = rget (reg (gw_world g)) k)"
proof -
  obtain model stream est where asked: "asked E (ca_body C) = Inr (model, stream, est)"
    using assms(1) by (auto simp: handle_chat_completion_def split: sum.splits)
  obtain d g1 where chk: "checked E T C est g = (d, g1)" by fastforce
  have nostream: "gr_body x \<noteq> MissingProviderKey \<and> (\<forall>d. gr_body x \<noteq> DeniedByCheck d) \<and> (\<forall>h. gr_body x \<noteq> DeniedByHold h)"
    if "non_stream E T C model rid reserved w = (Inr x, w')" for rid reserved w x w'
    using that by (auto simp: non_stream_def split: upstream.splits if_splits prod.splits sum.splits option.splits)
  have held: "gw_world g' = gw_world g1" if "with_hold E T C model stream est g1 = (Inr r, g')"
    using that assms(2) nostream
    by (auto simp: with_hold_def on_world_def Let_def dest: open_denied split: if_splits sum.splits prod.splits)
  have "gw_world g' = gw_world g1"
    using assms(1) asked chk held by (auto simp: handle_chat_completion_def split: sum.splits if_splits)
  with checked_same [OF chk] show ?thesis by simp
qed

section \<open>Upstream errors\<close>

definition upstream_failed :: "upstream \<Rightarrow> bool" where
  "upstream_failed up = (case up of NoReply _ \<Rightarrow> False | Answered code _ _ _ \<Rightarrow> 400 \<le> code)"

lemma span_hold_num:
  assumes "span_hold s K sp est = Inr (denied, sh, ss, s1)" and "is_num (rget s k)"
  shows "is_num (rget s1 k)"
  using assms is_num_incr
  by (auto simp: span_hold_def split: if_splits option.splits)

lemma hold_open_nums:
  assumes "hold_open t s now rid c est sp ex = Inr (r, s')" and "holds_num s"
  shows "holds_num s'"
  using assms(1)
proof (cases rule: hold_open_cases)
  case (opened sk sh ss s1 s2)
  have "is_num (rget s' k)" if "is_num (rget s k)" for k
    using is_num_incr [OF opened(7) span_hold_num [OF opened(6) that]] by (simp add: opened(8))
  with assms(2) show ?thesis by (simp add: holds_num_def)
qed (use assms in simp)

lemma hold_open_opens:
  assumes "hold_open t s now rid c est sp ex = Inr (r, s')" and "\<not> is_open s rid" and "h_allowed r"
  shows "is_open s' x \<longleftrightarrow> is_open s x \<or> x = rid"
  using assms(1)
proof (cases rule: hold_open_cases)
  case unchanged
  have "h_idempotent r = Some False" 
    using assms unfolding hold_open_def open_script_def decode_open_def is_open_def denied_reply_def
    by (auto simp: Let_def split: if_splits option.splits list.splits reply.splits)
  with unchanged show ?thesis by simp
next
  case (opened sk sh ss s1 s2)
  note O = opened_store [OF opened(3) opened(6) opened(7) opened(8)]
  show ?thesis using O(5) same_records_reads(4) [OF O(2), of x] by (cases "x = rid") auto
qed

lemma settle_ok:
  assumes "covered s" and "holds_num s"
  obtains q s' where "hold_settle s rid = Inr (q, s')"
proof -
  obtain res s' where cl: "hold_close s rid = Inr (res, s')" using close_ok [OF assms] by blast
  show thesis
  proof (cases "is_open s rid")
    case False
    then show thesis using that cl close_absent assms(1) by (auto simp: hold_settle_def covered_def)
  next
    case True
    note C = covered_released [OF assms(1) True]
    from close_present(1) [OF C(3) True cl] cl that show thesis
      by (auto simp: hold_settle_def reply_float_def)
  qed
qed

end
