(* ===== verification/Gateway_Runs.thy ===== *)
theory Gateway_Runs
  imports Gateway_Facts Reservation_Cases
begin

text \<open>
  Completions that reach the upstream: one the upstream refuses closes its hold and hands over
  nothing, and one that is streamed is metered exactly once.
\<close>

section \<open>The upstream refuses\<close>

lemma settled_run:
  assumes "upstream_failed (tu_upstream T)" and "tu_settle_up T" and "rid \<noteq> []"
    and "hold_settle (reg w) rid = Inr (q, s')"
  shows "snd (run_stream E T C model rid reserved w) = w\<lparr>reg := s'\<rparr>"
    and "snd (non_stream E T C model rid reserved w) = w\<lparr>reg := s'\<rparr>"
  using assms
  by (auto simp: upstream_failed_def run_stream_def non_stream_def settle_def split: upstream.splits option.splits)


section \<open>Streams are metered once\<close>

lemma relay_prefix:
  assumes "relay T rid due i ys s = (parts, s', stopped)"
  shows "\<exists>n \<le> length ys. parts = map fst (take n ys)
    \<and> (case stopped of None \<Rightarrow> n = length ys | Some u \<Rightarrow> n < length ys \<and> u = snd (ys ! n))"
  using assms
proof (induction T rid due i ys s arbitrary: parts s' stopped rule: relay.induct)
  case (2 T rid due i part u ys s)
  show ?case
  proof (cases "\<not> (rid = [] \<or> tu_clock T i < due) \<and> \<not> tu_refresh_up T")
    case True
    then show ?thesis using "2.prems" by (intro exI [of _ 0]) auto
  next
    case False
    have ext: ?thesis if "relay T rid due1 (i + 1) ys s1 = (parts1, s', stopped)" "parts = part # parts1"
      and I: "\<exists>n \<le> length ys. parts1 = map fst (take n ys)
        \<and> (case stopped of None \<Rightarrow> n = length ys | Some u \<Rightarrow> n < length ys \<and> u = snd (ys ! n))" for parts1 due1 s1
    proof -
      from I obtain n where "n \<le> length ys" "parts1 = map fst (take n ys)"
        "case stopped of None \<Rightarrow> n = length ys | Some u \<Rightarrow> n < length ys \<and> u = snd (ys ! n)" by blast
      with that(2) show ?thesis by (intro exI [of _ "Suc n"]) (simp split: option.splits)
    qed
    show ?thesis
    proof (cases "rid = [] \<or> tu_clock T i < due")
      case True
      obtain parts1 s1 st where r: "relay T rid due (i + 1) ys s = (parts1, s1, st)" by (metis prod_cases3)
      with True "2.prems" have "s1 = s'" "st = stopped" "parts = part # parts1" by auto
      with r "2.IH"(1) [OF True] show ?thesis by (intro ext) blast+
    next
      case clk: False
      let ?s1 = "snd (hold_refresh s (tu_clock T i) rid None)"
      obtain parts1 s1 st where r: "relay T rid (tu_clock T i + 60) (i + 1) ys ?s1 = (parts1, s1, st)" by (metis prod_cases3)
      with clk False "2.prems" have "s1 = s'" "st = stopped" "parts = part # parts1" by auto
      moreover have "\<not> \<not> tu_refresh_up T" using clk False by blast
      ultimately show ?thesis using r "2.IH"(2) [OF clk] by (intro ext) blast+
    qed
  qed
qed simp

text \<open>The usage a stream is metered with, after its first \<open>n\<close> chunks: what was counted then, or next.\<close>

definition counted_at :: "yielded \<Rightarrow> stream_usage \<Rightarrow> nat \<Rightarrow> stream_usage \<Rightarrow> bool" where
  "counted_at outs v n u \<longleftrightarrow> n \<le> length outs
     \<and> (u = (if n = 0 then fresh_usage else snd (outs ! (n - 1)))
        \<or> u = (if n < length outs then snd (outs ! n) else v))"

lemma relayed_usage:
  assumes "read_by reads outs v = (ys, x)" and "relay T rid due i ys s = (parts, s', stopped)"
  shows "parts = take (length parts) (map fst outs)
    \<and> counted_at outs v (length parts) (case stopped of Some y \<Rightarrow> y | None \<Rightarrow> x)"
proof -
  obtain n where n: "n \<le> length ys" "parts = map fst (take n ys)"
    "case stopped of None \<Rightarrow> n = length ys | Some u \<Rightarrow> n < length ys \<and> u = snd (ys ! n)"
    using relay_prefix [OF assms(2)] by blast
  have ys: "(ys = outs \<and> x = v)
      \<or> (\<exists>m < length outs. ys = take m outs \<and> x = (if m = 0 then fresh_usage else snd (outs ! (m - 1))))"
  proof (cases "\<exists>m. reads = Some m \<and> m < length outs")
    case True
    then obtain m where "reads = Some m" "m < length outs" by blast
    with assms(1) show ?thesis by (intro disjI2 exI [of _ m]) (simp add: read_by_def)
  next
    case False
    with assms(1) show ?thesis by (cases reads) (simp_all add: read_by_def)
  qed
  have len: "length parts = n" using n by simp
  show ?thesis
    using ys
  proof
    assume y: "ys = outs \<and> x = v"
    show ?thesis
      using n y len by (cases stopped) (auto simp: counted_at_def take_map)
  next
    assume "\<exists>m < length outs. ys = take m outs \<and> x = (if m = 0 then fresh_usage else snd (outs ! (m - 1)))"
    then obtain m where m: "m < length outs" "ys = take m outs"
      "x = (if m = 0 then fresh_usage else snd (outs ! (m - 1)))" by blast
    have "parts = take n (map fst outs)" using n(1,2) m by (simp add: take_map)
    then show ?thesis
      using n(1,3) m len by (cases stopped) (simp_all add: counted_at_def)
  qed
qed

lemma hold_open_new:
  assumes "hold_open t s now rid c est sp ex = Inr (r, s')" and "\<not> is_open s rid" and "h_allowed r"
  shows "h_reserved r = Some est" and "0 < est"
proof -
  have "is_open s' rid" using hold_open_opens [OF assms] by simp
  with assms(1,2) show "h_reserved r = Some est" "0 < est"
    by (auto elim!: hold_open_cases simp: open_result_def Let_def)
qed

definition stream_args :: "completion_args \<Rightarrow> string \<Rightarrow> string \<Rightarrow> rat \<Rightarrow> stream_usage \<Rightarrow> usage_args" where
  "stream_args C model rid reserved u =
     \<lparr>ua_customer = ca_customer C, ua_model = model, ua_input = su_input u, ua_output = su_output u,
      ua_span = ca_span C, ua_session = ca_session C,
      ua_metadata = (if su_killed u then Some [(''_stream_killed'', ''true'')] else None),
      ua_tenant = ca_tenant C, ua_key = ca_key C, ua_reservation = Some rid, ua_reserved = reserved, ua_event = None\<rparr>"

lemma stream_args_sel [simp]:
  "ua_customer (stream_args C model rid reserved u) = ca_customer C"
  "ua_tenant (stream_args C model rid reserved u) = ca_tenant C"
  "ua_reservation (stream_args C model rid reserved u) = Some rid"
  by (simp_all add: stream_args_def)

lemma meter_stream_ingests:
  "0 < reserved \<Longrightarrow> meter_stream E T C model rid reserved u w =
     snd (ingest_usage E (tu_custody T) (stream_args C model rid reserved u) w)"
  by (simp add: meter_stream_def proxy_ingest_def stream_args_def)

text \<open>What the guard would yield of the whole answer, and the usage at its end.\<close>

definition guarded :: "gateway_env \<Rightarrow> surroundings \<Rightarrow> string \<Rightarrow> rat \<Rightarrow> yielded \<times> stream_usage" where
  "guarded E T model reserved =
     (case tu_upstream T of
        NoReply _ \<Rightarrow> ([], fresh_usage)
      | Answered code body parts broken \<Rightarrow>
          (case guard_stream (guard_for E model reserved) broken parts of (outs, u, fin) \<Rightarrow> (outs, u)))"

lemma run_stream_metered:
  assumes "run_stream E T C model rid reserved w = (parts, w')" and "\<not> upstream_failed (tu_upstream T)"
  obtains u s where "w' = meter_stream E T C model rid reserved u (w\<lparr>reg := s\<rparr>)" and "quiet (reg w) s"
    and "case guarded E T model reserved of (outs, v) \<Rightarrow>
      parts = take (length parts) (map fst outs) \<and> counted_at outs v (length parts) u"
proof (cases "tu_upstream T")
  case (NoReply e)
  with assms(1) that [of fresh_usage "reg w"] show thesis
    by (simp add: run_stream_def guarded_def counted_at_def)
next
  case (Answered code body ps broken)
  obtain outs v fin where G: "guard_stream (guard_for E model reserved) broken ps = (outs, v, fin)" by (metis prod_cases3)
  obtain ys x where R: "read_by (tu_reads T) outs v = (ys, x)" by fastforce
  obtain d s st where L: "relay T rid (tu_clock T 0 + 60) 1 ys (reg w) = (d, s, st)" by (metis prod_cases3)
  have "\<not> 400 \<le> code" using assms(2) Answered by (simp add: upstream_failed_def)
  with assms(1) Answered G R L have w': "parts = d"
    "w' = meter_stream E T C model rid reserved (case st of Some y \<Rightarrow> y | None \<Rightarrow> x) (w\<lparr>reg := s\<rparr>)"
    by (auto simp: run_stream_def)
  show thesis
  proof (rule that [OF w'(2) relay_quiet [OF L]])
    show "case guarded E T model reserved of (outs, v) \<Rightarrow> parts = take (length parts) (map fst outs)
        \<and> counted_at outs v (length parts) (case st of Some y \<Rightarrow> y | None \<Rightarrow> x)"
      using relayed_usage [OF R L] w'(1) by (simp add: guarded_def Answered G)
  qed
qed

lemma quiet_live: "quiet s s' \<Longrightarrow> live now s' k = live now s k" "quiet s s' \<Longrightarrow> zwf_all s \<Longrightarrow> zwf_all s'"
  by (simp_all add: quiet_def live_def)


text \<open>
  A whole answer that cannot be fetched leaves its hold open until it expires: the exception ends the
  request before the hold is settled or usage is recorded.
\<close>

lemma unreachable_keeps_hold:
  assumes "hold_open (norm_tenant (ca_tenant C)) (reg (gw_world g)) (tu_now T) (tu_uuid T) (ca_customer C) est
      (ca_span C) None = Inr (h, s)" and "h_allowed h" and "tu_open_up T"
    and "\<not> is_open (reg (gw_world g)) (tu_uuid T)" and "tu_upstream T = NoReply e"
  shows "\<exists>g'. with_hold E T C model False est g = (Inl e, g') \<and> is_open (reg (gw_world g')) (tu_uuid T)
    \<and> sent (gw_world g') = sent (gw_world g)"
  using assms hold_open_opens [OF assms(1,4,2), of "tu_uuid T"]
  by (simp add: with_hold_def non_stream_def on_world_def Let_def)

section \<open>A concrete gateway\<close>

definition demo_gateway :: gateway_env where
  "demo_gateway = \<lparr>ge_auth = \<lparr>API_KEY = [], ADMIN_API_KEY = [], AUTH_OPTIONAL = True\<rparr>, ge_digest = (\<lambda>k. k),
     ge_catalog = \<lparr>version = JNull, cache_read_multiplier = 0,
       defaults = \<lparr>pricing_mode = ''flat'', input_per_m = 7000, output_per_m = 0, embedding_per_m = 0, tiers = []\<rparr>,
       models = [], prefix_models = []\<rparr>,
     ge_default_input = 500, ge_fail_policy = ''open'', ge_upstream_key = ''k'', ge_topic = ''t'', ge_max_age = 60,
     ge_max_future = 60, ge_decode = (\<lambda>b. b), ge_encode = (\<lambda>t. t), ge_loads = (\<lambda>t. None), ge_dumps = (\<lambda>j. [])\<rparr>"

definition demo_turn :: "upstream \<Rightarrow> surroundings" where
  "demo_turn up = \<lparr>tu_check_up = False, tu_open_up = True, tu_settle_up = True, tu_refresh_up = True, tu_now = 0,
     tu_uuid = ''r1'', tu_clock = (\<lambda>i. 0),
     tu_custody = \<lparr>ce_digest = (\<lambda>t. t), ce_canon = (\<lambda>j. []), ce_now_ms = 0, ce_trace = [], ce_outcome = (\<lambda>i. Down),
       ce_claim_up = True, ce_remember_up = [], ce_mark_up = True, ce_release_up = True\<rparr>,
     tu_upstream = up, tu_reads = None\<rparr>"

definition demo_call :: completion_args where
  "demo_call = \<lparr>ca_customer = ''acme'', ca_body = JObj [(''stream'', JBool True)], ca_provider = None, ca_span = None,
     ca_session = None, ca_key = None, ca_tenant = None\<rparr>"

definition demo_state :: gateway_state where
  "demo_state = \<lparr>gw_world = \<lparr>reg = demo_store, sent = []\<rparr>, gw_cache = []\<rparr>"

lemma demo_sel [simp]:
  "tu_check_up (demo_turn up) = False" "tu_open_up (demo_turn up)" "tu_settle_up (demo_turn up)" "tu_now (demo_turn up) = 0"
  "tu_uuid (demo_turn up) = ''r1''" "tu_upstream (demo_turn up) = up" "ca_customer demo_call = ''acme''"
  "ca_span demo_call = None" "ca_tenant demo_call = None" "gw_world demo_state = \<lparr>reg = demo_store, sent = []\<rparr>"
  "norm_tenant None = None"
  by (simp_all add: demo_turn_def demo_call_def demo_state_def norm_tenant_def)

lemma demo_asked: "asked demo_gateway (ca_body demo_call) = Inr (''unknown'', True, 7 / 2)"
  by code_simp

lemma demo_checked:
  "checked demo_gateway (demo_turn up) demo_call est demo_state = (Inr (policy_decision ''open''), demo_state)"
  by (simp add: checked_def budget_check_def check_fallback_def Let_def)
     (simp add: demo_state_def demo_gateway_def)

lemma demo_held:
  "hold_open None demo_store 0 ''r1'' ''acme'' (7 / 2) None None = Inr (open_result demo_store ''budget:acme'' (7 / 2), demo_opened)"
  by (rule demo_run)

lemma demo_not_open: "\<not> is_open demo_store ''r1''"
  by (simp add: demo_store_def is_open_def)

lemma demo_streams:
  "\<exists>r g'. handle_chat_completion demo_gateway (demo_turn (NoReply RuntimeError)) demo_call demo_state = (Inr r, g')
     \<and> gr_body r = Streamed []"
  unfolding handle_chat_completion_def demo_asked demo_checked with_hold_def Let_def
  using demo_held
  by (simp add: policy_decision_def plain_decision_def provider_auth_def demo_gateway_def demo_call_def
      run_stream_def open_result_def Let_def truthy_def)

lemma demo_registry: "zwf_all demo_store" "raw demo_store k = (None, None)"
  by (simp_all add: demo_store_def zwf_all_def zwf_def raw_def zscore_def hget_def hash_of_def rset_def empty_store_def)



theorem refused_leaves_nothing_witness:
  "\<exists>r g'. handle_chat_completion (demo_gateway\<lparr>ge_fail_policy := ''closed''\<rparr>) (demo_turn (NoReply RuntimeError)) demo_call demo_state
     = (Inr r, g') \<and> gr_code r = 402 \<and> sent (gw_world g') = []"
proof -
  let ?E = "demo_gateway\<lparr>ge_fail_policy := ''closed''\<rparr>" and ?T = "demo_turn (NoReply RuntimeError)"
  have "asked ?E (ca_body demo_call) = Inr (''unknown'', True, 7 / 2)" by code_simp
  moreover have "checked ?E ?T demo_call (7 / 2) demo_state = (Inr (policy_decision ''closed''), demo_state)"
    by (simp add: checked_def budget_check_def check_fallback_def Let_def) (simp add: demo_state_def)
  ultimately have run: "handle_chat_completion ?E ?T demo_call demo_state
      = (Inr (budget_denied_response (DeniedByCheck (policy_decision ''closed''))), demo_state)"
    by (simp add: handle_chat_completion_def policy_decision_def plain_decision_def)
  from refused_leaves_nothing [OF run] run show ?thesis by (simp add: budget_denied_response_def)
qed

end
