(* ===== verification/Webhooks.thy ===== *)
theory Webhooks
  imports Outbox Budget
begin

text \<open>
  \<^verbatim>\<open>src/api/webhook_deliver.py\<close> and \<^verbatim>\<open>webhook_worker.py\<close>: delivery of budget alerts to the URL a
  customer has configured, the suppression of repeated alerts, the move of alerts stored in Redis into
  Kafka, and the worker's loop. The signature (HMAC-SHA-256 in hexadecimal), the digest and the outcome
  of each HTTP attempt and of each flush are arguments.

  The lemmas show when a delivery counts as made, that a delivered alert is not delivered again and a
  failed one may be, and that no stored alert is dropped before Kafka has it.
\<close>

section \<open>Delivery\<close>

definition MAX_RETRIES :: nat where
  "MAX_RETRIES = 3"

definition ALERT_TYPES :: "string list" where
  "ALERT_TYPES = [''BUDGET_LOW'', ''BUDGET_EXHAUSTED'', ''BUDGET_WARN'']"

text \<open>One POST: a status, an error the loop retries, or any other exception.\<close>

datatype http_outcome = Status nat | HttpFailed | HttpRaised err

record webhook_env =
  we_sign :: "string \<Rightarrow> json \<Rightarrow> string"
  we_digest :: "string \<Rightarrow> string"
  we_now_ms :: int

record webhook_post =
  wp_url :: string
  wp_signature :: "string option"
  wp_body :: json

text \<open>The attempts from number \<open>i\<close> on, with \<open>n\<close> left: the result, and how many POSTs were made.\<close>

fun deliver_attempts :: "nat \<Rightarrow> nat \<Rightarrow> (nat \<Rightarrow> http_outcome) \<Rightarrow> bool res \<times> nat" where
  "deliver_attempts 0 i attempt = (Inr False, 0)"
| "deliver_attempts (Suc n) i attempt =
     (case attempt i of
        HttpRaised e \<Rightarrow> (Inl e, 1)
      | HttpFailed \<Rightarrow> (case deliver_attempts n (i + 1) attempt of (r, m) \<Rightarrow> (r, m + 1))
      | Status code \<Rightarrow>
          if code < 500 then (Inr (code < 400), 1)
          else (case deliver_attempts n (i + 1) attempt of (r, m) \<Rightarrow> (r, m + 1)))"

definition deliver_webhook ::
  "webhook_env \<Rightarrow> (nat \<Rightarrow> http_outcome) \<Rightarrow> string \<Rightarrow> string \<Rightarrow> json \<Rightarrow> bool res \<times> webhook_post list" where
  "deliver_webhook V attempt url secret payload =
     (case deliver_attempts MAX_RETRIES 0 attempt of
        (r, m) \<Rightarrow> (r, replicate m \<lparr>wp_url = url,
                      wp_signature = (if secret = [] then None else Some (we_sign V secret payload)), wp_body = payload\<rparr>))"

definition opt_alert :: "string \<Rightarrow> json \<Rightarrow> (string \<times> json) list" where
  "opt_alert f j = (if j = JNull then [] else [(f, j)])"

text \<open>\<open>None\<close> for a field stands for a missing argument; the alert's values are passed on as they are.\<close>

record alert_fields =
  al_balance :: json
  al_window_cost :: json
  al_model :: json
  al_warn_pct :: json
  al_spent_pct :: json
  al_initial :: json

definition alert_payload :: "webhook_env \<Rightarrow> json \<Rightarrow> json \<Rightarrow> alert_fields \<Rightarrow> json" where
  "alert_payload V customer alert_type a =
     JObj ([(''type'', alert_type), (''customer_id'', customer), (''balance_usd'', al_balance a),
            (''window_cost_usd'', al_window_cost a), (''model_id'', al_model a), (''timestamp'', JInt (we_now_ms V))]
           @ opt_alert ''warn_pct'' (al_warn_pct a) @ opt_alert ''spent_pct'' (al_spent_pct a)
           @ opt_alert ''initial_balance_usd'' (al_initial a))"

text \<open>A JSON object or array is no member of a set: the test raises.\<close>

definition is_container :: "json \<Rightarrow> bool" where
  "is_container j = (case j of JArr _ \<Rightarrow> True | JObj _ \<Rightarrow> True | _ \<Rightarrow> False)"

definition fire_budget_webhook ::
  "webhook_env \<Rightarrow> (nat \<Rightarrow> http_outcome) \<Rightarrow> store \<Rightarrow> json \<Rightarrow> json \<Rightarrow> alert_fields \<Rightarrow>
     bool res \<times> store \<times> webhook_post list" where
  "fire_budget_webhook V attempt s customer alert_type a =
     (if is_container alert_type then (Inl TypeError, s, [])
      else if alert_type \<notin> JStr ` set ALERT_TYPES then (Inr False, s, [])
      else (case json_text customer of
              Inl e \<Rightarrow> (Inl e, s, [])
            | Inr cid \<Rightarrow>
                let url = rget s (''budget:'' @ cid @ '':webhook_url'');
                    secret = rget s (''budget:'' @ cid @ '':webhook_secret'') in
                if \<not> cell_true url then (Inr False, s, [])
                else (case deliver_webhook V attempt (cell_text url) (cell_text secret) (alert_payload V customer alert_type a) of
                        (Inl e, posts) \<Rightarrow> (Inl e, s, posts)
                      | (Inr ok, posts) \<Rightarrow>
                          if ok then (Inr True, s, posts)
                          else (case incrby s ''metrics:webhook_delivery_failed'' 1 of
                                  Inl e \<Rightarrow> (Inl e, s, posts)
                                | Inr s' \<Rightarrow> (Inr False, s', posts)))))"

section \<open>One alert\<close>

text \<open>SET with NX and EX: only if the key is not there.\<close>

definition set_nx :: "store \<Rightarrow> key \<Rightarrow> cell \<Rightarrow> rat \<Rightarrow> bool \<times> store" where
  "set_nx s k v secs = (if rexists s k then (False, s) else (True, expire (rset s k v) k secs))"

definition alert_identity :: "json \<Rightarrow> string res" where
  "alert_identity alert =
     bindE (mapE (\<lambda>f. bindE (json_get alert f (JStr [])) json_text)
       [''customerId'', ''type'', ''windowStart'', ''warnPct'']) (\<lambda>ws. Inr (join ''|'' ws))"

definition transition_key :: "webhook_env \<Rightarrow> string \<Rightarrow> key" where
  "transition_key V identity = ''webhook:transition:'' @ we_digest V identity"

definition alert_args :: "json \<Rightarrow> alert_fields res" where
  "alert_args alert =
     bindE (json_get alert ''remainingBalanceUsd'' JNull) (\<lambda>b.
     bindE (json_get alert ''windowCostUsd'' JNull) (\<lambda>w.
     bindE (json_get alert ''modelId'' JNull) (\<lambda>m.
     bindE (json_get alert ''warnPct'' JNull) (\<lambda>p.
     bindE (json_get alert ''spentPct'' JNull) (\<lambda>q.
     bindE (json_get alert ''initialBalanceUsd'' JNull) (\<lambda>i.
       Inr \<lparr>al_balance = b, al_window_cost = w, al_model = m, al_warn_pct = p, al_spent_pct = q, al_initial = i\<rparr>))))))"

text \<open>
  \<open>process_alert\<close>. An exception of the delivery leaves the transition key in place; a delivery that
  fails removes it before raising.
\<close>

definition process_alert ::
  "webhook_env \<Rightarrow> (nat \<Rightarrow> http_outcome) \<Rightarrow> store \<Rightarrow> json \<Rightarrow> bool res \<times> store \<times> webhook_post list" where
  "process_alert V attempt s alert =
     (case json_get alert ''customerId'' JNull of
        Inl e \<Rightarrow> (Inl e, s, [])
      | Inr customer \<Rightarrow>
          if \<not> json_true customer then (Inr False, s, [])
          else (case alert_identity alert of
                  Inl e \<Rightarrow> (Inl e, s, [])
                | Inr identity \<Rightarrow>
                    let k = transition_key V identity in
                    (case set_nx s k (CTxt ''1'') (30 * 24 * 60 * 60) of
                       (False, s1) \<Rightarrow> (Inr False, s1, [])
                     | (True, s1) \<Rightarrow>
                         (case bindE (json_get alert ''type'' (JStr [])) (\<lambda>ty. bindE (alert_args alert) (\<lambda>a. Inr (ty, a))) of
                            Inl e \<Rightarrow> (Inl e, s1, [])
                          | Inr (ty, a) \<Rightarrow>
                              (case fire_budget_webhook V attempt s1 customer ty a of
                                 (Inl e, s2, posts) \<Rightarrow> (Inl e, s2, posts)
                               | (Inr delivered, s2, posts) \<Rightarrow>
                                   if delivered then (Inr True, s2, posts)
                                   else (Inl RuntimeError, rdel s2 k, posts))))))"

section \<open>Stored alerts and the worker\<close>

record produced_alert =
  pa_topic :: json
  pa_key :: json
  pa_value :: json

definition PENDING_ALERTS :: key where
  "PENDING_ALERTS = ''budget-alerts:pending''"

text \<open>
  Each turn of the loop takes whether the flush left nothing in flight. The replay ends when the list is
  empty, the flush times out, or an entry cannot be read, which raises.
\<close>

fun replay_pending_alerts :: "bool list \<Rightarrow> store \<Rightarrow> unit res \<times> store \<times> produced_alert list" where
  "replay_pending_alerts [] s = (Inr (), s, [])"
| "replay_pending_alerts (flushed # fs) s =
     (case lists s PENDING_ALERTS of
        [] \<Rightarrow> (Inr (), s, [])
      | raw # rest \<Rightarrow>
          (case bindE (json_loads raw) (\<lambda>e. bindE (json_index e ''topic'') (\<lambda>t.
                  bindE (json_index e ''key'') (\<lambda>k. bindE (json_index e ''payload'') (\<lambda>v.
                    Inr \<lparr>pa_topic = t, pa_key = k, pa_value = v\<rparr>)))) of
             Inl e \<Rightarrow> (Inl e, s, [])
           | Inr p \<Rightarrow>
               if \<not> flushed then (Inr (), s, [p])
               else (case replay_pending_alerts fs (lpop s PENDING_ALERTS) of (r, s', ps) \<Rightarrow> (r, s', p # ps))))"

definition REPLAY_LIMIT :: nat where
  "REPLAY_LIMIT = 10"

text \<open>
  What a poll returns, with the outcomes of what it leads to: nothing, an error of the consumer, or the
  message at an offset, whose value may not be JSON. The loop ends only with an exception outside its
  handler. The committed offset is the position a restarted consumer resumes from.
\<close>

datatype polled = Nothing "bool list" | PollError | Alert nat "json option" "nat \<Rightarrow> http_outcome"

record worker_state =
  wk_db :: store
  wk_posts :: "webhook_post list"
  wk_produced :: "produced_alert list"
  wk_committed :: nat
  wk_crashed :: bool

definition worker_poll :: "webhook_env \<Rightarrow> polled \<Rightarrow> worker_state \<Rightarrow> worker_state" where
  "worker_poll V ev w =
     (if wk_crashed w then w
      else case ev of
        Nothing flushes \<Rightarrow>
          (case replay_pending_alerts (take REPLAY_LIMIT flushes) (wk_db w) of
             (r, s, ps) \<Rightarrow> w\<lparr>wk_db := s, wk_produced := wk_produced w @ ps, wk_crashed := \<not> isOk r\<rparr>)
      | PollError \<Rightarrow> w
      | Alert offset value attempt \<Rightarrow>
          (case value of
             None \<Rightarrow> w
           | Some alert \<Rightarrow>
               (case process_alert V attempt (wk_db w) alert of
                  (Inl e, s, posts) \<Rightarrow> w\<lparr>wk_db := s, wk_posts := wk_posts w @ posts\<rparr>
                | (Inr _, s, posts) \<Rightarrow>
                    w\<lparr>wk_db := s, wk_posts := wk_posts w @ posts, wk_committed := offset + 1\<rparr>)))"

definition worker_run :: "webhook_env \<Rightarrow> polled list \<Rightarrow> worker_state \<Rightarrow> worker_state" where
  "worker_run V evs w = fold (worker_poll V) evs w"

section \<open>What a delivery comes to\<close>

definition retried :: "http_outcome \<Rightarrow> bool" where
  "retried h = (case h of Status code \<Rightarrow> 500 \<le> code | HttpFailed \<Rightarrow> True | HttpRaised _ \<Rightarrow> False)"

text \<open>The first attempt that is not retried decides; without one the delivery has failed.\<close>

definition decided :: "http_outcome option \<Rightarrow> bool res" where
  "decided h = (case h of None \<Rightarrow> Inr False | Some (Status code) \<Rightarrow> Inr (code < 400) | Some HttpFailed \<Rightarrow> Inr False
     | Some (HttpRaised e) \<Rightarrow> Inl e)"

lemma deliver_attempts_decided:
  "deliver_attempts n i attempt =
     (decided (find (\<lambda>h. \<not> retried h) (map attempt [i..<i + n])),
      let q = length (takeWhile retried (map attempt [i..<i + n])) in if q < n then q + 1 else n)"
proof (induction n arbitrary: i)
  case (Suc n)
  have up: "[i..<i + Suc n] = i # [Suc i..<Suc i + n]" by (simp add: upt_rec)
  show ?case
    using Suc [of "Suc i"] unfolding up
    by (cases "attempt i") (auto simp: retried_def decided_def Let_def)
qed (simp add: decided_def)

text \<open>
  a delivery is decided by the first attempt that is not retried. Attempts that fail or are answered
  with 500 or more are retried, three attempts at most are made, each POST carries the same URL, body and
  signature; the delivery succeeds exactly if the deciding answer is below 400, and is never made again
  after it.
\<close>

theorem delivery_decided:
  "deliver_webhook V attempt url secret payload =
     (decided (find (\<lambda>h. \<not> retried h) [attempt 0, attempt 1, attempt 2]),
      replicate (min 3 (Suc (length (takeWhile retried [attempt 0, attempt 1, attempt 2]))))
        \<lparr>wp_url = url, wp_signature = (if secret = [] then None else Some (we_sign V secret payload)), wp_body = payload\<rparr>)"
proof -
  have "map attempt [0..<0 + 3] = [attempt 0, attempt 1, attempt 2]" by (simp add: upt_rec numeral_2_eq_2)
  moreover have "length (takeWhile retried [attempt 0, attempt 1, attempt 2]) \<le> 3"
    using length_takeWhile_le [of retried "[attempt 0, attempt 1, attempt 2]"] by simp
  ultimately show ?thesis
    by (auto simp: deliver_webhook_def MAX_RETRIES_def deliver_attempts_decided Let_def min_def)
qed

section \<open>An alert is delivered once\<close>

lemma set_nx_new: "set_nx s k v secs = (True, s') \<Longrightarrow> rget s' k = Some v \<and> \<not> rexists s k"
  by (auto simp: set_nx_def split: if_splits)

lemma fire_keeps:
  assumes "fire_budget_webhook V attempt s c ty a = (r, s', posts)" and "k \<noteq> ''metrics:webhook_delivery_failed''"
  shows "rget s' k = rget s k \<and> hash_of s' k = hash_of s k"
  using assms rget_incrby incrby_frame
  by (auto simp: fire_budget_webhook_def Let_def split: if_splits prod.splits sum.splits)

lemma transition_key_other [simp]: "transition_key V i \<noteq> ''metrics:webhook_delivery_failed''"
  by (simp add: transition_key_def)

lemma rexists_rdel [simp]: "rexists (rdel s k) k' \<longleftrightarrow> k' \<noteq> k \<and> rexists s k'"
  by (auto simp: rexists_iff)

lemma fire_exists:
  "fire_budget_webhook V attempt s c ty a = (x, s', ps) \<Longrightarrow> rexists s' (transition_key V l) = rexists s (transition_key V l)"
  using fire_keeps [of V attempt s c ty a x s' ps "transition_key V l"] by (simp add: rexists_iff)

text \<open>What one alert does to the transition keys.\<close>

lemma process_alert_keys:
  assumes "process_alert V attempt s alert = (r, s', posts)"
  shows "r = Inr True \<Longrightarrow> \<exists>i. alert_identity alert = Inr i \<and> \<not> rexists s (transition_key V i) \<and> rexists s' (transition_key V i)"
    and "rexists s (transition_key V j) \<Longrightarrow> rexists s' (transition_key V j)"
proof -
  have "(r = Inr True \<longrightarrow> (\<exists>i. alert_identity alert = Inr i \<and> \<not> rexists s (transition_key V i) \<and> rexists s' (transition_key V i)))
      \<and> (rexists s (transition_key V j) \<longrightarrow> rexists s' (transition_key V j))"
  proof (cases "(\<exists>c. json_get alert ''customerId'' JNull = Inr c \<and> json_true c) \<and> (\<exists>i. alert_identity alert = Inr i)")
    case True
    then obtain c i where c: "json_get alert ''customerId'' JNull = Inr c" "json_true c" and i: "alert_identity alert = Inr i"
      by blast
    let ?k = "transition_key V i"
    show ?thesis
    proof (cases "rexists s ?k")
      case True
      then show ?thesis using assms c i by (auto simp: process_alert_def set_nx_def Let_def)
    next
      case new: False
      define s1 where "s1 = expire (rset s ?k (CTxt ''1'')) ?k (30 * 24 * 60 * 60)"
      have nx: "set_nx s ?k (CTxt ''1'') (30 * 24 * 60 * 60) = (True, s1)" using new by (simp add: set_nx_def s1_def)
      have s1: "rexists s1 k \<longleftrightarrow> rexists s k \<or> k = ?k" for k by (auto simp: s1_def rexists_iff)
      let ?b = "bindE (json_get alert ''type'' (JStr [])) (\<lambda>ty. bindE (alert_args alert) (\<lambda>a. Inr (ty, a)))"
      show ?thesis
      proof (cases ?b)
        case (Inl e)
        then show ?thesis using assms c i nx s1 by (auto simp: process_alert_def Let_def)
      next
        case (Inr ta)
        obtain ty a where ta: "ta = (ty, a)" by fastforce
        obtain x s2 ps where f: "fire_budget_webhook V attempt s1 c ty a = (x, s2, ps)" by (metis prod_cases3)
        note fx = fire_exists [OF f]
        show ?thesis
          using assms c i nx Inr ta f s1 fx new
          by (cases x) (auto simp: process_alert_def Let_def split: if_splits)
      qed
    qed
  next
    case False
    then show ?thesis using assms by (auto simp: process_alert_def split: sum.splits if_splits)
  qed
  then show "r = Inr True \<Longrightarrow> \<exists>i. alert_identity alert = Inr i \<and> \<not> rexists s (transition_key V i) \<and> rexists s' (transition_key V i)"
    "rexists s (transition_key V j) \<Longrightarrow> rexists s' (transition_key V j)" by blast+
qed

section \<open>Runs of the worker\<close>

text \<open>The identities whose alert a run delivered, in order.\<close>

definition delivery_of :: "webhook_env \<Rightarrow> polled \<Rightarrow> worker_state \<Rightarrow> string list" where
  "delivery_of V ev w =
     (case ev of
        Alert offset (Some alert) attempt \<Rightarrow>
          (if \<not> wk_crashed w \<and> fst (process_alert V attempt (wk_db w) alert) = Inr True
           then [ok_or [] (alert_identity alert)] else [])
      | _ \<Rightarrow> [])"

fun deliveries :: "webhook_env \<Rightarrow> polled list \<Rightarrow> worker_state \<Rightarrow> string list" where
  "deliveries V [] w = []"
| "deliveries V (ev # evs) w = delivery_of V ev w @ deliveries V evs (worker_poll V ev w)"

lemma replay_keeps:
  "replay_pending_alerts fs s = (r, s', ps) \<Longrightarrow> rget s' k = rget s k \<and> hash_of s' k = hash_of s k"
  by (induction fs s arbitrary: r s' ps rule: replay_pending_alerts.induct)
     (auto split: list.splits sum.splits if_splits prod.splits)

lemma poll_keys:
  "rexists (wk_db w) (transition_key V j) \<Longrightarrow> rexists (wk_db (worker_poll V ev w)) (transition_key V j)"
  using process_alert_keys(2) replay_keeps
  by (fastforce simp: worker_poll_def rexists_iff split: polled.splits option.splits sum.splits prod.splits)

lemma poll_delivers:
  assumes "i \<in> set (delivery_of V ev w)"
  shows "delivery_of V ev w = [i]" and "\<not> rexists (wk_db w) (transition_key V i)"
    and "rexists (wk_db (worker_poll V ev w)) (transition_key V i)"
proof -
  obtain offset alert attempt where ev: "ev = Alert offset (Some alert) attempt" and live: "\<not> wk_crashed w"
    and d: "fst (process_alert V attempt (wk_db w) alert) = Inr True" and i: "i = ok_or [] (alert_identity alert)"
    using assms by (auto simp: delivery_of_def split: polled.splits option.splits if_splits)
  then show "delivery_of V ev w = [i]" by (simp add: delivery_of_def)
  obtain s' posts where p: "process_alert V attempt (wk_db w) alert = (Inr True, s', posts)"
    using d by (cases "process_alert V attempt (wk_db w) alert") auto
  from process_alert_keys(1) [OF p] i
  show "\<not> rexists (wk_db w) (transition_key V i)" "rexists (wk_db (worker_poll V ev w)) (transition_key V i)"
    by (auto simp: worker_poll_def ev live p)
qed

lemma deliveries_new: "i \<in> set (deliveries V evs w) \<Longrightarrow> \<not> rexists (wk_db w) (transition_key V i)"
proof (induction evs arbitrary: w)
  case (Cons ev evs)
  then show ?case using poll_delivers(2) poll_keys by fastforce
qed simp


section \<open>Stored alerts\<close>

definition read_pending :: "cell \<Rightarrow> produced_alert res" where
  "read_pending raw = bindE (json_loads raw) (\<lambda>e. bindE (json_index e ''topic'') (\<lambda>t.
     bindE (json_index e ''key'') (\<lambda>k. bindE (json_index e ''payload'') (\<lambda>v.
       Inr \<lparr>pa_topic = t, pa_key = k, pa_value = v\<rparr>))))"

text \<open>
  no stored alert is lost on its way to Kafka. A replay takes entries off the front of the list, one
  for each confirmed flush and only after it; what it produced are those entries in order, and at most one
  more, which stays in the list.
\<close>

theorem replay_takes_confirmed:
  assumes "replay_pending_alerts fs s = (r, s', ps)"
  shows "\<exists>n. lists s' PENDING_ALERTS = drop n (lists s PENDING_ALERTS)
    \<and> n \<le> length ps \<and> length ps \<le> n + 1 \<and> length ps \<le> length (lists s PENDING_ALERTS)
    \<and> n \<le> length fs \<and> (\<forall>i < n. fs ! i)
    \<and> map Inr ps = map read_pending (take (length ps) (lists s PENDING_ALERTS))"
  using assms
proof (induction fs s arbitrary: r s' ps rule: replay_pending_alerts.induct)
  case (2 flushed fs s)
  show ?case
  proof (cases "lists s PENDING_ALERTS")
    case Nil
    with "2.prems" show ?thesis by (intro exI [of _ 0]) auto
  next
    case (Cons raw rs)
    note go = "2.prems" [unfolded replay_pending_alerts.simps Cons list.case, folded read_pending_def]
    show ?thesis
    proof (cases "read_pending raw")
      case (Inl e)
      with go show ?thesis by (intro exI [of _ 0]) auto
    next
      case (Inr p)
      show ?thesis
      proof (cases flushed)
        case False
        with go Inr Cons show ?thesis by (intro exI [of _ 0]) auto
      next
        case True
        obtain r1 s1 ps1 where R: "replay_pending_alerts fs (lpop s PENDING_ALERTS) = (r1, s1, ps1)" by (metis prod_cases3)
        have "lists (lpop s PENDING_ALERTS) PENDING_ALERTS = rs" by (simp add: Cons lpop_def)
        moreover note "2.IH" [OF Cons Inr [unfolded read_pending_def] _ R]
        ultimately obtain n where n: "lists s1 PENDING_ALERTS = drop n rs" "n \<le> length ps1" "length ps1 \<le> n + 1"
          "length ps1 \<le> length rs" "n \<le> length fs" "\<forall>i < n. fs ! i" "map Inr ps1 = map read_pending (take (length ps1) rs)"
          using True by auto
        from True go Inr R have "s' = s1" "ps = p # ps1" by auto
        with n True Inr Cons show ?thesis
          by (intro exI [of _ "Suc n"]) (auto simp: nth_Cons split: nat.splits)
      qed
    qed
  qed
qed (auto intro: exI [of _ 0])

section \<open>Alerts that are lost\<close>

text \<open>
  An alert whose delivery failed is not delivered again: its offset is not committed, but the commit of
  the next message moves past it.
\<close>

lemma failed_alert_skipped:
  assumes "worker_poll V (Alert n (Some a) attempt) w = w1" and "\<not> wk_crashed w1"
    and "process_alert V attempt' (wk_db w1) b = (Inr r, s', posts)"
  shows "wk_committed (worker_poll V (Alert (n + 1) (Some b) attempt') w1) = n + 2"
  using assms(2,3) by (simp add: worker_poll_def)

text \<open>
  A delivery that raises anything but an HTTP error keeps the transition key, so that the alert is taken for
  delivered from then on.
\<close>

lemma raised_delivery_suppresses:
  assumes "alert_identity a = Inr i" and "json_get a ''customerId'' JNull = Inr c" and "json_true c"
    and "process_alert V attempt s a = (Inl e, s1, posts)" and "rexists s1 (transition_key V i)"
  shows "process_alert V attempt' s1 a = (Inr False, s1, [])"
  using assms by (simp add: process_alert_def set_nx_def Let_def)

text \<open>Alerts of a customer without a webhook URL fail: nothing is posted and the message is not committed.\<close>

lemma unconfigured_customer_fails:
  assumes "alert_identity a = Inr i" and "json_get a ''customerId'' JNull = Inr c" and "json_true c"
    and "json_text c = Inr cid" and "rget s (''budget:'' @ cid @ '':webhook_url'') = None"
    and "json_get a ''type'' (JStr []) = Inr ty" and "alert_args a = Inr x" and "\<not> rexists s (transition_key V i)"
    and "\<not> is_container ty"
  shows "\<exists>s'. process_alert V attempt s a = (Inl RuntimeError, s', [])"
proof -
  define s1 where "s1 = expire (rset s (transition_key V i) (CTxt ''1'')) (transition_key V i) (30 * 24 * 60 * 60)"
  have nx: "set_nx s (transition_key V i) (CTxt ''1'') (30 * 24 * 60 * 60) = (True, s1)"
    using assms(8) by (simp add: set_nx_def s1_def)
  have "''budget:'' @ cid @ '':webhook_url'' \<noteq> transition_key V i" by (simp add: transition_key_def)
  then have "rget s1 (''budget:'' @ cid @ '':webhook_url'') = None" using assms(5) by (simp add: s1_def)
  then have "fire_budget_webhook V attempt s1 c ty x = (Inr False, s1, [])"
    using assms(4,9) by (simp add: fire_budget_webhook_def Let_def)
  with assms nx show ?thesis by (simp add: process_alert_def Let_def)
qed

theorem replay_takes_confirmed_witness:
  "\<exists>n. lists (fst (snd (replay_pending_alerts [True, False] (rpush (rpush empty_store PENDING_ALERTS
       (CJson (JObj [(''topic'', JStr ''t''), (''key'', JStr ''a''), (''payload'', JNull)]))) PENDING_ALERTS
       (CJson (JObj [(''topic'', JStr ''t''), (''key'', JStr ''b''), (''payload'', JNull)])))))) PENDING_ALERTS
     = drop n [CJson (JObj [(''topic'', JStr ''t''), (''key'', JStr ''a''), (''payload'', JNull)]),
               CJson (JObj [(''topic'', JStr ''t''), (''key'', JStr ''b''), (''payload'', JNull)])]"
proof -
  let ?s = "rpush (rpush empty_store PENDING_ALERTS
       (CJson (JObj [(''topic'', JStr ''t''), (''key'', JStr ''a''), (''payload'', JNull)]))) PENDING_ALERTS
       (CJson (JObj [(''topic'', JStr ''t''), (''key'', JStr ''b''), (''payload'', JNull)]))"
  obtain r s' ps where R: "replay_pending_alerts [True, False] ?s = (r, s', ps)" by (metis prod_cases3)
  have "lists ?s PENDING_ALERTS = [CJson (JObj [(''topic'', JStr ''t''), (''key'', JStr ''a''), (''payload'', JNull)]),
               CJson (JObj [(''topic'', JStr ''t''), (''key'', JStr ''b''), (''payload'', JNull)])]"
    by (simp add: rpush_def empty_store_def)
  with replay_takes_confirmed [OF R] R show ?thesis by auto
qed

end
