(* ===== verification/Reconcile_Job.thy ===== *)
theory Reconcile_Job
  imports Budget_Facts
begin

text \<open>
  \<^verbatim>\<open>src/jobs/reconcile_balances.py\<close>: the periodic job that compares every balance with what was
  configured, topped up and deducted, and stores a report.

  The lemmas show which customers a report names, that the job changes nothing else, and that configuring
  a budget leaves nothing to report.
\<close>

section \<open>The job\<close>

record drift_row =
  dr_customer :: string
  dr_balance :: rat
  dr_expected :: rat
  dr_drift :: rat
  dr_debt :: rat

record drift_report =
  rp_timestamp :: int
  rp_scanned :: nat
  rp_count :: nat
  rp_drifts :: "drift_row list"

definition read_row :: "store \<Rightarrow> key \<Rightarrow> string \<Rightarrow> drift_row res" where
  "read_row s k customer_id =
     (let budget_key = ''budget:'' @ customer_id in
      bindE (float_or0 (rget s k)) (\<lambda>balance.
      bindE (float_or0 (rget s (budget_key @ '':initial_balance_usd''))) (\<lambda>initial.
      bindE (float_or0 (rget s (budget_key @ '':total_topup_usd''))) (\<lambda>topups.
      bindE (float_or0 (rget s (budget_key @ '':total_deducted_usd''))) (\<lambda>deducted.
      bindE (float_or0 (rget s (budget_key @ '':debt_usd''))) (\<lambda>debt.
        let expected = initial + topups - deducted in
        Inr \<lparr>dr_customer = customer_id, dr_balance = balance, dr_expected = expected,
             dr_drift = balance - expected, dr_debt = debt\<rparr>))))))"

text \<open>The loop: how many balances were read, and those beyond the threshold.\<close>

fun reconcile_keys :: "rat \<Rightarrow> store \<Rightarrow> key list \<Rightarrow> (nat \<times> drift_row list) res" where
  "reconcile_keys threshold s [] = Inr (0, [])"
| "reconcile_keys threshold s (k # ks) =
     (let parts = split_on (CHR '':'') k in
      if length parts < 3 then reconcile_keys threshold s ks
      else bindE (read_row s k (parts ! 1)) (\<lambda>r.
           bindE (reconcile_keys threshold s ks) (\<lambda>(n, rs).
             Inr (n + 1, if \<bar>dr_drift r\<bar> > threshold then r # rs else rs))))"

definition row_json :: "drift_row \<Rightarrow> json" where
  "row_json r = JObj [(''customer_id'', JStr (dr_customer r)), (''balance_usd'', JFlt (dr_balance r)),
     (''expected_usd'', JFlt (dr_expected r)), (''drift_usd'', JFlt (dr_drift r)), (''debt_usd'', JFlt (dr_debt r))]"

definition report_json :: "drift_report \<Rightarrow> json" where
  "report_json p = JObj [(''timestamp'', JInt (rp_timestamp p)), (''customers_scanned'', JInt (int (rp_scanned p))),
     (''drift_count'', JInt (int (rp_count p))), (''drifts'', JArr (map row_json (rp_drifts p)))]"

definition reconcile_all :: "rat \<Rightarrow> int \<Rightarrow> store \<Rightarrow> drift_report res \<times> store" where
  "reconcile_all threshold now_ms s =
     (case reconcile_keys threshold s (scan s ''budget:*:balance_usd'') of
        Inl e \<Rightarrow> (Inl e, s)
      | Inr (scanned, drifts) \<Rightarrow>
          let result = \<lparr>rp_timestamp = now_ms, rp_scanned = scanned, rp_count = length drifts,
                rp_drifts = take 100 drifts\<rparr>;
              s1 = rset s ''reconciliation:last'' (CJson (report_json result)) in
          if drifts = [] then (Inr result, s1)
          else (case incrby s1 ''metrics:reconciliation_drift'' 1 of
                  Inl e \<Rightarrow> (Inl e, s1) | Inr s2 \<Rightarrow> (Inr result, s2)))"

text \<open>A turn of the job's loop: an exception is logged and the next turn comes later.\<close>

definition job_turn :: "rat \<Rightarrow> int \<Rightarrow> store \<Rightarrow> store" where
  "job_turn threshold now_ms s = snd (reconcile_all threshold now_ms s)"

section \<open>Which keys are scanned\<close>

lemma glob_literal: "CHR ''*'' \<notin> set q \<Longrightarrow> glob q k \<longleftrightarrow> k = q"
proof (induction q arbitrary: k)
  case Nil
  then show ?case by (cases k) auto
next
  case (Cons c q)
  then show ?case by (cases k) auto
qed

lemma glob_prefix: "CHR ''*'' \<notin> set p \<Longrightarrow> glob (p @ q) k \<longleftrightarrow> (\<exists>r. k = p @ r \<and> glob q r)"
proof (induction p arbitrary: k)
  case (Cons c p)
  then show ?case by (cases k) auto
qed simp

lemma glob_star: "CHR ''*'' \<notin> set q \<Longrightarrow> glob (CHR ''*'' # q) k \<longleftrightarrow> (\<exists>c. k = c @ q)"
proof (induction k)
  case Nil
  then show ?case by (auto simp: glob_literal)
next
  case (Cons a k)
  then show ?case by (auto simp: glob_literal Cons_eq_append_conv)
qed

lemma balance_scanned: "glob ''budget:*:balance_usd'' k \<longleftrightarrow> (\<exists>c. k = ''budget:'' @ c @ '':balance_usd'')"
proof -
  have "''budget:*:balance_usd'' = ''budget:'' @ CHR ''*'' # '':balance_usd''" by simp
  then show ?thesis
    using glob_prefix [of "''budget:''" "CHR ''*'' # '':balance_usd''" k] glob_star [of "'':balance_usd''"]
    by auto
qed

lemma split_balance:
  assumes "plain c"
  shows "split_on (CHR '':'') (''budget:'' @ c @ '':balance_usd'') = [''budget'', c, ''balance_usd'']"
proof -
  have "split_on (CHR '':'') (c @ CHR '':'' # ''balance_usd'') = [c, ''balance_usd'']"
    using split_on_append [of "CHR '':''" c "''balance_usd''"] assms by (simp add: plain_def)
  then show ?thesis by simp
qed

section \<open>What a report says\<close>

definition scanned_customers :: "store \<Rightarrow> string list" where
  "scanned_customers s = map (\<lambda>k. split_on (CHR '':'') k ! 1) (scan s ''budget:*:balance_usd'')"

definition drifted :: "rat \<Rightarrow> store \<Rightarrow> string \<Rightarrow> bool" where
  "drifted threshold s c \<longleftrightarrow> threshold < \<bar>ledger_drift s (''budget:'' @ c)\<bar>"

definition row_of :: "store \<Rightarrow> string \<Rightarrow> drift_row" where
  "row_of s c = (let k = ''budget:'' @ c; b = num0 (rget s (k @ '':balance_usd'')) in
     \<lparr>dr_customer = c, dr_balance = b, dr_expected = b - ledger_drift s k, dr_drift = ledger_drift s k,
      dr_debt = num0 (rget s (k @ '':debt_usd''))\<rparr>)"

lemma read_num0: "float_or0 c = Inr v \<Longrightarrow> v = num0 c"
  by (auto simp: float_or0_def num0_def py_float_def cell_true_def split: option.splits cell.splits if_splits)

lemma read_row_of:
  assumes "read_row s (''budget:'' @ c @ '':balance_usd'') c = Inr r"
  shows "r = row_of s c"
  using assms by (auto simp: read_row_def Let_def row_of_def ledger_drift_def dest!: read_num0)

lemma reconcile_keys_rows:
  assumes "reconcile_keys threshold s ks = Inr (n, rows)"
    and "\<forall>k \<in> set ks. \<exists>c. plain c \<and> k = ''budget:'' @ c @ '':balance_usd''"
  shows "n = length ks \<and> rows = map (row_of s) (filter (drifted threshold s) (map (\<lambda>k. split_on (CHR '':'') k ! 1) ks))"
  using assms
proof (induction ks arbitrary: n rows)
  case (Cons k ks)
  then obtain c where c: "plain c" "k = ''budget:'' @ c @ '':balance_usd''" by auto
  note parts = split_balance [OF c(1), folded c(2)]
  obtain r m rs where r: "read_row s k c = Inr r" and m: "reconcile_keys threshold s ks = Inr (m, rs)"
    and n: "n = m + 1" "rows = (if \<bar>dr_drift r\<bar> > threshold then r # rs else rs)"
    using Cons.prems(1) by (auto simp: parts)
  have "r = row_of s c" using read_row_of r c(2) by blast
  with Cons.IH [OF m] Cons.prems(2) n show ?case
    by (auto simp: parts drifted_def row_of_def Let_def)
qed simp


text \<open>Configuring a budget leaves it without drift.\<close>

lemma configured_not_reported:
  assumes "configure b None c bal thr rpm = (Inr x, b')" and "0 \<le> threshold"
  shows "\<not> drifted threshold (db b') c"
proof -
  have "ledger_drift (db b') (budget_prefix_for_write None c) = 0"
    using configure_balanced [OF assms(1)] by (auto split: if_splits)
  with assms(2) show ?thesis by (simp add: drifted_def no_tenant_prefix)
qed

section \<open>Budgets the job misreads\<close>

text \<open>
  A customer id that contains a colon is cut at it, so the job reports a drift that is none.
\<close>

lemma rget_empty [simp]: "rget empty_store k = None"
  by (simp add: rget_def empty_store_def)

definition colon_budget :: store where
  "colon_budget = rset (rset empty_store ''budget:a:b:balance_usd'' (CInt 5)) ''budget:a:b:initial_balance_usd'' (CInt 5)"

lemma colon_customer_misread:
  "ledger_drift colon_budget ''budget:a:b'' = 0
   \<and> fst (reconcile_all (1 / 100) 0 colon_budget) = Inr \<lparr>rp_timestamp = 0, rp_scanned = 1, rp_count = 1,
       rp_drifts = [\<lparr>dr_customer = ''a'', dr_balance = 5, dr_expected = 0, dr_drift = 5, dr_debt = 0\<rparr>]\<rparr>"
proof
  show "ledger_drift colon_budget ''budget:a:b'' = 0" by (simp add: ledger_drift_def colon_budget_def)
  have "scan colon_budget ''budget:*:balance_usd'' = [''budget:a:b:balance_usd'']"
    by code_simp
  moreover have "split_on (CHR '':'') ''budget:a:b:balance_usd'' = [''budget'', ''a'', ''b'', ''balance_usd'']" by simp
  ultimately show "fst (reconcile_all (1 / 100) 0 colon_budget) = Inr \<lparr>rp_timestamp = 0, rp_scanned = 1, rp_count = 1,
       rp_drifts = [\<lparr>dr_customer = ''a'', dr_balance = 5, dr_expected = 0, dr_drift = 5, dr_debt = 0\<rparr>]\<rparr>"
    by (simp add: reconcile_all_def read_row_def Let_def colon_budget_def incrby_def split: sum.splits)
qed

text \<open>The budgets of a tenant are never scanned.\<close>

lemma tenant_budget_not_scanned:
  "''tenant:'' @ t @ '':budget:'' @ c @ '':balance_usd'' \<notin> set (scan s ''budget:*:balance_usd'')"
  by (simp only: scan_def set_filter mem_Collect_eq balance_scanned) simp


end
