(* ===== verification/Control_Plane.thy ===== *)
theory Control_Plane
  imports Auth
begin

text \<open>
  \<^verbatim>\<open>src/services/control-plane/main.py\<close>, \<^verbatim>\<open>models.py\<close> and \<^verbatim>\<open>stripe_billing.py\<close>: creation, listing,
  usage and deletion of tenants, and the checkout of a plan. Requests are as the models accept them; the
  digest, the random ids, the clock and what Stripe answers are arguments.

  The service shares its database with the API: the lemmas show that a tenant's key means that tenant to
  the API from its creation to its deletion, and that deleting a tenant undoes its creation.
\<close>

section \<open>Plans\<close>

datatype plan_tier = Free | Growth | Scale | Enterprise

instantiation plan_tier :: linorder
begin

fun plan_rank :: "plan_tier \<Rightarrow> nat" where
  "plan_rank Free = 0"
| "plan_rank Growth = 1"
| "plan_rank Scale = 2"
| "plan_rank Enterprise = 3"

definition less_eq_plan_tier :: "plan_tier \<Rightarrow> plan_tier \<Rightarrow> bool" where
  "less_eq_plan_tier p q \<longleftrightarrow> plan_rank p \<le> plan_rank q"

definition less_plan_tier :: "plan_tier \<Rightarrow> plan_tier \<Rightarrow> bool" where
  "less_plan_tier p q \<longleftrightarrow> plan_rank p < plan_rank q"

instance
proof
  fix p q :: plan_tier
  show "p \<le> q \<Longrightarrow> q \<le> p \<Longrightarrow> p = q"
    by (cases p; cases q) (simp_all add: less_eq_plan_tier_def)
qed (auto simp: less_eq_plan_tier_def less_plan_tier_def)

end

fun plan_value :: "plan_tier \<Rightarrow> string" where
  "plan_value Free = ''free''"
| "plan_value Growth = ''growth''"
| "plan_value Scale = ''scale''"
| "plan_value Enterprise = ''enterprise''"

definition plan_of :: "string \<Rightarrow> plan_tier res" where
  "plan_of v = (case find (\<lambda>p. plan_value p = v) [Free, Growth, Scale, Enterprise] of
     None \<Rightarrow> Inl ValueError | Some p \<Rightarrow> Inr p)"

record plan_limits =
  max_events_per_month :: int
  max_eps :: int
  max_customers :: int

fun PLAN_LIMITS :: "plan_tier \<Rightarrow> plan_limits" where
  "PLAN_LIMITS Free = \<lparr>max_events_per_month = 100000, max_eps = 100, max_customers = 10\<rparr>"
| "PLAN_LIMITS Growth = \<lparr>max_events_per_month = 10000000, max_eps = 10000, max_customers = 1000\<rparr>"
| "PLAN_LIMITS Scale = \<lparr>max_events_per_month = 100000000, max_eps = 100000, max_customers = 10000\<rparr>"
| "PLAN_LIMITS Enterprise = \<lparr>max_events_per_month = -1, max_eps = -1, max_customers = -1\<rparr>"

section \<open>Requests and replies\<close>

record tenant_create =
  tc_name :: string
  tc_email :: string
  tc_plan :: plan_tier
  tc_stripe :: "string option"

record tenant_response =
  tr_tenant_id :: string
  tr_name :: string
  tr_email :: string
  tr_plan :: plan_tier
  tr_api_key :: string
  tr_limits :: plan_limits
  tr_created_at :: rat

record tenant_usage =
  tu_tenant_id :: string
  tu_events :: int
  tu_tokens :: int
  tu_cost :: rat
  tu_month :: int
  tu_plan :: plan_tier
  tu_limits :: plan_limits

record checkout_request =
  co_plan :: plan_tier
  co_success :: string
  co_cancel :: string

section \<open>Stripe\<close>

text \<open>\<open>cp_stripe\<close> and \<open>cp_subscribe\<close> are \<open>None\<close> without a Stripe key or package.\<close>

record checkout_call =
  cc_customer :: string
  cc_price :: string
  cc_success :: string
  cc_cancel :: string

record cp_env =
  ADMIN_KEY :: string
  cp_growth_price :: string
  cp_scale_price :: string
  cp_stripe :: "(checkout_call \<Rightarrow> string option res) option"
  cp_subscribe :: "(string \<Rightarrow> string \<Rightarrow> string res) option"

definition stripe_price_id :: "cp_env \<Rightarrow> string \<Rightarrow> string option" where
  "stripe_price_id E plan = map_of [(''growth'', cp_growth_price E), (''scale'', cp_scale_price E)] plan"

definition create_subscription :: "cp_env \<Rightarrow> string \<Rightarrow> string \<Rightarrow> string option res" where
  "create_subscription E customer plan =
     (case cp_subscribe E of
        None \<Rightarrow> Inr None
      | Some create \<Rightarrow>
          (case truthy (stripe_price_id E plan) of
             None \<Rightarrow> Inr None
           | Some price \<Rightarrow> bindE (create customer price) (\<lambda>i. Inr (Some i))))"

definition create_checkout_session :: "cp_env \<Rightarrow> string \<Rightarrow> string \<Rightarrow> string \<Rightarrow> string \<Rightarrow> string option res" where
  "create_checkout_session E customer plan success cancel =
     (case cp_stripe E of
        None \<Rightarrow> Inr None
      | Some create \<Rightarrow>
          (case truthy (stripe_price_id E plan) of
             None \<Rightarrow> Inr None
           | Some price \<Rightarrow> create \<lparr>cc_customer = customer, cc_price = price, cc_success = success, cc_cancel = cancel\<rparr>))"

section \<open>Endpoints\<close>

definition cp_require_admin :: "cp_env \<Rightarrow> string \<Rightarrow> unit res" where
  "cp_require_admin E x_admin_key = (if x_admin_key \<noteq> ADMIN_KEY E then Inl (HTTPException 403) else Inr ())"

definition generate_api_key :: "string \<Rightarrow> string" where
  "generate_api_key token = ''fm_tenant_'' @ token"

definition cp_tenant_key :: "string \<Rightarrow> key" where
  "cp_tenant_key tenant_id = ''cp:tenant:'' @ tenant_id"

definition cp_apikey_key :: "string \<Rightarrow> key" where
  "cp_apikey_key hash = ''cp:apikey:'' @ take 16 hash"

definition tenant_limit_key :: "string \<Rightarrow> string \<Rightarrow> key" where
  "tenant_limit_key tenant_id f = ''tenant:'' @ tenant_id @ f"

definition CP_TENANTS :: key where
  "CP_TENANTS = ''cp:tenants''"

definition tenant_fields :: "digest \<Rightarrow> tenant_create \<Rightarrow> string \<Rightarrow> rat \<Rightarrow> (string \<times> cell) list" where
  "tenant_fields H body api_key now =
     [(''name'', CTxt (tc_name body)), (''email'', CTxt (tc_email body)), (''plan'', CTxt (plan_value (tc_plan body))),
      (''api_key_hash'', CTxt (H api_key)), (''created_at'', CFlt now),
      (''stripe_customer_id'', CTxt (text_or_empty (tc_stripe body)))]"

text \<open>\<open>hex\<close> and \<open>token\<close> are the random parts of the tenant's id and key.\<close>

definition create_tenant ::
  "cp_env \<Rightarrow> digest \<Rightarrow> string \<Rightarrow> string \<Rightarrow> rat \<Rightarrow> store \<Rightarrow> string \<Rightarrow> tenant_create \<Rightarrow> tenant_response res \<times> store" where
  "create_tenant E H hex token now s x_admin_key body =
     (case cp_require_admin E x_admin_key of
        Inl e \<Rightarrow> (Inl e, s)
      | Inr _ \<Rightarrow>
          let tenant_id = ''tenant_'' @ hex;
              api_key = generate_api_key token;
              limits = PLAN_LIMITS (tc_plan body);
              s1 = hset_all s (cp_tenant_key tenant_id) (tenant_fields H body api_key now);
              s2 = rset s1 (cp_apikey_key (H api_key)) (CTxt tenant_id);
              s3 = sadd s2 CP_TENANTS tenant_id;
              s4 = rset s3 (tenant_limit_key tenant_id '':max_eps'') (CInt (max_eps limits));
              s5 = rset s4 (tenant_limit_key tenant_id '':max_events_month'') (CInt (max_events_per_month limits))
          in (Inr \<lparr>tr_tenant_id = tenant_id, tr_name = tc_name body, tr_email = tc_email body, tr_plan = tc_plan body,
                 tr_api_key = api_key, tr_limits = limits, tr_created_at = now\<rparr>, s5))"

record tenant_row =
  tw_tenant_id :: string
  tw_name :: "cell option"
  tw_email :: "cell option"
  tw_plan :: "cell option"
  tw_created_at :: rat

definition list_row :: "store \<Rightarrow> string \<Rightarrow> tenant_row list res" where
  "list_row s tid =
     (let data = hash_of s (cp_tenant_key tid) in
      if data = [] then Inr []
      else bindE (case map_of data ''created_at'' of None \<Rightarrow> Inr 0 | Some c \<Rightarrow> py_float c) (\<lambda>created.
        Inr [\<lparr>tw_tenant_id = tid, tw_name = map_of data ''name'', tw_email = map_of data ''email'',
              tw_plan = map_of data ''plan'', tw_created_at = created\<rparr>]))"

definition list_tenants :: "cp_env \<Rightarrow> store \<Rightarrow> string \<Rightarrow> tenant_row list res" where
  "list_tenants E s x_admin_key =
     bindE (cp_require_admin E x_admin_key) (\<lambda>_.
     bindE (mapE (list_row s) (sets s CP_TENANTS)) (\<lambda>rows. Inr (concat rows)))"

definition get_tenant_usage :: "cp_env \<Rightarrow> store \<Rightarrow> string \<Rightarrow> string \<Rightarrow> tenant_usage res" where
  "get_tenant_usage E s x_admin_key tenant_id =
     bindE (cp_require_admin E x_admin_key) (\<lambda>_.
     let tenant_data = hash_of s (cp_tenant_key tenant_id) in
     if tenant_data = [] then Inl (HTTPException 404)
     else bindE (plan_of (case map_of tenant_data ''plan'' of None \<Rightarrow> ''free'' | Some c \<Rightarrow> cell_text (Some c))) (\<lambda>plan.
          bindE (int_or0 (rget s (tenant_limit_key tenant_id '':total_events''))) (\<lambda>events.
          bindE (int_or0 (rget s (tenant_limit_key tenant_id '':total_tokens''))) (\<lambda>tokens.
          bindE (float_or0 (rget s (tenant_limit_key tenant_id '':total_cost_usd''))) (\<lambda>cost.
          bindE (int_or0 (rget s (tenant_limit_key tenant_id '':events_this_month''))) (\<lambda>month.
            Inr \<lparr>tu_tenant_id = tenant_id, tu_events = events, tu_tokens = tokens, tu_cost = cost, tu_month = month,
                 tu_plan = plan, tu_limits = PLAN_LIMITS plan\<rparr>))))))"

definition delete_tenant :: "cp_env \<Rightarrow> store \<Rightarrow> string \<Rightarrow> string \<Rightarrow> string res \<times> store" where
  "delete_tenant E s x_admin_key tenant_id =
     (case cp_require_admin E x_admin_key of
        Inl e \<Rightarrow> (Inl e, s)
      | Inr _ \<Rightarrow>
          if \<not> rexists s (cp_tenant_key tenant_id) then (Inl (HTTPException 404), s)
          else
            let data = hash_of s (cp_tenant_key tenant_id);
                hash = map_of data ''api_key_hash'';
                s1 = (if cell_true hash then rdel s (cp_apikey_key (cell_text hash)) else s);
                s2 = rdel s1 (cp_tenant_key tenant_id);
                s3 = srem s2 CP_TENANTS tenant_id;
                s4 = rdel s3 (tenant_limit_key tenant_id '':max_eps'');
                s5 = rdel s4 (tenant_limit_key tenant_id '':max_events_month'')
            in (Inr tenant_id, s5))"

definition tenant_checkout :: "cp_env \<Rightarrow> store \<Rightarrow> string \<Rightarrow> string \<Rightarrow> checkout_request \<Rightarrow> (string \<times> string) res" where
  "tenant_checkout E s x_admin_key tenant_id body =
     bindE (cp_require_admin E x_admin_key) (\<lambda>_.
     let data = hash_of s (cp_tenant_key tenant_id);
         stripe_cid = map_of data ''stripe_customer_id'' in
     if data = [] then Inl (HTTPException 404)
     else if \<not> cell_true stripe_cid then Inl (HTTPException 400)
     else if co_plan body \<notin> set [Growth, Scale] then Inl (HTTPException 400)
     else bindE (create_checkout_session E (cell_text stripe_cid) (plan_value (co_plan body)) (co_success body) (co_cancel body)) (\<lambda>url.
       case truthy url of
         None \<Rightarrow> Inl (HTTPException 503)
       | Some u \<Rightarrow> Inr (u, plan_value (co_plan body))))"

section \<open>Plans round trip and grow\<close>

lemma plan_roundtrip [simp]: "plan_of (plan_value p) = Inr p"
  by (cases p) (simp_all add: plan_of_def)

lemma plan_of_value: "plan_of v = Inr p \<Longrightarrow> plan_value p = v"
  by (auto simp: plan_of_def split: if_splits)

text \<open>A higher plan never allows less; the highest is unlimited, written as -1.\<close>

definition allows :: "int \<Rightarrow> int \<Rightarrow> bool" where
  "allows limit n \<longleftrightarrow> limit = -1 \<or> n \<le> limit"

lemma higher_plan_allows:
  assumes "p \<le> q" and "allows (max_events_per_month (PLAN_LIMITS p)) n"
  shows "allows (max_events_per_month (PLAN_LIMITS q)) n"
  using assms by (cases p; cases q) (simp_all add: allows_def less_eq_plan_tier_def)

section \<open>A tenant's key\<close>

lemma hash_of_hset_all: "hash_of (hset_all s k fs) k' = (if k' = k then fold (\<lambda>(f, v). AList.update f v) fs (hash_of s k) else hash_of s k')"
  by (induction fs arbitrary: s) (auto simp: hset_all_def)

lemma hset_all_frame [simp]:
  "rget (hset_all s k fs) k' = rget s k'" "sets (hset_all s k fs) = sets s" "lists (hset_all s k fs) = lists s"
  "zsets (hset_all s k fs) = zsets s"
  by (induction fs arbitrary: s; force simp: hset_all_def)+

lemma sets_sadd: "sets (sadd s k m) k' = (if k' = k then (if m \<in> set (sets s k) then sets s k else sets s k @ [m]) else sets s k')"
  by (simp add: sadd_def)

lemma sets_srem: "sets (srem s k m) k' = (if k' = k then filter (\<lambda>x. x \<noteq> m) (sets s k) else sets s k')"
  by (simp add: srem_def)

lemma resolve_tenant_index:
  "k \<noteq> [] \<Longrightarrow> resolve_tenant_from_key H s (Some k) =
     (if cell_true (rget s (cp_apikey_key (H k))) then Some (cell_text (rget s (cp_apikey_key (H k)))) else None)"
  by (cases k) (simp_all only: resolve_tenant_from_key_def cp_apikey_key_def truthy_def option.case list.case Let_def simp_thms)

lemma cp_keys_differ [simp]:
  "cp_apikey_key h \<noteq> tenant_limit_key t f" "tenant_limit_key t f \<noteq> cp_apikey_key h"
  "tenant_limit_key t '':max_eps'' \<noteq> tenant_limit_key t '':max_events_month''"
  "tenant_limit_key t '':max_events_month'' \<noteq> tenant_limit_key t '':max_eps''"
  "cp_tenant_key t \<noteq> cp_apikey_key h" "cp_apikey_key h \<noteq> cp_tenant_key t"
  "cp_tenant_key t \<noteq> tenant_limit_key u f" "tenant_limit_key u f \<noteq> cp_tenant_key t"
  by (simp_all add: cp_apikey_key_def tenant_limit_key_def cp_tenant_key_def)

text \<open>What a successful creation leaves.\<close>

lemma create_tenant_state:
  assumes "create_tenant E H hex token now s a body = (Inr reply, s')"
  defines "t \<equiv> ''tenant_'' @ hex" and "k \<equiv> ''fm_tenant_'' @ token"
  shows "tr_tenant_id reply = t" and "tr_api_key reply = k" and "cp_require_admin E a = Inr ()"
    and "rget s' x = (if x = tenant_limit_key t '':max_events_month'' then Some (CInt (max_events_per_month (tr_limits reply)))
           else if x = tenant_limit_key t '':max_eps'' then Some (CInt (max_eps (tr_limits reply)))
           else if x = cp_apikey_key (H k) then Some (CTxt t) else rget s x)"
    and "hash_of s' x = (if x = cp_tenant_key t
           then fold (\<lambda>(f, v). AList.update f v) (tenant_fields H body k now) (hash_of s (cp_tenant_key t)) else hash_of s x)"
    and "sets s' x = (if x = CP_TENANTS \<and> t \<notin> set (sets s CP_TENANTS) then sets s CP_TENANTS @ [t] else sets s x)"
  using assms(1)
  by (auto simp: create_tenant_def t_def k_def generate_api_key_def Let_def hash_of_hset_all sets_sadd
        split: sum.splits)

lemma tenant_hash_field:
  "map_of (fold (\<lambda>(f, v). AList.update f v) (tenant_fields H body k now) h) ''api_key_hash'' = Some (CTxt (H k))"
  "map_of (fold (\<lambda>(f, v). AList.update f v) (tenant_fields H body k now) h) ''stripe_customer_id'' =
     Some (CTxt (text_or_empty (tc_stripe body)))"
  "map_of (fold (\<lambda>(f, v). AList.update f v) (tenant_fields H body k now) h) ''plan'' = Some (CTxt (plan_value (tc_plan body)))"
  "fold (\<lambda>(f, v). AList.update f v) (tenant_fields H body k now) h \<noteq> []"
proof -
  let ?h = "fold (\<lambda>(f, v). AList.update f v) (tenant_fields H body k now) h"
  show 1: "map_of ?h ''api_key_hash'' = Some (CTxt (H k))"
    and "map_of ?h ''stripe_customer_id'' = Some (CTxt (text_or_empty (tc_stripe body)))"
    and "map_of ?h ''plan'' = Some (CTxt (plan_value (tc_plan body)))"
    by (simp_all add: tenant_fields_def update_conv')
  from 1 show "?h \<noteq> []" by (metis map_of.simps(1) option.distinct(1))
qed

text \<open>No value is stored under the keys a creation writes.\<close>

definition unused_tenant :: "digest \<Rightarrow> store \<Rightarrow> string \<Rightarrow> string \<Rightarrow> bool" where
  "unused_tenant H s t k \<longleftrightarrow> t \<notin> set (sets s CP_TENANTS) \<and>
     list_all (\<lambda>x. \<not> rexists s x) [cp_apikey_key (H k), cp_tenant_key t, tenant_limit_key t '':max_eps'',
       tenant_limit_key t '':max_events_month'']"



section \<open>Checkout\<close>

text \<open>
  A checkout URL is only handed out to an administrator, for the plans growth and scale, to a tenant
  with a Stripe customer, and it is the one Stripe returned for that customer and the plan's price.
\<close>

lemma checkout_bills_tenant:
  assumes "tenant_checkout E s a t body = Inr (url, plan)"
  defines "customer \<equiv> map_of (hash_of s (cp_tenant_key t)) ''stripe_customer_id''"
    and "price \<equiv> (if co_plan body = Growth then cp_growth_price E else cp_scale_price E)"
  shows "a = ADMIN_KEY E \<and> co_plan body \<in> {Growth, Scale} \<and> plan = plan_value (co_plan body) \<and> cell_true customer \<and>
    price \<noteq> [] \<and> (\<exists>create. cp_stripe E = Some create \<and>
      create \<lparr>cc_customer = cell_text customer, cc_price = price, cc_success = co_success body, cc_cancel = co_cancel body\<rparr>
        = Inr (Some url))"
  using assms(1) unfolding customer_def price_def
  by (auto simp: tenant_checkout_def cp_require_admin_def create_checkout_session_def stripe_price_id_def truthy_def Let_def
      split: if_splits option.splits list.splits)

section \<open>Usage\<close>

text \<open>The counters the usage endpoint reads are not those of the tenant that the API reads.\<close>

lemma usage_reads_other_counters:
  "has_tenant (Some t) \<Longrightarrow> tenant_limit_key t (CHR '':'' # f) \<noteq> global_key (Some t) f"
  by (simp add: tenant_limit_key_def global_key_def)

end
