(* ===== verification/Intel_Reader.thy ===== *)
theory Intel_Reader
  imports Usage Pricing_Facts
begin

text \<open>
  What the reports of \<^verbatim>\<open>src/api/intelligence/\<close> read and compute from: the costs of a period by model,
  dimension and day (\<^verbatim>\<open>native_reader.py\<close>), revenue (\<^verbatim>\<open>revenue_store.py\<close>, \<^verbatim>\<open>connectors/openmeter.py\<close>), the
  economics of a customer (\<^verbatim>\<open>unit_economics.py\<close>), what-if scenarios (\<^verbatim>\<open>simulation.py\<close>) and the number
  formats of their texts. The price catalog and the set of dimensions are arguments. A dictionary is an
  association list in the order of insertion.

  The lemmas show that the economics name each customer with a cost once, when one makes a loss, and what
  an import and a what-if scenario come to.
\<close>

section \<open>Costs\<close>

definition dict_get0 :: "(string \<times> rat) list \<Rightarrow> string \<Rightarrow> rat" where
  "dict_get0 d k = (case map_of d k of None \<Rightarrow> 0 | Some v \<Rightarrow> v)"

text \<open>The keys come from a scan, which may name a key more than once.\<close>

fun sum_costs :: "store \<Rightarrow> (key \<Rightarrow> string option) \<Rightarrow> key list \<Rightarrow> (string \<times> rat) list \<Rightarrow> (string \<times> rat) list res" where
  "sum_costs s name [] out = Inr out"
| "sum_costs s name (k # ks) out =
     (case name k of
        None \<Rightarrow> sum_costs s name ks out
      | Some n \<Rightarrow>
          bindE (read_usage_bucket s k) (\<lambda>b.
            sum_costs s name ks (case b of None \<Rightarrow> out | Some d \<Rightarrow> AList.update n (dict_get0 out n + ub_cost d) out)))"

definition model_key_name :: "key \<Rightarrow> string option" where
  "model_key_name k =
     (let parts = split_on (CHR '':'') k in
      if length parts = 6 \<and> parts ! 2 = ''model'' \<and> parts ! 4 = ''period'' then Some (parts ! 3) else None)"

definition list_model_period_costs :: "store \<Rightarrow> string \<Rightarrow> string option \<Rightarrow> (string \<times> rat) list res" where
  "list_model_period_costs s period customer_id =
     (let pattern = (case truthy customer_id of
            Some c \<Rightarrow> ''rollup:'' @ c @ '':model:*:period:'' @ period
          | None \<Rightarrow> ''rollup:*:model:*:period:'' @ period)
      in sum_costs s model_key_name (scan s pattern) [])"

fun dim_costs :: "store \<Rightarrow> key list \<Rightarrow> (string \<times> rat) list \<Rightarrow> (string \<times> rat) list res" where
  "dim_costs s [] out = Inr out"
| "dim_costs s (k # ks) out =
     (let dim_value = split_on (CHR '':'') k ! 2 in
      bindE (float_or0 (rget s k)) (\<lambda>cost.
        dim_costs s ks (if cost > 0 then AList.update dim_value cost out else out)))"

definition list_dim_period_costs :: "string list \<Rightarrow> store \<Rightarrow> string \<Rightarrow> (string \<times> (string \<times> rat) list) list res" where
  "list_dim_period_costs dims s period =
     mapE (\<lambda>d. bindE (dim_costs s (scan s (''dim:'' @ d @ '':*:period:'' @ period @ '':cost_usd'')) []) (\<lambda>costs.
       Inr (d, costs))) dims"

definition day_key_date :: "key \<Rightarrow> string option" where
  "day_key_date k =
     (let parts = split_on (CHR '':'') k in
      if length parts = 4 \<and> parts ! 0 = ''rollup'' \<and> parts ! 2 = ''d'' then Some (parts ! 3) else None)"

fun last_costs :: "store \<Rightarrow> (key \<Rightarrow> string option) \<Rightarrow> key list \<Rightarrow> (string \<times> rat) list \<Rightarrow> (string \<times> rat) list res" where
  "last_costs s name [] out = Inr out"
| "last_costs s name (k # ks) out =
     (case name k of
        None \<Rightarrow> last_costs s name ks out
      | Some n \<Rightarrow>
          bindE (read_usage_bucket s k) (\<lambda>b.
            last_costs s name ks (case b of None \<Rightarrow> out | Some d \<Rightarrow> AList.update n (ub_cost d) out)))"

definition list_customer_daily_costs :: "store \<Rightarrow> string \<Rightarrow> string \<Rightarrow> (string \<times> rat) list res" where
  "list_customer_daily_costs s customer_id date_prefix =
     last_costs s day_key_date (scan s (''rollup:'' @ customer_id @ '':d:'' @ date_prefix @ ''*'')) []"

definition list_global_daily_costs :: "store \<Rightarrow> string \<Rightarrow> (string \<times> rat) list res" where
  "list_global_daily_costs s date_prefix =
     sum_costs s day_key_date (scan s (''rollup:*:d:'' @ date_prefix @ ''*'')) []"

definition dict_total :: "(string \<times> rat) list \<Rightarrow> rat" where
  "dict_total d = sum_list (map snd d)"

definition list_global_period_costs :: "store \<Rightarrow> string list \<Rightarrow> (string \<times> rat) list res" where
  "list_global_period_costs s periods =
     mapE (\<lambda>p. bindE (list_customer_period_costs s p) (\<lambda>costs. Inr (p, dict_total costs))) periods"

definition list_dim_margin_series ::
  "string list \<Rightarrow> store \<Rightarrow> string \<Rightarrow> string list \<Rightarrow> (string \<times> (string \<times> rat) list) list res" where
  "list_dim_margin_series dims s dim_key periods =
     (if dim_key \<notin> set dims then Inr (map (\<lambda>p. (p, [])) periods)
      else mapE (\<lambda>p. bindE (list_dim_period_costs dims s p) (\<lambda>all_dims.
        Inr (p, case map_of all_dims dim_key of None \<Rightarrow> [] | Some costs \<Rightarrow> costs))) periods)"

section \<open>Revenue\<close>

definition revenue_key :: "string \<Rightarrow> string \<Rightarrow> key" where
  "revenue_key customer_id period = ''intel:revenue:'' @ customer_id @ '':'' @ period"

definition set_revenue :: "store \<Rightarrow> string \<Rightarrow> string \<Rightarrow> rat \<Rightarrow> string \<Rightarrow> store" where
  "set_revenue s customer_id period revenue_usd source =
     rset s (revenue_key customer_id period)
       (CJson (JObj [(''revenue_usd'', JFlt revenue_usd), (''source'', JStr source)]))"

definition get_revenue :: "store \<Rightarrow> string \<Rightarrow> string \<Rightarrow> json option res" where
  "get_revenue s customer_id period =
     (case rget s (revenue_key customer_id period) of
        None \<Rightarrow> Inr None
      | Some raw \<Rightarrow> if cell_true (Some raw) then bindE (json_loads raw) (\<lambda>j. Inr (Some j)) else Inr None)"

text \<open>A number that Python computes with.\<close>

definition json_number :: "json \<Rightarrow> rat res" where
  "json_number j = (case j of JInt i \<Rightarrow> Inr (of_int i) | JFlt q \<Rightarrow> Inr q | JBool b \<Rightarrow> Inr (if b then 1 else 0) | _ \<Rightarrow> Inl TypeError)"

text \<open>\<open>revenue_usd\<close> of what is stored, \<open>None\<close> when nothing is or it is null.\<close>

definition stored_revenue :: "json option \<Rightarrow> rat option res" where
  "stored_revenue found =
     (case found of
        None \<Rightarrow> Inr None
      | Some j \<Rightarrow> if \<not> json_true j then Inr None
                  else bindE (json_index j ''revenue_usd'') (\<lambda>v.
                    if v = JNull then Inr None else bindE (json_number v) (\<lambda>q. Inr (Some q))))"

section \<open>Import of revenue\<close>

definition is_revenue_subject :: "json \<Rightarrow> bool" where
  "is_revenue_subject j = (case json_text j of Inr t \<Rightarrow> py_lower t = ''revenue'' | Inl _ \<Rightarrow> False)"

fun import_events :: "string \<Rightarrow> json list \<Rightarrow> store \<Rightarrow> (nat \<times> nat) res \<times> store" where
  "import_events period [] s = (Inr (0, 0), s)"
| "import_events period (ev # evs) s =
     (case json_get ev ''subject'' (JStr []) of
        Inl e \<Rightarrow> (Inl e, s)
      | Inr subject \<Rightarrow>
          if is_revenue_subject subject
          then (case bindE (json_index ev ''customerId'') (\<lambda>c. bindE (json_index ev ''value'') (\<lambda>v.
                       bindE (json_float v) (\<lambda>q. bindE (json_text c) (\<lambda>cid. Inr (cid, q))))) of
                  Inl e \<Rightarrow> (Inl e, s)
                | Inr (cid, q) \<Rightarrow>
                    (case import_events period evs (set_revenue s cid period q ''openmeter'') of
                       (r, s') \<Rightarrow> (bindE r (\<lambda>(n, m). Inr (n + 1, m)), s')))
          else (case import_events period evs s of (r, s') \<Rightarrow> (bindE r (\<lambda>(n, m). Inr (n, m + 1)), s')))"

definition import_openmeter_events :: "int \<Rightarrow> store \<Rightarrow> json \<Rightarrow> string \<Rightarrow> (nat \<times> nat) res \<times> store" where
  "import_openmeter_events now s payload period =
     (case bindE (json_get payload ''events'' (JArr [])) json_iter of
        Inl e \<Rightarrow> (Inl e, s)
      | Inr evs \<Rightarrow>
          (case import_events period evs s of
             (Inl e, s') \<Rightarrow> (Inl e, s')
           | (Inr counts, s') \<Rightarrow>
               (Inr counts, rset s' (''intel:overlay:openmeter:'' @ period @ '':imported_at'') (CInt now))))"

section \<open>Economics of a customer\<close>

definition LOSS_REC :: string where
  "LOSS_REC = ''Customer losing money '' @ [CHR 0xE2, CHR 0x80, CHR 0x94] @ '' suggest plan upgrade or usage cap''"

definition LOW_MARGIN_REC :: string where
  "LOW_MARGIN_REC = ''Low margin '' @ [CHR 0xE2, CHR 0x80, CHR 0x94] @ '' review model mix or pricing''"

definition UNKNOWN_REVENUE_REC :: string where
  "UNKNOWN_REVENUE_REC = ''Connect revenue (OpenMeter overlay or POST /intelligence/revenue)''"

record customer_economics =
  ce_customer :: string
  ce_period :: string
  ce_revenue :: "rat option"
  ce_cost :: rat
  ce_margin :: "rat option"
  ce_margin_pct :: "rat option"
  ce_status :: string
  ce_recommendation :: "string option"

definition economics_of :: "string \<Rightarrow> string \<Rightarrow> rat \<Rightarrow> rat option \<Rightarrow> customer_economics" where
  "economics_of period customer_id cost revenue =
     (case revenue of
        None \<Rightarrow> \<lparr>ce_customer = customer_id, ce_period = period, ce_revenue = None, ce_cost = cost, ce_margin = None,
                  ce_margin_pct = None, ce_status = ''unknown_revenue'', ce_recommendation = Some UNKNOWN_REVENUE_REC\<rparr>
      | Some r \<Rightarrow>
          let margin = r - cost; pct = (if r > 0 then Some (margin / r * 100) else None) in
          \<lparr>ce_customer = customer_id, ce_period = period, ce_revenue = Some r, ce_cost = cost, ce_margin = Some margin,
           ce_margin_pct = pct, ce_status = (if margin < 0 then ''loss'' else ''profitable''),
           ce_recommendation =
             (if margin < 0 then Some LOSS_REC
              else (case pct of Some p \<Rightarrow> if p < 10 then Some LOW_MARGIN_REC else None | None \<Rightarrow> None))\<rparr>)"

definition compute_unit_economics :: "store \<Rightarrow> string \<Rightarrow> customer_economics list res" where
  "compute_unit_economics s period =
     bindE (list_customer_period_costs s period) (\<lambda>costs.
       mapE (\<lambda>(customer_id, cost).
         bindE (get_revenue s customer_id period) (\<lambda>found.
         bindE (stored_revenue found) (\<lambda>r. Inr (economics_of period customer_id cost r)))) costs)"

section \<open>Numbers as text\<close>

text \<open>The formats \<open>.nf\<close>, \<open>+.nf\<close> and \<open>,.0f\<close>.\<close>

definition unsigned_fixed :: "nat \<Rightarrow> rat \<Rightarrow> string" where
  "unsigned_fixed n q =
     (let ds = pad0 (n + 1) (nat_str (nat (py_round (\<bar>q\<bar> * 10 ^ n)))); w = length ds - n in
      if n = 0 then ds else take w ds @ ''.'' @ drop w ds)"

definition fixed :: "nat \<Rightarrow> rat \<Rightarrow> string" where
  "fixed n q = (if q < 0 then ''-'' else []) @ unsigned_fixed n q"

definition signed_fixed :: "nat \<Rightarrow> rat \<Rightarrow> string" where
  "signed_fixed n q = (if q < 0 then ''-'' else ''+'') @ unsigned_fixed n q"

fun group3 :: "string \<Rightarrow> string" where
  "group3 (a # b # c # d # ds) = a # b # c # CHR '','' # group3 (d # ds)"
| "group3 ds = ds"

definition grouped :: "rat \<Rightarrow> string" where
  "grouped q = (if q < 0 then ''-'' else []) @ rev (group3 (rev (unsigned_fixed 0 q)))"

section \<open>What-if scenarios\<close>

record simulation_result =
  sr_scenario :: string
  sr_savings :: "rat option"
  sr_profit_delta :: "rat option"
  sr_notes :: string

definition model_cost_usd :: "catalog \<Rightarrow> string \<Rightarrow> int \<Rightarrow> int \<Rightarrow> rat res" where
  "model_cost_usd c model input_tokens output_tokens =
     bindE (calculate_cost_micro c \<lparr>modelId = model, inputTokens = input_tokens, outputTokens = output_tokens,
         cacheReadTokens = 0, reasoningTokens = 0, cacheWriteTokens = 0, embeddingTokens = 0\<rparr> 0)
       (\<lambda>micro. Inr (of_int micro / 1000000))"

definition simulate_model_switch :: "catalog \<Rightarrow> int \<Rightarrow> int \<Rightarrow> string \<Rightarrow> string \<Rightarrow> int \<Rightarrow> simulation_result res" where
  "simulate_model_switch c input_tokens output_tokens from_model to_model monthly_occurrences =
     bindE (model_cost_usd c from_model input_tokens output_tokens) (\<lambda>from_cost.
     bindE (model_cost_usd c to_model input_tokens output_tokens) (\<lambda>to_cost.
       let monthly_savings = from_cost - to_cost in
       Inr \<lparr>sr_scenario = ''model_switch'', sr_savings = Some (monthly_savings * 12 * of_int monthly_occurrences),
            sr_profit_delta = None,
            sr_notes = ''Switch '' @ from_model @ '' '' @ [CHR 0xE2, CHR 0x86, CHR 0x92] @ '' '' @ to_model @ '': $'' @ fixed 2 from_cost
              @ ''/mo '' @ [CHR 0xE2, CHR 0x86, CHR 0x92] @ '' $'' @ fixed 2 to_cost @ ''/mo ($'' @ signed_fixed 2 monthly_savings @ ''/mo)''\<rparr>))"

definition simulate_prompt_reduction :: "rat \<Rightarrow> rat \<Rightarrow> simulation_result" where
  "simulate_prompt_reduction cost_usd input_reduction_pct =
     (let monthly_savings = cost_usd * (input_reduction_pct / 100) * (1 / 2) in
      \<lparr>sr_scenario = ''prompt_reduction'', sr_savings = Some (monthly_savings * 12), sr_profit_delta = None,
       sr_notes = ''Reduce input tokens by '' @ fixed 0 input_reduction_pct @ ''% '' @ [CHR 0xE2, CHR 0x86, CHR 0x92] @ '' ~$''
         @ fixed 2 monthly_savings @ ''/mo saved''\<rparr>)"

definition simulate_token_grant :: "rat \<Rightarrow> int \<Rightarrow> rat \<Rightarrow> rat \<Rightarrow> int \<Rightarrow> simulation_result" where
  "simulate_token_grant cost_usd grant_tokens signup_lift_pct avg_revenue_per_customer_usd customer_count =
     (let cost_per_token = (if grant_tokens > 0 then cost_usd / of_int grant_tokens else 0);
          new_customers = of_int customer_count * (signup_lift_pct / 100);
          revenue_gain = new_customers * avg_revenue_per_customer_usd;
          grant_cost = (of_int grant_tokens * cost_per_token) * new_customers;
          profit_delta = revenue_gain - grant_cost in
      \<lparr>sr_scenario = ''token_grant'', sr_savings = None, sr_profit_delta = Some (profit_delta * 12),
       sr_notes = ''+'' @ fixed 0 new_customers @ '' new customers @ $'' @ fixed 2 avg_revenue_per_customer_usd @ ''/mo revenue; grant cost $''
         @ fixed 2 grant_cost @ ''/mo''\<rparr>)"

section \<open>Economics: one row per customer\<close>

lemma indexed_costs_distinct: "indexed_costs s p cids out = Inr costs \<Longrightarrow> distinct (map fst out) \<Longrightarrow> distinct (map fst costs)"
  by (induction cids arbitrary: out) (auto simp: distinct_update split: option.splits)

lemma scanned_costs_distinct: "scanned_costs s ks out = Inr costs \<Longrightarrow> distinct (map fst out) \<Longrightarrow> distinct (map fst costs)"
  by (induction ks arbitrary: out) (auto simp: distinct_update split: option.splits)

lemma period_costs_distinct: "list_customer_period_costs s p = Inr costs \<Longrightarrow> distinct (map fst costs)"
  by (auto simp: list_customer_period_costs_def Let_def split: if_splits
      dest: indexed_costs_distinct scanned_costs_distinct)

lemma economics_of_fields [simp]:
  "ce_customer (economics_of p c q r) = c" "ce_cost (economics_of p c q r) = q" "ce_revenue (economics_of p c q r) = r"
  "ce_margin (economics_of p c q r) = map_option (\<lambda>x. x - q) r"
  "ce_status (economics_of p c q r) = ''loss'' \<longleftrightarrow> (\<exists>x. r = Some x \<and> x < q)"
  "ce_status (economics_of p c q r) = ''unknown_revenue'' \<longleftrightarrow> r = None"
  by (auto simp: economics_of_def Let_def split: option.splits)

lemma economics_rows:
  assumes "compute_unit_economics s p = Inr rows" and "list_customer_period_costs s p = Inr costs"
  shows "map (\<lambda>e. (ce_customer e, ce_cost e)) rows = costs"
proof (rule nth_equalityI)
  note run = assms(1) [unfolded compute_unit_economics_def assms(2) bindE_simps]
  show len: "length (map (\<lambda>e. (ce_customer e, ce_cost e)) rows) = length costs"
    using mapE_length [OF run] by simp
  fix i assume "i < length (map (\<lambda>e. (ce_customer e, ce_cost e)) rows)"
  with len mapE_nth [OF run, of i]
  show "map (\<lambda>e. (ce_customer e, ce_cost e)) rows ! i = costs ! i"
    by (auto split: prod.splits dest!: sym [of _ "rows ! i"])
qed

lemma economics_revenue:
  assumes "compute_unit_economics s p = Inr rows" and "e \<in> set rows"
  shows "bindE (get_revenue s (ce_customer e) p) stored_revenue = Inr (ce_revenue e)"
    and "e = economics_of p (ce_customer e) (ce_cost e) (ce_revenue e)"
proof -
  obtain costs where c: "list_customer_period_costs s p = Inr costs"
    using assms(1) by (auto simp: compute_unit_economics_def)
  note run = assms(1) [unfolded compute_unit_economics_def c bindE_simps]
  obtain cid q found r where "get_revenue s cid p = Inr found" "stored_revenue found = Inr r" "e = economics_of p cid q r"
    using mapE_set [OF run assms(2)] by (auto split: prod.splits)
  then show "bindE (get_revenue s (ce_customer e) p) stored_revenue = Inr (ce_revenue e)"
    and "e = economics_of p (ce_customer e) (ce_cost e) (ce_revenue e)"
    by simp_all
qed

text \<open>
  the economics of a period have exactly one row for each customer with a cost, with that cost and the
  stored revenue; a row is marked a loss exactly if the revenue is known and below the cost, and unknown
  exactly if there is no revenue.
\<close>

theorem economics_classify:
  assumes "compute_unit_economics s p = Inr rows"
  shows "distinct (map ce_customer rows)
    \<and> list_customer_period_costs s p = Inr (map (\<lambda>e. (ce_customer e, ce_cost e)) rows)
    \<and> list_all (\<lambda>e. bindE (get_revenue s (ce_customer e) p) stored_revenue = Inr (ce_revenue e)
         \<and> (ce_status e = ''loss'') = (\<exists>r. ce_revenue e = Some r \<and> r < ce_cost e)
         \<and> (ce_status e = ''unknown_revenue'') = (ce_revenue e = None)
         \<and> ce_margin e = map_option (\<lambda>r. r - ce_cost e) (ce_revenue e)) rows"
proof -
  obtain costs where c: "list_customer_period_costs s p = Inr costs"
    using assms by (auto simp: compute_unit_economics_def)
  note rows = economics_rows [OF assms c]
  have "map ce_customer rows = map fst costs" by (simp flip: rows)
  moreover have "ce_status e = ''loss'' \<longleftrightarrow> (\<exists>r. ce_revenue e = Some r \<and> r < ce_cost e)"
    "ce_status e = ''unknown_revenue'' \<longleftrightarrow> ce_revenue e = None"
    "ce_margin e = map_option (\<lambda>r. r - ce_cost e) (ce_revenue e)" if "e \<in> set rows" for e
    using economics_of_fields(4-6) economics_revenue(2) [OF assms that] by metis+
  ultimately show ?thesis
    using period_costs_distinct [OF c] economics_revenue(1) [OF assms] by (simp add: c rows list_all_iff)
qed

section \<open>Revenue\<close>

lemma revenue_stored: "get_revenue (set_revenue s c p q src) c p = Inr (Some (JObj [(''revenue_usd'', JFlt q), (''source'', JStr src)]))"
  by (simp add: get_revenue_def set_revenue_def)

lemma revenue_roundtrip: "bindE (get_revenue (set_revenue s c p q src) c p) stored_revenue = Inr (Some q)"
  by (simp add: revenue_stored stored_revenue_def json_true_def json_index_def json_number_def)

lemma import_counts: "import_events p evs s = (Inr (n, m), s') \<Longrightarrow> n + m = length evs"
  by (induction evs arbitrary: s n m s') (fastforce split: sum.splits if_splits prod.splits)+

section \<open>Scenarios\<close>

text \<open>The number of granted tokens does not enter the estimate of a grant.\<close>

lemma token_grant_ignores_amount:
  "0 < g \<Longrightarrow> 0 < g' \<Longrightarrow> simulate_token_grant c g l v n = simulate_token_grant c g' l v n"
  by (simp add: simulate_token_grant_def Let_def)

text \<open>Switching back undoes the savings of a switch.\<close>

lemma switch_antisym:
  assumes "simulate_model_switch c i k a b n = Inr x" and "simulate_model_switch c i k b a n = Inr y"
  shows "the (sr_savings y) = - the (sr_savings x)"
  using assms by (auto simp: simulate_model_switch_def Let_def algebra_simps)

section \<open>Grouped digits\<close>

lemma group3_commas: "CHR '','' \<notin> set ds \<Longrightarrow> filter (\<lambda>c. c \<noteq> CHR '','') (group3 ds) = ds"
  by (induction ds rule: group3.induct) auto

lemma digits_no_comma: "CHR '','' \<notin> set (nat_str n)"
proof (induction n rule: nat_str.induct)
  case (1 n)
  have "CHR '','' \<noteq> digit_char d" if "d < 10" for d
    using that by (auto simp: digit_char_def char_of_eq_iff eq_commute [of _ "char_of _"] take_bit_eq_mod)
  with 1 show ?case by (cases "n < 10") (simp_all add: nat_str.simps [of n])
qed

lemma grouped_fixed: "filter (\<lambda>c. c \<noteq> CHR '','') (grouped q) = fixed 0 q"
proof -
  have "CHR '','' \<notin> set (unsigned_fixed 0 q)" by (simp add: unsigned_fixed_def Let_def pad0_def digits_no_comma)
  then show ?thesis by (simp add: grouped_def fixed_def group3_commas flip: rev_filter)
qed

end
