(* ===== verification/Intel_Reports.thy ===== *)
theory Intel_Reports
  imports Intel_Reader
begin

text \<open>
  The reports of \<^verbatim>\<open>src/api/intelligence/\<close>: the forecast of a month (\<^verbatim>\<open>forecast.py\<close>), the causes of a
  change of cost (\<^verbatim>\<open>root_cause.py\<close>), the dashboard (\<^verbatim>\<open>profitability.py\<close>), the recommendations
  (\<^verbatim>\<open>pricing_optimizer.py\<close>) and the executive report (\<^verbatim>\<open>report.py\<close>). Today's date, the catalog and the set
  of dimensions are arguments; where the source iterates over a set, the order is that of the lists here.

  The lemmas, in \<open>Intel_Facts\<close>, show that the contributions explain the whole change and are ranked, what the forecast is
  between, that allocated revenue adds up, and that a recommended model is the cheapest.
\<close>

section \<open>Periods\<close>

definition text_int :: "string \<Rightarrow> int res" where
  "text_int t = (case parse_int t of None \<Rightarrow> Inl ValueError | Some i \<Rightarrow> Inr i)"

definition year_month :: "string \<Rightarrow> (int \<times> int) res" where
  "year_month period = bindE (text_int (take 4 period)) (\<lambda>y. bindE (text_int (take 2 (drop 5 period))) (\<lambda>m. Inr (y, m)))"

definition zero_pad :: "nat \<Rightarrow> int \<Rightarrow> string" where
  "zero_pad w i = (if i < 0 then ''-'' @ pad0 (w - 1) (nat_str (nat (- i))) else pad0 w (nat_str (nat i)))"

definition period_text :: "int \<Rightarrow> int \<Rightarrow> string" where
  "period_text y m = zero_pad 4 y @ ''-'' @ zero_pad 2 m"

text \<open>\<open>_prior_period\<close>, the same in \<^verbatim>\<open>pricing_optimizer.py\<close>, \<^verbatim>\<open>alerts.py\<close> and \<^verbatim>\<open>report.py\<close>.\<close>

definition prior_period :: "string \<Rightarrow> string res" where
  "prior_period period =
     bindE (year_month period) (\<lambda>(y, m). Inr (if m = 1 then int_str (y - 1) @ ''-12'' else period_text y (m - 1)))"

fun months_back :: "nat \<Rightarrow> int \<Rightarrow> int \<Rightarrow> string list" where
  "months_back 0 y m = []"
| "months_back (Suc n) y m =
     period_text y m # (if m - 1 = 0 then months_back n (y - 1) 12 else months_back n y (m - 1))"

definition prior_periods :: "string \<Rightarrow> nat \<Rightarrow> string list res" where
  "prior_periods period months = bindE (year_month period) (\<lambda>(y, m). Inr (rev (months_back months y m)))"

section \<open>Forecast\<close>

definition days_in_period :: "string \<Rightarrow> nat res" where
  "days_in_period period =
     bindE (year_month period) (\<lambda>(y, m).
       if m < 1 \<or> 12 < m then Inl ValueError else Inr (month_lens y ! (nat m - 1)))"

type_synonym date = "int \<times> int \<times> nat"

definition current_day_of_month :: "date \<Rightarrow> string \<Rightarrow> nat res" where
  "current_day_of_month today period =
     bindE (year_month period) (\<lambda>(y, m).
       case today of (ty, tm, td) \<Rightarrow> if ty = y \<and> tm = m then Inr td else days_in_period period)"

text \<open>The customer of a scope \<open>customer:<id>\<close>.\<close>

definition scope_customer :: "string \<Rightarrow> string option" where
  "scope_customer scope = (if startswith scope ''customer:'' then Some (drop 9 scope) else None)"

definition budget_for_scope :: "store \<Rightarrow> string \<Rightarrow> string option \<Rightarrow> rat option res" where
  "budget_for_scope s scope tenant_id =
     (if scope = ''global'' then Inr None
      else (case scope_customer scope of
              None \<Rightarrow> Inr None
            | Some cid \<Rightarrow>
                (case rget s (budget_prefix_for_read s tenant_id cid @ '':initial_balance_usd'') of
                   None \<Rightarrow> Inr None
                 | Some v \<Rightarrow> bindE (py_float v) (\<lambda>q. Inr (Some q)))))"

record spend_forecast =
  sf_period :: string
  sf_scope :: string
  sf_mtd :: rat
  sf_eom :: rat
  sf_budget :: "rat option"
  sf_variance :: "rat option"
  sf_status :: string
  sf_summary :: string

definition forecast_status :: "rat \<Rightarrow> rat option \<Rightarrow> string" where
  "forecast_status eom budget =
     (case budget of
        None \<Rightarrow> ''no_budget''
      | Some b \<Rightarrow> if eom > b then ''over_budget'' else if eom > b * (85 / 100) then ''at_risk'' else ''on_track'')"

definition forecast_summary :: "rat \<Rightarrow> rat \<Rightarrow> rat option \<Rightarrow> string" where
  "forecast_summary mtd eom budget =
     (case budget of
        None \<Rightarrow> ''MTD $'' @ fixed 2 mtd @ ''; forecast EOM $'' @ fixed 2 eom @ '' (no budget configured)''
      | Some b \<Rightarrow>
          if eom > b then ''Forecast EOM $'' @ fixed 2 eom @ '' exceeds budget $'' @ fixed 2 b @ '' by $'' @ fixed 2 (eom - b)
          else if eom > b * (85 / 100) then ''Forecast EOM $'' @ fixed 2 eom @ '' is at risk vs budget $'' @ fixed 2 b
          else ''Forecast EOM $'' @ fixed 2 eom @ '' on track vs budget $'' @ fixed 2 b)"

definition end_of_month :: "rat \<Rightarrow> nat \<Rightarrow> nat \<Rightarrow> nat \<Rightarrow> rat" where
  "end_of_month mtd days today total_days =
     (let days_elapsed = max (max days today) 1;
          days_remaining = max (int total_days - int days_elapsed) 0
      in mtd + mtd / of_nat days_elapsed * of_int days_remaining)"

definition compute_forecast :: "date \<Rightarrow> store \<Rightarrow> string \<Rightarrow> string \<Rightarrow> string option \<Rightarrow> spend_forecast res" where
  "compute_forecast today s period scope tenant_id =
     bindE (case scope_customer scope of
              Some cid \<Rightarrow> list_customer_daily_costs s cid period
            | None \<Rightarrow> list_global_daily_costs s period) (\<lambda>daily.
     bindE (current_day_of_month today period) (\<lambda>day.
     bindE (days_in_period period) (\<lambda>total_days.
     bindE (budget_for_scope s scope tenant_id) (\<lambda>budget.
       let mtd = dict_total daily; eom = end_of_month mtd (length daily) day total_days in
       Inr \<lparr>sf_period = period, sf_scope = scope, sf_mtd = mtd, sf_eom = eom, sf_budget = budget,
            sf_variance = map_option (\<lambda>b. eom - b) budget, sf_status = forecast_status eom budget,
            sf_summary = forecast_summary mtd eom budget\<rparr>))))"

section \<open>Root cause\<close>

record contributor =
  co_dimension :: string
  co_key :: string
  co_current :: rat
  co_baseline :: rat
  co_delta :: rat
  co_delta_pct :: rat
  co_share :: rat

record root_cause_report =
  rc_period :: string
  rc_baseline_period :: string
  rc_total :: rat
  rc_baseline :: rat
  rc_delta :: rat
  rc_delta_pct :: rat
  rc_summary :: string
  rc_contributors :: "contributor list"

definition pct_delta :: "rat \<Rightarrow> rat \<Rightarrow> rat" where
  "pct_delta delta baseline = (if baseline \<noteq> 0 then delta / baseline * 100 else 0)"

definition share_of_total :: "rat \<Rightarrow> rat \<Rightarrow> rat" where
  "share_of_total delta total_delta = (if total_delta \<noteq> 0 then delta / total_delta * 100 else 0)"

definition build_contributors :: "string \<Rightarrow> (string \<times> rat) list \<Rightarrow> (string \<times> rat) list \<Rightarrow> rat \<Rightarrow> contributor list" where
  "build_contributors dimension current baseline total_delta =
     map (\<lambda>k. let curr = dict_get0 current k; base = dict_get0 baseline k; delta = curr - base in
       \<lparr>co_dimension = dimension, co_key = k, co_current = curr, co_baseline = base, co_delta = delta,
        co_delta_pct = pct_delta delta base, co_share = share_of_total delta total_delta\<rparr>)
       (remdups (map fst current @ map fst baseline))"

definition only_customer :: "string option \<Rightarrow> (string \<times> rat) list \<Rightarrow> (string \<times> rat) list" where
  "only_customer customer_id costs =
     (case truthy customer_id of None \<Rightarrow> costs | Some c \<Rightarrow> filter (\<lambda>e. fst e = c) costs)"

definition dict_of :: "(string \<times> (string \<times> rat) list) list \<Rightarrow> string \<Rightarrow> (string \<times> rat) list" where
  "dict_of ds d = (case map_of ds d of None \<Rightarrow> [] | Some costs \<Rightarrow> costs)"

definition root_cause_summary :: "rat \<Rightarrow> string \<Rightarrow> contributor list \<Rightarrow> string" where
  "root_cause_summary pct baseline_period ranked =
     (case ranked of
        [] \<Rightarrow> ''Cost '' @ signed_fixed 1 pct @ ''% vs '' @ baseline_period @ ''. No significant contributors.''
      | c # _ \<Rightarrow> ''Cost '' @ signed_fixed 1 pct @ ''% vs '' @ baseline_period @ ''. Top driver: '' @ co_dimension c @ '' ''
          @ co_key c @ '' ('' @ fixed 0 (co_share c) @ ''% of change).'')"

definition analyze_root_cause :: "string list \<Rightarrow> store \<Rightarrow> string \<Rightarrow> string \<Rightarrow> string \<Rightarrow> root_cause_report res" where
  "analyze_root_cause dims s period baseline_period scope =
     (let customer_id = scope_customer scope in
      bindE (list_customer_period_costs s period) (\<lambda>cc.
      bindE (list_customer_period_costs s baseline_period) (\<lambda>bc.
      let curr_customers = only_customer customer_id cc; base_customers = only_customer customer_id bc;
          total_current = dict_total curr_customers; total_baseline = dict_total base_customers;
          total_delta = total_current - total_baseline; pct = pct_delta total_delta total_baseline in
      bindE (list_model_period_costs s period customer_id) (\<lambda>curr_models.
      bindE (list_model_period_costs s baseline_period customer_id) (\<lambda>base_models.
      bindE (list_dim_period_costs dims s period) (\<lambda>curr_dims.
      bindE (list_dim_period_costs dims s baseline_period) (\<lambda>base_dims.
        let contributors = build_contributors ''model'' curr_models base_models total_delta
              @ build_contributors ''customer'' curr_customers base_customers total_delta
              @ concat (map (\<lambda>d. build_contributors d (dict_of curr_dims d) (dict_of base_dims d) total_delta) dims);
            ranked = take 10 (sort_key (\<lambda>c. - \<bar>co_delta c\<bar>) contributors) in
        Inr \<lparr>rc_period = period, rc_baseline_period = baseline_period, rc_total = total_current,
             rc_baseline = total_baseline, rc_delta = total_delta, rc_delta_pct = pct,
             rc_summary = root_cause_summary pct baseline_period ranked, rc_contributors = ranked\<rparr>)))))))"

section \<open>Profitability\<close>

record product_economics =
  pe_product :: string
  pe_period :: string
  pe_cost :: rat
  pe_revenue :: "rat option"
  pe_margin :: "rat option"
  pe_margin_pct :: "rat option"

record period_totals =
  pt_period :: string
  pt_cost :: rat
  pt_revenue :: "rat option"
  pt_margin :: "rat option"

record profitability_totals =
  to_revenue :: "rat option"
  to_cost :: rat
  to_margin :: "rat option"
  to_margin_pct :: "rat option"
  to_losses :: nat

record dashboard =
  da_period :: string
  da_months :: int
  da_totals :: profitability_totals
  da_customers :: "customer_economics list"
  da_products :: "product_economics list"
  da_trend :: "period_totals list"

definition known_revenues :: "customer_economics list \<Rightarrow> rat list" where
  "known_revenues es = concat (map (\<lambda>e. case ce_revenue e of None \<Rightarrow> [] | Some r \<Rightarrow> [r]) es)"

definition product_of :: "string \<Rightarrow> rat \<Rightarrow> rat \<Rightarrow> string \<times> rat \<Rightarrow> product_economics" where
  "product_of period global_rev total_feature_cost fc =
     (let cost = snd fc;
          allocated = (if global_rev \<noteq> 0 then Some (global_rev * (cost / total_feature_cost)) else None);
          margin = map_option (\<lambda>a. a - cost) allocated in
      \<lparr>pe_product = fst fc, pe_period = period, pe_cost = cost, pe_revenue = allocated, pe_margin = margin,
       pe_margin_pct = (case allocated of
          Some a \<Rightarrow> if a > 0 then Some ((a - cost) / a * 100) else None | None \<Rightarrow> None)\<rparr>)"

text \<open>Missing margins sort last among products and first among customers.\<close>

definition none_last :: "rat option \<Rightarrow> nat \<times> rat" where
  "none_last m = (case m of None \<Rightarrow> (1, 0) | Some q \<Rightarrow> (0, q))"

definition none_first :: "rat option \<Rightarrow> nat \<times> rat" where
  "none_first m = (case m of None \<Rightarrow> (0, 0) | Some q \<Rightarrow> (1, q))"

definition by_product :: "string list \<Rightarrow> store \<Rightarrow> string \<Rightarrow> customer_economics list \<Rightarrow> product_economics list res" where
  "by_product dims s period economics =
     bindE (list_dim_period_costs dims s period) (\<lambda>all_dims.
       let ds = dict_of all_dims ''feature'' in
       if ds = [] then Inr []
       else
         let total_feature_cost = (if dict_total ds \<noteq> 0 then dict_total ds else 1);
             global_rev = sum_list (known_revenues economics) in
         Inr (sort_key (\<lambda>p. none_last (pe_margin p)) (map (product_of period global_rev total_feature_cost) ds)))"

definition revenue_or_0 :: "json option \<Rightarrow> rat res" where
  "revenue_or_0 found =
     (case found of
        None \<Rightarrow> Inr 0
      | Some j \<Rightarrow> if json_true j then bindE (json_get j ''revenue_usd'' (JInt 0)) json_number else Inr 0)"

definition trend_of :: "store \<Rightarrow> (string \<times> rat) list \<Rightarrow> string \<Rightarrow> period_totals res" where
  "trend_of s trend_costs p =
     bindE (list_customer_period_costs s p) (\<lambda>customer_costs.
     bindE (mapE (\<lambda>(cid, _). bindE (get_revenue s cid p) revenue_or_0) customer_costs) (\<lambda>revs.
       let cost = dict_get0 trend_costs p; total_rev = sum_list revs;
           rev_val = (if total_rev > 0 then Some total_rev else None) in
       Inr \<lparr>pt_period = p, pt_cost = cost, pt_revenue = rev_val, pt_margin = map_option (\<lambda>r. r - cost) rev_val\<rparr>))"

definition dashboard_totals :: "customer_economics list \<Rightarrow> profitability_totals" where
  "dashboard_totals es =
     (let total_cost = sum_list (map ce_cost es); vals = known_revenues es;
          total_revenue = (if vals \<noteq> [] then Some (sum_list vals) else None) in
      \<lparr>to_revenue = total_revenue, to_cost = total_cost, to_margin = map_option (\<lambda>r. r - total_cost) total_revenue,
       to_margin_pct = (case total_revenue of
          None \<Rightarrow> None | Some r \<Rightarrow> if r \<noteq> 0 then Some ((r - total_cost) / r * 100) else None),
       to_losses = length (filter (\<lambda>e. ce_status e = ''loss'') es)\<rparr>)"

definition build_profitability_dashboard :: "string list \<Rightarrow> store \<Rightarrow> string \<Rightarrow> int \<Rightarrow> dashboard res" where
  "build_profitability_dashboard dims s period asked_months =
     (let months = max 1 (min asked_months 12) in
      bindE (prior_periods period (nat months)) (\<lambda>period_list.
      bindE (compute_unit_economics s period) (\<lambda>economics.
      let by_customer = sort_key (\<lambda>e. none_first (ce_margin e)) economics in
      bindE (list_global_period_costs s period_list) (\<lambda>trend_costs.
      bindE (mapE (trend_of s trend_costs) period_list) (\<lambda>trend.
      bindE (by_product dims s period by_customer) (\<lambda>products.
        Inr \<lparr>da_period = period, da_months = months, da_totals = dashboard_totals by_customer,
             da_customers = by_customer, da_products = products, da_trend = trend\<rparr>))))))"

section \<open>Recommendations\<close>

definition TARGET_MARGIN :: rat where
  "TARGET_MARGIN = 30 / 100"

record recommendation =
  re_customer :: string
  re_period :: string
  re_action :: string
  re_margin_pct :: "rat option"
  re_change :: string
  re_roi :: "rat option"
  re_confidence :: string

fun best_model :: "catalog \<Rightarrow> string \<Rightarrow> int \<Rightarrow> int \<Rightarrow> string list \<Rightarrow> string option \<times> rat \<Rightarrow> (string option \<times> rat) res" where
  "best_model c from_model i k [] best = Inr best"
| "best_model c from_model i k (m # ms) best =
     (if m = from_model then best_model c from_model i k ms best
      else bindE (model_cost_usd c m i k) (\<lambda>cost.
        best_model c from_model i k ms (if cost < snd best then (Some m, cost) else best)))"

definition cheaper_model :: "catalog \<Rightarrow> string \<Rightarrow> int \<Rightarrow> int \<Rightarrow> (string \<times> rat) option res" where
  "cheaper_model c from_model i k =
     bindE (model_cost_usd c from_model i k) (\<lambda>from_cost.
     bindE (best_model c from_model i k (map fst (models c)) (None, from_cost)) (\<lambda>(best, best_cost).
       Inr (map_option (\<lambda>m. (m, (from_cost - best_cost) * 12)) best)))"

definition model_tokens_for_customer :: "store \<Rightarrow> string \<Rightarrow> string \<Rightarrow> string \<Rightarrow> (int \<times> int) res" where
  "model_tokens_for_customer s customer_id period model_id =
     bindE (read_usage_bucket s (model_period_key customer_id model_id period)) (\<lambda>data.
       Inr (case data of None \<Rightarrow> (1000000, 500000) | Some b \<Rightarrow> (max (ub_input b) 1, max (ub_output b) 1)))"

text \<open>The first key with the greatest value.\<close>

fun max_key :: "(string \<times> rat) list \<Rightarrow> string \<times> rat \<Rightarrow> string" where
  "max_key [] best = fst best"
| "max_key (e # es) best = max_key es (if snd best < snd e then e else best)"

definition price_increase :: "customer_economics \<Rightarrow> rat option \<Rightarrow> string \<Rightarrow> string \<Rightarrow> recommendation" where
  "price_increase row roi change confidence =
     \<lparr>re_customer = ce_customer row, re_period = ce_period row, re_action = ''price_increase'',
      re_margin_pct = ce_margin_pct row, re_change = change, re_roi = roi, re_confidence = confidence\<rparr>"

definition loss_recs :: "customer_economics \<Rightarrow> string \<Rightarrow> recommendation list" where
  "loss_recs row confidence =
     (case ce_revenue row of
        Some r \<Rightarrow>
          if ce_status row = ''loss''
          then let suggested = ce_cost row / (1 - TARGET_MARGIN) in
            [price_increase row (Some ((suggested - r) * 12))
               (''Raise price to $'' @ fixed 2 suggested @ ''/mo for 30% margin (current $'' @ fixed 2 r @ '')'') confidence]
          else []
      | None \<Rightarrow> [])"

definition switch_recs :: "catalog \<Rightarrow> store \<Rightarrow> string \<Rightarrow> customer_economics \<Rightarrow> string \<Rightarrow> (string \<times> rat) list \<Rightarrow> recommendation list res" where
  "switch_recs c s period row confidence ms =
     (let top_model = max_key (tl ms) (hd ms) in
      bindE (model_tokens_for_customer s (ce_customer row) period top_model) (\<lambda>(i, k).
      bindE (cheaper_model c top_model i k) (\<lambda>alt.
        case alt of
          None \<Rightarrow> Inr []
        | Some (m, annual_save) \<Rightarrow>
            if m \<noteq> [] \<and> annual_save > 0
            then bindE (simulate_model_switch c i k top_model m 1) (\<lambda>sim.
              Inr [\<lparr>re_customer = ce_customer row, re_period = period, re_action = ''model_switch'',
                    re_margin_pct = ce_margin_pct row, re_change = sr_notes sim, re_roi = sr_savings sim,
                    re_confidence = confidence\<rparr>])
            else Inr [])))"

definition low_margin_recs :: "customer_economics \<Rightarrow> string \<Rightarrow> recommendation list" where
  "low_margin_recs row confidence =
     (case ce_margin_pct row of
        Some p \<Rightarrow>
          if ce_status row = ''profitable'' \<and> p < 10
          then let suggested = ce_cost row / (1 - TARGET_MARGIN);
                   roi = (suggested - (case ce_revenue row of None \<Rightarrow> 0 | Some r \<Rightarrow> r)) * 12 in
            [price_increase row (Some (max 0 roi))
               (''Low margin '' @ [CHR 0xE2, CHR 0x80, CHR 0x94] @ '' consider price increase to $'' @ fixed 2 suggested @ ''/mo'') confidence]
          else []
      | None \<Rightarrow> [])"

definition recommend :: "catalog \<Rightarrow> store \<Rightarrow> string \<Rightarrow> bool \<Rightarrow> customer_economics \<Rightarrow> recommendation list res" where
  "recommend c s period has_prior row =
     (let confidence = (if has_prior \<and> ce_revenue row \<noteq> None then ''high'' else ''medium'') in
      if ce_status row = ''unknown_revenue''
      then Inr [\<lparr>re_customer = ce_customer row, re_period = period, re_action = ''connect_revenue'', re_margin_pct = None,
                 re_change = ''Connect revenue via OpenMeter overlay or POST /intelligence/revenue'', re_roi = None,
                 re_confidence = ''medium''\<rparr>]
      else
        bindE (list_model_period_costs s period (Some (ce_customer row))) (\<lambda>ms.
          if ms \<noteq> []
          then bindE (switch_recs c s period row confidence ms) (\<lambda>rs. Inr (loss_recs row confidence @ rs))
          else Inr (loss_recs row confidence @ low_margin_recs row confidence)))"

definition roi_or_0 :: "recommendation \<Rightarrow> rat" where
  "roi_or_0 r = (case re_roi r of None \<Rightarrow> 0 | Some q \<Rightarrow> q)"

definition compute_pricing_recommendations :: "catalog \<Rightarrow> store \<Rightarrow> string \<Rightarrow> recommendation list res" where
  "compute_pricing_recommendations c s period =
     bindE (compute_unit_economics s period) (\<lambda>rows.
     bindE (prior_period period) (\<lambda>prior.
     bindE (list_model_period_costs s prior None) (\<lambda>prior_models.
     bindE (mapE (recommend c s period (prior_models \<noteq> [])) rows) (\<lambda>recs.
       Inr (sort_key (\<lambda>r. - roi_or_0 r) (concat recs))))))"

section \<open>The executive report\<close>

record intel_report =
  ir_period :: string
  ir_baseline_period :: string
  ir_headline :: string
  ir_root_cause :: root_cause_report
  ir_losses :: "customer_economics list"
  ir_profitability :: dashboard
  ir_recommendations :: "recommendation list"
  ir_forecast :: spend_forecast

definition build_report_json :: "catalog \<Rightarrow> string list \<Rightarrow> date \<Rightarrow> store \<Rightarrow> string \<Rightarrow> string option \<Rightarrow> intel_report res" where
  "build_report_json c dims today s period baseline_period =
     bindE (case truthy baseline_period of Some b \<Rightarrow> Inr b | None \<Rightarrow> prior_period period) (\<lambda>baseline.
     bindE (analyze_root_cause dims s period baseline ''global'') (\<lambda>rc.
     bindE (compute_unit_economics s period) (\<lambda>economics.
     let losses = filter (\<lambda>e. ce_status e = ''loss'') economics in
     bindE (build_profitability_dashboard dims s period 3) (\<lambda>profitability.
     bindE (compute_pricing_recommendations c s period) (\<lambda>recs.
     bindE (compute_forecast today s period ''global'' None) (\<lambda>fc.
       Inr \<lparr>ir_period = period, ir_baseline_period = baseline,
            ir_headline = (if losses \<noteq> [] then rc_summary rc @ '' '' @ nat_str (length losses) @ '' customer(s) unprofitable.''
              else rc_summary rc),
            ir_root_cause = rc, ir_losses = losses, ir_profitability = profitability,
            ir_recommendations = take 5 recs, ir_forecast = fc\<rparr>))))))"

definition opt0 :: "rat option \<Rightarrow> rat" where
  "opt0 q = (case q of None \<Rightarrow> 0 | Some x \<Rightarrow> x)"

definition loss_line :: "customer_economics \<Rightarrow> string" where
  "loss_line e = ''| '' @ ce_customer e @ '' | $'' @ fixed 2 (opt0 (ce_revenue e)) @ '' | $'' @ fixed 2 (ce_cost e) @ '' | $''
     @ fixed 2 (opt0 (ce_margin e)) @ '' |''"

definition recommendation_line :: "recommendation \<Rightarrow> string" where
  "recommendation_line r = ''- **'' @ re_customer r @ ''** ('' @ re_action r @ ''): '' @ re_change r @ '' ''
     @ [CHR 0xE2, CHR 0x80, CHR 0x94] @ '' ROI '' @ (case re_roi r of None \<Rightarrow> ''n/a'' | Some q \<Rightarrow> ''$'' @ grouped q @ ''/yr'')"

definition report_lines :: "intel_report \<Rightarrow> string list" where
  "report_lines d =
     [''# FluxMeter Intelligence Report '' @ [CHR 0xE2, CHR 0x80, CHR 0x94] @ '' '' @ ir_period d, '''', ''## Executive Summary'', ir_headline d,
      '''', ''## Root Cause'', rc_summary (ir_root_cause d), '''', ''## Loss Customers'']
     @ (if ir_losses d = [] then [''_None_'']
        else [''| Customer | Revenue | Cost | Margin |'', ''|----------|---------|------|--------|''] @ map loss_line (ir_losses d))
     @ ['''', ''## Top Pricing Recommendations'']
     @ (if ir_recommendations d = [] then [''_None_''] else map recommendation_line (ir_recommendations d))
     @ ['''', ''## Forecast vs Budget'', sf_summary (ir_forecast d), ''- MTD: $'' @ fixed 2 (sf_mtd (ir_forecast d)),
        ''- Forecast EOM: $'' @ fixed 2 (sf_eom (ir_forecast d)), ''- Status: '' @ sf_status (ir_forecast d)]"

definition build_report_markdown :: "catalog \<Rightarrow> string list \<Rightarrow> date \<Rightarrow> store \<Rightarrow> string \<Rightarrow> string option \<Rightarrow> string res" where
  "build_report_markdown c dims today s period baseline_period =
     bindE (build_report_json c dims today s period baseline_period) (\<lambda>d. Inr (join [CHR 0x0A] (report_lines d) @ [CHR 0x0A]))"

end
