(* ===== verification/Intel_Facts.thy ===== *)
theory Intel_Facts
  imports Intel_Reports "HOL-Library.Multiset"
begin

text \<open>
  What the reports of \<^verbatim>\<open>src/api/intelligence/\<close> say: contributions explain the whole change and are
  ranked, a forecast extrapolates the average day and ends with the month, revenue allocated to products
  adds up to all of it, and a recommended model is the cheapest there is.
\<close>

section \<open>Dictionaries as sums\<close>

lemma dict_get0_sum:
  assumes "distinct (map fst d)" and "fst ` set d \<subseteq> A" and "finite A"
  shows "(\<Sum>k \<in> A. dict_get0 d k) = dict_total d"
proof -
  have "(\<Sum>k \<in> A. dict_get0 d k) = (\<Sum>k \<in> fst ` set d. dict_get0 d k)"
    using assms(2,3) by (intro sum.mono_neutral_right) (auto simp: dict_get0_def split: option.splits dest: map_of_SomeD intro: rev_image_eqI)
  also have "\<dots> = (\<Sum>e \<in> set d. snd e)"
    using assms(1) by (subst sum.reindex) (auto simp: distinct_map dict_get0_def intro!: sum.cong)
  also have "\<dots> = dict_total d"
    using assms(1) by (simp add: dict_total_def sum_list_distinct_conv_sum_set distinct_map)
  finally show ?thesis .
qed

lemma contributions_total:
  assumes "distinct (map fst cur)" and "distinct (map fst base)"
  shows "sum_list (map co_delta (build_contributors d cur base t)) = dict_total cur - dict_total base"
proof -
  let ?A = "fst ` set cur \<union> fst ` set base"
  have "sum_list (map co_delta (build_contributors d cur base t)) = (\<Sum>k \<in> ?A. dict_get0 cur k - dict_get0 base k)"
    by (simp add: build_contributors_def Let_def comp_def sum_list_distinct_conv_sum_set)
  then show ?thesis
    using dict_get0_sum [of cur ?A] dict_get0_sum [of base ?A] assms by (simp add: sum_subtractf)
qed

lemma shares_total:
  assumes "t \<noteq> 0"
  shows "sum_list (map co_share (build_contributors d cur base t)) = sum_list (map co_delta (build_contributors d cur base t)) / t * 100"
proof -
  have sum: "sum_list (map (\<lambda>c. co_delta c / t * 100) cs) = sum_list (map co_delta cs) / t * 100" for cs
    by (induction cs) (simp_all add: algebra_simps add_divide_distrib)
  have "map co_share (build_contributors d cur base t) = map (\<lambda>c. co_delta c / t * 100) (build_contributors d cur base t)"
    using assms by (simp add: build_contributors_def Let_def share_of_total_def)
  then show ?thesis by (simp only: sum)
qed

lemma contributors_dimension [simp]: "c \<in> set (build_contributors d cur base t) \<Longrightarrow> co_dimension c = d"
  by (auto simp: build_contributors_def Let_def)

lemma only_customer_distinct: "distinct (map fst costs) \<Longrightarrow> distinct (map fst (only_customer c costs))"
  by (auto simp: only_customer_def distinct_map inj_on_def split: option.splits)

section \<open>Ranking\<close>

lemma ranked_sum:
  "sum_list (map g (filter P (sort_key f xs))) = (sum_list (map g (filter P xs)) :: rat)"
proof -
  have "mset (map g (filter P (sort_key f xs))) = mset (map g (filter P xs))" by simp
  then show ?thesis by (metis sum_mset_sum_list)
qed

lemma sorted_sum: "sum_list (map g (sort_key f xs)) = (sum_list (map g xs) :: rat)"
  using ranked_sum [of g "\<lambda>_. True" f xs] by simp

lemma sort_key_ranked: "sorted_wrt (\<lambda>a b. f a \<le> f b) (sort_key f xs)"
  using sorted_sort_key [of f xs] by (simp add: sorted_wrt_map)


section \<open>Forecast\<close>

lemma end_of_month_average:
  "end_of_month mtd n day d = mtd * of_nat (max d (max (max n day) 1)) / of_nat (max (max n day) 1)"
proof -
  define e where "e = max (max n day) 1"
  have e: "0 < e" by (simp add: e_def)
  have "end_of_month mtd n day d = mtd + mtd / of_nat e * of_int (max (int d - int e) 0)"
    by (simp only: end_of_month_def Let_def e_def)
  also have "\<dots> = mtd * of_nat (max d e) / of_nat e"
    using e by (cases "d \<le> e") (simp_all add: max_def field_simps)
  finally show ?thesis by (simp add: e_def)
qed

text \<open>
  A forecast extrapolates the average day to the end of the month and never below what is spent
  already; for a month that is not the current one it is what was spent. Its status compares it with the
  budget: over, within 15 per cent below, or on track.
\<close>

theorem forecast_extrapolates:
  assumes "compute_forecast today s period scope tenant = Inr f"
  shows "\<exists>elapsed days. 0 < elapsed \<and> days_in_period period = Inr days
      \<and> sf_eom f = sf_mtd f * of_nat (max days elapsed) / of_nat elapsed
      \<and> (sf_mtd f < 0 \<or> sf_mtd f \<le> sf_eom f)
      \<and> (year_month period = Inr (fst today, fst (snd today)) \<or> sf_eom f = sf_mtd f)
      \<and> sf_status f = forecast_status (sf_eom f) (sf_budget f)
      \<and> sf_variance f = map_option (\<lambda>b. sf_eom f - b) (sf_budget f)"
proof -
  obtain daily day d where run: "current_day_of_month today period = Inr day" "days_in_period period = Inr d"
    and f: "sf_mtd f = dict_total daily" "sf_eom f = end_of_month (dict_total daily) (length daily) day d"
      "sf_status f = forecast_status (sf_eom f) (sf_budget f)" "sf_variance f = map_option (\<lambda>b. sf_eom f - b) (sf_budget f)"
    using assms by (auto simp: compute_forecast_def Let_def)
  define e where "e = max (max (length daily) day) 1"
  have e: "0 < e" by (simp add: e_def)
  have eom: "sf_eom f = sf_mtd f * of_nat (max d e) / of_nat e"
    by (simp add: f(1,2) end_of_month_average e_def)
  have "sf_mtd f * of_nat e \<le> sf_mtd f * of_nat (max d e)" if "0 \<le> sf_mtd f"
    using that by (intro mult_left_mono) auto
  then have grows: "sf_mtd f < 0 \<or> sf_mtd f \<le> sf_eom f" using e by (cases "sf_mtd f < 0") (simp_all add: eom pos_le_divide_eq)
  have "sf_eom f = sf_mtd f" if "year_month period \<noteq> Inr (fst today, fst (snd today))"
  proof -
    have "day = d" using run that by (auto simp: current_day_of_month_def split: prod.splits if_splits)
    then have "max d e = e" by (simp add: e_def)
    then show ?thesis using e by (simp add: eom)
  qed
  then have past: "year_month period = Inr (fst today, fst (snd today)) \<or> sf_eom f = sf_mtd f" by blast
  show ?thesis using e run(2) eom grows past f(3,4) by blast
qed

text \<open>Without a scope there is no budget to compare with: the forecast alert never fires.\<close>

lemma global_forecast_no_budget:
  "compute_forecast today s period ''global'' tenant = Inr f \<Longrightarrow> sf_status f = ''no_budget''"
  by (auto simp: compute_forecast_def budget_for_scope_def forecast_status_def Let_def)

section \<open>Products\<close>

text \<open>
  the revenue allocated to the features adds up to the known revenue of all customers, each feature
  getting the share of its cost, and the products come in ascending order of their margin.
\<close>

theorem allocation_adds_up:
  assumes "by_product dims s period es = Inr ps" and "sum_list (known_revenues es) \<noteq> 0"
    and "sum_list (map pe_cost ps) \<noteq> 0"
  shows "sum_list (map (\<lambda>p. opt0 (pe_revenue p)) ps) = sum_list (known_revenues es)
    \<and> list_all (\<lambda>p. opt0 (pe_revenue p) * sum_list (map pe_cost ps) = sum_list (known_revenues es) * pe_cost p) ps
    \<and> sorted_wrt (\<lambda>p q. none_last (pe_margin p) \<le> none_last (pe_margin q)) ps"
proof -
  define g where "g = sum_list (known_revenues es)"
  obtain all_dims where run: "list_dim_period_costs dims s period = Inr all_dims"
    using assms(1) by (auto simp: by_product_def)
  define ds where "ds = dict_of all_dims ''feature''"
  have ne: "ds \<noteq> []" using assms(1,3) run by (auto simp: by_product_def Let_def ds_def split: if_splits)
  define T where "T = (if dict_total ds \<noteq> 0 then dict_total ds else 1)"
  have ps: "ps = sort_key (\<lambda>p. none_last (pe_margin p)) (map (product_of period g T) ds)"
    using assms(1) run ne by (auto simp: by_product_def Let_def ds_def T_def g_def)
  have cost: "pe_cost (product_of period g T fc) = snd fc" "opt0 (pe_revenue (product_of period g T fc)) = g * (snd fc / T)" for fc
    using assms(2) by (simp_all add: product_of_def Let_def opt0_def g_def)
  have sums: "sum_list (map h ps) = sum_list (map (h \<circ> product_of period g T) ds)" for h :: "product_economics \<Rightarrow> rat"
    by (simp add: ps sorted_sum)
  have "sum_list (map pe_cost ps) = dict_total ds" by (simp add: sums comp_def cost dict_total_def)
  with assms(3) have T: "sum_list (map pe_cost ps) = T" "T \<noteq> 0" "dict_total ds = T" by (simp_all add: T_def)
  have "sum_list (map (\<lambda>p. opt0 (pe_revenue p)) ps) = sum_list (map (\<lambda>fc. g * (snd fc / T)) ds)"
    by (simp add: sums comp_def cost)
  also have "\<dots> = g * (dict_total ds / T)"
    by (induction ds) (simp_all add: dict_total_def algebra_simps add_divide_distrib)
  also have "\<dots> = g" using T(2,3) by simp
  finally have "sum_list (map (\<lambda>p. opt0 (pe_revenue p)) ps) = g" .
  moreover have "list_all (\<lambda>p. opt0 (pe_revenue p) * T = g * pe_cost p) ps"
    using T(2) by (auto simp: ps list_all_iff cost)
  moreover have "sorted_wrt (\<lambda>p q. none_last (pe_margin p) \<le> none_last (pe_margin q)) ps"
    unfolding ps by (rule sort_key_ranked)
  ultimately show ?thesis by (simp add: T(1) g_def)
qed

section \<open>Recommended models\<close>

definition cost_or_0 :: "catalog \<Rightarrow> int \<Rightarrow> int \<Rightarrow> string \<Rightarrow> rat" where
  "cost_or_0 c i k m = ok_or 0 (model_cost_usd c m i k)"

lemma best_model_least:
  "best_model c f i k ms best = Inr (b, q) \<Longrightarrow>
     ((b, q) = best \<or> (\<exists>m \<in> set ms. b = Some m \<and> m \<noteq> f \<and> q = cost_or_0 c i k m \<and> q < snd best))
     \<and> q \<le> snd best \<and> (\<forall>m \<in> set ms. m = f \<or> q \<le> cost_or_0 c i k m)"
proof (induction c f i k ms best rule: best_model.induct)
  case (2 c f i k x ms best)
  show ?case
  proof (cases "x = f")
    case True
    then show ?thesis using 2(1,3) by auto
  next
    case False
    then obtain v where v: "model_cost_usd c x i k = Inr v"
      and run: "best_model c f i k ms (if v < snd best then (Some x, v) else best) = Inr (b, q)"
      using 2(3) by auto
    have "cost_or_0 c i k x = v" by (simp add: cost_or_0_def v)
    with 2(2) [OF False v run] False show ?thesis by (cases "v < snd best") force+
  qed
qed auto

text \<open>
  a recommended switch goes to the cheapest model. It is another model of the catalog, costs less than
  the present one and no more than any other for the customer's tokens, and the annual saving is twelve
  times the difference; with no recommendation, no other model is cheaper.
\<close>

theorem switch_is_cheapest:
  assumes "cheaper_model c f i k = Inr alt"
  shows "(case alt of
      None \<Rightarrow> list_all (\<lambda>m. m = f \<or> cost_or_0 c i k f \<le> cost_or_0 c i k m) (map fst (models c))
    | Some (m, saving) \<Rightarrow> m \<in> set (map fst (models c)) \<and> m \<noteq> f \<and> 0 < saving
        \<and> saving = (cost_or_0 c i k f - cost_or_0 c i k m) * 12
        \<and> list_all (\<lambda>m'. m' = f \<or> cost_or_0 c i k m \<le> cost_or_0 c i k m') (map fst (models c)))"
proof -
  obtain cf b q where run: "model_cost_usd c f i k = Inr cf" "best_model c f i k (map fst (models c)) (None, cf) = Inr (b, q)"
    and alt: "alt = map_option (\<lambda>m. (m, (cf - q) * 12)) b"
    using assms by (auto simp: cheaper_model_def)
  have cf: "cost_or_0 c i k f = cf" by (simp add: cost_or_0_def run(1))
  from best_model_least [OF run(2)] show ?thesis
    by (cases b) (auto simp: alt cf list_all_iff)
qed

section \<open>Advice that is never given\<close>

text \<open>A low margin is not mentioned to a customer with any model costs.\<close>

lemma low_margin_shadowed:
  assumes "recommend c s p h row = Inr rs" and "list_model_period_costs s p (Some (ce_customer row)) = Inr ms" and "ms \<noteq> []"
    and "ce_status row \<noteq> ''loss''" and "r \<in> set rs"
  shows "re_action r \<noteq> ''price_increase''"
  using assms
  by (auto simp: recommend_def switch_recs_def loss_recs_def Let_def split: option.splits if_splits prod.splits)

text \<open>A key that a scan names twice is counted twice.\<close>

lemma repeated_key_counted_twice:
  assumes "name k = Some n" and "read_usage_bucket s k = Inr (Some b)"
  shows "sum_costs s name [k, k] [] = Inr [(n, 2 * ub_cost b)]"
  using assms by (simp add: dict_get0_def)

section \<open>At work\<close>

text \<open>One customer, with costs in May and June 2026.\<close>

definition june_store :: store where
  "june_store =
     (let put = (\<lambda>k cost s. hset (hset s k ''event_count'' (CInt 1)) k ''cost_usd'' (CInt cost)) in
      put ''rollup:acme:d:2026-06-01'' 30 (put ''rollup:acme:period:2026-06'' 30
        (put ''rollup:acme:period:2026-05'' 10 empty_store)))"

definition two_models :: catalog where
  "two_models =
     (let flat = (\<lambda>i q. \<lparr>pricing_mode = ''flat'', input_per_m = i, output_per_m = q, embedding_per_m = 0,
            tiers = [\<lparr>up_to_tokens_m = None, t_input_per_m = i, t_output_per_m = q, t_embedding_per_m = 0\<rparr>]\<rparr>) in
      \<lparr>version = JStr ''1'', cache_read_multiplier = 1, defaults = flat 1 1, models = [(''big'', flat 5 15), (''small'', flat 1 2)],
       prefix_models = []\<rparr>)"

lemma june_scans:
  "scan june_store ''rollup:*:period:2026-06'' = [''rollup:acme:period:2026-06'']"
  "scan june_store ''rollup:*:period:2026-05'' = [''rollup:acme:period:2026-05'']"
  "scan june_store ''rollup:*:model:*:period:2026-06'' = []"
  "scan june_store ''rollup:*:model:*:period:2026-05'' = []"
  "scan june_store ''dim:feature:*:period:2026-06:cost_usd'' = []"
  "scan june_store ''dim:feature:*:period:2026-05:cost_usd'' = []"
  "scan june_store ''rollup:*:d:2026-06*'' = [''rollup:acme:d:2026-06-01'']"
  by code_simp+

lemma read_small_bucket:
  assumes "\<And>f. hget s k f = (if f = ''cost_usd'' then Some (CInt cost) else if f = ''event_count'' then Some (CInt 1) else None)"
  shows "read_usage_bucket s k = Inr (Some \<lparr>ub_input = 0, ub_output = 0, ub_tokens = 0,
     ub_events = 1, ub_cost = of_int cost, ub_cache_read = 0, ub_reasoning = 0\<rparr>)"
proof -
  have "hash_of s k \<noteq> []" using assms [of "''cost_usd''"] by (auto simp: hget_def)
  then show ?thesis by (simp add: read_usage_bucket_def rexists_iff read_bucket_def assms)
qed

lemma hget_empty [simp]: "hget empty_store k f = None"
  by (simp add: hget_def hash_of_def empty_store_def)

lemma june_buckets:
  "read_usage_bucket june_store ''rollup:acme:period:2026-06'' = Inr (Some \<lparr>ub_input = 0, ub_output = 0, ub_tokens = 0,
     ub_events = 1, ub_cost = of_int 30, ub_cache_read = 0, ub_reasoning = 0\<rparr>)"
  "read_usage_bucket june_store ''rollup:acme:period:2026-05'' = Inr (Some \<lparr>ub_input = 0, ub_output = 0, ub_tokens = 0,
     ub_events = 1, ub_cost = of_int 10, ub_cache_read = 0, ub_reasoning = 0\<rparr>)"
  "read_usage_bucket june_store ''rollup:acme:d:2026-06-01'' = Inr (Some \<lparr>ub_input = 0, ub_output = 0, ub_tokens = 0,
     ub_events = 1, ub_cost = of_int 30, ub_cache_read = 0, ub_reasoning = 0\<rparr>)"
proof -
  show "read_usage_bucket june_store ''rollup:acme:period:2026-06'' = Inr (Some \<lparr>ub_input = 0, ub_output = 0, ub_tokens = 0,
     ub_events = 1, ub_cost = of_int 30, ub_cache_read = 0, ub_reasoning = 0\<rparr>)"
    and "read_usage_bucket june_store ''rollup:acme:period:2026-05'' = Inr (Some \<lparr>ub_input = 0, ub_output = 0, ub_tokens = 0,
     ub_events = 1, ub_cost = of_int 10, ub_cache_read = 0, ub_reasoning = 0\<rparr>)"
    and "read_usage_bucket june_store ''rollup:acme:d:2026-06-01'' = Inr (Some \<lparr>ub_input = 0, ub_output = 0, ub_tokens = 0,
     ub_events = 1, ub_cost = of_int 30, ub_cache_read = 0, ub_reasoning = 0\<rparr>)"
    by (rule read_small_bucket; simp add: june_store_def Let_def)+
qed


theorem forecast_extrapolates_witness:
  "\<exists>f. compute_forecast (2026, 6, 10) june_store ''2026-06'' ''global'' None = Inr f
     \<and> sf_status f = forecast_status (sf_eom f) (sf_budget f)"
proof -
  have "days_in_period ''2026-06'' = Inr 30" "current_day_of_month (2026, 6, 10) ''2026-06'' = Inr 10" by code_simp+
  then obtain f where f: "compute_forecast (2026, 6, 10) june_store ''2026-06'' ''global'' None = Inr f"
    by (simp add: compute_forecast_def list_global_daily_costs_def scope_customer_def startswith_def budget_for_scope_def
        june_scans june_buckets day_key_date_def Let_def)
  with forecast_extrapolates [OF f] show ?thesis by blast
qed

theorem switch_is_cheapest_witness:
  "cost_or_0 two_models 1000 1000 ''small'' \<le> cost_or_0 two_models 1000 1000 ''big''"
proof -
  have "model_cost_usd two_models ''big'' 1000 1000 = Inr (20000 / 1000000)"
    "model_cost_usd two_models ''small'' 1000 1000 = Inr (3000 / 1000000)"
    by code_simp+
  moreover have "map fst (models two_models) = [''big'', ''small'']" by (simp add: two_models_def Let_def)
  ultimately have "cheaper_model two_models ''big'' 1000 1000 = Inr (Some (''small'', (20000 / 1000000 - 3000 / 1000000) * 12))"
    by (simp add: cheaper_model_def)
  from switch_is_cheapest [OF this] show ?thesis by simp
qed

end
