(* ===== verification/Intel_Alerts.thy ===== *)
theory Intel_Alerts
  imports Intel_Facts Webhooks
begin

text \<open>
  \<^verbatim>\<open>src/api/intelligence/alerts.py\<close> and \<^verbatim>\<open>intel_alert_worker.py\<close>: the three detectors, the debounce of alerts
  and a turn of the delivery loop. The catalog is not read here; the date, the clock, the spike threshold
  and what each POST comes to are arguments.

  The lemmas show when a loss is new, that an alert of a type and period is delivered once as long as its
  debounce key lives, and that an undelivered loss alert is not raised again.
\<close>

section \<open>Detectors\<close>

record intel_alert =
  ia_type :: string
  ia_period :: string
  ia_summary :: string
  ia_recommendation :: string

definition actions_for :: "string \<Rightarrow> json" where
  "actions_for period =
     JArr [JObj [(''label'', JStr ''Review profitability''), (''endpoint'', JStr (''/intelligence/profitability?period='' @ period))],
           JObj [(''label'', JStr ''Download report''), (''endpoint'', JStr (''/intelligence/report?period='' @ period @ ''&format=markdown''))]]"

definition detect_cost_spike :: "rat \<Rightarrow> string list \<Rightarrow> store \<Rightarrow> string \<Rightarrow> intel_alert option res" where
  "detect_cost_spike spike_pct dims s period =
     bindE (prior_period period) (\<lambda>baseline.
     bindE (analyze_root_cause dims s period baseline ''global'') (\<lambda>rc.
       Inr (if rc_baseline rc \<le> 0 \<or> rc_delta_pct rc \<le> spike_pct then None
            else Some \<lparr>ia_type = ''INTEL_COST_SPIKE'', ia_period = period, ia_summary = rc_summary rc,
                   ia_recommendation = ''Review top contributors and consider model switch or pricing adjustment''\<rparr>)))"

definition loss_snapshot_key :: "string \<Rightarrow> key" where
  "loss_snapshot_key period = ''intel:snapshot:loss_customers:'' @ period"

definition loss_customers :: "store \<Rightarrow> string \<Rightarrow> string list res" where
  "loss_customers s period =
     bindE (compute_unit_economics s period) (\<lambda>economics.
       Inr (remdups (map ce_customer (filter (\<lambda>e. ce_status e = ''loss'') economics))))"

text \<open>A set of JSON values: an object or array among them is not hashable.\<close>

definition json_set_of :: "json \<Rightarrow> json list res" where
  "json_set_of j = bindE (json_iter j) (\<lambda>xs. if list_ex is_container xs then Inl TypeError else Inr xs)"

definition previous_losses :: "store \<Rightarrow> string \<Rightarrow> json list res" where
  "previous_losses s period =
     (case rget s (loss_snapshot_key period) of
        None \<Rightarrow> Inr []
      | Some raw \<Rightarrow> if cell_true (Some raw) then bindE (json_loads raw) json_set_of else Inr [])"

definition loss_alert :: "string \<Rightarrow> string list \<Rightarrow> intel_alert" where
  "loss_alert period new_loss =
     \<lparr>ia_type = ''INTEL_MARGIN_LOSS'', ia_period = period,
      ia_summary = nat_str (length new_loss) @ '' new unprofitable customer(s): '' @ join '', '' (take 5 (sort new_loss))
        @ (if length new_loss > 5 then '' (+'' @ nat_str (length new_loss - 5) @ '' more)'' else []),
      ia_recommendation = ''Review unit economics and pricing recommendations''\<rparr>"

definition detect_margin_loss :: "store \<Rightarrow> string \<Rightarrow> intel_alert option res \<times> store" where
  "detect_margin_loss s period =
     (case bindE (loss_customers s period) (\<lambda>ids. bindE (previous_losses s period) (\<lambda>prev. Inr (ids, prev))) of
        Inl e \<Rightarrow> (Inl e, s)
      | Inr (loss_ids, prev_ids) \<Rightarrow>
          let s1 = expire (rset s (loss_snapshot_key period) (CJson (JArr (map JStr (sort loss_ids)))))
                (loss_snapshot_key period) (86400 * 400);
              new_loss = filter (\<lambda>c. JStr c \<notin> set prev_ids) loss_ids in
          (Inr (if new_loss = [] then None else Some (loss_alert period new_loss)), s1))"

definition detect_forecast_risk :: "date \<Rightarrow> store \<Rightarrow> string \<Rightarrow> intel_alert option res" where
  "detect_forecast_risk today s period =
     bindE (compute_forecast today s period ''global'' None) (\<lambda>fc.
       Inr (if sf_status fc \<notin> set [''at_risk'', ''over_budget''] then None
            else Some \<lparr>ia_type = ''INTEL_FORECAST_RISK'', ia_period = period, ia_summary = sf_summary fc,
                   ia_recommendation = ''Align spend with budget or raise limits''\<rparr>))"

definition opt_list :: "'a option \<Rightarrow> 'a list" where
  "opt_list x = (case x of None \<Rightarrow> [] | Some a \<Rightarrow> [a])"

definition collect_alerts :: "rat \<Rightarrow> string list \<Rightarrow> date \<Rightarrow> store \<Rightarrow> string \<Rightarrow> intel_alert list res \<times> store" where
  "collect_alerts spike_pct dims today s period =
     (case detect_cost_spike spike_pct dims s period of
        Inl e \<Rightarrow> (Inl e, s)
      | Inr spike \<Rightarrow>
          (case detect_margin_loss s period of
             (Inl e, s1) \<Rightarrow> (Inl e, s1)
           | (Inr loss, s1) \<Rightarrow>
               (bindE (detect_forecast_risk today s1 period) (\<lambda>risk. Inr (opt_list spike @ opt_list loss @ opt_list risk)), s1)))"

section \<open>Debounce and configuration\<close>

definition alert_debounce_key :: "string \<Rightarrow> string \<Rightarrow> key" where
  "alert_debounce_key alert_type period = ''intel:alert:'' @ alert_type @ '':'' @ period @ '':sent''"

definition should_send_alert :: "store \<Rightarrow> string \<Rightarrow> string \<Rightarrow> bool" where
  "should_send_alert s alert_type period \<longleftrightarrow> \<not> rexists s (alert_debounce_key alert_type period)"

definition mark_alert_sent :: "store \<Rightarrow> string \<Rightarrow> string \<Rightarrow> store" where
  "mark_alert_sent s alert_type period =
     expire (rset s (alert_debounce_key alert_type period) (CTxt ''1'')) (alert_debounce_key alert_type period) 86400"

text \<open>\<open>env_url\<close> and \<open>env_secret\<close> are the settings, empty when unset.\<close>

definition get_webhook_config :: "string \<Rightarrow> string \<Rightarrow> store \<Rightarrow> string \<times> string" where
  "get_webhook_config env_url env_secret s =
     (if env_url \<noteq> [] then env_url else cell_text (rget s ''intel:webhook:url''),
      if env_secret \<noteq> [] then env_secret else cell_text (rget s ''intel:webhook:secret''))"

definition set_webhook_config :: "store \<Rightarrow> string \<Rightarrow> string \<Rightarrow> store" where
  "set_webhook_config s url secret = rset (rset s ''intel:webhook:url'' (CTxt url)) ''intel:webhook:secret'' (CTxt secret)"

definition alert_json :: "intel_alert \<Rightarrow> int \<Rightarrow> json" where
  "alert_json a now_ms =
     JObj [(''type'', JStr (ia_type a)), (''period'', JStr (ia_period a)), (''summary'', JStr (ia_summary a)),
       (''recommendation'', JStr (ia_recommendation a)), (''actions'', actions_for (ia_period a)), (''timestamp'', JInt now_ms)]"

section \<open>The delivery loop\<close>

text \<open>
  The alerts of a turn, each with the outcomes of its attempts: what was delivered, whether the turn went
  through, the store and the POSTs. An exception of a delivery ends the turn.
\<close>

fun send_alerts ::
  "webhook_env \<Rightarrow> string \<Rightarrow> string \<Rightarrow> string \<Rightarrow> intel_alert list \<Rightarrow> (nat \<Rightarrow> nat \<Rightarrow> http_outcome) \<Rightarrow> store \<Rightarrow>
     string list \<times> store \<times> webhook_post list" where
  "send_alerts V url secret period [] attempts s = ([], s, [])"
| "send_alerts V url secret period (a # as) attempts s =
     (if \<not> should_send_alert s (ia_type a) period then send_alerts V url secret period as (\<lambda>i. attempts (i + 1)) s
      else (case deliver_webhook V (attempts 0) url secret (alert_json a (we_now_ms V)) of
              (Inl e, posts) \<Rightarrow> ([], s, posts)
            | (Inr ok, posts) \<Rightarrow>
                (case send_alerts V url secret period as (\<lambda>i. attempts (i + 1))
                        (if ok then mark_alert_sent s (ia_type a) period else s) of
                   (fired, s', posts') \<Rightarrow> ((if ok then [ia_type a] else []) @ fired, s', posts @ posts'))))"

record intel_env =
  ie_spike_pct :: rat
  ie_dims :: "string list"
  ie_url :: string
  ie_secret :: string

text \<open>One turn at the time of \<open>V\<close>, on the day \<open>today\<close>: the period, what was delivered, the store, the POSTs.\<close>

definition intel_alert_turn ::
  "intel_env \<Rightarrow> webhook_env \<Rightarrow> date \<Rightarrow> (nat \<Rightarrow> nat \<Rightarrow> http_outcome) \<Rightarrow> store \<Rightarrow>
     (string \<times> string) list \<times> store \<times> webhook_post list" where
  "intel_alert_turn I V today attempts s =
     (let (url, secret) = get_webhook_config (ie_url I) (ie_secret I) s in
      if url = [] then ([], s, [])
      else (case billing_period_month (we_now_ms V) of
              Inl e \<Rightarrow> ([], s, [])
            | Inr period \<Rightarrow>
                (case collect_alerts (ie_spike_pct I) (ie_dims I) today s period of
                   (Inl e, s1) \<Rightarrow> ([], s1, [])
                 | (Inr alerts, s1) \<Rightarrow>
                     (case send_alerts V url secret period alerts attempts s1 of
                        (fired, s2, posts) \<Rightarrow> (map (\<lambda>t. (t, period)) fired, s2, posts)))))"

text \<open>Turns of the loop, with their environment, date and outcomes.\<close>

fun intel_alert_run ::
  "intel_env \<Rightarrow> (webhook_env \<times> date \<times> (nat \<Rightarrow> nat \<Rightarrow> http_outcome)) list \<Rightarrow> store \<Rightarrow> (string \<times> string) list \<times> store" where
  "intel_alert_run I [] s = ([], s)"
| "intel_alert_run I ((V, today, attempts) # ts) s =
     (case intel_alert_turn I V today attempts s of
        (fired, s1, _) \<Rightarrow> (case intel_alert_run I ts s1 of (fired', s') \<Rightarrow> (fired @ fired', s')))"

section \<open>New losses\<close>

text \<open>
  a margin-loss alert names exactly the customers that lose money now and were not recorded before: it
  is raised if there is one, and whatever comes of it, the customers that lose money now are recorded.
\<close>

theorem margin_loss_exactly:
  assumes "detect_margin_loss s period = (Inr alert, s1)"
  shows "\<exists>ids prev. loss_customers s period = Inr ids \<and> previous_losses s period = Inr prev \<and> distinct ids
    \<and> alert = (let new = filter (\<lambda>c. JStr c \<notin> set prev) ids in if new = [] then None else Some (loss_alert period new))
    \<and> previous_losses s1 period = Inr (map JStr (sort ids))
    \<and> (\<forall>k. k = loss_snapshot_key period \<or> rget s1 k = rget s k)"
proof -
  obtain ids prev where run: "loss_customers s period = Inr ids" "previous_losses s period = Inr prev"
    and s1: "s1 = expire (rset s (loss_snapshot_key period) (CJson (JArr (map JStr (sort ids)))))
                (loss_snapshot_key period) (86400 * 400)"
    and a: "alert = (let new = filter (\<lambda>c. JStr c \<notin> set prev) ids in if new = [] then None else Some (loss_alert period new))"
    using assms by (auto simp: detect_margin_loss_def Let_def split: sum.splits)
  have "\<not> list_ex is_container (map JStr (sort ids))" by (auto simp: list_ex_iff is_container_def)
  then have "previous_losses s1 period = Inr (map JStr (sort ids))"
    by (simp add: previous_losses_def s1 json_set_of_def json_iter_def)
  moreover have "distinct ids" using run(1) by (auto simp: loss_customers_def)
  ultimately show ?thesis using run a by (simp add: s1)
qed

text \<open>The next detector run raises no alert for customers that still lose money: an alert that was not delivered is lost.\<close>

lemma loss_alert_lost:
  assumes "detect_margin_loss s period = (Inr (Some a), s1)" and "loss_customers s1 period = loss_customers s period"
  shows "fst (detect_margin_loss s1 period) = Inr None"
proof -
  obtain ids where ids: "loss_customers s period = Inr ids" and s1: "s1 = expire (rset s (loss_snapshot_key period)
      (CJson (JArr (map JStr (sort ids))))) (loss_snapshot_key period) (86400 * 400)"
    using assms(1) by (auto simp: detect_margin_loss_def Let_def split: sum.splits)
  have "\<not> list_ex is_container (map JStr (sort ids))" by (auto simp: list_ex_iff is_container_def)
  then have "previous_losses s1 period = Inr (map JStr (sort ids))"
    by (simp add: previous_losses_def s1 json_set_of_def json_iter_def)
  then show ?thesis using assms(2) ids by (auto simp: detect_margin_loss_def Let_def filter_empty_conv)
qed

section \<open>Delivered once\<close>

lemma debounce_key_inj:
  assumes "alert_debounce_key t p = alert_debounce_key t' p'"
    and "t \<in> set [''INTEL_COST_SPIKE'', ''INTEL_MARGIN_LOSS'', ''INTEL_FORECAST_RISK'']"
    and "t' \<in> set [''INTEL_COST_SPIKE'', ''INTEL_MARGIN_LOSS'', ''INTEL_FORECAST_RISK'']"
  shows "t = t' \<and> p = p'"
  using assms by (auto simp: alert_debounce_key_def)

lemma mark_exists: "rexists (mark_alert_sent s t p) k \<longleftrightarrow> k = alert_debounce_key t p \<or> rexists s k"
  by (auto simp: mark_alert_sent_def rexists_iff)

lemma send_alerts_keys:
  assumes "send_alerts V url secret p as attempts s = (fired, s', posts)"
  shows "distinct (map (\<lambda>t. alert_debounce_key t p) fired)"
    and "t \<in> set fired \<Longrightarrow> \<not> rexists s (alert_debounce_key t p) \<and> rexists s' (alert_debounce_key t p)"
    and "rexists s k \<Longrightarrow> rexists s' k"
proof -
  have "distinct (map (\<lambda>t. alert_debounce_key t p) fired)
    \<and> (\<forall>t \<in> set fired. \<not> rexists s (alert_debounce_key t p) \<and> rexists s' (alert_debounce_key t p))
    \<and> (\<forall>k. rexists s k \<longrightarrow> rexists s' k)"
    using assms
  proof (induction as arbitrary: attempts s fired s' posts)
    case (Cons a as)
    show ?case
    proof (cases "should_send_alert s (ia_type a) p")
      case False
      then show ?thesis using Cons.IH Cons.prems by simp
    next
      case True
      obtain r posts1 where d: "deliver_webhook V (attempts 0) url secret (alert_json a (we_now_ms V)) = (r, posts1)" by fastforce
      show ?thesis
      proof (cases r)
        case (Inl e)
        then show ?thesis using Cons.prems True d by auto
      next
        case (Inr ok)
        obtain fired1 s1 posts2 where more: "send_alerts V url secret p as (\<lambda>i. attempts (i + 1))
            (if ok then mark_alert_sent s (ia_type a) p else s) = (fired1, s1, posts2)" by (metis prod_cases3)
        have new: "fired = (if ok then [ia_type a] else []) @ fired1" "s' = s1"
          using Cons.prems True d Inr more by auto
        show ?thesis
          using Cons.IH [OF more] True unfolding new
          by (cases ok) (auto simp: mark_exists should_send_alert_def image_iff)
      qed
    qed
  qed auto
  then show "distinct (map (\<lambda>t. alert_debounce_key t p) fired)"
    and "t \<in> set fired \<Longrightarrow> \<not> rexists s (alert_debounce_key t p) \<and> rexists s' (alert_debounce_key t p)"
    and "rexists s k \<Longrightarrow> rexists s' k" by blast+
qed

lemma margin_loss_frame: "detect_margin_loss s p = (r, s1) \<Longrightarrow> k \<noteq> loss_snapshot_key p \<Longrightarrow> rexists s1 k = rexists s k"
  by (auto simp: detect_margin_loss_def rexists_iff Let_def split: sum.splits)

lemma debounce_not_snapshot [simp]: "alert_debounce_key t p \<noteq> loss_snapshot_key q"
  by (simp add: alert_debounce_key_def loss_snapshot_key_def)

lemma collect_debounce:
  "collect_alerts x d today s p = (r, s1) \<Longrightarrow> rexists s1 (alert_debounce_key t q) = rexists s (alert_debounce_key t q)"
  by (auto simp: collect_alerts_def margin_loss_frame split: sum.splits prod.splits)

lemma turn_keys:
  assumes "intel_alert_turn I V today attempts s = (fired, s', posts)"
  shows "distinct (map (\<lambda>(t, p). alert_debounce_key t p) fired)"
    and "(t, p) \<in> set fired \<Longrightarrow> \<not> rexists s (alert_debounce_key t p) \<and> rexists s' (alert_debounce_key t p)"
    and "rexists s (alert_debounce_key t p) \<Longrightarrow> rexists s' (alert_debounce_key t p)"
proof -
  have "distinct (map (\<lambda>(t, p). alert_debounce_key t p) fired)
    \<and> (\<forall>t p. (t, p) \<in> set fired \<longrightarrow> \<not> rexists s (alert_debounce_key t p) \<and> rexists s' (alert_debounce_key t p))
    \<and> (\<forall>t p. rexists s (alert_debounce_key t p) \<longrightarrow> rexists s' (alert_debounce_key t p))"
  proof (cases "fst (get_webhook_config (ie_url I) (ie_secret I) s) = [] \<or> \<not> isOk (billing_period_month (we_now_ms V))")
    case True
    then show ?thesis
      using assms by (auto simp: intel_alert_turn_def isOk_def split: prod.splits sum.splits if_splits)
  next
    case False
    then obtain url secret p0 where cfg: "get_webhook_config (ie_url I) (ie_secret I) s = (url, secret)" "url \<noteq> []"
      and p0: "billing_period_month (we_now_ms V) = Inr p0"
      by (cases "get_webhook_config (ie_url I) (ie_secret I) s") (auto simp: isOk_iff)
    obtain r s1 where c: "collect_alerts (ie_spike_pct I) (ie_dims I) today s p0 = (r, s1)" by fastforce
    note same = collect_debounce [OF c]
    show ?thesis
    proof (cases r)
      case (Inl e)
      then show ?thesis using assms cfg p0 c same by (auto simp: intel_alert_turn_def)
    next
      case (Inr alerts)
      obtain f1 s2 ps where d: "send_alerts V url secret p0 alerts attempts s1 = (f1, s2, ps)" by (metis prod_cases3)
      have "fired = map (\<lambda>t. (t, p0)) f1" "s' = s2"
        using assms cfg p0 c Inr d by (auto simp: intel_alert_turn_def)
      then show ?thesis using send_alerts_keys [OF d] same by (auto simp: comp_def)
    qed
  qed
  then show "distinct (map (\<lambda>(t, p). alert_debounce_key t p) fired)"
    and "(t, p) \<in> set fired \<Longrightarrow> \<not> rexists s (alert_debounce_key t p) \<and> rexists s' (alert_debounce_key t p)"
    and "rexists s (alert_debounce_key t p) \<Longrightarrow> rexists s' (alert_debounce_key t p)" by blast+
qed

lemma run_new:
  "(t, p) \<in> set (fst (intel_alert_run I ts s)) \<Longrightarrow> \<not> rexists s (alert_debounce_key t p)"
proof (induction ts arbitrary: s)
  case (Cons x ts)
  obtain V today attempts where x: "x = (V, today, attempts)" by (metis prod_cases3)
  obtain f s1 ps where T: "intel_alert_turn I V today attempts s = (f, s1, ps)" by (metis prod_cases3)
  show ?case
    using Cons.prems Cons.IH [of s1] turn_keys(2,3) [OF T, of t p] by (auto simp: x T split: prod.splits)
qed simp

text \<open>
  C37: while the debounce keys live, the loop delivers an alert of each type and period at most once,
  whatever it finds, and however many turns it takes and attempts fail.
\<close>

theorem alerts_delivered_once: "distinct (fst (intel_alert_run I ts s))"
proof (induction ts arbitrary: s)
  case (Cons x ts)
  obtain V today attempts where x: "x = (V, today, attempts)" by (metis prod_cases3)
  obtain f s1 ps where T: "intel_alert_turn I V today attempts s = (f, s1, ps)" by (metis prod_cases3)
  have "distinct f" using turn_keys(1) [OF T] by (simp add: distinct_map)
  moreover have "set f \<inter> set (fst (intel_alert_run I ts s1)) = {}"
    using turn_keys(2) [OF T] run_new by fastforce
  ultimately show ?case using Cons.IH [of s1] by (auto simp: x T split: prod.splits)
qed simp

section \<open>A new loss\<close>

definition loss_store :: store where
  "loss_store = set_revenue june_store ''acme'' ''2026-06'' 5 ''manual''"

lemma loss_store_customers: "loss_customers loss_store ''2026-06'' = Inr [''acme'']"
proof -
  have "scan loss_store ''rollup:*:period:2026-06'' = [''rollup:acme:period:2026-06'']" by code_simp
  moreover have "read_usage_bucket loss_store ''rollup:acme:period:2026-06'' = Inr (Some \<lparr>ub_input = 0, ub_output = 0,
      ub_tokens = 0, ub_events = 1, ub_cost = of_int 30, ub_cache_read = 0, ub_reasoning = 0\<rparr>)"
    by (rule read_small_bucket)
       (simp add: loss_store_def set_revenue_def june_store_def Let_def)
  moreover have "sets loss_store k = []" for k
    by (simp add: loss_store_def set_revenue_def june_store_def Let_def empty_store_def)
  moreover have "bindE (get_revenue loss_store ''acme'' ''2026-06'') stored_revenue = Inr (Some 5)"
    by (simp add: loss_store_def revenue_roundtrip)
  ultimately show ?thesis
    by (auto simp: loss_customers_def compute_unit_economics_def list_customer_period_costs_def month_key_customer_def Let_def)
qed

theorem margin_loss_exactly_witness:
  "fst (detect_margin_loss loss_store ''2026-06'') = Inr (Some (loss_alert ''2026-06'' [''acme'']))"
proof -
  have prev: "previous_losses loss_store ''2026-06'' = Inr []"
    by (simp add: previous_losses_def loss_store_def set_revenue_def june_store_def Let_def loss_snapshot_key_def revenue_key_def
        rget_def empty_store_def rset_def hset_def put_hash_def)
  obtain a s1 where run: "detect_margin_loss loss_store ''2026-06'' = (Inr a, s1)"
    by (simp add: detect_margin_loss_def loss_store_customers prev Let_def)
  from margin_loss_exactly [OF run] run show ?thesis by (auto simp: loss_store_customers prev)
qed

end
