(* ===== verification/Intel_Routes.thy ===== *)
theory Intel_Routes
  imports Intel_Alerts
begin

text \<open>
  \<^verbatim>\<open>src/api/intelligence/routes.py\<close>: the endpoints over the reports, with their key checks. The catalog,
  the set of dimensions, the date and the clock are arguments; bodies are as the models accept them.

  The lemmas show which calls change the store, and that any valid key reads the figures of everyone.
\<close>

record intel_api =
  in_auth :: auth_env
  in_digest :: digest
  in_catalog :: catalog
  in_dims :: "string list"
  in_today :: date
  in_now :: int

definition reader_of :: "intel_api \<Rightarrow> store \<Rightarrow> string option \<Rightarrow> 'a res \<Rightarrow> 'a res" where
  "reader_of N s api_key m = bindE (require_api_key (in_auth N) (in_digest N) s api_key) (\<lambda>_. m)"

definition admin_of :: "intel_api \<Rightarrow> string option \<Rightarrow> store \<Rightarrow> 'a res \<times> store \<Rightarrow> 'a res \<times> store" where
  "admin_of N api_key s f = (case require_admin_key (in_auth N) api_key of Inl e \<Rightarrow> (Inl e, s) | Inr _ \<Rightarrow> f)"

definition intel_root_cause :: "intel_api \<Rightarrow> store \<Rightarrow> string option \<Rightarrow> string \<Rightarrow> string \<Rightarrow> string \<Rightarrow> root_cause_report res" where
  "intel_root_cause N s api_key period baseline_period scope =
     reader_of N s api_key (analyze_root_cause (in_dims N) s period baseline_period scope)"

definition intel_unit_economics :: "intel_api \<Rightarrow> store \<Rightarrow> string option \<Rightarrow> string \<Rightarrow> customer_economics list res" where
  "intel_unit_economics N s api_key period = reader_of N s api_key (compute_unit_economics s period)"

record simulation_request =
  sq_scenario :: string
  sq_input_tokens :: "int option"
  sq_output_tokens :: "int option"
  sq_from_model :: "string option"
  sq_to_model :: "string option"
  sq_cost_usd :: "rat option"
  sq_input_reduction_pct :: "rat option"
  sq_grant_tokens :: "int option"
  sq_signup_lift_pct :: "rat option"
  sq_avg_revenue :: "rat option"
  sq_customer_count :: "int option"
  sq_monthly_occurrences :: int

definition run_simulation :: "catalog \<Rightarrow> simulation_request \<Rightarrow> simulation_result res" where
  "run_simulation c q =
     (if sq_scenario q = ''model_switch''
      then (case (sq_input_tokens q, sq_output_tokens q, truthy (sq_from_model q), truthy (sq_to_model q)) of
              (Some i, Some k, Some a, Some b) \<Rightarrow> simulate_model_switch c i k a b (sq_monthly_occurrences q)
            | _ \<Rightarrow> Inl (HTTPException 400))
      else if sq_scenario q = ''prompt_reduction''
      then (case (sq_cost_usd q, sq_input_reduction_pct q) of
              (Some cost, Some pct) \<Rightarrow> Inr (simulate_prompt_reduction cost pct)
            | _ \<Rightarrow> Inl (HTTPException 400))
      else if sq_scenario q = ''token_grant''
      then (case (sq_cost_usd q, sq_grant_tokens q, sq_signup_lift_pct q, sq_avg_revenue q, sq_customer_count q) of
              (Some cost, Some g, Some l, Some v, Some n) \<Rightarrow> Inr (simulate_token_grant cost g l v n)
            | _ \<Rightarrow> Inl (HTTPException 400))
      else Inl (HTTPException 400))"

definition intel_simulate :: "intel_api \<Rightarrow> store \<Rightarrow> string option \<Rightarrow> simulation_request \<Rightarrow> simulation_result res" where
  "intel_simulate N s api_key q = reader_of N s api_key (run_simulation (in_catalog N) q)"

definition post_revenue :: "intel_api \<Rightarrow> store \<Rightarrow> string option \<Rightarrow> string \<Rightarrow> string \<Rightarrow> rat \<Rightarrow> unit res \<times> store" where
  "post_revenue N s api_key customer_id period revenue_usd =
     admin_of N api_key s (Inr (), set_revenue s customer_id period revenue_usd ''manual'')"

text \<open>The period of the body, if it has one, or else of the query.\<close>

definition import_period :: "json \<Rightarrow> string option \<Rightarrow> string res" where
  "import_period payload period =
     bindE (json_get payload ''period'' JNull) (\<lambda>p.
       if json_true p then json_text p
       else (case truthy period of None \<Rightarrow> Inl (HTTPException 400) | Some q \<Rightarrow> Inr q))"

definition import_openmeter :: "intel_api \<Rightarrow> store \<Rightarrow> string option \<Rightarrow> json \<Rightarrow> string option \<Rightarrow> (nat \<times> nat) res \<times> store" where
  "import_openmeter N s api_key payload period =
     admin_of N api_key s
       (case import_period payload period of
          Inl e \<Rightarrow> (Inl e, s)
        | Inr p \<Rightarrow> import_openmeter_events (in_now N) s payload p)"

record intel_summary =
  is_headline :: string
  is_root_cause :: string
  is_losses :: "customer_economics list"

definition intel_summary_of :: "intel_api \<Rightarrow> store \<Rightarrow> string option \<Rightarrow> string \<Rightarrow> string \<Rightarrow> intel_summary res" where
  "intel_summary_of N s api_key period baseline_period =
     reader_of N s api_key
       (bindE (analyze_root_cause (in_dims N) s period baseline_period ''global'') (\<lambda>rc.
        bindE (compute_unit_economics s period) (\<lambda>economics.
          let losses = filter (\<lambda>e. ce_status e = ''loss'') economics in
          Inr \<lparr>is_headline = (if losses \<noteq> [] then rc_summary rc @ '' '' @ nat_str (length losses) @ '' customer(s) unprofitable in '' @ period @ ''.''
                 else rc_summary rc),
               is_root_cause = rc_summary rc, is_losses = losses\<rparr>)))"

definition intel_recommendations :: "intel_api \<Rightarrow> store \<Rightarrow> string option \<Rightarrow> string \<Rightarrow> recommendation list res" where
  "intel_recommendations N s api_key period = reader_of N s api_key (compute_pricing_recommendations (in_catalog N) s period)"

definition intel_profitability :: "intel_api \<Rightarrow> store \<Rightarrow> string option \<Rightarrow> string \<Rightarrow> int \<Rightarrow> dashboard res" where
  "intel_profitability N s api_key period months = reader_of N s api_key (build_profitability_dashboard (in_dims N) s period months)"

definition intel_forecast :: "intel_api \<Rightarrow> store \<Rightarrow> string option \<Rightarrow> string \<Rightarrow> string \<Rightarrow> spend_forecast res" where
  "intel_forecast N s api_key period scope =
     reader_of N s api_key (compute_forecast (in_today N) s period scope (resolve_tenant_from_key (in_digest N) s api_key))"

definition intel_report_of :: "intel_api \<Rightarrow> store \<Rightarrow> string option \<Rightarrow> string \<Rightarrow> string option \<Rightarrow> string \<Rightarrow> (string + intel_report) res" where
  "intel_report_of N s api_key period baseline_period fmt =
     reader_of N s api_key
       (if fmt = ''markdown''
        then bindE (build_report_markdown (in_catalog N) (in_dims N) (in_today N) s period baseline_period) (\<lambda>t. Inr (Inl t))
        else bindE (build_report_json (in_catalog N) (in_dims N) (in_today N) s period baseline_period) (\<lambda>d. Inr (Inr d)))"

definition configure_intel_webhook :: "intel_api \<Rightarrow> store \<Rightarrow> string option \<Rightarrow> string \<Rightarrow> string \<Rightarrow> unit res \<times> store" where
  "configure_intel_webhook N s api_key url secret = admin_of N api_key s (Inr (), set_webhook_config s url secret)"

section \<open>Who changes and who reads what\<close>

lemma intel_changes_need_admin:
  assumes "require_admin_key (in_auth N) k = Inl e"
  shows "post_revenue N s k c p q = (Inl e, s)" "import_openmeter N s k payload period = (Inl e, s)"
    "configure_intel_webhook N s k u x = (Inl e, s)"
  using assms by (simp_all add: post_revenue_def import_openmeter_def configure_intel_webhook_def admin_of_def)

text \<open>A key of one customer or tenant reads the cost, revenue and margin of all.\<close>

lemma any_key_reads_all_economics:
  assumes "resolve_customer_from_key (in_digest N) s k = Inr (JStr c)" and "c \<noteq> []"
  shows "intel_unit_economics N s k period = compute_unit_economics s period"
proof -
  have "is_scoped_api_key (in_digest N) s k = Inr True"
    using assms by (simp add: is_scoped_api_key_def json_true_def)
  then show ?thesis by (simp add: intel_unit_economics_def reader_of_def require_api_key_def)
qed

text \<open>What an administrator posts is the revenue the economics then show.\<close>

lemma posted_revenue_shown:
  assumes "require_admin_key (in_auth N) k = Inr ()" and "post_revenue N s k c p q = (r, s')"
    and "compute_unit_economics s' p = Inr rows" and "e \<in> set rows" and "ce_customer e = c"
  shows "ce_revenue e = Some q \<and> ce_margin e = Some (q - ce_cost e) \<and> (ce_status e = ''loss'') = (q < ce_cost e)"
proof -
  have "s' = set_revenue s c p q ''manual''" using assms(1,2) by (simp add: post_revenue_def admin_of_def)
  then have r: "ce_revenue e = Some q"
    using economics_revenue(1) [OF assms(3,4)] revenue_roundtrip assms(5) by simp
  with economics_revenue(2) [OF assms(3,4)] obtain q0 where "e = economics_of p c q0 (Some q)" using assms(5) by metis
  then show ?thesis by simp
qed

end
