(* ===== verification/Sdk_Client.thy ===== *)
theory Sdk_Client
  imports Usage
begin

text \<open>
  \<^verbatim>\<open>src/sdk/python/fluxmeter/event.py\<close> and \<^verbatim>\<open>client.py\<close>: the usage event and its JSON form, the reading of
  a provider's response, the client with its bounded retries and the calls of the budget API. What a
  request comes to, the fresh event id and the clock are arguments; so is the quoting of URLs.

  A value of a provider's library is an object with attributes, a sequence of such, or plain JSON data (in
  particular a dictionary or None).

  The lemmas show what a delivery sends and when it succeeds, and that the same usage is read from the
  object and the dictionary form of a response.
\<close>

section \<open>Values of a provider's library\<close>

datatype pyobj = Plain json | Obj "(string \<times> pyobj) list" | Seq "pyobj list"

definition attr_of :: "pyobj \<Rightarrow> string \<Rightarrow> pyobj option" where
  "attr_of v f = (case v of Obj attrs \<Rightarrow> map_of attrs f | _ \<Rightarrow> None)"

definition hasattr :: "pyobj \<Rightarrow> string \<Rightarrow> bool" where
  "hasattr v f \<longleftrightarrow> attr_of v f \<noteq> None"

definition py_attr :: "pyobj \<Rightarrow> string \<Rightarrow> pyobj res" where
  "py_attr v f = (case attr_of v f of None \<Rightarrow> Inl AttributeError | Some x \<Rightarrow> Inr x)"

definition getattr_or :: "pyobj \<Rightarrow> string \<Rightarrow> pyobj \<Rightarrow> pyobj" where
  "getattr_or v f d = (case attr_of v f of None \<Rightarrow> d | Some x \<Rightarrow> x)"

definition py_true :: "pyobj \<Rightarrow> bool" where
  "py_true v = (case v of Plain j \<Rightarrow> json_true j | Obj _ \<Rightarrow> True | Seq xs \<Rightarrow> xs \<noteq> [])"

text \<open>\<open>v[f]\<close>, \<open>v.get(f, d)\<close>, \<open>v or d\<close>.\<close>

definition py_item :: "pyobj \<Rightarrow> string \<Rightarrow> pyobj res" where
  "py_item v f = (case v of Plain j \<Rightarrow> bindE (json_index j f) (\<lambda>x. Inr (Plain x)) | _ \<Rightarrow> Inl TypeError)"

definition py_get :: "pyobj \<Rightarrow> string \<Rightarrow> json \<Rightarrow> pyobj res" where
  "py_get v f d = (case v of Plain j \<Rightarrow> bindE (json_get j f d) (\<lambda>x. Inr (Plain x)) | _ \<Rightarrow> Inl AttributeError)"

definition py_or :: "pyobj \<Rightarrow> json \<Rightarrow> pyobj" where
  "py_or v d = (if py_true v then v else Plain d)"

text \<open>What goes into an event must be JSON data.\<close>

definition as_json :: "pyobj \<Rightarrow> json res" where
  "as_json v = (case v of Plain j \<Rightarrow> Inr j | _ \<Rightarrow> Inl TypeError)"

section \<open>Events\<close>

record token_event =
  te_customer :: json
  te_model :: json
  te_provider :: string
  te_input :: json
  te_output :: json
  te_cache_read :: json
  te_cache_write :: json
  te_reasoning :: json
  te_embedding :: json
  te_event_id :: string
  te_request_id :: json
  te_span_id :: json
  te_parent_span_id :: json
  te_session_id :: json
  te_timestamp :: int
  te_latency_ms :: json
  te_environment :: json
  te_metadata :: "(string \<times> string) list option"

definition when_true :: "string \<Rightarrow> json \<Rightarrow> (string \<times> json) list" where
  "when_true f v = (if json_true v then [(f, v)] else [])"

definition metadata_field :: "(string \<times> string) list option \<Rightarrow> (string \<times> json) list" where
  "metadata_field m = (case m of None \<Rightarrow> [] | Some [] \<Rightarrow> [] | Some kvs \<Rightarrow> [(''metadata'', JObj (map (\<lambda>(k, v). (k, JStr v)) kvs))])"

definition event_to_dict :: "token_event \<Rightarrow> (string \<times> json) list" where
  "event_to_dict e =
     [(''eventId'', JStr (te_event_id e)), (''customerId'', te_customer e), (''provider'', JStr (te_provider e)),
      (''modelId'', te_model e), (''inputTokens'', te_input e), (''outputTokens'', te_output e),
      (''cacheReadTokens'', te_cache_read e), (''cacheWriteTokens'', te_cache_write e),
      (''reasoningTokens'', te_reasoning e), (''embeddingTokens'', te_embedding e),
      (''timestamp'', JInt (te_timestamp e)), (''latencyMs'', te_latency_ms e)]
     @ when_true ''requestId'' (te_request_id e) @ when_true ''spanId'' (te_span_id e)
     @ when_true ''parentSpanId'' (te_parent_span_id e) @ when_true ''sessionId'' (te_session_id e)
     @ when_true ''environment'' (te_environment e) @ metadata_field (te_metadata e)"

definition total_event_tokens :: "token_event \<Rightarrow> int res" where
  "total_event_tokens e =
     bindE (mapE json_int [te_input e, te_output e, te_cache_read e, te_cache_write e, te_reasoning e, te_embedding e])
       (\<lambda>ns. Inr (sum_list ns))"

section \<open>Reading a response\<close>

record parsed_usage =
  pu_model :: json
  pu_input :: json
  pu_output :: json
  pu_cache_read :: json
  pu_cache_write :: json
  pu_reasoning :: json
  pu_request_id :: json

definition response_parts :: "pyobj \<Rightarrow> (pyobj \<times> pyobj \<times> pyobj) res" where
  "response_parts response =
     (if hasattr response ''model''
      then bindE (py_attr response ''model'') (\<lambda>model. bindE (py_attr response ''usage'') (\<lambda>usage.
           bindE (py_attr response ''id'') (\<lambda>rid. Inr (model, usage, rid))))
      else bindE (py_item response ''model'') (\<lambda>model. bindE (py_item response ''usage'') (\<lambda>usage.
           bindE (py_get response ''id'' JNull) (\<lambda>rid. Inr (model, usage, rid)))))"

text \<open>A count in a details object that may be missing.\<close>

definition detail_attr :: "pyobj \<Rightarrow> string \<Rightarrow> string \<Rightarrow> pyobj" where
  "detail_attr usage f g =
     (let details = getattr_or usage f (Plain JNull) in
      if py_true details then getattr_or details g (Plain (JInt 0)) else Plain (JInt 0))"

definition detail_item :: "pyobj \<Rightarrow> string \<Rightarrow> string \<Rightarrow> pyobj res" where
  "detail_item usage f g =
     bindE (py_get usage f (JObj [])) (\<lambda>details. py_get (py_or details (JObj [])) g (JInt 0))"

definition usage_of :: "pyobj \<Rightarrow> pyobj \<Rightarrow> pyobj \<Rightarrow> pyobj \<Rightarrow> pyobj \<Rightarrow> pyobj \<Rightarrow> pyobj \<Rightarrow> parsed_usage res" where
  "usage_of model i q cr cw rt rid =
     bindE (as_json model) (\<lambda>model. bindE (as_json i) (\<lambda>i. bindE (as_json q) (\<lambda>q. bindE (as_json cr) (\<lambda>cr.
     bindE (as_json cw) (\<lambda>cw. bindE (as_json rt) (\<lambda>rt. bindE (as_json rid) (\<lambda>rid.
       Inr \<lparr>pu_model = model, pu_input = i, pu_output = q, pu_cache_read = cr, pu_cache_write = cw,
            pu_reasoning = rt, pu_request_id = rid\<rparr>)))))))"

definition parse_openai_usage :: "pyobj \<Rightarrow> parsed_usage res" where
  "parse_openai_usage response =
     bindE (response_parts response) (\<lambda>(model, usage, rid).
       if hasattr usage ''prompt_tokens''
       then bindE (py_attr usage ''prompt_tokens'') (\<lambda>i. bindE (py_attr usage ''completion_tokens'') (\<lambda>q.
            usage_of model (py_or i (JInt 0)) (py_or q (JInt 0)) (detail_attr usage ''prompt_tokens_details'' ''cached_tokens'')
              (Plain (JInt 0)) (detail_attr usage ''completion_tokens_details'' ''reasoning_tokens'') rid))
       else bindE (py_get usage ''prompt_tokens'' (JInt 0)) (\<lambda>i. bindE (py_get usage ''completion_tokens'' (JInt 0)) (\<lambda>q.
            bindE (detail_item usage ''prompt_tokens_details'' ''cached_tokens'') (\<lambda>cr.
            bindE (detail_item usage ''completion_tokens_details'' ''reasoning_tokens'') (\<lambda>rt.
              usage_of model i q cr (Plain (JInt 0)) rt rid)))))"

definition parse_anthropic_usage :: "pyobj \<Rightarrow> parsed_usage res" where
  "parse_anthropic_usage response =
     bindE (response_parts response) (\<lambda>(model, usage, rid).
       if hasattr usage ''input_tokens''
       then bindE (py_attr usage ''input_tokens'') (\<lambda>i. bindE (py_attr usage ''output_tokens'') (\<lambda>q.
            usage_of model (py_or i (JInt 0)) (py_or q (JInt 0))
              (py_or (getattr_or usage ''cache_read_input_tokens'' (Plain (JInt 0))) (JInt 0))
              (py_or (getattr_or usage ''cache_creation_input_tokens'' (Plain (JInt 0))) (JInt 0)) (Plain (JInt 0)) rid))
       else bindE (py_get usage ''input_tokens'' (JInt 0)) (\<lambda>i. bindE (py_get usage ''output_tokens'' (JInt 0)) (\<lambda>q.
            bindE (py_get usage ''cache_read_input_tokens'' (JInt 0)) (\<lambda>cr.
            bindE (py_get usage ''cache_creation_input_tokens'' (JInt 0)) (\<lambda>cw.
              usage_of model i q cr cw (Plain (JInt 0)) rid)))))"

section \<open>The client\<close>

datatype sdk_error = DeliveryError string | Raised err

text \<open>What one request comes to: a JSON reply, an error status, or any other exception.\<close>

datatype http_result = HttpReply json | HttpStatus nat | HttpFailure

record http_request =
  hq_method :: string
  hq_path :: string
  hq_query :: "(string \<times> json) list"
  hq_body :: "json option"
  hq_key :: "string option"

record meter =
  me_api_url :: string
  me_api_key :: "string option"
  me_environment :: json
  me_max_retries :: nat
  me_delivery_errors :: nat
  me_events_sent :: nat

definition rstrip_slash :: "string \<Rightarrow> string" where
  "rstrip_slash s = rev (dropWhile (\<lambda>c. c = CHR ''/'') (rev s))"

definition new_meter :: "string \<Rightarrow> string option \<Rightarrow> json \<Rightarrow> int \<Rightarrow> meter" where
  "new_meter api_url api_key environment max_retries =
     \<lparr>me_api_url = rstrip_slash api_url, me_api_key = api_key, me_environment = environment,
      me_max_retries = nat (max 0 max_retries), me_delivery_errors = 0, me_events_sent = 0\<rparr>"

definition http_json :: "meter \<Rightarrow> string \<Rightarrow> string \<Rightarrow> json option \<Rightarrow> (string \<times> json) list \<Rightarrow> http_request" where
  "http_json M verb path body query =
     \<lparr>hq_method = verb, hq_path = path, hq_query = filter (\<lambda>e. snd e \<noteq> JNull) query, hq_body = body,
      hq_key = truthy (me_api_key M)\<rparr>"

definition retryable :: "http_result \<Rightarrow> bool" where
  "retryable h = (case h of HttpReply _ \<Rightarrow> False | HttpStatus n \<Rightarrow> n = 429 \<or> n = 503 \<or> 500 \<le> n | HttpFailure \<Rightarrow> True)"

text \<open>The attempts from number \<open>i\<close> on, with \<open>n\<close> left: whether one was accepted, and how many were made.\<close>

fun send_attempts :: "nat \<Rightarrow> nat \<Rightarrow> (nat \<Rightarrow> http_result) \<Rightarrow> bool \<times> nat" where
  "send_attempts 0 i outs = (False, 0)"
| "send_attempts (Suc n) i outs =
     (case outs i of
        HttpReply _ \<Rightarrow> (True, 1)
      | _ \<Rightarrow> if \<not> retryable (outs i) then (False, 1)
             else (case send_attempts n (i + 1) outs of (ok, m) \<Rightarrow> (ok, m + 1)))"

definition send_event :: "meter \<Rightarrow> (nat \<Rightarrow> http_result) \<Rightarrow> token_event \<Rightarrow> (sdk_error + unit) \<times> meter \<times> http_request list" where
  "send_event M outs e =
     (case send_attempts (me_max_retries M + 1) 0 outs of
        (ok, m) \<Rightarrow>
          let requests = replicate m (http_json M ''POST'' ''/ingest'' (Some (JObj (event_to_dict e))) []) in
          if ok then (Inr (), M\<lparr>me_events_sent := me_events_sent M + 1\<rparr>, requests)
          else (Inl (DeliveryError (te_event_id e)), M\<lparr>me_delivery_errors := me_delivery_errors M + 1\<rparr>, requests))"

text \<open>\<open>uuid\<close> and \<open>now_ms\<close> are the defaults of the event.\<close>

record sdk_env =
  sv_uuid :: string
  sv_now_ms :: int
  sv_outs :: "nat \<Rightarrow> http_result"

record track_args =
  ta_customer :: json
  ta_model :: json
  ta_provider :: string
  ta_input :: json
  ta_output :: json
  ta_cache_read :: json
  ta_cache_write :: json
  ta_reasoning :: json
  ta_embedding :: json
  ta_request_id :: json
  ta_span_id :: json
  ta_parent_span_id :: json
  ta_session_id :: json
  ta_latency_ms :: json
  ta_environment :: json
  ta_metadata :: "(string \<times> string) list option"

definition default_track :: track_args where
  "default_track =
     \<lparr>ta_customer = JNull, ta_model = JNull, ta_provider = ''openai'', ta_input = JInt 0, ta_output = JInt 0,
      ta_cache_read = JInt 0, ta_cache_write = JInt 0, ta_reasoning = JInt 0, ta_embedding = JInt 0, ta_request_id = JNull,
      ta_span_id = JNull, ta_parent_span_id = JNull, ta_session_id = JNull, ta_latency_ms = JInt 0, ta_environment = JNull,
      ta_metadata = None\<rparr>"

definition tracked_event :: "meter \<Rightarrow> sdk_env \<Rightarrow> track_args \<Rightarrow> token_event" where
  "tracked_event M V a =
     \<lparr>te_customer = ta_customer a, te_model = ta_model a, te_provider = ta_provider a, te_input = ta_input a,
      te_output = ta_output a, te_cache_read = ta_cache_read a, te_cache_write = ta_cache_write a,
      te_reasoning = ta_reasoning a, te_embedding = ta_embedding a, te_event_id = sv_uuid V,
      te_request_id = ta_request_id a, te_span_id = ta_span_id a, te_parent_span_id = ta_parent_span_id a,
      te_session_id = ta_session_id a, te_timestamp = sv_now_ms V, te_latency_ms = ta_latency_ms a,
      te_environment = (if json_true (ta_environment a) then ta_environment a else me_environment M),
      te_metadata = ta_metadata a\<rparr>"

definition track :: "meter \<Rightarrow> sdk_env \<Rightarrow> track_args \<Rightarrow> (sdk_error + token_event) \<times> meter \<times> http_request list" where
  "track M V a =
     (let e = tracked_event M V a in
      case send_event M (sv_outs V) e of
        (Inl x, M', qs) \<Rightarrow> (Inl x, M', qs)
      | (Inr _, M', qs) \<Rightarrow> (Inr e, M', qs))"

text \<open>The arguments a caller gives beside the response.\<close>

record response_args =
  ra_span_id :: json
  ra_parent_span_id :: json
  ra_session_id :: json
  ra_latency_ms :: json
  ra_environment :: json

definition track_parsed ::
  "meter \<Rightarrow> sdk_env \<Rightarrow> json \<Rightarrow> string \<Rightarrow> json \<Rightarrow> response_args \<Rightarrow> parsed_usage res \<Rightarrow>
     (sdk_error + token_event) \<times> meter \<times> http_request list" where
  "track_parsed M V customer provider parent_span a parsed =
     (case parsed of
        Inl e \<Rightarrow> (Inl (Raised e), M, [])
      | Inr u \<Rightarrow>
          track M V (default_track\<lparr>ta_customer := customer, ta_model := pu_model u, ta_provider := provider,
            ta_input := pu_input u, ta_output := pu_output u, ta_cache_read := pu_cache_read u,
            ta_cache_write := pu_cache_write u, ta_reasoning := pu_reasoning u, ta_request_id := pu_request_id u,
            ta_span_id := ra_span_id a, ta_parent_span_id := parent_span, ta_session_id := ra_session_id a,
            ta_latency_ms := ra_latency_ms a, ta_environment := ra_environment a\<rparr>))"

definition track_openai :: "meter \<Rightarrow> sdk_env \<Rightarrow> json \<Rightarrow> pyobj \<Rightarrow> response_args \<Rightarrow> (sdk_error + token_event) \<times> meter \<times> http_request list" where
  "track_openai M V customer response a =
     track_parsed M V customer ''openai'' (ra_parent_span_id a) a (parse_openai_usage response)"

text \<open>The providers with an OpenAI-compatible response, by the method's name.\<close>

definition compatible_providers :: "(string \<times> string) list" where
  "compatible_providers =
     [(''track_deepseek'', ''deepseek''), (''track_qwen'', ''qwen''), (''track_glm'', ''zhipu''), (''track_moonshot'', ''moonshot''),
      (''track_doubao'', ''doubao''), (''track_baichuan'', ''baichuan''), (''track_minimax'', ''minimax''), (''track_hunyuan'', ''hunyuan'')]"

definition track_openai_compatible ::
  "meter \<Rightarrow> sdk_env \<Rightarrow> json \<Rightarrow> pyobj \<Rightarrow> string \<Rightarrow> response_args \<Rightarrow> (sdk_error + token_event) \<times> meter \<times> http_request list" where
  "track_openai_compatible M V customer response provider a =
     track_parsed M V customer provider JNull a (parse_openai_usage response)"

definition track_anthropic :: "meter \<Rightarrow> sdk_env \<Rightarrow> json \<Rightarrow> pyobj \<Rightarrow> response_args \<Rightarrow> (sdk_error + token_event) \<times> meter \<times> http_request list" where
  "track_anthropic M V customer response a =
     track_parsed M V customer ''anthropic'' JNull a (parse_anthropic_usage response)"

section \<open>Budget calls\<close>

text \<open>\<open>quote\<close> is the percent-encoding of a path segment. A reply is JSON; anything else raises.\<close>

definition call_api :: "http_request \<Rightarrow> http_result \<Rightarrow> json res \<times> http_request" where
  "call_api q out = ((case out of HttpReply j \<Rightarrow> Inr j | _ \<Rightarrow> Inl RuntimeError), q)"

definition sdk_check :: "(string \<Rightarrow> string) \<Rightarrow> meter \<Rightarrow> string \<Rightarrow> rat \<Rightarrow> json \<Rightarrow> json \<Rightarrow> http_request" where
  "sdk_check quote M customer estimated parent_span session =
     http_json M ''GET'' (''/budget/'' @ quote customer @ ''/check'') None
       [(''estimated_cost_usd'', JFlt estimated), (''parent_span_id'', parent_span), (''session_id'', session)]"

definition sdk_reserve :: "(string \<Rightarrow> string) \<Rightarrow> meter \<Rightarrow> string \<Rightarrow> rat \<Rightarrow> json \<Rightarrow> http_request" where
  "sdk_reserve quote M customer estimated parent_span =
     http_json M ''POST'' (''/budget/'' @ quote customer @ ''/reserve'') None
       ([(''estimated_cost_usd'', JFlt estimated)] @ when_true ''parent_span_id'' parent_span)"

definition sdk_reconcile :: "(string \<Rightarrow> string) \<Rightarrow> meter \<Rightarrow> string \<Rightarrow> rat \<Rightarrow> rat \<Rightarrow> json \<Rightarrow> http_request" where
  "sdk_reconcile quote M customer reserved actual parent_span =
     http_json M ''POST'' (''/budget/'' @ quote customer @ ''/reconcile'') None
       ([(''reserved_usd'', JFlt reserved), (''actual_usd'', JFlt actual)] @ when_true ''parent_span_id'' parent_span)"

section \<open>What a delivery comes to\<close>

lemma send_attempts_decided:
  assumes "send_attempts n i outs = (ok, m)"
  shows "m \<le> n \<and> (0 < n \<longrightarrow> 0 < m) \<and> (\<forall>j < m - 1. retryable (outs (i + j)))
    \<and> (ok \<longleftrightarrow> 0 < m \<and> (\<exists>r. outs (i + m - 1) = HttpReply r))
    \<and> (ok \<or> m = n \<or> \<not> retryable (outs (i + m - 1)))"
  using assms
proof (induction n arbitrary: i ok m)
  case (Suc n)
  show ?case
  proof (cases "retryable (outs i)")
    case False
    then show ?thesis using Suc.prems by (cases "outs i") (auto simp: retryable_def)
  next
    case True
    obtain ok' m' where more: "send_attempts n (i + 1) outs = (ok', m')" by fastforce
    with True Suc.prems have m: "ok = ok'" "m = m' + 1" by (cases "outs i"; auto simp: retryable_def)+
    note I = Suc.IH [OF more]
    have "retryable (outs (i + j))" if "j < m'" for j
      using I True that by (cases j) (auto simp: less_diff_conv)
    then show ?thesis using I True unfolding m
      by (cases m') (auto simp: retryable_def split: http_result.splits)
  qed
qed simp

text \<open>
  a delivery repeats one and the same request, with one event id, at most as often as configured: it
  ends with the first reply or with an error that is not retried, every attempt before the last one having
  failed in a way that is; it succeeds exactly if the last attempt was answered, and is counted once, as
  sent or as failed.
\<close>

theorem delivery_repeats_one_event:
  assumes "send_event M outs e = (r, M', qs)"
  shows "\<exists>n. 0 < n \<and> n \<le> me_max_retries M + 1
      \<and> qs = replicate n (http_json M ''POST'' ''/ingest'' (Some (JObj (event_to_dict e))) [])
      \<and> map_of (event_to_dict e) ''eventId'' = Some (JStr (te_event_id e))
      \<and> (\<forall>i < n - 1. retryable (outs i))
      \<and> (r = Inr () \<longleftrightarrow> (\<exists>j. outs (n - 1) = HttpReply j))
      \<and> (r = Inr () \<or> r = Inl (DeliveryError (te_event_id e)) \<and> (n = me_max_retries M + 1 \<or> \<not> retryable (outs (n - 1))))
      \<and> me_events_sent M' + me_delivery_errors M' = me_events_sent M + me_delivery_errors M + 1
      \<and> me_events_sent M' = me_events_sent M + (if r = Inr () then 1 else 0)"
proof -
  obtain ok m where s: "send_attempts (me_max_retries M + 1) 0 outs = (ok, m)" by fastforce
  with assms send_attempts_decided [OF s] show ?thesis
    by (intro exI [of _ m]) (cases ok; auto simp: send_event_def Let_def event_to_dict_def)
qed

section \<open>Two forms of a response\<close>

text \<open>Objects and dictionaries with the same contents give the same usage.\<close>

lemma openai_forms_agree:
  "parse_openai_usage (Obj [(''model'', Plain m), (''id'', Plain rid), (''usage'', Obj
       [(''prompt_tokens'', Plain (JInt i)), (''completion_tokens'', Plain (JInt q)),
        (''prompt_tokens_details'', Obj [(''cached_tokens'', Plain (JInt c))]),
        (''completion_tokens_details'', Obj [(''reasoning_tokens'', Plain (JInt t))])])])
   = parse_openai_usage (Plain (JObj [(''model'', m), (''id'', rid), (''usage'', JObj
       [(''prompt_tokens'', JInt i), (''completion_tokens'', JInt q),
        (''prompt_tokens_details'', JObj [(''cached_tokens'', JInt c)]),
        (''completion_tokens_details'', JObj [(''reasoning_tokens'', JInt t)])])]))"
  by (simp add: parse_openai_usage_def response_parts_def hasattr_def attr_of_def py_attr_def py_item_def py_get_def
      json_index_def usage_of_def as_json_def py_or_def py_true_def json_true_def detail_attr_def detail_item_def getattr_or_def Let_def)

text \<open>A count that the library reports as None is passed on as null.\<close>

lemma missing_count_passed_on:
  "map_option pu_cache_read (case parse_openai_usage (Obj [(''model'', Plain m), (''id'', Plain rid), (''usage'', Obj
       [(''prompt_tokens'', Plain (JInt i)), (''completion_tokens'', Plain (JInt q)),
        (''prompt_tokens_details'', Obj [(''cached_tokens'', Plain JNull)])])]) of Inl _ \<Rightarrow> None | Inr u \<Rightarrow> Some u)
   = Some JNull"
  by (simp add: parse_openai_usage_def response_parts_def hasattr_def attr_of_def py_attr_def usage_of_def as_json_def py_or_def
      py_true_def json_true_def detail_attr_def getattr_or_def Let_def)

theorem delivery_repeats_one_event_witness:
  "0 < length (snd (snd (send_event (new_meter ''http://api/'' None JNull 2) (\<lambda>i. if i = 0 then HttpStatus 503 else HttpReply JNull)
      (tracked_event (new_meter ''http://api/'' None JNull 2) \<lparr>sv_uuid = ''e1'', sv_now_ms = 0, sv_outs = (\<lambda>_. HttpFailure)\<rparr> default_track))))"
proof -
  obtain r M' qs where run: "send_event (new_meter ''http://api/'' None JNull 2) (\<lambda>i. if i = 0 then HttpStatus 503 else HttpReply JNull)
      (tracked_event (new_meter ''http://api/'' None JNull 2) \<lparr>sv_uuid = ''e1'', sv_now_ms = 0, sv_outs = (\<lambda>_. HttpFailure)\<rparr> default_track)
      = (r, M', qs)" by (metis prod_cases3)
  from delivery_repeats_one_event [OF run] show ?thesis unfolding run by auto
qed

end
