(* ===== verification/Sdk_Streams.thy ===== *)
theory Sdk_Streams
  imports Sdk_Client
begin

text \<open>
  \<^verbatim>\<open>src/sdk/python/fluxmeter/streaming.py\<close> and \<^verbatim>\<open>wrap.py\<close>: the wrapper that counts a streamed response and
  meters it at heartbeats and at the end, and the wrapper of a client that checks the budget, holds it for a
  stream and kills the stream over the hold. What the provider's stream yields, the clock and what each
  request comes to are arguments. Token counts a provider reports are integers.

  The lemmas show what a wrapped stream meters, that a killable stream stays within its hold and settles
  once, and that a denied call never reaches the provider.
\<close>

section \<open>Reading a chunk\<close>

definition as_count :: "pyobj \<Rightarrow> int res" where
  "as_count v = (case v of Plain (JInt i) \<Rightarrow> Inr i | _ \<Rightarrow> Inl TypeError)"

definition py_length :: "pyobj \<Rightarrow> int res" where
  "py_length v = (case v of Plain (JStr t) \<Rightarrow> Inr (int (length t)) | Plain (JArr xs) \<Rightarrow> Inr (int (length xs))
     | Plain (JObj kvs) \<Rightarrow> Inr (int (length kvs)) | Seq xs \<Rightarrow> Inr (int (length xs)) | _ \<Rightarrow> Inl TypeError)"

text \<open>The tokens a piece of text is taken for: a quarter of its length, at least one.\<close>

definition text_tokens :: "pyobj \<Rightarrow> int res" where
  "text_tokens v = (if py_true v then bindE (py_length v) (\<lambda>n. Inr (max 1 (n div 4))) else Inr 0)"

definition first_choice :: "pyobj \<Rightarrow> pyobj option res" where
  "first_choice c =
     (case attr_of c ''choices'' of
        None \<Rightarrow> Inr None
      | Some v \<Rightarrow> if \<not> py_true v then Inr None
                  else (case v of
                          Seq (x # _) \<Rightarrow> Inr (Some x)
                        | Plain (JArr (x # _)) \<Rightarrow> Inr (Some (Plain x))
                        | Plain (JStr (x # _)) \<Rightarrow> Inr (Some (Plain (JStr [x])))
                        | Plain (JObj _) \<Rightarrow> Inl KeyError
                        | _ \<Rightarrow> Inl TypeError))"

definition delta_tokens :: "pyobj \<Rightarrow> int res" where
  "delta_tokens choice =
     (let delta = getattr_or choice ''delta'' (Plain JNull) in
      if py_true delta then text_tokens (getattr_or delta ''content'' (Plain JNull)) else Inr 0)"

text \<open>A count of the chunk's usage, if it has one that is not zero.\<close>

definition usage_count :: "pyobj \<Rightarrow> string \<Rightarrow> int \<Rightarrow> int res" where
  "usage_count c f old =
     (case attr_of c ''usage'' of
        None \<Rightarrow> Inr old
      | Some u \<Rightarrow> if \<not> py_true u then Inr old
                  else (case attr_of u f of None \<Rightarrow> Inr old | Some v \<Rightarrow> if py_true v then as_count v else Inr old))"

section \<open>The counting wrapper\<close>

record stream_counts =
  sc_chunks :: nat
  sc_output :: int
  sc_input :: int
  sc_emitted :: int
  sc_request_id :: json
  sc_heartbeat :: rat
  sc_finished :: bool

record stream_wrapper =
  sw_customer :: string
  sw_model :: string
  sw_provider :: string
  sw_interval :: rat
  sw_parent_span_id :: json
  sw_session_id :: json
  sw_environment :: json
  sw_start :: rat

text \<open>An Anthropic chunk: its text, when it is a content delta.\<close>

definition anthropic_tokens :: "pyobj \<Rightarrow> int res" where
  "anthropic_tokens c =
     (if attr_of c ''type'' = Some (Plain (JStr ''content_block_delta''))
      then text_tokens (getattr_or (getattr_or c ''delta'' (Plain JNull)) ''text'' (Plain (JStr [])))
      else Inr 0)"

text \<open>
  One chunk: the exception, if any, and the counts up to there. The id of a chunk is plain data.
\<close>

definition process_chunk :: "pyobj \<Rightarrow> stream_counts \<Rightarrow> err option \<times> stream_counts" where
  "process_chunk c u =
     (let u0 = u\<lparr>sc_chunks := sc_chunks u + 1\<rparr> in
      case bindE (first_choice c) (\<lambda>choice.
             bindE (case choice of Some x \<Rightarrow> delta_tokens x | None \<Rightarrow> anthropic_tokens c) (\<lambda>n. Inr (choice, n))) of
        Inl e \<Rightarrow> (Some e, u0)
      | Inr (choice, n) \<Rightarrow>
          let u1 = u0\<lparr>sc_output := sc_output u0 + n,
                sc_request_id := (if choice \<noteq> None \<and> \<not> json_true (sc_request_id u0) \<and> hasattr c ''id''
                  then ok_or JNull (as_json (getattr_or c ''id'' (Plain JNull))) else sc_request_id u0)\<rparr> in
          (case usage_count c ''completion_tokens'' (sc_output u1) of
             Inl e \<Rightarrow> (Some e, u1)
           | Inr q \<Rightarrow>
               let u2 = u1\<lparr>sc_output := q\<rparr> in
               (case usage_count c ''prompt_tokens'' (sc_input u2) of
                  Inl e \<Rightarrow> (Some e, u2)
                | Inr i \<Rightarrow> (None, u2\<lparr>sc_input := i\<rparr>))))"

definition stream_track :: "stream_wrapper \<Rightarrow> track_args" where
  "stream_track W = default_track\<lparr>ta_customer := JStr (sw_customer W), ta_model := JStr (sw_model W), ta_provider := sw_provider W,
     ta_parent_span_id := sw_parent_span_id W, ta_session_id := sw_session_id W, ta_environment := sw_environment W\<rparr>"

type_synonym tracked = "(sdk_error + token_event) \<times> meter \<times> http_request list"

definition emit_heartbeat :: "stream_wrapper \<Rightarrow> meter \<Rightarrow> sdk_env \<Rightarrow> stream_counts \<Rightarrow> stream_counts \<times> (tracked option)" where
  "emit_heartbeat W M V u =
     (let d = sc_output u - sc_emitted u in
      if d \<le> 0 then (u, None)
      else (u\<lparr>sc_emitted := sc_output u\<rparr>,
            Some (track M V ((stream_track W)\<lparr>ta_output := JInt d,
              ta_metadata := Some [(''_heartbeat'', ''true''), (''_chunks'', nat_str (sc_chunks u))]\<rparr>))))"

definition emit_final :: "stream_wrapper \<Rightarrow> meter \<Rightarrow> sdk_env \<Rightarrow> rat \<Rightarrow> stream_counts \<Rightarrow> stream_counts \<times> (tracked option)" where
  "emit_final W M V now u =
     (if sc_finished u then (u, None)
      else (u\<lparr>sc_finished := True\<rparr>,
            Some (track M V ((stream_track W)\<lparr>ta_input := JInt (sc_input u), ta_output := JInt (sc_output u),
              ta_request_id := sc_request_id u, ta_latency_ms := JInt (trunc_int ((now - sw_start W) * 1000)),
              ta_metadata := Some [(''_stream_chunks'', nat_str (sc_chunks u))]\<rparr>))))"

text \<open>What the caller of \<open>next\<close> sees. The state also keeps the events that were delivered.\<close>

datatype next_outcome = Yield pyobj | Stop | Fail sdk_error

record stream_state =
  ss_counts :: stream_counts
  ss_meter :: meter
  ss_requests :: "http_request list"
  ss_events :: "token_event list"

text \<open>What the provider's iterator does: a chunk, its end, or an exception.\<close>

datatype stream_item = Item pyobj | Ended | Broken err

definition after_track :: "stream_state \<Rightarrow> stream_counts \<times> tracked option \<Rightarrow> sdk_error option \<times> stream_state" where
  "after_track st r =
     (case r of
        (u, None) \<Rightarrow> (None, st\<lparr>ss_counts := u\<rparr>)
      | (u, Some (x, M, qs)) \<Rightarrow>
          ((case x of Inl e \<Rightarrow> Some e | Inr _ \<Rightarrow> None),
           st\<lparr>ss_counts := u, ss_meter := M, ss_requests := ss_requests st @ qs,
              ss_events := ss_events st @ (case x of Inl _ \<Rightarrow> [] | Inr ev \<Rightarrow> [ev])\<rparr>))"

definition stream_next :: "stream_wrapper \<Rightarrow> sdk_env \<Rightarrow> rat \<Rightarrow> stream_item \<Rightarrow> stream_state \<Rightarrow> next_outcome \<times> stream_state" where
  "stream_next W V now it st =
     (case it of
        Broken e \<Rightarrow> (Fail (Raised e), st)
      | Ended \<Rightarrow>
          (case after_track st (emit_final W (ss_meter st) V now (ss_counts st)) of
             (None, st') \<Rightarrow> (Stop, st') | (Some e, st') \<Rightarrow> (Fail e, st'))
      | Item c \<Rightarrow>
          (case process_chunk c (ss_counts st) of
             (Some e, u) \<Rightarrow> (Fail (Raised e), st\<lparr>ss_counts := u\<rparr>)
           | (None, u) \<Rightarrow>
               if now - sc_heartbeat u \<ge> sw_interval W
               then (case after_track (st\<lparr>ss_counts := u\<rparr>) (emit_heartbeat W (ss_meter st) V u) of
                       (None, st') \<Rightarrow> (Yield c, st'\<lparr>ss_counts := (ss_counts st')\<lparr>sc_heartbeat := now\<rparr>\<rparr>)
                     | (Some e, st') \<Rightarrow> (Fail e, st'))
               else (Yield c, st\<lparr>ss_counts := u\<rparr>)))"

text \<open>A reader that calls \<open>next\<close> until the stream stops or fails.\<close>

fun read_stream :: "stream_wrapper \<Rightarrow> (sdk_env \<times> rat \<times> stream_item) list \<Rightarrow> stream_state \<Rightarrow> next_outcome option \<times> stream_state" where
  "read_stream W [] st = (None, st)"
| "read_stream W ((V, now, it) # its) st =
     (case stream_next W V now it st of
        (Yield c, st') \<Rightarrow> read_stream W its st'
      | (x, st') \<Rightarrow> (Some x, st'))"

definition new_stream :: "stream_wrapper \<Rightarrow> meter \<Rightarrow> int \<Rightarrow> stream_state" where
  "new_stream W M input_tokens =
     \<lparr>ss_counts = \<lparr>sc_chunks = 0, sc_output = 0, sc_input = input_tokens, sc_emitted = 0, sc_request_id = JNull,
        sc_heartbeat = sw_start W, sc_finished = False\<rparr>, ss_meter = M, ss_requests = [], ss_events = []\<rparr>"

text \<open>\<open>FluxMeter.wrap_stream\<close>: the environment of the client unless one is given, counting from \<open>now\<close>.\<close>

definition wrap_stream :: "meter \<Rightarrow> rat \<Rightarrow> stream_wrapper \<Rightarrow> int \<Rightarrow> stream_wrapper \<times> stream_state" where
  "wrap_stream M now W input_tokens =
     (let W' = W\<lparr>sw_environment := (if json_true (sw_environment W) then sw_environment W else me_environment M), sw_start := now\<rparr>
      in (W', new_stream W' M input_tokens))"

section \<open>The client wrapper\<close>

text \<open>
  \<open>wc_check\<close>, \<open>wc_reserve\<close>, \<open>wc_reconcile\<close> are what the requests come to, \<open>wc_track\<close> the environment of
  the metering, \<open>wc_call\<close> the provider's answer.
\<close>

record wrap_config =
  wr_customer :: string
  wr_estimated :: rat
  wr_fail_open :: bool
  wr_parent_span_id :: json
  wr_session_id :: json
  wr_cost_out :: rat
  wr_cost_in :: rat

datatype wrap_error = BudgetExceeded json | StreamKilled rat rat nat | Failed err

definition safe_check :: "wrap_config \<Rightarrow> http_result \<Rightarrow> json" where
  "safe_check C out =
     (case out of
        HttpReply j \<Rightarrow> j
      | _ \<Rightarrow> if wr_fail_open C
             then JObj [(''allowed'', JBool True), (''reason'', JStr ''fail_open''), (''source'', JStr ''policy'')]
             else JObj [(''allowed'', JBool False), (''reason'', JStr ''check_unavailable''), (''source'', JStr ''policy'')])"

text \<open>The hold of a stream: what is held, or the exception.\<close>

definition wrap_reserve :: "wrap_config \<Rightarrow> http_result \<Rightarrow> wrap_error + rat" where
  "wrap_reserve C out =
     (case (case out of HttpReply j \<Rightarrow> Inr j | _ \<Rightarrow> Inl RuntimeError) of
        Inl e \<Rightarrow> if wr_fail_open C then Inr 0 else Inl (Failed e)
      | Inr hold \<Rightarrow>
          (case bindE (json_get hold ''allowed'' JNull) (\<lambda>al.
                  if json_true al
                  then bindE (json_get hold ''reserved_usd'' JNull) (\<lambda>v.
                         bindE (if json_true v then json_float v else Inr (wr_estimated C)) (\<lambda>q. Inr (Some q)))
                  else Inr None) of
             Inl e \<Rightarrow> if wr_fail_open C then Inr 0 else Inl (Failed e)
           | Inr (Some q) \<Rightarrow> Inr q
           | Inr None \<Rightarrow> if wr_fail_open C then Inr 0 else Inl (BudgetExceeded hold)))"

record kill_state =
  ks_output :: int
  ks_input :: int
  ks_chunks :: nat
  ks_closed :: bool
  ks_meter :: meter
  ks_requests :: "http_request list"
  ks_reported :: nat

record killable =
  ki_customer :: string
  ki_model :: string
  ki_reserved :: rat
  ki_cost_out :: rat
  ki_cost_in :: rat
  ki_parent_span_id :: json
  ki_session_id :: json

definition wrap_stream_of :: "wrap_config \<Rightarrow> string \<Rightarrow> rat \<Rightarrow> killable" where
  "wrap_stream_of C model reserved =
     \<lparr>ki_customer = wr_customer C, ki_model = model, ki_reserved = (if reserved \<noteq> 0 then reserved else wr_estimated C),
      ki_cost_out = wr_cost_out C, ki_cost_in = wr_cost_in C, ki_parent_span_id = wr_parent_span_id C,
      ki_session_id = wr_session_id C\<rparr>"

definition note_stream_chunk :: "pyobj \<Rightarrow> kill_state \<Rightarrow> err option \<times> kill_state" where
  "note_stream_chunk c k =
     (case bindE (first_choice c) (\<lambda>choice. case choice of Some x \<Rightarrow> delta_tokens x | None \<Rightarrow> Inr 0) of
        Inl e \<Rightarrow> (Some e, k)
      | Inr n \<Rightarrow>
          let k1 = k\<lparr>ks_output := ks_output k + n\<rparr> in
          (case usage_count c ''completion_tokens'' (ks_output k1) of
             Inl e \<Rightarrow> (Some e, k1)
           | Inr q \<Rightarrow>
               let k2 = k1\<lparr>ks_output := q\<rparr> in
               (case usage_count c ''prompt_tokens'' (ks_input k2) of
                  Inl e \<Rightarrow> (Some e, k2)
                | Inr i \<Rightarrow> (None, k2\<lparr>ks_input := i\<rparr>))))"

definition killable_estimate :: "killable \<Rightarrow> kill_state \<Rightarrow> rat" where
  "killable_estimate K k = of_int (ks_input k) * ki_cost_in K + of_int (ks_output k) * ki_cost_out K"

text \<open>\<open>_finish\<close>: the hold is released in full and the usage metered, once.\<close>

definition finish_stream ::
  "(string \<Rightarrow> string) \<Rightarrow> killable \<Rightarrow> http_result \<Rightarrow> sdk_env \<Rightarrow> bool \<Rightarrow> kill_state \<Rightarrow> kill_state" where
  "finish_stream quote K settled V killed k =
     (if ks_closed k then k
      else
        let k0 = k\<lparr>ks_closed := True\<rparr>;
            k1 = (if ki_reserved K > 0 \<and> me_api_url (ks_meter k) \<noteq> []
                  then k0\<lparr>ks_requests := ks_requests k0 @ [sdk_reconcile quote (ks_meter k) (ki_customer K) (ki_reserved K) 0 JNull],
                          ks_reported := ks_reported k0 + (case settled of HttpReply _ \<Rightarrow> 0 | _ \<Rightarrow> 1)\<rparr>
                  else k0)
        in if ks_output k > 0 \<or> ks_input k > 0
           then (case track (ks_meter k1) V (default_track\<lparr>ta_customer := JStr (ki_customer K), ta_model := JStr (ki_model K),
                     ta_input := JInt (ks_input k), ta_output := JInt (ks_output k), ta_parent_span_id := ki_parent_span_id K,
                     ta_session_id := ki_session_id K,
                     ta_metadata := (if killed then Some [(''_stream_killed'', ''true'')] else None)\<rparr>) of
                   (r, M, qs) \<Rightarrow> k1\<lparr>ks_meter := M, ks_requests := ks_requests k1 @ qs,
                     ks_reported := ks_reported k1 + (case r of Inl _ \<Rightarrow> 1 | Inr _ \<Rightarrow> 0)\<rparr>)
           else k1)"

datatype kill_outcome = KYield pyobj | KStop | KFail wrap_error

definition killable_next ::
  "(string \<Rightarrow> string) \<Rightarrow> killable \<Rightarrow> http_result \<Rightarrow> sdk_env \<Rightarrow> stream_item \<Rightarrow> kill_state \<Rightarrow> kill_outcome \<times> kill_state" where
  "killable_next quote K settled V it k =
     (case it of
        Broken e \<Rightarrow> (KFail (Failed e), k)
      | Ended \<Rightarrow> (KStop, finish_stream quote K settled V False k)
      | Item c \<Rightarrow>
          (case note_stream_chunk c (k\<lparr>ks_chunks := ks_chunks k + 1\<rparr>) of
             (Some e, k1) \<Rightarrow> (KFail (Failed e), k1)
           | (None, k1) \<Rightarrow>
               let est = killable_estimate K k1 in
               if ki_reserved K > 0 \<and> est > ki_reserved K
               then (KFail (StreamKilled est (ki_reserved K) (ks_chunks k1)), finish_stream quote K settled V True k1)
               else (KYield c, k1)))"

text \<open>What a reader sees, with the state after each step; it may go on after the end.\<close>

fun killable_run ::
  "(string \<Rightarrow> string) \<Rightarrow> killable \<Rightarrow> http_result \<Rightarrow> sdk_env \<Rightarrow> stream_item list \<Rightarrow> kill_state \<Rightarrow> (kill_outcome \<times> kill_state) list" where
  "killable_run quote K settled V [] k = []"
| "killable_run quote K settled V (it # its) k =
     (case killable_next quote K settled V it k of (x, k1) \<Rightarrow> (x, k1) # killable_run quote K settled V its k1)"

definition new_killable :: "meter \<Rightarrow> kill_state" where
  "new_killable M = \<lparr>ks_output = 0, ks_input = 0, ks_chunks = 0, ks_closed = False, ks_meter = M, ks_requests = [], ks_reported = 0\<rparr>"

datatype wrap_result = Streaming killable | Answer pyobj

text \<open>
  The wrapped call: the gate, the hold of a stream, the provider (called or not), and the metering of a whole
  answer, whose failure is only reported. The result, whether the provider was called, the client and the
  requests.
\<close>

record wrap_outs =
  wo_check :: http_result
  wo_reserve :: http_result
  wo_call :: "pyobj res"
  wo_track :: sdk_env

definition wrapped_call ::
  "(string \<Rightarrow> string) \<Rightarrow> wrap_config \<Rightarrow> meter \<Rightarrow> wrap_outs \<Rightarrow> bool \<Rightarrow> string \<Rightarrow>
     (wrap_error + wrap_result) \<times> bool \<times> meter \<times> http_request list" where
  "wrapped_call quote C M W streaming model =
     (let q1 = sdk_check quote M (wr_customer C) (wr_estimated C) (wr_parent_span_id C) (wr_session_id C);
          gate = safe_check C (wo_check W) in
      case json_get gate ''allowed'' (JBool False) of
        Inl e \<Rightarrow> (Inl (Failed e), False, M, [q1])
      | Inr al \<Rightarrow>
          if \<not> json_true al then (Inl (BudgetExceeded gate), False, M, [q1])
          else
            let held = (if streaming \<and> me_api_url M \<noteq> [] then wrap_reserve C (wo_reserve W) else Inr 0);
                q2 = (if streaming \<and> me_api_url M \<noteq> [] then [sdk_reserve quote M (wr_customer C) (wr_estimated C) JNull] else []) in
            (case held of
               Inl e \<Rightarrow> (Inl e, False, M, q1 # q2)
             | Inr reserved \<Rightarrow>
                 (case wo_call W of
                    Inl e \<Rightarrow> (Inl (Failed e), True, M, q1 # q2)
                  | Inr answer \<Rightarrow>
                      if streaming then (Inr (Streaming (wrap_stream_of C model reserved)), True, M, q1 # q2)
                      else (case track_openai M (wo_track W) (JStr (wr_customer C)) answer
                                  \<lparr>ra_span_id = JNull, ra_parent_span_id = wr_parent_span_id C, ra_session_id = wr_session_id C,
                                   ra_latency_ms = JInt 0, ra_environment = JNull\<rparr> of
                              (r, M', qs) \<Rightarrow> (Inr (Answer answer), True, M', q1 # q2 @ qs)))))"

section \<open>What a wrapped stream meters\<close>

definition metered_output :: "token_event list \<Rightarrow> int" where
  "metered_output es = sum_list (map (\<lambda>e. ok_or 0 (json_int (te_output e))) es)"

definition metered_input :: "token_event list \<Rightarrow> int" where
  "metered_input es = sum_list (map (\<lambda>e. ok_or 0 (json_int (te_input e))) es)"

lemma metered_append [simp]:
  "metered_output (es @ fs) = metered_output es + metered_output fs"
  "metered_input (es @ fs) = metered_input es + metered_input fs"
  "metered_output [] = 0" "metered_input [] = 0"
  by (simp_all add: metered_output_def metered_input_def)

lemma track_event: "track M V a = (Inr e, M', qs) \<Longrightarrow> e = tracked_event M V a"
  by (auto simp: track_def Let_def split: prod.splits sum.splits)

lemma process_chunk_emitted: "process_chunk c u = (r, u') \<Longrightarrow> sc_emitted u' = sc_emitted u \<and> sc_finished u' = sc_finished u"
  by (auto simp: process_chunk_def Let_def split: sum.splits prod.splits)

text \<open>While it yields, exactly the emitted output has been delivered, and no input.\<close>

definition counts_inv :: "stream_state \<Rightarrow> bool" where
  "counts_inv st \<longleftrightarrow> metered_output (ss_events st) = sc_emitted (ss_counts st) \<and> metered_input (ss_events st) = 0
     \<and> \<not> sc_finished (ss_counts st)"

lemma stream_next_yield:
  assumes "stream_next W V now it st = (Yield c, st')" and "counts_inv st"
  shows "counts_inv st'"
proof -
  obtain u where it: "it = Item c" and p: "process_chunk c (ss_counts st) = (None, u)"
    using assms(1) by (auto simp: stream_next_def split: stream_item.splits prod.splits option.splits if_splits)
  note u = process_chunk_emitted [OF p]
  show ?thesis
  proof (cases "now - sc_heartbeat u \<ge> sw_interval W \<and> \<not> sc_output u - sc_emitted u \<le> 0")
    case False
    then show ?thesis using assms it p u
      by (auto simp: stream_next_def counts_inv_def emit_heartbeat_def after_track_def Let_def split: if_splits)
  next
    case True
    define a where "a = (stream_track W)\<lparr>ta_output := JInt (sc_output u - sc_emitted u),
              ta_metadata := Some [(''_heartbeat'', ''true''), (''_chunks'', nat_str (sc_chunks u))]\<rparr>"
    obtain x M qs where t: "track (ss_meter st) V a = (x, M, qs)" by (metis prod_cases3)
    have h: "emit_heartbeat W (ss_meter st) V u = (u\<lparr>sc_emitted := sc_output u\<rparr>, Some (x, M, qs))"
      using True t by (simp add: emit_heartbeat_def Let_def a_def)
    obtain e where x: "x = Inr e"
      using assms(1) True h by (cases x) (auto simp: stream_next_def it p after_track_def)
    have "json_int (te_output e) = Inr (sc_output u - sc_emitted u)" "json_int (te_input e) = Inr 0"
      using track_event [OF t [unfolded x]] by (simp_all add: tracked_event_def a_def stream_track_def default_track_def json_int_def)
    then show ?thesis using assms True h u
      by (auto simp: stream_next_def it p x after_track_def counts_inv_def metered_output_def metered_input_def)
  qed
qed

lemma stream_next_stop:
  assumes "stream_next W V now it st = (Stop, st')" and "counts_inv st"
  shows "metered_output (ss_events st') = sc_output (ss_counts st') + sc_emitted (ss_counts st')
    \<and> metered_input (ss_events st') = sc_input (ss_counts st') \<and> sc_finished (ss_counts st')"
proof -
  have it: "it = Ended"
    using assms(1) by (auto simp: stream_next_def split: stream_item.splits prod.splits option.splits if_splits)
  let ?u = "ss_counts st"
  define a where "a = (stream_track W)\<lparr>ta_input := JInt (sc_input ?u), ta_output := JInt (sc_output ?u),
              ta_request_id := sc_request_id ?u, ta_latency_ms := JInt (trunc_int ((now - sw_start W) * 1000)),
              ta_metadata := Some [(''_stream_chunks'', nat_str (sc_chunks ?u))]\<rparr>"
  obtain x M qs where t: "track (ss_meter st) V a = (x, M, qs)" by (metis prod_cases3)
  have f: "emit_final W (ss_meter st) V now ?u = (?u\<lparr>sc_finished := True\<rparr>, Some (x, M, qs))"
    using assms(2) t by (simp add: emit_final_def counts_inv_def a_def)
  obtain e where x: "x = Inr e" using assms(1) f by (cases x) (auto simp: stream_next_def it after_track_def)
  have "json_int (te_output e) = Inr (sc_output ?u)" "json_int (te_input e) = Inr (sc_input ?u)"
    using track_event [OF t [unfolded x]] by (simp_all add: tracked_event_def a_def json_int_def)
  then show ?thesis using assms f
    by (auto simp: stream_next_def it x after_track_def counts_inv_def metered_output_def metered_input_def)
qed


text \<open>
  The metadata of these events is outside the default set of dimensions, for which the API refuses them.
\<close>

lemma stream_metadata_refused:
  "validate_metadata [''room_id'', ''feature''] [(''_heartbeat'', JStr ''true''), (''_chunks'', JStr n)] = Inl ValueError"
  "validate_metadata [''room_id'', ''feature''] [(''_stream_chunks'', JStr n)] = Inl ValueError"
  "validate_metadata [''room_id'', ''feature''] [(''_stream_killed'', JStr ''true'')] = Inl ValueError"
  by (simp_all add: validate_metadata_def MAX_METADATA_KEYS_def)

section \<open>A killable stream\<close>

definition is_settlement :: "http_request \<Rightarrow> bool" where
  "is_settlement q \<longleftrightarrow> ''reserved_usd'' \<in> fst ` set (hq_query q)"

lemma track_no_settlement: "track M V a = (r, M', qs) \<Longrightarrow> filter is_settlement qs = []"
  by (auto simp: track_def send_event_def Let_def filter_empty_conv is_settlement_def http_json_def
      split: prod.splits sum.splits if_splits)

lemma finish_settles:
  assumes "\<not> ks_closed k"
  shows "ks_closed (finish_stream quote K settled V kl k)"
    and "length (filter is_settlement (ks_requests (finish_stream quote K settled V kl k)))
       \<le> length (filter is_settlement (ks_requests k)) + 1"
  using assms
  by (auto simp: finish_stream_def Let_def track_no_settlement split: prod.splits if_splits)

definition settle_inv :: "kill_state \<Rightarrow> bool" where
  "settle_inv k \<longleftrightarrow> length (filter is_settlement (ks_requests k)) \<le> (if ks_closed k then 1 else 0)"

lemma note_stream_frame:
  "note_stream_chunk c k = (r, k') \<Longrightarrow> ks_closed k' = ks_closed k \<and> ks_requests k' = ks_requests k"
  by (auto simp: note_stream_chunk_def Let_def split: sum.splits)

lemma finish_inv: "settle_inv k \<Longrightarrow> settle_inv (finish_stream quote K settled V kl k)"
proof (cases "ks_closed k")
  case True
  then show "settle_inv k \<Longrightarrow> ?thesis" by (simp add: finish_stream_def)
next
  case False
  assume "settle_inv k"
  with finish_settles [OF False, of quote K settled V kl] False show ?thesis by (auto simp: settle_inv_def)
qed

text \<open>A chunk is handed on within a positive hold, a stream is killed only over it.\<close>

definition kept_within :: "killable \<Rightarrow> kill_outcome \<Rightarrow> kill_state \<Rightarrow> bool" where
  "kept_within K x k =
     (case x of
        KYield c \<Rightarrow> ki_reserved K \<le> 0 \<or> killable_estimate K k \<le> ki_reserved K
      | KFail (StreamKilled est r n) \<Rightarrow> r = ki_reserved K \<and> r < est \<and> ks_closed k
      | _ \<Rightarrow> True)"

lemma killable_next_inv:
  assumes "killable_next quote K settled V it k = (x, k')" and "settle_inv k"
  shows "settle_inv k' \<and> kept_within K x k'"
proof (cases it)
  case (Item c)
  obtain r k1 where n: "note_stream_chunk c (k\<lparr>ks_chunks := ks_chunks k + 1\<rparr>) = (r, k1)" by fastforce
  have inv: "settle_inv k1" using note_stream_frame [OF n] assms(2) by (simp add: settle_inv_def)
  have closed: "ks_closed (finish_stream quote K settled V kl k1)" for kl
    using finish_settles(1) [of k1] by (cases "ks_closed k1") (simp_all add: finish_stream_def)
  show ?thesis
    using assms(1) n inv closed finish_inv [OF inv]
    by (auto simp: killable_next_def Item Let_def kept_within_def split: option.splits if_splits)
next
  case Ended
  then show ?thesis using assms finish_inv [OF assms(2)] by (auto simp: killable_next_def kept_within_def)
qed (use assms in \<open>auto simp: killable_next_def kept_within_def\<close>)

text \<open>
  a killable stream stays within its hold and settles it once. Whatever the provider yields, every
  chunk handed on leaves the estimate within a positive hold, a stream is killed only over it, and however
  often the reader goes on, the hold is released by at most one request.
\<close>

theorem killable_within_hold:
  "list_all (\<lambda>(x, k). kept_within K x k \<and> length (filter is_settlement (ks_requests k)) \<le> 1)
     (killable_run quote K settled V its (new_killable M))"
proof -
  have "settle_inv k \<Longrightarrow> list_all (\<lambda>(x, k). kept_within K x k \<and> settle_inv k) (killable_run quote K settled V its k)" for k
  proof (induction its arbitrary: k)
    case (Cons it its)
    then show ?case using killable_next_inv [of quote K settled V it k] by (auto split: prod.splits)
  qed simp
  moreover have "settle_inv (new_killable M)" by (simp add: settle_inv_def new_killable_def)
  ultimately show ?thesis by (fastforce simp: settle_inv_def list_all_iff split: if_splits)
qed

section \<open>The gate\<close>

text \<open>
  A denied call never reaches the provider. The provider is called only if the check answered that the
  call is allowed, or could not be asked and the caller chose to go on then; and, for a stream of a caller
  that did not, only if the hold was granted.
\<close>

theorem denied_never_called:
  assumes "wrapped_call quote C M W streaming model = (r, True, M', qs)"
  shows "(case wo_check W of HttpReply gate \<Rightarrow> (\<exists>al. json_get gate ''allowed'' (JBool False) = Inr al \<and> json_true al) | _ \<Rightarrow> wr_fail_open C)
    \<and> (\<not> streaming \<or> wr_fail_open C \<or> me_api_url M = []
       \<or> (\<exists>hold al. wo_reserve W = HttpReply hold \<and> json_get hold ''allowed'' JNull = Inr al \<and> json_true al))"
proof -
  obtain al reserved where gate: "json_get (safe_check C (wo_check W)) ''allowed'' (JBool False) = Inr al" "json_true al"
    and held: "(if streaming \<and> me_api_url M \<noteq> [] then wrap_reserve C (wo_reserve W) else Inr 0) = Inr reserved"
    using assms by (auto simp: wrapped_call_def Let_def split: sum.splits if_splits)
  have "case wo_check W of HttpReply gate \<Rightarrow> (\<exists>al. json_get gate ''allowed'' (JBool False) = Inr al \<and> json_true al) | _ \<Rightarrow> wr_fail_open C"
    using gate by (cases "wo_check W") (auto simp: safe_check_def json_true_def split: if_splits)
  moreover have "\<exists>hold al. wo_reserve W = HttpReply hold \<and> json_get hold ''allowed'' JNull = Inr al \<and> json_true al"
    if "streaming" "\<not> wr_fail_open C" "me_api_url M \<noteq> []"
    using held that
    by (cases "wo_reserve W") (auto simp: wrap_reserve_def split: sum.splits option.splits if_splits)
  ultimately show ?thesis by blast
qed

text \<open>A hold that is denied does not stop the stream of a caller that goes on without an answer.\<close>

lemma denied_hold_ignored:
  "wr_fail_open C \<Longrightarrow> json_get hold ''allowed'' JNull = Inr (JBool False) \<Longrightarrow> wrap_reserve C (HttpReply hold) = Inr 0"
  by (simp add: wrap_reserve_def json_true_def)

text \<open>A stream that holds nothing still releases the estimate when it ends.\<close>

lemma unheld_released:
  assumes "0 < wr_estimated C" and "me_api_url (ks_meter k) \<noteq> []" and "\<not> ks_closed k"
  shows "\<exists>q \<in> set (ks_requests (finish_stream quote (wrap_stream_of C m 0) settled V False k)).
    q = sdk_reconcile quote (ks_meter k) (wr_customer C) (wr_estimated C) 0 JNull"
  using assms by (auto simp: finish_stream_def wrap_stream_of_def Let_def split: prod.splits)

text \<open>If the provider's call fails, what was held for the stream is not released.\<close>

lemma failed_call_keeps_hold:
  assumes "wo_call W = Inl e" and "wrapped_call quote C M W streaming model = (r, called, M', qs)"
  shows "filter is_settlement qs = []"
  using assms
  by (auto simp: wrapped_call_def Let_def is_settlement_def sdk_check_def sdk_reserve_def http_json_def when_true_def
      split: sum.splits if_splits)

section \<open>At work\<close>

definition eight_chars :: pyobj where
  "eight_chars = Obj [(''choices'', Seq [Obj [(''delta'', Obj [(''content'', Plain (JStr ''abcdefgh''))])]])]"

definition quick_env :: sdk_env where
  "quick_env = \<lparr>sv_uuid = ''e1'', sv_now_ms = 0, sv_outs = (\<lambda>_. HttpReply JNull)\<rparr>"

definition quick_wrapper :: stream_wrapper where
  "quick_wrapper = \<lparr>sw_customer = ''acme'', sw_model = ''gpt'', sw_provider = ''openai'', sw_interval = 2,
     sw_parent_span_id = JNull, sw_session_id = JNull, sw_environment = JNull, sw_start = 0\<rparr>"

lemma eight_chars_counted:
  "process_chunk eight_chars u = (None, u\<lparr>sc_chunks := sc_chunks u + 1, sc_output := sc_output u + 2\<rparr>)"
  by (simp add: process_chunk_def eight_chars_def first_choice_def attr_of_def py_true_def delta_tokens_def getattr_or_def
      text_tokens_def py_length_def json_true_def usage_count_def hasattr_def Let_def)

lemma quick_track: "track M quick_env a = (Inr (tracked_event M quick_env a), M\<lparr>me_events_sent := me_events_sent M + 1\<rparr>,
    [http_json M ''POST'' ''/ingest'' (Some (JObj (event_to_dict (tracked_event M quick_env a)))) []])"
  by (simp add: track_def send_event_def quick_env_def Let_def)


theorem denied_never_called_witness:
  "wr_fail_open \<lparr>wr_customer = ''acme'', wr_estimated = 1, wr_fail_open = True, wr_parent_span_id = JNull,
     wr_session_id = JNull, wr_cost_out = 0, wr_cost_in = 0\<rparr>"
proof -
  define C where "C = \<lparr>wr_customer = ''acme'', wr_estimated = 1, wr_fail_open = True, wr_parent_span_id = JNull,
     wr_session_id = JNull, wr_cost_out = 0, wr_cost_in = (0 :: rat)\<rparr>"
  define W where "W = \<lparr>wo_check = HttpFailure, wo_reserve = HttpFailure, wo_call = Inr (Seq []), wo_track = quick_env\<rparr>"
  obtain r M' qs where run: "wrapped_call id C (new_meter ''http://api'' None JNull 2) W True ''gpt'' = (r, True, M', qs)"
    by (simp add: wrapped_call_def C_def W_def safe_check_def json_true_def wrap_reserve_def new_meter_def rstrip_slash_def Let_def)
  from denied_never_called [OF run] show ?thesis by (simp add: W_def C_def)
qed

end
