(* ===== verification/Dlq_Replay.thy ===== *)
theory Dlq_Replay
  imports Prelude
begin

text \<open>
  \<^verbatim>\<open>src/scripts/dlq_replay.py\<close>: the loop that moves messages of the dead-letter topic back to the main one.
  What each poll returns is an argument, also after the end of the loop, where it is not looked at.

  The lemmas show that the loop replays a prefix of the messages, in order, and at most as many as asked.
\<close>

datatype 'm dlq_poll = DlqNothing | DlqEof | DlqError | DlqMessage 'm

record 'm replay_state =
  rs_count :: nat
  rs_produced :: "'m list"
  rs_committed :: "'m list"

definition replay_message :: "bool \<Rightarrow> 'm \<Rightarrow> 'm replay_state \<Rightarrow> 'm replay_state" where
  "replay_message dry m st =
     st\<lparr>rs_produced := rs_produced st @ (if dry then [] else [m]), rs_count := rs_count st + 1,
        rs_committed := rs_committed st @ [m]\<rparr>"

text \<open>Whether the loop has ended by itself, and the state. \<open>limit\<close> is 0 for all.\<close>

fun dlq_replay :: "nat \<Rightarrow> bool \<Rightarrow> 'm dlq_poll list \<Rightarrow> 'm replay_state \<Rightarrow> bool \<times> 'm replay_state" where
  "dlq_replay limit dry [] st = (limit \<noteq> 0 \<and> limit \<le> rs_count st, st)"
| "dlq_replay limit dry (p # ps) st =
     (if limit \<noteq> 0 \<and> limit \<le> rs_count st then (True, st)
      else case p of
        DlqNothing \<Rightarrow> if 0 < rs_count st then (True, st) else dlq_replay limit dry ps st
      | DlqEof \<Rightarrow> (True, st)
      | DlqError \<Rightarrow> dlq_replay limit dry ps st
      | DlqMessage m \<Rightarrow> dlq_replay limit dry ps (replay_message dry m st))"

fun messages_of :: "'m dlq_poll list \<Rightarrow> 'm list" where
  "messages_of [] = []"
| "messages_of (DlqMessage m # ps) = m # messages_of ps"
| "messages_of (_ # ps) = messages_of ps"

text \<open>
  a replay takes a prefix of the messages, commits each, and hands exactly these to the producer in
  their order (none in a dry run), at most as many as asked for.
\<close>

theorem replay_takes_prefix:
  "\<exists>n. rs_committed (snd (dlq_replay limit dry ps \<lparr>rs_count = 0, rs_produced = [], rs_committed = []\<rparr>)) = take n (messages_of ps)
    \<and> rs_produced (snd (dlq_replay limit dry ps \<lparr>rs_count = 0, rs_produced = [], rs_committed = []\<rparr>))
        = (if dry then [] else take n (messages_of ps))
    \<and> n \<le> length (messages_of ps) \<and> (limit = 0 \<or> n \<le> limit)"
proof -
  have "limit = 0 \<or> rs_count st \<le> limit \<Longrightarrow> \<exists>n. rs_committed (snd (dlq_replay limit dry ps st)) = rs_committed st @ take n (messages_of ps)
    \<and> rs_produced (snd (dlq_replay limit dry ps st)) = rs_produced st @ (if dry then [] else take n (messages_of ps))
    \<and> n \<le> length (messages_of ps) \<and> (limit = 0 \<or> rs_count st + n \<le> limit)" for st
  proof (induction limit dry ps st rule: dlq_replay.induct)
    case (2 limit dry p ps st)
    show ?case
    proof (cases "limit \<noteq> 0 \<and> limit \<le> rs_count st \<or> p = DlqEof \<or> p = DlqNothing \<and> 0 < rs_count st")
      case True
      then show ?thesis using 2(4) by (intro exI [of _ 0]) auto
    next
      case go: False
      show ?thesis
      proof (cases p)
        case (DlqMessage m)
        obtain n where "rs_committed (snd (dlq_replay limit dry ps (replay_message dry m st))) = rs_committed st @ m # take n (messages_of ps)"
          "rs_produced (snd (dlq_replay limit dry ps (replay_message dry m st))) = rs_produced st @ (if dry then [] else m # take n (messages_of ps))"
          "n \<le> length (messages_of ps)" "limit = 0 \<or> rs_count st + Suc n \<le> limit"
          using 2(3) [of m] DlqMessage go by (auto simp: replay_message_def)
        then show ?thesis using go DlqMessage by (intro exI [of _ "Suc n"]) auto
      next
        case DlqNothing
        then obtain n where "rs_committed (snd (dlq_replay limit dry ps st)) = rs_committed st @ take n (messages_of ps)"
          "rs_produced (snd (dlq_replay limit dry ps st)) = rs_produced st @ (if dry then [] else take n (messages_of ps))"
          "n \<le> length (messages_of ps)" "limit = 0 \<or> rs_count st + n \<le> limit"
          using 2(1,4) go by metis
        then show ?thesis using go DlqNothing by (intro exI [of _ n]) auto
      next
        case DlqError
        then obtain n where "rs_committed (snd (dlq_replay limit dry ps st)) = rs_committed st @ take n (messages_of ps)"
          "rs_produced (snd (dlq_replay limit dry ps st)) = rs_produced st @ (if dry then [] else take n (messages_of ps))"
          "n \<le> length (messages_of ps)" "limit = 0 \<or> rs_count st + n \<le> limit"
          using 2(2,4) go by metis
        then show ?thesis using go DlqError by (intro exI [of _ n]) auto
      qed (use go in auto)
    qed
  qed (auto intro: exI [of _ 0])
  from this [of "\<lparr>rs_count = 0, rs_produced = [], rs_committed = []\<rparr>"] show ?thesis by simp
qed

text \<open>
  A message is committed when it is handed to the producer, before anything is flushed: a producer that
  fails afterwards loses it.
\<close>

lemma committed_before_flush:
  "rs_committed (snd (dlq_replay 0 False [DlqMessage m, DlqEof] \<lparr>rs_count = 0, rs_produced = [], rs_committed = []\<rparr>)) = [m]"
  by (simp add: replay_message_def)

end
