(* ===== verification/Service.thy ===== *)
theory Service
  imports Webhooks Custody Intel_Reader
begin

text \<open>
  The service around the endpoints: start-up, readiness and the watermark heartbeat of \<^verbatim>\<open>src/api/main.py\<close>,
  and the counters of \<^verbatim>\<open>src/api/ingestion.py\<close> that \<^verbatim>\<open>/metrics\<close> prints. Fresh ids, the clock and what
  each dependency answers are arguments; topics and intervals are settings.

  The lemmas show that counters add up whatever the order of the calls, that one lease sends one heartbeat,
  and when the service calls itself ready.
\<close>

section \<open>Counters\<close>

record custody_metrics =
  cm_outcomes :: "(string \<times> int) list"
  cm_stage_count :: "(string \<times> int) list"
  cm_stage_sum :: "(string \<times> rat) list"

definition no_metrics :: custody_metrics where
  "no_metrics = \<lparr>cm_outcomes = [], cm_stage_count = [], cm_stage_sum = []\<rparr>"

definition count_of :: "(string \<times> int) list \<Rightarrow> string \<Rightarrow> int" where
  "count_of d k = (case map_of d k of None \<Rightarrow> 0 | Some n \<Rightarrow> n)"

definition metrics_outcome :: "string \<Rightarrow> int \<Rightarrow> custody_metrics \<Rightarrow> custody_metrics" where
  "metrics_outcome status n m = m\<lparr>cm_outcomes := AList.update status (count_of (cm_outcomes m) status + n) (cm_outcomes m)\<rparr>"

definition metrics_observe :: "string \<Rightarrow> rat \<Rightarrow> custody_metrics \<Rightarrow> custody_metrics" where
  "metrics_observe stage seconds m =
     m\<lparr>cm_stage_count := AList.update stage (count_of (cm_stage_count m) stage + 1) (cm_stage_count m),
       cm_stage_sum := AList.update stage (dict_get0 (cm_stage_sum m) stage + seconds) (cm_stage_sum m)\<rparr>"

definition quote_char :: string where
  "quote_char = [CHR 0x22]"

definition prometheus :: "custody_metrics \<Rightarrow> string" where
  "prometheus m =
     join [CHR 0x0A]
       ([''# TYPE fluxmeter_custody_outcomes_total counter'']
        @ map (\<lambda>k. ''fluxmeter_custody_outcomes_total{outcome='' @ quote_char @ k @ quote_char @ ''} '' @ int_str (count_of (cm_outcomes m) k))
            (sort (map fst (cm_outcomes m)))
        @ [''# TYPE fluxmeter_custody_stage_seconds summary'']
        @ concat (map (\<lambda>k.
            [''fluxmeter_custody_stage_seconds_count{stage='' @ quote_char @ k @ quote_char @ ''} '' @ int_str (count_of (cm_stage_count m) k),
             ''fluxmeter_custody_stage_seconds_sum{stage='' @ quote_char @ k @ quote_char @ ''} '' @ fixed 9 (dict_get0 (cm_stage_sum m) k)])
            (sort (map fst (cm_stage_count m))))) @ [CHR 0x0A]"

section \<open>Start-up\<close>

datatype background_task = BillingExport | IntelAlerts | WatermarkHeartbeat

record startup_env =
  su_lite_mode :: bool
  su_stripe_key :: string
  su_intel_url :: string
  su_heartbeat :: bool

text \<open>The catalog that is loaded and the background tasks that are started, or the exception.\<close>

definition startup :: "startup_env \<Rightarrow> json \<Rightarrow> store \<Rightarrow> (catalog \<times> background_task list) res" where
  "startup U pricing_file s =
     (if su_lite_mode U then Inl RuntimeError
      else bindE (reload_catalog pricing_file None (Some s)) (\<lambda>(c, _).
        Inr (c, (if su_stripe_key U \<noteq> [] then [BillingExport] else [])
             @ (if su_intel_url U \<noteq> [] \<or> cell_true (rget s ''intel:webhook:url'') then [IntelAlerts] else [])
             @ (if su_heartbeat U then [WatermarkHeartbeat] else []))))"

section \<open>Internal events\<close>

text \<open>The context of an event the service sends itself.\<close>

definition system_ctx :: "string \<Rightarrow> custody_ctx" where
  "system_ctx source = \<lparr>x_tenant = None, x_api_key = None, x_topic = [], x_quarantine = [], x_source = source,
     x_reservation = None, x_reserved_usd = 0, x_max_age = 0, x_max_future = 0, x_on_down = FailMode\<rparr>"

definition system_event :: "string \<Rightarrow> string \<Rightarrow> int \<Rightarrow> (string \<times> json) list \<Rightarrow> event" where
  "system_event event_id model now metadata =
     [(''eventId'', JStr event_id), (''customerId'', JStr ''__system__''), (''modelId'', JStr model), (''timestamp'', JInt now),
      (''metadata'', JObj metadata)]"

record service_env =
  se_custody :: custody_env
  se_topic :: string
  se_watermark_topic :: string
  se_heartbeat_interval :: rat

definition HEARTBEAT_LEASE :: key where
  "HEARTBEAT_LEASE = ''flink:watermark-heartbeat:lease''"

text \<open>\<open>uuid\<close> is the fresh id of the event; the lease holds another one. An exception leaves the lease in place.\<close>

definition publish_watermark_heartbeat ::
  "service_env \<Rightarrow> string \<Rightarrow> string \<Rightarrow> pub_outcome \<Rightarrow> world \<Rightarrow> bool res \<times> world" where
  "publish_watermark_heartbeat S lease_id uuid out w =
     (let lease_seconds = max 2 (trunc_int (se_heartbeat_interval S)) in
      case set_nx (reg w) HEARTBEAT_LEASE (CTxt lease_id) (of_int lease_seconds) of
        (False, s) \<Rightarrow> (Inr False, w\<lparr>reg := s\<rparr>)
      | (True, s) \<Rightarrow>
          (case trusted_envelope (se_custody S) (system_ctx ''watermark'')
                  (system_event (''watermark-'' @ uuid) ''__watermark__'' (ce_now_ms (se_custody S))
                    [(''_heartbeat'', JStr ''true''), (''_watermark'', JStr ''true'')]) of
             Inl e \<Rightarrow> (Inl e, w\<lparr>reg := s\<rparr>)
           | Inr envelope \<Rightarrow>
               (case publish_with_ack (w\<lparr>reg := s\<rparr>) (se_watermark_topic S) ''__watermark__'' (JObj envelope) out of
                  (Inl e, w') \<Rightarrow> (Inl e, w')
                | (Inr _, w') \<Rightarrow> (Inr True, w'))))"

text \<open>The loop of every worker: an exception is logged, the next turn comes after the interval.\<close>

definition heartbeat_turn :: "service_env \<Rightarrow> string \<Rightarrow> string \<Rightarrow> pub_outcome \<Rightarrow> world \<Rightarrow> world" where
  "heartbeat_turn S lease_id uuid out w = snd (publish_watermark_heartbeat S lease_id uuid out w)"

section \<open>Readiness\<close>

text \<open>
  The polls are what Redis holds for the probe at each look until the deadline. An overloaded producer is
  not among the errors that are answered with 503.
\<close>

definition ready ::
  "service_env \<Rightarrow> string \<Rightarrow> bool \<Rightarrow> bool \<Rightarrow> pub_outcome \<Rightarrow> cell option list \<Rightarrow> world \<Rightarrow> unit res \<times> world" where
  "ready S uuid redis_up kafka_up out polls w =
     (if \<not> redis_up then (Inl (HTTPException 503), w)
      else if \<not> kafka_up then (Inl (HTTPException 503), w)
      else (case trusted_envelope (se_custody S) (system_ctx ''readiness'')
                   (system_event (''ready-'' @ uuid) ''__readiness__'' (ce_now_ms (se_custody S)) [(''_heartbeat'', JStr ''true'')]) of
              Inl e \<Rightarrow> (Inl e, w)
            | Inr probe \<Rightarrow>
                (case publish_with_ack w (se_topic S) ''__system__'' (JObj probe) out of
                   (Inl (KafkaUnavailable u), w') \<Rightarrow> (Inl (HTTPException 503), w')
                 | (Inl e, w') \<Rightarrow> (Inl e, w')
                 | (Inr _, w') \<Rightarrow> (if list_ex cell_true polls then Inr () else Inl (HTTPException 503), w'))))"

section \<open>What the counters hold\<close>

datatype metric_call = Outcome string int | Observe string rat

definition metric_step :: "metric_call \<Rightarrow> custody_metrics \<Rightarrow> custody_metrics" where
  "metric_step c = (case c of Outcome k n \<Rightarrow> metrics_outcome k n | Observe k q \<Rightarrow> metrics_observe k q)"

text \<open>A counter is the sum of what was added to it, in whatever order the threads got in.\<close>

lemma counters_add_up:
  "count_of (cm_outcomes (fold metric_step cs m)) k =
     count_of (cm_outcomes m) k + sum_list (map (\<lambda>c. case c of Outcome k' n \<Rightarrow> if k' = k then n else 0 | _ \<Rightarrow> 0) cs)"
proof (induction cs arbitrary: m)
  case (Cons c cs)
  then show ?case
    by (cases c) (auto simp: metric_step_def metrics_outcome_def metrics_observe_def count_of_def update_conv')
qed simp

section \<open>Heartbeats and readiness\<close>

text \<open>While the lease lives no second heartbeat is sent, by whichever worker.\<close>

lemma one_heartbeat_per_lease:
  assumes "publish_watermark_heartbeat S l u out w = (r, w1)"
  shows "publish_watermark_heartbeat S l' u' out' w1 = (Inr False, w1)"
proof -
  have "rexists (reg w1) HEARTBEAT_LEASE"
    using assms by (auto simp: publish_watermark_heartbeat_def set_nx_def publish_with_ack_def rexists_iff Let_def
        split: if_splits sum.splits option.splits)
  then show ?thesis by (simp add: publish_watermark_heartbeat_def set_nx_def)
qed

lemma ready_exactly:
  "fst (ready S u redis_up kafka_up out polls w) = Inr () \<longleftrightarrow> redis_up \<and> kafka_up \<and> out = Acked \<and> list_ex cell_true polls"
  by (cases out) (auto simp: ready_def trusted_envelope_def system_event_def json_index_def publish_with_ack_def outcome_error_def)

text \<open>An overloaded producer makes the readiness check raise.\<close>

lemma overloaded_not_answered: "fst (ready S u True True Overloaded polls w) = Inl CustodyOverloaded"
  by (simp add: ready_def trusted_envelope_def system_event_def json_index_def publish_with_ack_def outcome_error_def)

end
