(* ===== verification/Load_Test.thy ===== *)
theory Load_Test
  imports Prelude
begin

text \<open>
  The load generator of \<^verbatim>\<open>src/scripts/http-load-test.py\<close> and the projection of
  \<^verbatim>\<open>src/scripts/benchmark_capacity.py\<close>: how the offered load is split over processes and spaced in time,
  how an answer is counted, how the results of the processes are merged and when a run passes. The clock,
  fresh ids, random numbers and what the service answers are arguments; times and rates are exact.

  The lemmas show that the split keeps the offered load, that the counters of a run add up, that a
  percentile is the nearest rank, and what a run that passes says about the latencies.
\<close>

section \<open>Splitting the offered load\<close>

record worker_plan =
  wp_target :: rat
  wp_concurrency :: int

text \<open>The loop body: \<open>assigned\<close> is the load given out so far, \<open>cb\<close> and \<open>cr\<close> come from \<open>divmod\<close>.\<close>

definition plan_step :: "rat \<Rightarrow> int \<Rightarrow> int \<Rightarrow> int \<Rightarrow> int \<Rightarrow> rat \<times> worker_plan list \<Rightarrow> rat \<times> worker_plan list" where
  "plan_step target processes cb cr index st = (case st of (assigned, plans) \<Rightarrow>
     let worker_target = (if index = processes - 1 then target - assigned else target / of_int processes) in
     (assigned + worker_target,
      plans @ [\<lparr>wp_target = worker_target, wp_concurrency = cb + (if index < cr then 1 else 0)\<rparr>]))"

definition worker_plans :: "rat \<Rightarrow> int \<Rightarrow> int \<Rightarrow> worker_plan list res" where
  "worker_plans target concurrency processes =
     (if processes < 1 then Inl ValueError
      else if concurrency < processes then Inl ValueError
      else Inr (snd (fold (plan_step target processes (concurrency div processes) (concurrency mod processes))
        (map int [0..<nat processes]) (0, []))))"

section \<open>What is sent\<close>

datatype load_mode = Single | Batch
datatype profile = Minimal | Typical | Heavy
datatype tenant_mode = Normal | Noisy | Zipf

record load_args =
  la_mode :: load_mode
  la_open :: bool
  la_profile :: profile
  la_tenant_mode :: tenant_mode
  la_warmup :: rat
  la_duration :: rat
  la_target_eps :: rat
  la_concurrency :: int
  la_processes :: int
  la_batch_size :: int
  la_min_eps :: rat
  la_max_p50_ms :: rat
  la_max_p99_ms :: rat

text \<open>What an event takes from outside: two fresh ids, the clock, the numbers drawn for session and room.\<close>

record load_draw =
  ld_uuid :: string
  ld_request :: string
  ld_now_ms :: int
  ld_session :: int
  ld_room :: int
  ld_pareto :: rat

definition customer_for :: "int \<Rightarrow> tenant_mode \<Rightarrow> rat \<Rightarrow> string" where
  "customer_for sequence mode pareto = (case mode of
     Noisy \<Rightarrow> if sequence mod 10 \<noteq> 0 then ''noisy-tenant'' else ''normal-'' @ int_str (sequence mod 10)
   | Zipf \<Rightarrow> ''zipf-'' @ int_str (min 99 (trunc_int pareto - 1))
   | Normal \<Rightarrow> ''load-'' @ int_str (sequence mod 1000))"

definition load_event :: "profile \<Rightarrow> string \<Rightarrow> load_draw \<Rightarrow> (string \<times> json) list" where
  "load_event profile customer_id d =
     [(''eventId'', JStr (ld_uuid d)), (''customerId'', JStr customer_id), (''provider'', JStr ''openai''),
      (''modelId'', JStr ''gpt-4o-mini''), (''inputTokens'', JInt 640), (''outputTokens'', JInt 180), (''timestamp'', JInt (ld_now_ms d))]
     @ (if profile \<in> {Typical, Heavy}
        then [(''requestId'', JStr (''req-'' @ ld_request d)), (''sessionId'', JStr (''session-'' @ int_str (ld_session d))),
              (''environment'', JStr ''production''), (''latencyMs'', JInt 820),
              (''metadata'', JObj (if profile = Heavy
                 then [(''feature'', JStr (replicate 1024 (CHR ''x''))), (''room_id'', JStr (replicate 1024 (CHR ''y'')))]
                 else [(''feature'', JStr ''chat''), (''room_id'', JStr (''room-'' @ int_str (ld_room d)))]))]
        else [])"

definition events_per_request :: "load_args \<Rightarrow> int" where
  "events_per_request A = (if la_mode A = Single then 1 else la_batch_size A)"

text \<open>A batch holds at least one event.\<close>

definition target_rps :: "load_args \<Rightarrow> rat" where
  "target_rps A = (if la_target_eps A \<noteq> 0 then la_target_eps A / of_int (events_per_request A) else 0)"

text \<open>The path and the body of a request whose first event has the given number.\<close>

definition load_request :: "load_args \<Rightarrow> int \<Rightarrow> (int \<Rightarrow> load_draw) \<Rightarrow> string \<times> json" where
  "load_request A start draw =
     (let payloads = map (\<lambda>i. JObj (load_event (la_profile A) (customer_for (start + i) (la_tenant_mode A) (ld_pareto (draw i))) (draw i)))
        (map int [0..<nat (events_per_request A)]) in
      if la_mode A = Single then (''/ingest'', hd payloads) else (''/ingest/batch'', JArr payloads))"

section \<open>When it is sent\<close>

definition send_interval :: "load_args \<Rightarrow> rat" where
  "send_interval A = (if target_rps A \<noteq> 0 then of_int (la_concurrency A) / target_rps A else 0)"

definition first_send :: "load_args \<Rightarrow> rat \<Rightarrow> int \<Rightarrow> rat" where
  "first_send A run_started worker_index = run_started + of_int worker_index * send_interval A / of_int (max (la_concurrency A) 1)"

text \<open>One turn of a worker at the time \<open>now\<close>: the pause before it sends and the next planned time.\<close>

definition pace_turn :: "load_args \<Rightarrow> rat \<Rightarrow> rat \<Rightarrow> rat \<times> rat" where
  "pace_turn A now next_send =
     (if la_open A then (max 0 (next_send - now), next_send + send_interval A) else (0, next_send))"

text \<open>The turns of a worker until the deadline, each with the clock at its start: the times it plans to send at.\<close>

fun pace_turns :: "load_args \<Rightarrow> rat \<Rightarrow> rat list \<Rightarrow> rat \<Rightarrow> rat list" where
  "pace_turns A stop_at [] next_send = []"
| "pace_turns A stop_at (now # nows) next_send =
     (if now < stop_at
      then (now + fst (pace_turn A now next_send)) # pace_turns A stop_at nows (snd (pace_turn A now next_send))
      else [])"

section \<open>Counting the answers\<close>

text \<open>
  A reply has its status code, its body read as JSON (\<open>None\<close> when it is not) and as text; a request
  that fails has the class of its exception.
\<close>

datatype load_reply = LoadReply nat "json option" string | LoadError string

record load_state =
  ls_accepted :: int
  ls_failed :: int
  ls_completed :: int
  ls_sequence :: int
  ls_latency_buckets :: "(int \<times> int) list"
  ls_latency_sum :: rat
  ls_status_counts :: "(string \<times> int) list"
  ls_error_samples :: "json list"
  ls_per_second :: "(int \<times> int) list"

definition new_load :: load_state where
  "new_load = \<lparr>ls_accepted = 0, ls_failed = 0, ls_completed = 0, ls_sequence = 0, ls_latency_buckets = [], ls_latency_sum = 0,
     ls_status_counts = [], ls_error_samples = [], ls_per_second = []\<rparr>"

definition get0 :: "('k \<times> int) list \<Rightarrow> 'k \<Rightarrow> int" where
  "get0 d k = (case map_of d k of None \<Rightarrow> 0 | Some n \<Rightarrow> n)"

definition add_to :: "'k \<Rightarrow> int \<Rightarrow> ('k \<times> int) list \<Rightarrow> ('k \<times> int) list" where
  "add_to k n d = AList.update k (get0 d k + n) d"

text \<open>How many events of an answered request were taken.\<close>

definition batch_successes :: "json option \<Rightarrow> int res" where
  "batch_successes body = (case body of None \<Rightarrow> Inl ValueError
     | Some j \<Rightarrow> bindE (json_get j ''results'' (JArr [])) (\<lambda>rows. bindE (json_iter rows) (\<lambda>items.
         bindE (mapE (\<lambda>it. bindE (json_get it ''status'' JNull) (\<lambda>s. Inr (s \<in> {JStr ''accepted'', JStr ''quarantined''}))) items)
           (\<lambda>oks. Inr (int (length (filter id oks)))))))"

text \<open>The sample of a refused answer; \<open>str\<close> is Python's text of a value.\<close>

definition row_counts :: "(json \<Rightarrow> string) \<Rightarrow> json list \<Rightarrow> (string \<times> int) list res" where
  "row_counts str rows = bindE (mapE (\<lambda>row. json_get row ''status'' (JStr ''unknown'')) rows)
     (\<lambda>ss. Inr (fold (\<lambda>s. add_to (str s) 1) ss []))"

definition error_detail :: "(json \<Rightarrow> string) \<Rightarrow> json option \<Rightarrow> string \<Rightarrow> json res" where
  "error_detail str body txt = (case body of
     None \<Rightarrow> Inr (JStr (take 500 txt))
   | Some (JObj kvs) \<Rightarrow>
       (case map_of kvs ''results'' of
          Some (JArr rows) \<Rightarrow> bindE (row_counts str rows) (\<lambda>counts.
            Inr (JObj [(''status'', case map_of kvs ''status'' of None \<Rightarrow> JNull | Some s \<Rightarrow> s),
                       (''result_counts'', JObj (map (\<lambda>(k, n). (k, JInt n)) counts)), (''sample'', JArr (take 5 rows))]))
        | _ \<Rightarrow> Inr (JObj kvs))
   | Some j \<Rightarrow> Inr j)"

text \<open>What the reply comes to: the key of its status, the events taken, the samples after it.\<close>

definition read_reply :: "load_args \<Rightarrow> (json \<Rightarrow> string) \<Rightarrow> load_reply \<Rightarrow> json list \<Rightarrow> (string \<times> int \<times> json list) res" where
  "read_reply A str reply samples = (case reply of
     LoadError name \<Rightarrow> Inr (name, 0, samples)
   | LoadReply status body txt \<Rightarrow>
       if status \<in> {200, 202, 207}
       then (if la_mode A = Single then Inr (nat_str status, 1, samples)
             else bindE (batch_successes body) (\<lambda>n. Inr (nat_str status, n, samples)))
       else if length samples < 5
       then bindE (error_detail str body txt) (\<lambda>detail.
              Inr (nat_str status, 0, samples @ [JObj [(''status'', JInt (int status)), (''detail'', detail)]]))
       else Inr (nat_str status, 0, samples))"

text \<open>One request: when it started, where measuring starts, its latency in milliseconds and its reply.\<close>

record load_send =
  sd_started :: rat
  sd_latency :: rat
  sd_reply :: load_reply

definition send_one :: "load_args \<Rightarrow> (json \<Rightarrow> string) \<Rightarrow> rat \<Rightarrow> load_send \<Rightarrow> load_state \<Rightarrow> load_state res" where
  "send_one A str measure_started d st =
     (let st1 = st\<lparr>ls_sequence := ls_sequence st + events_per_request A\<rparr> in
      bindE (read_reply A str (sd_reply d) (ls_error_samples st1)) (\<lambda>(status_key, successful, samples).
        let st2 = st1\<lparr>ls_error_samples := samples\<rparr> in
        if sd_started d < measure_started then Inr st2
        else Inr (st2\<lparr>
          ls_latency_buckets := add_to (max 0 (py_round (sd_latency d))) 1 (ls_latency_buckets st2),
          ls_latency_sum := ls_latency_sum st2 + sd_latency d,
          ls_completed := ls_completed st2 + 1,
          ls_accepted := ls_accepted st2 + successful,
          ls_failed := ls_failed st2 + (events_per_request A - successful),
          ls_status_counts := add_to status_key 1 (ls_status_counts st2),
          ls_per_second := add_to (trunc_int (sd_started d - measure_started)) successful (ls_per_second st2)\<rparr>)))"

fun send_all :: "load_args \<Rightarrow> (json \<Rightarrow> string) \<Rightarrow> rat \<Rightarrow> load_send list \<Rightarrow> load_state \<Rightarrow> load_state res" where
  "send_all A str m [] st = Inr st"
| "send_all A str m (d # ds) st = bindE (send_one A str m d st) (send_all A str m ds)"

record worker_result =
  wr_elapsed :: rat
  wr_counts :: load_state

text \<open>A worker process: its requests in the order they are counted, and the clock at its end.\<close>

definition run_worker :: "load_args \<Rightarrow> (json \<Rightarrow> string) \<Rightarrow> rat \<Rightarrow> load_send list \<Rightarrow> rat \<Rightarrow> worker_result res" where
  "run_worker A str run_started ds finished =
     (let measure_started = run_started + la_warmup A in
      bindE (send_all A str measure_started ds new_load) (\<lambda>st.
        Inr \<lparr>wr_elapsed = max (1 / 1000) (finished - measure_started), wr_counts = st\<rparr>))"

section \<open>Merging the results\<close>

definition merge_counts :: "('k \<times> int) list \<Rightarrow> ('k \<times> int) list \<Rightarrow> ('k \<times> int) list" where
  "merge_counts new d = fold (\<lambda>(k, n). add_to k n) new d"

text \<open>The smallest bucket at which the counts so far reach the rank.\<close>

fun rank_scan :: "int \<Rightarrow> int \<Rightarrow> (int \<times> int) list \<Rightarrow> int option" where
  "rank_scan rank seen [] = None"
| "rank_scan rank seen ((l, n) # bs) = (if rank \<le> seen + n then Some l else rank_scan rank (seen + n) bs)"

definition percentile_from_buckets :: "(int \<times> int) list \<Rightarrow> rat \<Rightarrow> rat option" where
  "percentile_from_buckets buckets fraction =
     (let count = sum_list (map snd buckets) in
      if count = 0 then None
      else (case rank_scan (max 1 \<lceil>of_int count * fraction\<rceil>) 0 (sort buckets) of
              Some l \<Rightarrow> Some (of_int l)
            | None \<Rightarrow> Some (of_int (Max (set (map fst buckets))))))"

record load_result =
  lr_duration :: rat
  lr_completed :: int
  lr_accepted :: int
  lr_failed :: int
  lr_eps :: rat
  lr_rps :: rat
  lr_minimum_one_minute :: "rat option"
  lr_mean :: "rat option"
  lr_p50 :: "rat option"
  lr_p95 :: "rat option"
  lr_p99 :: "rat option"
  lr_status_counts :: "(string \<times> int) list"
  lr_error_samples :: "json list"

text \<open>The windows start at the multiples of 60 up to the last second in which a request was started.\<close>

definition minute_windows :: "(int \<times> int) list \<Rightarrow> rat \<Rightarrow> rat list" where
  "minute_windows per_second elapsed =
     concat (map (\<lambda>start.
         let seconds = min 60 (max 0 (trunc_int elapsed - start)) in
         if seconds = 0 then []
         else [of_int (sum_list (map (\<lambda>i. get0 per_second i) [start..start + seconds - 1])) / of_int seconds])
       (map (\<lambda>i. 60 * int i) [0..<nat ((Max (set (-1 # map fst per_second)) + 60) div 60)]))"

definition merged :: "(load_state \<Rightarrow> ('k \<times> int) list) \<Rightarrow> worker_result list \<Rightarrow> ('k \<times> int) list" where
  "merged f workers = fold (\<lambda>w. merge_counts (f (wr_counts w))) workers []"

definition aggregate_worker_results :: "worker_result list \<Rightarrow> rat \<Rightarrow> load_result" where
  "aggregate_worker_results workers duration =
     (let accepted = sum_list (map (\<lambda>w. ls_accepted (wr_counts w)) workers);
          failed = sum_list (map (\<lambda>w. ls_failed (wr_counts w)) workers);
          completed = sum_list (map (\<lambda>w. ls_completed (wr_counts w)) workers);
          elapsed = max (1 / 1000) duration;
          latency_count = sum_list (map (\<lambda>w. sum_list (map snd (ls_latency_buckets (wr_counts w)))) workers);
          latency_sum = sum_list (map (\<lambda>w. ls_latency_sum (wr_counts w)) workers);
          buckets = merged ls_latency_buckets workers;
          windows = minute_windows (merged ls_per_second workers) elapsed in
      \<lparr>lr_duration = round_to 3 elapsed, lr_completed = completed, lr_accepted = accepted, lr_failed = failed,
       lr_eps = round_to 2 (of_int accepted / elapsed), lr_rps = round_to 2 (of_int completed / elapsed),
       lr_minimum_one_minute = (if windows = [] then None else Some (round_to 2 (Min (set windows)))),
       lr_mean = (if latency_count = 0 then None else Some (round_to 2 (latency_sum / of_int latency_count))),
       lr_p50 = percentile_from_buckets buckets (1 / 2), lr_p95 = percentile_from_buckets buckets (95 / 100),
       lr_p99 = percentile_from_buckets buckets (99 / 100),
       lr_status_counts = merged ls_status_counts workers,
       lr_error_samples = take 5 (concat (map (\<lambda>w. ls_error_samples (wr_counts w)) workers))\<rparr>)"

section \<open>A whole run\<close>

text \<open>\<open>worker\<close> is what a process with the given share of the load returns.\<close>

definition load_run :: "load_args \<Rightarrow> (load_args \<Rightarrow> nat \<Rightarrow> worker_result res) \<Rightarrow> load_result res" where
  "load_run A worker =
     bindE (worker_plans (la_target_eps A) (la_concurrency A) (la_processes A)) (\<lambda>plans.
     bindE (mapE (\<lambda>i. worker (A\<lparr>la_target_eps := wp_target (plans ! i), la_concurrency := wp_concurrency (plans ! i)\<rparr>) i) [0..<length plans])
       (\<lambda>workers. Inr (aggregate_worker_results workers (Max (set (map wr_elapsed workers))))))"

definition over_limit :: "rat \<Rightarrow> rat option \<Rightarrow> bool" where
  "over_limit bound v \<longleftrightarrow> bound \<noteq> 0 \<and> (case v of None \<Rightarrow> True | Some l \<Rightarrow> l > bound)"

definition passes :: "load_result \<Rightarrow> load_args \<Rightarrow> bool" where
  "passes r A =
     (if lr_failed r \<noteq> 0 \<or> lr_eps r < la_min_eps A then False
      else if over_limit (la_max_p50_ms A) (lr_p50 r) then False
      else if over_limit (la_max_p99_ms A) (lr_p99 r) then False
      else if la_target_eps A \<noteq> 0 \<and> (case lr_minimum_one_minute r of None \<Rightarrow> False | Some m \<Rightarrow> m < la_target_eps A * (95 / 100)) then False
      else True)"

text \<open>The exit code of the script: 2 when the parser refuses the arguments.\<close>

definition load_main :: "load_args \<Rightarrow> (load_args \<Rightarrow> nat \<Rightarrow> worker_result res) \<Rightarrow> int res" where
  "load_main A worker =
     (if la_open A \<and> la_target_eps A \<le> 0 then Inr 2
      else if la_processes A < 1 then Inr 2
      else if la_concurrency A < la_processes A then Inr 2
      else bindE (load_run A worker) (\<lambda>r. Inr (if passes r A then 0 else 1)))"

section \<open>The projection of capacity\<close>

record capacity =
  ca_accepted :: int
  ca_delta :: int
  ca_per_event :: rat
  ca_benchmark_ttl :: int
  ca_benchmark_bytes :: int
  ca_production_ttl :: int
  ca_production_bytes :: int
  ca_maxmemory :: int
  ca_safe :: bool

definition project_capacity :: "int \<Rightarrow> int \<Rightarrow> int \<Rightarrow> rat \<Rightarrow> int \<Rightarrow> int \<Rightarrow> int \<Rightarrow> capacity" where
  "project_capacity before after accepted0 target_eps benchmark_ttl production_ttl maxmemory =
     (let accepted = max 1 accepted0;
          delta = max 0 (after - before);
          bytes_per_event = of_int delta / of_int accepted;
          benchmark_bytes = trunc_int (bytes_per_event * target_eps * of_int benchmark_ttl);
          production_bytes = trunc_int (bytes_per_event * target_eps * of_int production_ttl);
          safe_limit = trunc_int (of_int maxmemory * (8 / 10)) in
      \<lparr>ca_accepted = accepted, ca_delta = delta, ca_per_event = round_to 1 bytes_per_event,
       ca_benchmark_ttl = benchmark_ttl, ca_benchmark_bytes = benchmark_bytes,
       ca_production_ttl = production_ttl, ca_production_bytes = production_bytes,
       ca_maxmemory = maxmemory, ca_safe = (benchmark_bytes \<le> safe_limit)\<rparr>)"

section \<open>The load is split, not changed\<close>

lemma plan_step_simp:
  "plan_step t p cb cr i (a, plans) =
     (let w = (if i = p - 1 then t - a else t / of_int p) in
      (a + w, plans @ [\<lparr>wp_target = w, wp_concurrency = cb + (if i < cr then 1 else 0)\<rparr>]))"
  by (simp add: plan_step_def)

lemma last_share: "q \<noteq> 0 \<Longrightarrow> t - (q - 1) * t / q = t / (q :: rat)"
  by (simp add: field_simps)

lemma plan_loop:
  assumes "0 < p" and "k \<le> nat p"
  shows "fold (plan_step t p cb cr) (map int [0..<k]) (0, []) =
      (if k = nat p then t else of_nat k * (t / of_int p),
       map (\<lambda>i. \<lparr>wp_target = t / of_int p, wp_concurrency = cb + (if int i < cr then 1 else 0)\<rparr>) [0..<k])"
  using assms(2)
proof (induction k)
  case (Suc k)
  then have *: "k \<noteq> nat p" "of_int p \<noteq> (0::rat)" using assms(1) by auto
  show ?case
  proof (cases "Suc k = nat p")
    case True
    then have "int k = p - 1" using assms(1) by linarith
    moreover then have "of_nat k = of_int p - (1::rat)" by (metis of_int_1 of_int_diff of_int_of_nat_eq)
    moreover then have "t - of_nat k * t / of_int p = t / of_int p" using * by (simp add: last_share)
    ultimately show ?thesis unfolding if_P [OF True] using Suc * by (simp add: plan_step_simp Let_def)
  next
    case False
    then have "int k \<noteq> p - 1" using assms(1) Suc.prems by auto
    then show ?thesis using Suc.IH Suc.prems * False by (simp add: plan_step_simp Let_def) (simp add: field_simps)
  qed
qed (use assms in simp)

lemma extra_one_each: "0 \<le> r \<Longrightarrow> r \<le> int n \<Longrightarrow> (\<Sum>i\<leftarrow>[0..<n]. if int i < r then 1 else 0) = r"
proof (induction n arbitrary: r)
  case (Suc n)
  show ?case
  proof (cases "r = int (Suc n)")
    case True
    have "(\<Sum>i\<leftarrow>[0..<n]. if int i < r then 1 else (0::int)) = (\<Sum>i\<leftarrow>[0..<n]. 1)"
      by (intro arg_cong [where f = sum_list] map_cong) (use True in auto)
    then show ?thesis using True by (simp add: sum_list_triv)
  next
    case False
    then show ?thesis using Suc by simp
  qed
qed simp

text \<open>
  However a load is split, the shares are equal and add up to it, and the connections are handed out
  completely, at least one each and no two processes differing by more than one.
\<close>

lemma worker_plans_share:
  assumes "worker_plans t c p = Inr plans"
  shows "length plans = nat p" and "sum_list (map wp_target plans) = t" and "sum_list (map wp_concurrency plans) = c"
    and "w \<in> set plans \<Longrightarrow> wp_target w = t / of_int p \<and> wp_concurrency w \<in> {c div p, c div p + 1} \<and> 1 \<le> wp_concurrency w"
proof -
  have p: "0 < p" "p \<le> c" using assms by (auto simp: worker_plans_def split: if_splits)
  have plans: "plans = map (\<lambda>i. \<lparr>wp_target = t / of_int p, wp_concurrency = c div p + (if int i < c mod p then 1 else 0)\<rparr>) [0..<nat p]"
    using assms p by (auto simp: worker_plans_def plan_loop split: if_splits)
  show "length plans = nat p" by (simp add: plans)
  show "sum_list (map wp_target plans) = t"
    using p by (simp add: plans o_def sum_list_triv)
  have "c mod p \<le> int (nat p)" "0 \<le> c mod p" using p pos_mod_bound [of p c] pos_mod_sign [of p c] by linarith+
  then show "sum_list (map wp_concurrency plans) = c"
    using p by (simp add: plans o_def sum_list_addf sum_list_triv extra_one_each)
  have "1 \<le> c div p" using p by (simp add: pos_imp_zdiv_pos_iff int_one_le_iff_zero_less)
  then show "w \<in> set plans \<Longrightarrow> wp_target w = t / of_int p \<and> wp_concurrency w \<in> {c div p, c div p + 1} \<and> 1 \<le> wp_concurrency w"
    by (auto simp: plans)
qed

text \<open>The times planned by all workers together are evenly spaced at the offered rate.\<close>

lemma planned_times:
  assumes "la_open A" and "i < length (pace_turns A stop nows next_send)"
  shows "pace_turns A stop nows next_send ! i = max (nows ! i) (next_send + of_nat i * send_interval A)"
  using assms(2)
proof (induction nows arbitrary: next_send i)
  case (Cons now nows)
  then show ?case using assms(1)
    by (cases i) (auto simp: pace_turn_def algebra_simps split: if_splits)
qed simp

lemma planned_evenly:
  assumes "1 \<le> la_concurrency A" and "0 < target_rps A"
  shows "first_send A s w + of_nat k * send_interval A = s + (of_nat k * of_int (la_concurrency A) + of_int w) / target_rps A"
  using assms by (simp add: first_send_def send_interval_def field_simps max_def)

section \<open>Sums over counters\<close>

definition psum :: "('k \<Rightarrow> bool) \<Rightarrow> ('k \<times> int) list \<Rightarrow> int" where
  "psum P d = sum_list (map snd (filter (P \<circ> fst) d))"

lemma psum_simps [simp]: "psum P [] = 0" "psum P ((k, n) # d) = (if P k then n else 0) + psum P d"
  by (simp_all add: psum_def)

lemma psum_all: "psum (\<lambda>_. True) d = sum_list (map snd d)"
  by (simp add: psum_def o_def)

lemma psum_add_to: "distinct (map fst d) \<Longrightarrow> psum P (add_to k n d) = psum P d + (if P k then n else 0)"
proof (induction d)
  case (Cons kn d)
  then show ?case
    by (cases kn) (auto simp: add_to_def get0_def)
qed (simp add: add_to_def get0_def)

lemma distinct_add_to [simp]: "distinct (map fst d) \<Longrightarrow> distinct (map fst (add_to k n d))"
  by (simp add: add_to_def distinct_update)

lemma merge_counts_simps [simp]:
  "merge_counts [] d = d" "merge_counts ((k, n) # new) d = merge_counts new (add_to k n d)"
  by (simp_all add: merge_counts_def)

lemma distinct_merge [simp]: "distinct (map fst d) \<Longrightarrow> distinct (map fst (merge_counts new d))"
  by (induction new arbitrary: d) auto

lemma psum_merge: "distinct (map fst d) \<Longrightarrow> psum P (merge_counts new d) = psum P d + psum P new"
  by (induction new arbitrary: d) (auto simp: psum_add_to)

lemma merged_fold:
  "distinct (map fst d) \<Longrightarrow>
    distinct (map fst (fold (\<lambda>w. merge_counts (f (wr_counts w))) ws d)) \<and>
    psum P (fold (\<lambda>w. merge_counts (f (wr_counts w))) ws d) = psum P d + (\<Sum>w\<leftarrow>ws. psum P (f (wr_counts w)))"
  by (induction ws arbitrary: d) (auto simp: psum_merge)

lemma psum_merged: "psum P (merged f ws) = (\<Sum>w\<leftarrow>ws. psum P (f (wr_counts w)))"
  and distinct_merged: "distinct (map fst (merged f ws))"
  using merged_fold [of "[]" f ws P] by (auto simp: merged_def)

definition nonneg :: "('k \<times> int) list \<Rightarrow> bool" where
  "nonneg d \<longleftrightarrow> (\<forall>n \<in> set (map snd d). 0 \<le> n)"

lemma nonneg_simps [simp]: "nonneg []" "nonneg ((k, n) # d) \<longleftrightarrow> 0 \<le> n \<and> nonneg d"
  by (simp_all add: nonneg_def)

lemma nonneg_add_to [simp]:
  assumes "nonneg d" and "0 \<le> n"
  shows "nonneg (add_to k n d)"
proof -
  have "0 \<le> get0 d k" using assms(1) by (force simp: get0_def nonneg_def split: option.split dest: map_of_SomeD)
  moreover have "nonneg (AList.update k x d)" if "0 \<le> x" for x
    using assms(1) that by (induction d) (auto simp: nonneg_def)
  ultimately show ?thesis using assms(2) by (simp add: add_to_def)
qed

lemma nonneg_merge [simp]: "nonneg new \<Longrightarrow> nonneg d \<Longrightarrow> nonneg (merge_counts new d)"
  by (induction new arbitrary: d) auto

lemma nonneg_merged: "(\<And>w. w \<in> set ws \<Longrightarrow> nonneg (f (wr_counts w))) \<Longrightarrow> nonneg (merged f ws)"
proof -
  have "nonneg d \<Longrightarrow> (\<And>w. w \<in> set ws \<Longrightarrow> nonneg (f (wr_counts w))) \<Longrightarrow>
      nonneg (fold (\<lambda>w. merge_counts (f (wr_counts w))) ws d)" for d
    by (induction ws arbitrary: d) auto
  then show "(\<And>w. w \<in> set ws \<Longrightarrow> nonneg (f (wr_counts w))) \<Longrightarrow> nonneg (merged f ws)" by (simp add: merged_def)
qed

lemma psum_mono:
  assumes "\<And>k. P k \<Longrightarrow> Q k" and "nonneg d"
  shows "psum P d \<le> psum Q d"
  using assms(2) by (induction d) (auto simp: nonneg_def split_paired_all dest: assms(1))

lemma psum_nonneg: "nonneg d \<Longrightarrow> 0 \<le> psum P d"
  using psum_mono [of "\<lambda>_. False" P d] by (simp add: psum_def)

section \<open>A percentile is the nearest rank\<close>

lemma rank_scan_Some:
  assumes "rank_scan r s bs = Some l" and "sorted (map fst bs)" and "distinct (map fst bs)" and "nonneg bs" and "s < r"
  shows "r \<le> s + psum (\<lambda>k. k \<le> l) bs" and "s + psum (\<lambda>k. k < l) bs < r" and "l \<in> fst ` set bs"
proof -
  have "r \<le> s + psum (\<lambda>k. k \<le> l) bs \<and> s + psum (\<lambda>k. k < l) bs < r \<and> l \<in> fst ` set bs"
    using assms
  proof (induction bs arbitrary: s)
    case (Cons kn bs)
    obtain k n where kn: "kn = (k, n)" by (cases kn)
    show ?case
    proof (cases "r \<le> s + n")
      case True
      then have l: "l = k" using Cons.prems(1) by (simp add: kn)
      have "\<forall>j \<in> fst ` set bs. k < j" using Cons.prems(2,3) by (auto simp: kn order_less_le intro: rev_image_eqI)
      then have "filter ((\<lambda>j. j \<le> k) \<circ> fst) bs = []" "filter ((\<lambda>j. j < k) \<circ> fst) bs = []"
        by (auto simp: filter_empty_conv)
      then show ?thesis using True Cons.prems(5) by (simp add: kn l psum_def)
    next
      case False
      then have IH: "r \<le> s + n + psum (\<lambda>j. j \<le> l) bs \<and> s + n + psum (\<lambda>j. j < l) bs < r \<and> l \<in> fst ` set bs"
        using Cons.prems by (intro Cons.IH) (auto simp: kn nonneg_def)
      then have "k < l" using Cons.prems(2,3) by (auto simp: kn order_less_le)
      then show ?thesis using IH by (auto simp: kn)
    qed
  qed simp
  then show "r \<le> s + psum (\<lambda>k. k \<le> l) bs" "s + psum (\<lambda>k. k < l) bs < r" "l \<in> fst ` set bs" by auto
qed

lemma rank_scan_None: "rank_scan r s bs = None \<Longrightarrow> s < r \<Longrightarrow> s + psum (\<lambda>_. True) bs < r"
proof (induction bs arbitrary: s)
  case (Cons b bs)
  obtain l n where b: "b = (l, n)" by (cases b)
  with Cons.prems have "rank_scan r (s + n) bs = None" "s + n < r" by (auto split: if_splits)
  from Cons.IH [OF this] show ?case by (simp add: b)
qed simp

lemma psum_insort: "psum P (insort x bs) = psum P (x # bs)"
  by (induction bs) (auto simp: psum_def)

lemma psum_sort: "psum P (sort bs) = psum P bs"
  by (induction bs) (simp_all add: psum_insort split_paired_all)

lemma sorted_fst_sort: "sorted (map fst (sort (bs :: (int \<times> int) list)))"
proof -
  have "sorted xs \<Longrightarrow> sorted (map fst xs)" for xs :: "(int \<times> int) list"
    by (induction xs) (auto simp: less_eq_prod_def)
  then show ?thesis by simp
qed

text \<open>
  The percentile is a latency that occurred: at least the fraction of the requests took no longer, and
  less than the fraction (or than one request) were faster.
\<close>

lemma percentile_nearest_rank:
  assumes "percentile_from_buckets bs f = Some v" and "distinct (map fst bs)"
    and nonneg: "nonneg bs" and "0 < f" and "f \<le> 1"
  obtains l where "v = of_int l" and "l \<in> fst ` set bs"
    and "of_int (sum_list (map snd bs)) * f \<le> of_int (psum (\<lambda>k. k \<le> l) bs)"
    and "psum (\<lambda>k. k < l) bs < max 1 \<lceil>of_int (sum_list (map snd bs)) * f\<rceil>"
proof -
  let ?n = "sum_list (map snd bs)" let ?r = "max 1 \<lceil>of_int ?n * f\<rceil>"
  have n: "0 < ?n"
  proof -
    have "?n \<noteq> 0" using assms(1) by (auto simp: percentile_from_buckets_def)
    moreover have "0 \<le> ?n" using psum_nonneg [of bs "\<lambda>_. True", OF nonneg] by (simp add: psum_all)
    ultimately show ?thesis by linarith
  qed
  have "of_int ?n * f \<le> of_int ?n" using n \<open>f \<le> 1\<close> by (simp add: mult_left_le)
  then have r: "?r \<le> ?n" using n by (simp add: ceiling_le_iff)
  have "rank_scan ?r 0 (sort bs) \<noteq> None"
  proof
    assume "rank_scan ?r 0 (sort bs) = None"
    then have "psum (\<lambda>_. True) (sort bs) < ?r" using rank_scan_None [of ?r 0 "sort bs"] by simp
    then show False using r unfolding psum_sort by (simp add: psum_all)
  qed
  then obtain l where l: "rank_scan ?r 0 (sort bs) = Some l" by auto
  have v: "v = of_int l" using assms(1) l n by (simp add: percentile_from_buckets_def Let_def)
  have "distinct (map fst (sort bs))"
    using assms(2) by (simp add: distinct_map inj_on_def)
  note * = rank_scan_Some [OF l sorted_fst_sort this]
  have nn: "nonneg (sort bs)" using nonneg by (simp add: nonneg_def)
  have "of_int ?n * f \<le> of_int \<lceil>of_int ?n * f\<rceil>" by simp
  also have "\<dots> \<le> of_int (psum (\<lambda>k. k \<le> l) bs)"
    using *(1) [OF nn] unfolding of_int_le_iff by (simp add: psum_sort)
  finally show ?thesis
    using *(2,3) [OF nn] v by (intro that [of l]) (auto simp: psum_sort)
qed

section \<open>What the counters of a run say\<close>

text \<open>
  The books of a worker: every measured request is counted once in the histogram, the status counts and
  the requests; its events are accepted or failed; the accepted ones are those of the seconds.
\<close>

definition load_books :: "int \<Rightarrow> load_state \<Rightarrow> bool" where
  "load_books n st \<longleftrightarrow>
     psum (\<lambda>_. True) (ls_latency_buckets st) = ls_completed st \<and>
     psum (\<lambda>_. True) (ls_status_counts st) = ls_completed st \<and>
     psum (\<lambda>_. True) (ls_per_second st) = ls_accepted st \<and>
     ls_accepted st + ls_failed st = n * ls_completed st"

definition load_wf :: "load_state \<Rightarrow> bool" where
  "load_wf st \<longleftrightarrow>
     distinct (map fst (ls_latency_buckets st)) \<and> distinct (map fst (ls_status_counts st)) \<and> distinct (map fst (ls_per_second st)) \<and>
     nonneg (ls_latency_buckets st) \<and> 0 \<le> ls_completed st \<and> length (ls_error_samples st) \<le> 5"

lemma read_reply_samples:
  "read_reply A str rep samples = Inr (key, n, samples') \<Longrightarrow> length samples \<le> 5 \<Longrightarrow> length samples' \<le> 5"
  by (auto simp: read_reply_def bindE_Inr_iff split: load_reply.splits if_splits)

lemma send_one_wf:
  assumes "send_one A str m d st = Inr st'" and "load_wf st"
  shows "load_wf st'"
proof -
  obtain key n samples where rd: "read_reply A str (sd_reply d) (ls_error_samples st) = Inr (key, n, samples)"
    using assms(1) by (auto simp: send_one_def Let_def bindE_Inr_iff)
  then show ?thesis using assms read_reply_samples [OF rd]
    by (auto simp: send_one_def Let_def load_wf_def split: if_splits)
qed

lemma send_one_books:
  assumes "send_one A str m d st = Inr st'" and "load_wf st" and "load_books (events_per_request A) st"
  shows "load_books (events_per_request A) st'"
  using assms
  by (auto simp: send_one_def Let_def bindE_Inr_iff load_wf_def load_books_def psum_add_to algebra_simps split: if_splits)

lemma send_all_keeps:
  assumes "send_all A str m ds st = Inr st'" and "load_wf st" and "load_books (events_per_request A) st"
  shows "load_wf st' \<and> load_books (events_per_request A) st'"
  using assms
  by (induction ds arbitrary: st) (auto simp: bindE_Inr_iff dest: send_one_wf send_one_books)

lemma run_worker_sound:
  assumes "run_worker A str s ds fin = Inr w"
  shows "load_wf (wr_counts w)" and "load_books (events_per_request A) (wr_counts w)" and "0 < wr_elapsed w"
proof -
  have "load_wf new_load" "load_books n new_load" for n by (simp_all add: load_wf_def load_books_def new_load_def)
  then show "load_wf (wr_counts w)" "load_books (events_per_request A) (wr_counts w)" "0 < wr_elapsed w"
    using assms send_all_keeps [of A str "s + la_warmup A" ds new_load] by (auto simp: run_worker_def Let_def bindE_Inr_iff)
qed

text \<open>
  The result of any number of workers: every event of a measured request is accepted or failed, and the
  percentiles are about all measured requests.
\<close>

lemma run_counts_add_up:
  assumes "\<And>w. w \<in> set ws \<Longrightarrow> load_books n (wr_counts w)"
  shows "lr_accepted (aggregate_worker_results ws t) + lr_failed (aggregate_worker_results ws t) = n * lr_completed (aggregate_worker_results ws t)"
    and "psum (\<lambda>_. True) (lr_status_counts (aggregate_worker_results ws t)) = lr_completed (aggregate_worker_results ws t)"
    and "sum_list (map snd (merged ls_latency_buckets ws)) = lr_completed (aggregate_worker_results ws t)"
proof -
  let ?f = "\<lambda>g. \<Sum>w\<leftarrow>ws. g (wr_counts w)"
  show "lr_accepted (aggregate_worker_results ws t) + lr_failed (aggregate_worker_results ws t) = n * lr_completed (aggregate_worker_results ws t)"
    using assms by (simp add: aggregate_worker_results_def Let_def, induction ws) (auto simp: load_books_def algebra_simps)
  show "psum (\<lambda>_. True) (lr_status_counts (aggregate_worker_results ws t)) = lr_completed (aggregate_worker_results ws t)"
    using assms by (simp add: aggregate_worker_results_def Let_def psum_merged, induction ws) (auto simp: load_books_def)
  show "sum_list (map snd (merged ls_latency_buckets ws)) = lr_completed (aggregate_worker_results ws t)"
    using assms unfolding psum_all [symmetric]
    by (simp add: aggregate_worker_results_def Let_def psum_merged, induction ws) (auto simp: load_books_def)
qed

text \<open>
  A run that passes: nothing failed, and with a bound on the median at least half of the measured
  requests of all processes took no longer, with one on the 99th percentile at least 99 in a hundred.
\<close>

lemma passed_run_latencies:
  assumes "passes (aggregate_worker_results ws t) A"
    and ws: "\<And>w. w \<in> set ws \<Longrightarrow> load_wf (wr_counts w) \<and> load_books n (wr_counts w)"
  defines "completed \<equiv> \<Sum>w\<leftarrow>ws. ls_completed (wr_counts w)"
    and "in_time \<equiv> \<lambda>b. \<Sum>w\<leftarrow>ws. psum (\<lambda>l. of_int l \<le> b) (ls_latency_buckets (wr_counts w))"
  shows "(\<Sum>w\<leftarrow>ws. ls_failed (wr_counts w)) = 0"
    and "la_max_p50_ms A \<noteq> 0 \<Longrightarrow> 0 < completed \<and> of_int completed / 2 \<le> (of_int (in_time (la_max_p50_ms A)) :: rat)"
    and "la_max_p99_ms A \<noteq> 0 \<Longrightarrow> 0 < completed \<and> 99 / 100 * of_int completed \<le> (of_int (in_time (la_max_p99_ms A)) :: rat)"
proof -
  show "(\<Sum>w\<leftarrow>ws. ls_failed (wr_counts w)) = 0"
    using assms(1) by (auto simp: passes_def aggregate_worker_results_def Let_def split: if_splits)
  let ?b = "merged ls_latency_buckets ws"
  have nn: "nonneg ?b" by (rule nonneg_merged) (use ws load_wf_def in auto)
  have total: "sum_list (map snd ?b) = completed"
    using run_counts_add_up(3) [of ws n t] ws by (simp add: completed_def aggregate_worker_results_def Let_def)
  have bound: "0 < completed \<and> of_int completed * f \<le> (of_int (in_time b) :: rat)"
    if "\<not> over_limit b (percentile_from_buckets ?b f)" and "b \<noteq> 0" and f: "0 < f" "f \<le> 1" for b f
  proof -
    obtain v where v: "percentile_from_buckets ?b f = Some v" "v \<le> b"
      using \<open>\<not> over_limit b _\<close> \<open>b \<noteq> 0\<close> by (auto simp: over_limit_def split: option.splits)
    from percentile_nearest_rank [OF v(1) distinct_merged nn f] obtain l where
      l: "v = of_int l" "of_int completed * f \<le> (of_int (psum (\<lambda>k. k \<le> l) ?b) :: rat)" unfolding total by metis
    have "psum (\<lambda>k. k \<le> l) ?b \<le> psum (\<lambda>k. of_int k \<le> b) ?b"
    proof (rule psum_mono [OF _ nn])
      show "of_int k \<le> b" if "k \<le> l" for k
        by (rule order_trans [of _ "of_int l"]) (use that v(2) l(1) in simp_all)
    qed
    then have "psum (\<lambda>k. k \<le> l) ?b \<le> in_time b" by (simp add: in_time_def psum_merged)
    moreover have "completed \<noteq> 0" using v(1) by (auto simp: percentile_from_buckets_def total)
    moreover have "0 \<le> completed" using psum_nonneg [of ?b "\<lambda>_. True", OF nn] by (simp add: psum_all total)
    ultimately show ?thesis
      using order_trans [OF l(2), of "of_int (in_time b)"] by simp
  qed
  have "\<not> over_limit (la_max_p50_ms A) (percentile_from_buckets ?b (1 / 2))"
    and "\<not> over_limit (la_max_p99_ms A) (percentile_from_buckets ?b (99 / 100))"
    using assms(1) by (auto simp: passes_def aggregate_worker_results_def Let_def split: if_splits)
  then show "la_max_p50_ms A \<noteq> 0 \<Longrightarrow> 0 < completed \<and> of_int completed / 2 \<le> (of_int (in_time (la_max_p50_ms A)) :: rat)"
    and "la_max_p99_ms A \<noteq> 0 \<Longrightarrow> 0 < completed \<and> 99 / 100 * of_int completed \<le> (of_int (in_time (la_max_p99_ms A)) :: rat)"
    using bound [of "la_max_p50_ms A" "1 / 2"] bound [of "la_max_p99_ms A" "99 / 100"] by (auto simp: mult.commute)
qed

text \<open>Minutes at the end in which no request was started are not among the windows.\<close>

lemma stalled_minutes_not_seen:
  "minute_windows [(0, 5)] 180 = [5 / 60]" "minute_windows [(0, 5), (170, 0)] 180 = [5 / 60, 0, 0]"
  by code_simp+

text \<open>Refused answers of the warm-up are in the samples, although no failure is counted.\<close>

lemma warmup_refusals_sampled:
  "\<exists>st. send_all A str 300 [\<lparr>sd_started = 0, sd_latency = 1, sd_reply = LoadReply 503 None txt\<rparr>] new_load = Inr st
     \<and> ls_failed st = 0 \<and> length (ls_error_samples st) = 1"
  by (simp add: send_one_def read_reply_def error_detail_def new_load_def Let_def)

section \<open>What the projection says\<close>

text \<open>
  The projected bytes are proportional to the lifetime, and a benchmark is called safe exactly if its
  steady state fits in four fifths of the memory; with no accepted event the growth counts as that of one.
\<close>

lemma four_fifths:
  assumes "0 \<le> m"
  shows "c \<le> trunc_int (of_int m * (8 / 10)) \<longleftrightarrow> 10 * c \<le> 8 * m"
proof -
  have "c \<le> trunc_int (of_int m * (8 / 10)) \<longleftrightarrow> of_int (10 * c) \<le> (of_int (8 * m) :: rat)"
    using assms by (auto simp: trunc_int_def le_floor_iff)
  then show ?thesis by (simp only: of_int_le_iff)
qed

lemma capacity_of_exact:
  assumes "0 < n" and "0 \<le> b" and "0 \<le> m"
  shows "ca_benchmark_bytes (project_capacity x (x + b * n) n (of_int e) t p m) = b * e * t"
    and "ca_production_bytes (project_capacity x (x + b * n) n (of_int e) t p m) = b * e * p"
    and "ca_safe (project_capacity x (x + b * n) n (of_int e) t p m) \<longleftrightarrow> 10 * (b * e * t) \<le> 8 * m"
proof -
  have q: "of_int (max 0 (x + b * n - x)) / of_int (max 1 n) * of_int e * of_int u = (of_int (b * e * u) :: rat)" for u
    using assms(1,2) by (simp add: max_def)
  show "ca_benchmark_bytes (project_capacity x (x + b * n) n (of_int e) t p m) = b * e * t"
    and "ca_production_bytes (project_capacity x (x + b * n) n (of_int e) t p m) = b * e * p"
    unfolding project_capacity_def Let_def q trunc_int_of_int by simp_all
  show "ca_safe (project_capacity x (x + b * n) n (of_int e) t p m) \<longleftrightarrow> 10 * (b * e * t) \<le> 8 * m"
    unfolding project_capacity_def Let_def q trunc_int_of_int four_fifths [OF assms(3)] by simp
qed

end
