(* ===== verification/End_To_End.thy ===== *)
theory End_To_End
  imports Sdk_Client Api_Ingest
begin

text \<open>
  The Python client against the API: what a delivery with its retries comes to, through the endpoint,
  custody, the identity registry and Kafka. Each attempt of the client is a run of the endpoint in the world
  the attempts before it and other requests have left.

  The lemmas follow the registry entry of the event through the attempts; the theorem says that a delivery
  which ends within the life of a pending entry leaves at most one message that Kafka may hold.
\<close>

section \<open>The entry of one event\<close>

definition held_from :: "rat \<Rightarrow> slot \<Rightarrow> bool" where
  "held_from b v \<longleftrightarrow> (\<exists>c y. v = (Some c, Some y) \<and> b \<le> y)"

lemma held_from_pair [simp]: "held_from b (Some c, Some y) \<longleftrightarrow> b \<le> y"
  by (simp add: held_from_def)

lemma held_live: "held_from b (raw s k) \<Longrightarrow> now < b \<Longrightarrow> live now s k = raw s k \<and> fst (raw s k) \<noteq> None"
  by (auto simp: held_from_def live_def fresh_def)

lemma transition_held: "held_from b v \<Longrightarrow> b \<le> y \<Longrightarrow> held_from b (snd (transition_cell target y fp v))"
  by (auto simp: transition_cell_def)

lemma transition_uncertain: "fst v \<noteq> Some (entry ''accepted'' fp) \<Longrightarrow>
    fst (snd (transition_cell ''uncertain'' y fp v)) \<noteq> Some (entry ''accepted'' fp)"
  by (auto simp: transition_cell_def)

text \<open>What the registry steps for one id leave alone: the plain keys and the order of the sorted sets.\<close>

definition tidy :: "store \<Rightarrow> store \<Rightarrow> bool" where
  "tidy s s' \<longleftrightarrow> kv s' = kv s \<and> (zwf_all s \<longrightarrow> zwf_all s')"

lemma tidy_refl [simp]: "tidy s s"
  by (simp add: tidy_def)

lemma tidy_trans: "tidy s s1 \<Longrightarrow> tidy s1 s2 \<Longrightarrow> tidy s s2"
  by (simp add: tidy_def)

lemma kv_registry [simp]: "kv (drop_identity s g f) = kv s" "kv (put_identity s g f c y) = kv s" "kv (touch s g n) = kv s"
  by (simp_all add: drop_identity_def put_identity_def touch_def zrem_def hdel_def zadd_def hset_def put_hash_def expire_def)

lemma kv_drops [simp]: "kv (fold (\<lambda>f s. drop_identity s g f) fs s) = kv s"
  by (induction fs arbitrary: s) simp_all

lemma claim_tidy: "claim_ids E x [(e, fp)] w = (r, w1) \<Longrightarrow> tidy (reg w) (reg w1)"
  using batch_zwf [of "reg w" "ce_digest E" "x_tenant x" "now_sec E" "[(e, fp)]"]
  by (auto simp: claim_ids_def tidy_def event_identity_status_batch_def group_single claim_script_def claim_one_def Let_def
      split: if_splits prod.splits option.splits)

lemma transition_tidy: "transition_event_identities H s t now target [(e, fp)] = (n, s') \<Longrightarrow> tidy s s'"
  using transition_zwf [of s H t now target "[(e, fp)]"]
  by (auto simp: tidy_def transition_event_identities_def group_single transition_script_def transition_one_def Let_def
      split: if_splits)

text \<open>Recording an id whose entry lives on keeps it alive.\<close>

lemma remember_held:
  assumes "remember_ids E x [(e, fp)] w = (r, w1)" and "b \<le> of_int (now_sec E) + 120"
    and "held_from b (raw (reg w) (cell_of (ce_digest E) (x_tenant x) e))"
  shows "held_from b (raw (reg w1) (cell_of (ce_digest E) (x_tenant x) e)) \<and> tidy (reg w) (reg w1)"
proof -
  let ?k = "cell_of (ce_digest E) (x_tenant x) e"
  have "held_from b (raw s' ?k) \<and> tidy s s'"
    if "remember_attempts n (ce_digest E) s (x_tenant x) (now_sec E) [(e, fp)] up = (r, s')" and "held_from b (raw s ?k)"
    for n s up s'
    using that
  proof (induction n arbitrary: up)
    case (Suc n)
    show ?case
    proof (cases "up = [] \<or> hd up")
      case True
      then obtain m where tr: "transition_event_identities (ce_digest E) s (x_tenant x) (now_sec E) ''accepted'' [(e, fp)] = (m, s')"
        using Suc.prems by (auto split: prod.splits)
      have "b \<le> of_int (now_sec E + EVENT_ID_TTL_SECONDS)" using assms(2) by (simp add: EVENT_ID_TTL_SECONDS_def)
      then show ?thesis
        using transition_single(2) [OF tr, of ?k] transition_tidy [OF tr] transition_held [OF Suc.prems(2)] by simp
    qed (use Suc in simp)
  qed simp
  then show ?thesis
    using assms(1,3) by (auto simp: remember_ids_def remember_event_identities_def split: prod.splits)
qed

lemma mark_held:
  assumes "b \<le> of_int (now_sec E) + 120" and "held_from b (raw (reg w) (cell_of (ce_digest E) (x_tenant x) e))"
  shows "held_from b (raw (reg (mark_ids E x [(e, fp)] w)) (cell_of (ce_digest E) (x_tenant x) e))"
    and "tidy (reg w) (reg (mark_ids E x [(e, fp)] w))"
    and "fst (raw (reg w) (cell_of (ce_digest E) (x_tenant x) e)) \<noteq> Some (entry ''accepted'' fp) \<Longrightarrow>
      fst (raw (reg (mark_ids E x [(e, fp)] w)) (cell_of (ce_digest E) (x_tenant x) e)) \<noteq> Some (entry ''accepted'' fp)"
proof -
  let ?k = "cell_of (ce_digest E) (x_tenant x) e"
  obtain m s' where tr: "transition_event_identities (ce_digest E) (reg w) (x_tenant x) (now_sec E) ''uncertain'' [(e, fp)] = (m, s')"
    by fastforce
  have up: "b \<le> of_int (now_sec E + EVENT_ID_UNCERTAIN_TTL_SECONDS)" using assms(1) by (simp add: EVENT_ID_UNCERTAIN_TTL_SECONDS_def)
  have mark: "reg (mark_ids E x [(e, fp)] w) = (if ce_mark_up E then s' else reg w)"
    by (simp add: mark_ids_def mark_event_identities_uncertain_def tr)
  show "held_from b (raw (reg (mark_ids E x [(e, fp)] w)) ?k)"
    using transition_single(2) [OF tr, of ?k] transition_held [OF assms(2)] up assms(2) by (simp add: mark)
  show "tidy (reg w) (reg (mark_ids E x [(e, fp)] w))" using transition_tidy [OF tr] by (simp add: mark)
  show "fst (raw (reg w) ?k) \<noteq> Some (entry ''accepted'' fp) \<Longrightarrow>
      fst (raw (reg (mark_ids E x [(e, fp)] w)) ?k) \<noteq> Some (entry ''accepted'' fp)"
    using transition_single(2) [OF tr, of ?k] transition_uncertain by (simp add: mark)
qed

lemma release_slot:
  assumes "release_ids E x [(e, fp)] w = (r, w1)"
    and "raw (reg w) (cell_of (ce_digest E) (x_tenant x) e) = (Some (entry ''pending'' fp), Some y)"
  shows "raw (reg w1) (cell_of (ce_digest E) (x_tenant x) e) = (if ce_release_up E then (None, None) else (Some (entry ''pending'' fp), Some y))"
    and "tidy (reg w) (reg w1)"
proof -
  let ?w = "shard_name (ce_digest E) (x_tenant x) e"
  obtain b s1 where one: "release_one (bucket ?w) (0, ce_digest E e, fp) (reg w) = (b, s1)" by fastforce
  have w1: "reg w1 = (if ce_release_up E then s1 else reg w)"
    using assms(1) one by (auto simp: release_ids_def release_event_identities_def group_single release_script_def)
  have "raw s1 (cell_of (ce_digest E) (x_tenant x) e) = (None, None)" and "kv s1 = kv (reg w)"
    using one assms(2) by (auto simp: release_one_def Let_def raw_hget raw_drop cell_of_def split: if_splits)
  moreover have "zwf_all (reg w) \<Longrightarrow> zwf_all s1"
    using zwf_all_release [of "reg w" "bucket ?w" "(0, ce_digest E e, fp)"] one by simp
  ultimately show "raw (reg w1) (cell_of (ce_digest E) (x_tenant x) e) = (if ce_release_up E then (None, None) else (Some (entry ''pending'' fp), Some y))"
    and "tidy (reg w) (reg w1)"
    using assms(2) by (simp_all add: w1 tidy_def)
qed

text \<open>A claim: of a free id it makes a pending entry, of one that is held it changes nothing.\<close>

lemma claim_slot:
  assumes "claim_ids E x [(e, fp)] w = (Inr rs, w1)" and "zwf_all (reg w)"
  defines "k \<equiv> cell_of (ce_digest E) (x_tenant x) e" and "now \<equiv> of_int (now_sec E)"
  shows "fst (live now (reg w) k) = None \<Longrightarrow> hd rs = Some Owner \<and> raw (reg w1) k = (Some (entry ''pending'' fp), Some (now + 120))"
    and "fst (live now (reg w) k) = Some c \<Longrightarrow> hd rs = Some (classify c fp) \<and> raw (reg w1) k = live now (reg w) k"
proof -
  obtain s' where b: "event_identity_status_batch (ce_digest E) (reg w) (x_tenant x) (now_sec E) [(e, fp)] = (rs, s')"
    and w1: "w1 = w\<lparr>reg := s'\<rparr>"
    using assms(1) by (auto simp: claim_ids_def split: if_splits prod.splits)
  note C = single_claim_live [OF assms(2) b, folded k_def now_def]
  show "fst (live now (reg w) k) = None \<Longrightarrow> hd rs = Some Owner \<and> raw (reg w1) k = (Some (entry ''pending'' fp), Some (now + 120))"
    using C by (auto simp: claim_live_def w1 live_def fresh_def pending_until_def EVENT_ID_PENDING_TTL_SECONDS_def split: if_splits)
  show "fst (live now (reg w) k) = Some c \<Longrightarrow> hd rs = Some (classify c fp) \<and> raw (reg w1) k = live now (reg w) k"
  proof -
    assume some: "fst (live now (reg w) k) = Some c"
    then have "live now s' k = live now (reg w) k" "rs = [Some (classify c fp)]" using C by (simp_all add: claim_live_def)
    then show ?thesis using some fresh_idem [of now "raw s' k" c] by (simp add: w1 live_def)
  qed
qed

section \<open>One attempt at custody\<close>

text \<open>The messages about an event that Kafka holds or may hold, and those it has acknowledged.\<close>

definition may_hold :: "string \<Rightarrow> message \<Rightarrow> bool" where
  "may_hold e m \<longleftrightarrow> message_event m = Inr (JStr e) \<and> m_outcome m \<in> {Acked, Uncertain}"

definition possible :: "string \<Rightarrow> world \<Rightarrow> message list" where
  "possible e w = filter (may_hold e) (sent w)"

text \<open>
  How far an event has got, \<open>ps\<close> being what the attempts have added: nothing and its id free; nothing
  or a message in doubt and its id held, not as accepted; or an acknowledged message and its id held.
\<close>

definition progress :: "rat \<Rightarrow> rat \<Rightarrow> slot \<Rightarrow> string \<Rightarrow> message list \<Rightarrow> bool" where
  "progress now b v fp ps \<longleftrightarrow>
     ps = [] \<and> fst (fresh now v) = None
     \<or> held_from b v \<and> fst v \<noteq> Some (entry ''accepted'' fp) \<and> (ps = [] \<or> (\<exists>m. ps = [m] \<and> m_outcome m = Uncertain))
     \<or> held_from b v \<and> (\<exists>m. ps = [m] \<and> m_outcome m = Acked)"

definition success :: "custody_reply res \<Rightarrow> bool" where
  "success resp \<longleftrightarrow> (\<exists>r. resp = Inr r \<and> c_status r \<in> {''accepted'', ''quarantined''})"

lemma success_simps [simp]:
  "\<not> success (Inl err)" "success (Inr (final_reply su e))"
  "success (Inr (done_reply st e b)) \<longleftrightarrow> st \<in> {''accepted'', ''quarantined''}"
  "success (Inr (retry_reply st e b)) \<longleftrightarrow> st \<in> {''accepted'', ''quarantined''}"
  by (simp_all add: success_def final_reply_def done_reply_def retry_reply_def)

text \<open>The publication of an owned event, outcome by outcome.\<close>

lemma published_progress:
  assumes run: "accept_published E x p e fp su env w = (resp, w1)"
    and env: "build_envelope E x p = Inr (su, env)" "map_of p ''eventId'' = Some (JStr e)"
    and pend: "raw (reg w) (cell_of (ce_digest E) (x_tenant x) e) = (Some (entry ''pending'' fp), Some (of_int (now_sec E) + 120))"
    and b: "b \<le> of_int (now_sec E) + 120"
  shows "\<exists>ps. possible e w1 = possible e w @ ps \<and> tidy (reg w) (reg w1)
    \<and> progress now b (raw (reg w1) (cell_of (ce_digest E) (x_tenant x) e)) fp ps
    \<and> (success resp \<longrightarrow> (\<exists>m. ps = [m] \<and> m_outcome m = Acked))"
proof (cases "bindE (json_index (JObj p) ''customerId'') json_text")
  case (Inl er)
  then show ?thesis using run pend b by (intro exI [of _ "[]"]) (auto simp: accept_published_def progress_def)
next
  case (Inr key)
  let ?k = "cell_of (ce_digest E) (x_tenant x) e"
  define m where "m = \<lparr>m_topic = dest_topic x su, m_key = key, m_value = env, m_outcome = ce_outcome E 0\<rparr>"
  define w2 where "w2 = w\<lparr>sent := sent w @ [m]\<rparr>"
  have ev: "message_event m = Inr (JStr e)" using envelope_event [OF env] by (simp add: message_event_def m_def)
  have w2: "reg w2 = reg w" "possible e w2 = possible e w @ (if ce_outcome E 0 \<in> {Acked, Uncertain} then [m] else [])"
    by (auto simp: w2_def possible_def may_hold_def ev) (simp_all add: m_def)
  have held: "held_from b (raw (reg w2) ?k)" using pend b by (simp add: w2)
  have pub: "publish_with_ack w (dest_topic x su) key env (ce_outcome E 0)
      = ((case outcome_error (ce_outcome E 0) of None \<Rightarrow> Inr () | Some e \<Rightarrow> Inl e), w2)"
    by (simp add: publish_with_ack_def w2_def m_def)
  have same: "possible e w' = possible e w2" if "sent w' = sent w2" for w' using that by (simp add: possible_def)
  consider (acked) "ce_outcome E 0 = Acked" | (unsure) "ce_outcome E 0 = Uncertain"
    | (refused) "ce_outcome E 0 \<in> {Overloaded, Down}" by (cases "ce_outcome E 0") auto
  then show ?thesis
  proof cases
    case acked
    obtain ok w3 where rem: "remember_ids E x [(e, fp)] w2 = (ok, w3)" by fastforce
    note R = remember_held [OF rem b held] registry_steps_sent(2) [OF rem]
    note M = mark_held [OF b, of w3 x e fp] registry_steps_sent(3) [of E x "[(e, fp)]" w3]
    have w1: "w1 = (if ok then w3 else mark_ids E x [(e, fp)] w3)"
      using run acked rem Inr pub by (auto simp: accept_published_def outcome_error_def split: bool.splits)
    have "held_from b (raw (reg w1) ?k)" and "tidy (reg w) (reg w1)"
      using R(1) M(1,2) tidy_trans [of "reg w2" "reg w3"] w2(1) by (cases ok; simp add: w1)+
    moreover have "possible e w1 = possible e w2" by (rule same) (use R(2) M(4) in \<open>simp add: w1\<close>)
    ultimately show ?thesis using acked w2(2) by (intro exI [of _ "[m]"]) (simp add: progress_def m_def)
  next
    case unsure
    note M = mark_held [OF b held, of fp] registry_steps_sent(3) [of E x "[(e, fp)]" w2]
    have "w1 = mark_ids E x [(e, fp)] w2" "resp = Inr (retry_reply ''uncertain'' e True)"
      using run unsure Inr pub by (simp_all add: accept_published_def outcome_error_def)
    moreover from this have "possible e w1 = possible e w2" by (intro same) (simp add: M(4))
    ultimately show ?thesis using unsure M(1-3) w2 pend by (intro exI [of _ "[m]"]) (simp add: progress_def m_def)
  next
    case refused
    obtain u w3 where rel: "release_ids E x [(e, fp)] w2 = (u, w3)" by fastforce
    have "raw (reg w2) ?k = (Some (entry ''pending'' fp), Some (of_int (now_sec E) + 120))" using pend by (simp add: w2)
    note R = release_slot [OF rel this] registry_steps_sent(4) [OF rel]
    have "w1 = w3" "\<not> success resp"
      using run refused rel Inr pub by (auto simp: accept_published_def outcome_error_def split: sum.splits)
    moreover from this have "possible e w1 = possible e w2" by (intro same) (simp add: R(3))
    ultimately show ?thesis
      using refused R(1,2) w2 b by (intro exI [of _ "[]"]) (auto simp: progress_def fresh_def)
  qed
qed

lemma classify_accepted: "classify c fp = Same \<longleftrightarrow> c = entry ''accepted'' fp" "classify c fp \<noteq> Owner"
  by (auto simp: classify_def)

lemma custody_progress:
  assumes run: "custody_accept E x ev w = (resp, w1)" and fm: "x_on_down x = FailMode"
    and prep: "prepare_payload E (x_tenant x) (x_reservation x) ev = Inr (p, e, fp)"
    and zwf: "zwf_all (reg w)" and k: "k = cell_of (ce_digest E) (x_tenant x) e"
    and clock: "now \<le> of_int (now_sec E)" "of_int (now_sec E) < b" "b \<le> now + 120"
    and I: "progress now b (raw (reg w) k) fp ps"
  shows "\<exists>qs. possible e w1 = possible e w @ qs \<and> tidy (reg w) (reg w1) \<and> progress now b (raw (reg w1) k) fp (ps @ qs)
    \<and> (success resp \<longrightarrow> (\<exists>m. ps @ qs = [m] \<and> m_outcome m = Acked))"
proof -
  let ?now = "of_int (now_sec E)"
  obtain r wc where claim: "claim_ids E x [(e, fp)] w = (r, wc)" by fastforce
  note sc = registry_steps_sent(1) [OF claim] claim_tidy [OF claim]
  have pc: "possible e wc = possible e w" using sc by (simp add: possible_def)
  show ?thesis
  proof (cases r)
    case (Inl er)
    then have "resp = Inl er" "w1 = wc" "wc = w"
      using run prep claim by (auto simp: custody_accept_def accept_impl_def claim_ids_def split: if_splits prod.splits)
    then show ?thesis using I by (intro exI [of _ "[]"]) simp
  next
    case (Inr rs)
    note S = claim_slot [OF claim [unfolded Inr] zwf, folded k]
    show ?thesis
    proof (cases "fst (live ?now (reg w) k)")
      case (Some c)
      then have hd: "hd rs = Some (classify c fp)" and raw: "raw (reg wc) k = live ?now (reg w) k" using S(2) by auto
      have alive: "fst (fresh now (raw (reg w) k)) \<noteq> None"
        using Some clock(1) by (auto simp: live_def fresh_def split: if_splits option.splits)
      then have held: "held_from b (raw (reg w) k)" using I by (auto simp: progress_def)
      then have same: "raw (reg wc) k = raw (reg w) k" and c: "fst (raw (reg w) k) = Some c"
        using held_live [OF _ clock(2)] raw Some by auto
      have out: "resp = Inr (the (taken_reply (classify c fp) e))" "w1 = wc"
        using run prep claim Inr hd classify_accepted(2) [of c fp]
        by (auto simp: custody_accept_def accept_impl_def taken_reply_def split: id_state.splits)
      have "success resp \<longrightarrow> c = entry ''accepted'' fp"
        using out classify_accepted [of c fp] by (auto simp: taken_reply_def split: id_state.splits)
      then show ?thesis using I alive same c out(2) sc pc
        by (intro exI [of _ "[]"]) (auto simp: progress_def)
    next
      case None
      then have hd: "hd rs = Some Owner" and raw: "raw (reg wc) k = (Some (entry ''pending'' fp), Some (?now + 120))"
        using S(1) by auto
      have b: "b \<le> ?now + 120" using clock by linarith
      have ps: "ps = []"
        using I None held_live [OF _ clock(2), of "reg w" k] by (auto simp: progress_def)
      show ?thesis
      proof (cases "build_envelope E x p")
        case (Inl er)
        then have "w1 = wc" "\<not> success resp"
          using run prep claim Inr hd by (auto simp: custody_accept_def accept_impl_def taken_reply_def)
        then show ?thesis using ps raw b sc pc by (intro exI [of _ "[]"]) (auto simp: progress_def)
      next
        case (Inr se)
        obtain su env where se: "se = (su, env)" by fastforce
        have "accept_published E x p e fp su env wc = (resp, w1)"
          using run prep claim \<open>r = Inr rs\<close> hd Inr fm by (auto simp: custody_accept_def accept_impl_def taken_reply_def se)
        from published_progress [OF this Inr [unfolded se] prepared_event [OF prep] raw [unfolded k] b, of now]
        show ?thesis using ps pc sc tidy_trans k by auto
      qed
    qed
  qed
qed

section \<open>Attempts of a client\<close>

text \<open>
  What the attempts of one delivery meet: the settings of the service and the key of the client, the event
  as it is validated, and for each attempt the surroundings of custody, whether the queue has room, a fresh
  id, and what other requests do to the world before it.
\<close>

record delivery =
  dl_auth :: auth_env
  dl_digest :: digest
  dl_allowed :: "string list"
  dl_config :: ingest_config
  dl_key :: "string option"
  dl_input :: ingest_input
  dl_custody :: "nat \<Rightarrow> custody_env"
  dl_room :: "nat \<Rightarrow> bool"
  dl_uuid :: "nat \<Rightarrow> string"
  dl_between :: "nat \<Rightarrow> world \<Rightarrow> world"

definition api_attempt :: "delivery \<Rightarrow> nat \<Rightarrow> world \<Rightarrow> http_reply res \<times> world" where
  "api_attempt D i w = ingest_event (dl_auth D) (dl_digest D) (dl_allowed D) (dl_config D) (dl_custody D i) (dl_room D i)
     (dl_uuid D i) (dl_key D) (dl_input D) (dl_between D i w)"

primrec after_attempts :: "delivery \<Rightarrow> nat \<Rightarrow> world \<Rightarrow> world" where
  "after_attempts D 0 w = w"
| "after_attempts D (Suc i) w = snd (api_attempt D i (after_attempts D i w))"

text \<open>What the client sees of an answer: an error code, or a body; an exception of the endpoint is a 500.\<close>

definition wire_reply :: "http_reply res \<Rightarrow> http_result" where
  "wire_reply a = (case a of
     Inr r \<Rightarrow> if hr_code r < 400 then HttpReply (JObj [(''status'', JStr (hr_status r))]) else HttpStatus (hr_code r)
   | Inl (HTTPException n) \<Rightarrow> HttpStatus n
   | Inl _ \<Rightarrow> HttpStatus 500)"

definition attempt_result :: "delivery \<Rightarrow> world \<Rightarrow> nat \<Rightarrow> http_result" where
  "attempt_result D w i = wire_reply (fst (api_attempt D i (after_attempts D i w)))"

definition client_tenant :: "delivery \<Rightarrow> world \<Rightarrow> string option" where
  "client_tenant D w = resolve_tenant_from_key (dl_digest D) (reg w) (dl_key D)"

definition event_cell :: "delivery \<Rightarrow> world \<Rightarrow> string \<Rightarrow> cell_id" where
  "event_cell D w e = cell_of (ce_digest (dl_custody D 0)) (client_tenant D w) e"

text \<open>Other requests leave the entry of this event, its messages and the client's key alone.\<close>

definition undisturbed :: "delivery \<Rightarrow> string \<Rightarrow> bool" where
  "undisturbed D e \<longleftrightarrow> (\<forall>i w. client_tenant D (dl_between D i w) = client_tenant D w
     \<and> raw (reg (dl_between D i w)) (event_cell D w e) = raw (reg w) (event_cell D w e)
     \<and> (zwf_all (reg w) \<longrightarrow> zwf_all (reg (dl_between D i w)))
     \<and> possible e (dl_between D i w) = possible e w)"

text \<open>The attempts share their digest and are made within the two minutes after \<open>t0\<close>.\<close>

definition within_two_minutes :: "delivery \<Rightarrow> int \<Rightarrow> nat \<Rightarrow> bool" where
  "within_two_minutes D t0 n \<longleftrightarrow> (\<forall>i \<le> n. t0 \<le> now_sec (dl_custody D i) \<and> now_sec (dl_custody D i) < t0 + 120
     \<and> ce_digest (dl_custody D i) = ce_digest (dl_custody D 0) \<and> ce_canon (dl_custody D i) = ce_canon (dl_custody D 0))"

definition event_fp :: "delivery \<Rightarrow> string option \<Rightarrow> string \<Rightarrow> string" where
  "event_fp D tenant e = canonical_payload_hash (dl_custody D 0)
     (AList.update ''eventId'' (JStr e) (event_dict (dl_input D) (ok_or None (metadata_400 (dl_allowed D) (dl_input D))) [])) tenant"

lemma event_dict_own_id: "in_event i = Some e \<Longrightarrow> event_dict i meta u = event_dict i meta u'"
proof -
  assume e: "in_event i = Some e"
  have "map_of (case meta of None \<Rightarrow> dump_event i | Some m \<Rightarrow> AList.update ''metadata'' (metadata_json m) (dump_event i)) ''eventId'' \<noteq> None"
    by (simp add: update_conv' dump_event_id e split: option.split)
  then show ?thesis by (auto simp: event_dict_def Let_def)
qed

lemma prepared_own_id:
  assumes "map_of ev ''eventId'' = Some (JStr e)" and "e \<noteq> []"
  shows "\<exists>p. prepare_payload E t None ev = Inr (p, e, canonical_payload_hash E (AList.update ''eventId'' (JStr e) ev) t)"
  using assms by (simp add: prepare_payload_def resolve_custody_event_id_def truthy_def json_true_def json_text_def Let_def)

lemma tidy_tenant: "tidy (reg w) (reg w') \<Longrightarrow> client_tenant D w' = client_tenant D w"
proof -
  assume "tidy (reg w) (reg w')"
  then have "rget (reg w') = rget (reg w)" by (simp add: tidy_def rget_def fun_eq_iff)
  then show ?thesis by (simp add: client_tenant_def resolve_tenant_from_key_def Let_def split: option.split)
qed

text \<open>An attempt that reaches custody, and one that does not.\<close>

lemma attempt_cases:
  assumes "api_attempt D i w = (resp, w1)" and "in_event (dl_input D) = Some e"
  defines "w' \<equiv> dl_between D i w"
  obtains (refused) "w1 = w'" "\<And>r. resp = Inr r \<Longrightarrow> 400 \<le> hr_code r"
  | (custody) meta ctx resp' where "metadata_400 (dl_allowed D) (dl_input D) = Inr meta"
      and "x_tenant ctx = client_tenant D w'" and "x_on_down ctx = FailMode" and "x_reservation ctx = None"
      and "custody_accept (dl_custody D i) ctx (event_dict (dl_input D) meta []) w' = (resp', w1)"
      and "resp = ingest_answer resp'"
proof (cases "ingest_prepare (dl_auth D) (dl_digest D) (dl_allowed D) (dl_config D) (dl_uuid D i) (dl_key D) (dl_input D) (reg w')")
  case (Inl er)
  then show thesis using assms(1) by (intro refused) (auto simp: api_attempt_def ingest_event_def w'_def)
next
  case (Inr ec)
  then obtain meta key_id where meta: "metadata_400 (dl_allowed D) (dl_input D) = Inr meta"
    and ec: "ec = (event_dict (dl_input D) meta (dl_uuid D i), http_context (dl_config D) (client_tenant D w') key_id)"
    by (auto simp: ingest_prepare_def client_tenant_def)
  let ?ctx = "http_context (dl_config D) (client_tenant D w') key_id"
  have ctx: "x_tenant ?ctx = client_tenant D w'" "x_on_down ?ctx = FailMode" "x_reservation ?ctx = None"
    by (simp_all add: http_context_def)
  note own = event_dict_own_id [OF assms(2), of meta "dl_uuid D i" "[]"]
  have run: "(case batched_accept (dl_custody D i) (dl_room D i) (event_dict (dl_input D) meta []) ?ctx w' of
      (r, w1) \<Rightarrow> (ingest_answer r, w1)) = (resp, w1)"
    using assms(1) Inr by (simp add: api_attempt_def ingest_event_def ec own flip: w'_def)
  show thesis
  proof (cases "dl_room D i")
    case False
    with run show thesis by (intro refused) (auto simp: batched_accept_def ingest_answer_def http_error_def)
  next
    case True
    obtain resp' w2 where acc: "custody_accept (dl_custody D i) ?ctx (event_dict (dl_input D) meta []) w' = (resp', w2)" by fastforce
    have "custody_accept_many (dl_custody D i) ?ctx [event_dict (dl_input D) meta []] w' = (bindE resp' (\<lambda>r. Inr [r]), w2)"
      using accept_many_one [OF dump_customer ctx(2,3)] acc by simp
    then have "resp = ingest_answer resp'" "w1 = w2"
      using run True by (cases resp'; simp add: batched_accept_def)+
    with custody [OF meta ctx] acc show thesis by simp
  qed
qed

lemma answered_success:
  assumes "custody_accept E x ev w = (resp, w1)" and "x_on_down x = FailMode"
    and "prepare_payload E (x_tenant x) (x_reservation x) ev = Inr (p, e, fp)"
    and "ingest_answer resp = Inr r" and "hr_code r < 400"
  shows "success resp"
proof (cases resp)
  case (Inl er)
  then show ?thesis using assms(4,5) by (auto simp: ingest_answer_def http_error_def split: if_splits)
next
  case (Inr cr)
  then have "r = status_reply cr" using assms(4) by (simp add: ingest_answer_def)
  then have "c_status cr \<notin> {''pending'', ''conflict'', ''uncertain'', ''unavailable'', ''overloaded''}"
    using assms(5) by (auto simp: status_reply_def http_error_def Let_def split: if_splits)
  then show ?thesis
    using accept_fail_mode [OF assms(1) [unfolded custody_accept_def Inr] assms(2,3)] Inr by auto
qed

section \<open>A delivery with its retries\<close>

definition kept_up :: "delivery \<Rightarrow> string \<Rightarrow> int \<Rightarrow> world \<Rightarrow> message list \<Rightarrow> world \<Rightarrow> bool" where
  "kept_up D e t0 w ps w1 \<longleftrightarrow> possible e w1 = possible e w @ ps \<and> zwf_all (reg w1) \<and> client_tenant D w1 = client_tenant D w
     \<and> progress (of_int t0) (of_int t0 + 120) (raw (reg w1) (event_cell D w e)) (event_fp D (client_tenant D w) e) ps"

lemma attempt_keeps_up:
  assumes run: "api_attempt D i w1 = (resp, w2)" and I: "kept_up D e t0 w ps w1"
    and e: "in_event (dl_input D) = Some e" "e \<noteq> []"
    and clock: "within_two_minutes D t0 n" "i \<le> n" and quiet: "undisturbed D e"
  shows "\<exists>qs. kept_up D e t0 w (ps @ qs) w2
    \<and> (\<forall>r. resp = Inr r \<longrightarrow> hr_code r < 400 \<longrightarrow> (\<exists>m. ps @ qs = [m] \<and> m_outcome m = Acked))"
proof -
  let ?w = "dl_between D i w1" and ?t = "client_tenant D w" and ?E = "dl_custody D i"
  have same: "event_cell D w1 e = event_cell D w e" using I by (simp add: kept_up_def event_cell_def)
  have Q: "client_tenant D ?w = ?t" "raw (reg ?w) (event_cell D w e) = raw (reg w1) (event_cell D w e)"
      "zwf_all (reg ?w)" "possible e ?w = possible e w1"
    using quiet I by (auto simp: undisturbed_def kept_up_def simp flip: same)
  then have I': "kept_up D e t0 w ps ?w" using I by (simp add: kept_up_def)
  from run e(1) show ?thesis
  proof (cases rule: attempt_cases)
    case refused
    then show ?thesis using I' by (intro exI [of _ "[]"]) fastforce
  next
    case (custody meta ctx resp')
    have env: "ce_digest ?E = ce_digest (dl_custody D 0)" "ce_canon ?E = ce_canon (dl_custody D 0)"
        "t0 \<le> now_sec ?E" "now_sec ?E < t0 + 120" using clock unfolding within_two_minutes_def by blast+
    have t: "x_tenant ctx = ?t" using custody(2) Q(1) by simp
    obtain p where prep: "prepare_payload ?E (x_tenant ctx) (x_reservation ctx) (event_dict (dl_input D) meta [])
        = Inr (p, e, event_fp D ?t e)"
      using prepared_own_id [of "event_dict (dl_input D) meta []" e ?E ?t] e
      by (auto simp: event_dict_id custody(1,4) t event_fp_def canonical_payload_hash_def env)
    have k: "event_cell D w e = cell_of (ce_digest ?E) (x_tenant ctx) e" by (simp add: event_cell_def env t)
    have times: "of_int t0 \<le> (of_int (now_sec ?E) :: rat)" "of_int (now_sec ?E) < (of_int t0 + 120 :: rat)"
      using env(3,4) of_int_less_iff [of "now_sec ?E" "t0 + 120", where ?'a = rat] by simp_all
    from custody_progress [OF custody(5,3) prep Q(3) k times order_refl, of ps] I'
    obtain qs where P: "possible e w2 = possible e ?w @ qs" "tidy (reg ?w) (reg w2)"
        "progress (of_int t0) (of_int t0 + 120) (raw (reg w2) (event_cell D w e)) (event_fp D ?t e) (ps @ qs)"
        "success resp' \<Longrightarrow> \<exists>m. ps @ qs = [m] \<and> m_outcome m = Acked"
      by (auto simp: kept_up_def)
    have "kept_up D e t0 w (ps @ qs) w2"
      using P(1-3) I' tidy_tenant [OF P(2), of D] by (auto simp: kept_up_def tidy_def)
    moreover have "\<exists>m. ps @ qs = [m] \<and> m_outcome m = Acked" if "resp = Inr r" "hr_code r < 400" for r
      by (rule P(4), rule answered_success [OF custody(5,3) prep _ that(2)]) (use custody(6) that(1) in simp)
    ultimately show ?thesis by (intro exI [of _ qs] conjI allI impI)
  qed
qed

lemma attempts_keep_up:
  assumes "kept_up D e t0 w [] w" and "in_event (dl_input D) = Some e" "e \<noteq> []"
    and "within_two_minutes D t0 n" "undisturbed D e" and "j \<le> n + 1"
  shows "\<exists>ps. kept_up D e t0 w ps (after_attempts D j w)
    \<and> (0 < j \<longrightarrow> (\<exists>b. attempt_result D w (j - 1) = HttpReply b) \<longrightarrow> (\<exists>m. ps = [m] \<and> m_outcome m = Acked))"
  using assms(6)
proof (induction j)
  case 0
  then show ?case using assms(1) by auto
next
  case (Suc j)
  then obtain ps where I: "kept_up D e t0 w ps (after_attempts D j w)" by auto
  obtain resp w2 where run: "api_attempt D j (after_attempts D j w) = (resp, w2)" by fastforce
  have "j \<le> n" using Suc.prems by simp
  from attempt_keeps_up [OF run I assms(2-4) this assms(5)] show ?case
    by (fastforce simp: run attempt_result_def wire_reply_def split: sum.splits err.splits if_splits)
qed

text \<open>
  C3: a delivery is not counted twice. The client repeats an event under one id; whatever custody, Kafka,
  Redis and the queue do at each attempt, and whatever the client does with the answers, a delivery of a new
  event whose attempts fall within two minutes leaves at most one message of this event that Kafka holds or
  may hold; if the client is told that the event was taken there is exactly one, and Kafka has acknowledged it.
\<close>

theorem delivery_not_duplicated:
  assumes "send_event M (attempt_result D w) ev = (r, M', qs)"
    and "in_event (dl_input D) = Some (te_event_id ev)" "te_event_id ev \<noteq> []"
    and "zwf_all (reg w)" and "fst (live (of_int t0) (reg w) (event_cell D w (te_event_id ev))) = None"
    and "within_two_minutes D t0 (me_max_retries M)" and "undisturbed D (te_event_id ev)"
  shows "\<exists>ps. possible (te_event_id ev) (after_attempts D (length qs) w) = possible (te_event_id ev) w @ ps \<and> length ps \<le> 1
    \<and> (r = Inr () \<longrightarrow> (\<exists>m. ps = [m] \<and> m_outcome m = Acked))"
proof -
  obtain ok n where s: "send_attempts (me_max_retries M + 1) 0 (attempt_result D w) = (ok, n)" by fastforce
  note S = send_attempts_decided [OF s]
  have qs: "length qs = n" and r: "r = Inr () \<longleftrightarrow> ok" using assms(1) s by (auto simp: send_event_def Let_def split: if_splits)
  have "kept_up D (te_event_id ev) t0 w [] w" using assms(4,5) by (simp add: kept_up_def progress_def live_def)
  from attempts_keep_up [OF this assms(2,3,6,7), of n] S obtain ps where
    K: "kept_up D (te_event_id ev) t0 w ps (after_attempts D n w)"
    and ok: "(\<exists>b. attempt_result D w (n - 1) = HttpReply b) \<Longrightarrow> \<exists>m. ps = [m] \<and> m_outcome m = Acked" by auto
  have "length ps \<le> 1" using K by (auto simp: kept_up_def progress_def)
  then show ?thesis using K ok S by (intro exI [of _ ps]) (auto simp: kept_up_def qs r)
qed

section \<open>A concrete delivery\<close>

definition demo_delivery :: delivery where
  "demo_delivery = \<lparr>dl_auth = demo_auth, dl_digest = id, dl_allowed = [], dl_config = demo_config, dl_key = None,
     dl_input = demo_input, dl_custody = (\<lambda>_. demo_env Acked), dl_room = (\<lambda>_. True), dl_uuid = (\<lambda>_. []),
     dl_between = (\<lambda>_ w. w)\<rparr>"

theorem delivery_not_duplicated_witness:
  "\<exists>m. possible ''e1'' (after_attempts demo_delivery 1 demo_start) = [m] \<and> m_outcome m = Acked"
proof -
  define M where "M = new_meter ''http://api'' None JNull 2"
  define ev where "ev = tracked_event M \<lparr>sv_uuid = ''e1'', sv_now_ms = 0, sv_outs = (\<lambda>_. HttpFailure)\<rparr> default_track"
  obtain w1 where run: "api_attempt demo_delivery 0 demo_start = (Inr (status_reply (final_reply False ''e1'')), w1)"
    using demo_ingest by (auto simp: api_attempt_def demo_delivery_def)
  then have out: "attempt_result demo_delivery demo_start 0 = HttpReply (JObj [(''status'', JStr ''accepted'')])"
    by (simp add: attempt_result_def wire_reply_def status_reply_def final_reply_def done_reply_def Let_def)
  have id: "te_event_id ev = ''e1''" by (simp add: ev_def tracked_event_def)
  have snd: "send_event M (attempt_result demo_delivery demo_start) ev
      = (Inr (), M\<lparr>me_events_sent := 1\<rparr>, [http_json M ''POST'' ''/ingest'' (Some (JObj (event_to_dict ev))) []])"
  proof -
    have "send_attempts 3 0 (attempt_result demo_delivery demo_start) = (True, 1)" by (simp add: numeral_3_eq_3 out)
    then show ?thesis by (simp add: send_event_def M_def new_meter_def Let_def)
  qed
  have given: "in_event (dl_input demo_delivery) = Some (te_event_id ev)" "te_event_id ev \<noteq> []"
    by (simp_all add: demo_delivery_def demo_input_def id)
  have start: "zwf_all (reg demo_start)" "fst (live (of_int 0) (reg demo_start) k) = None" for k
    by (simp_all add: demo_start_def empty_registry live_def fresh_def)
  have calm: "within_two_minutes demo_delivery 0 (me_max_retries M)" "undisturbed demo_delivery (te_event_id ev)"
    by (simp_all add: within_two_minutes_def undisturbed_def demo_delivery_def demo_env_def now_sec_def)
  from delivery_not_duplicated [OF snd given start calm]
  have "\<exists>ps. possible ''e1'' (after_attempts demo_delivery 1 demo_start) = possible ''e1'' demo_start @ ps
      \<and> (\<exists>m. ps = [m] \<and> m_outcome m = Acked)" by (auto simp: id)
  then show ?thesis by (simp add: possible_def demo_start_def)
qed

end
