(* ===== verification/Demos.thy ===== *)
theory Demos
  imports Gateway_Runs Sdk_Streams
begin

text \<open>
  Three scripts of \<^verbatim>\<open>src/demos\<close> that check the running system from outside: \<^verbatim>\<open>quickstart.py\<close> (readiness, custody,
  projected usage), \<^verbatim>\<open>reserve_meter_kill_audit_demo.py\<close> (hold, kill, settlement, audit row) and
  \<^verbatim>\<open>path_activation_demo.py\<close> (the SDK's wrapper denies and kills). What a request comes to and what the
  clock shows at each turn of a loop are arguments, as are JSON parsing and printing.

  The lemmas show what a script that passes has seen, that a loop that waits ends at its deadline, that the demonstrations of
  the SDK pass on the model of the SDK, and that the kill message of the gateway's guard is what the
  script reads back from the stream.
\<close>

section \<open>Errors of a script\<close>

text \<open>
  Exceptions of the code; Python's \<open>decimal.InvalidOperation\<close>, which is no \<open>ValueError\<close>; a failed assertion; an
  \<open>httpx.HTTPError\<close>.
\<close>

datatype demo_error = Py err | InvalidOperation | AssertionError | HttpTrouble

type_synonym 'a script = "demo_error + 'a"

definition lift :: "'a res \<Rightarrow> 'a script" where
  "lift m = (case m of Inl e \<Rightarrow> Inl (Py e) | Inr v \<Rightarrow> Inr v)"

definition andThen :: "'a script \<Rightarrow> ('a \<Rightarrow> 'b script) \<Rightarrow> 'b script" where
  "andThen m f = (case m of Inl e \<Rightarrow> Inl e | Inr v \<Rightarrow> f v)"

definition assertE :: "bool \<Rightarrow> unit script" where
  "assertE b = (if b then Inr () else Inl AssertionError)"

lemma script_simps [simp]:
  "lift (Inl e) = Inl (Py e)" "lift (Inr v) = Inr v"
  "andThen (Inl x) f = Inl x" "andThen (Inr v) f = f v"
  "assertE b = Inr u \<longleftrightarrow> b"
  by (simp_all add: lift_def andThen_def assertE_def)

lemma lift_Inr [simp]: "lift m = Inr v \<longleftrightarrow> m = Inr v"
  by (cases m) simp_all

lemma andThen_InrE [elim!]:
  assumes "andThen m f = Inr w"
  obtains v where "m = Inr v" and "f v = Inr w"
  using assms by (cases m) auto

text \<open>\<open>==\<close> on JSON values, which compares numbers (and truth values) by value.\<close>

definition py_number :: "json \<Rightarrow> rat option" where
  "py_number j = (case j of JInt i \<Rightarrow> Some (of_int i) | JFlt q \<Rightarrow> Some q | JBool b \<Rightarrow> Some (if b then 1 else 0) | _ \<Rightarrow> None)"

definition py_same :: "json \<Rightarrow> json \<Rightarrow> bool" where
  "py_same a b = (case (py_number a, py_number b) of (Some x, Some y) \<Rightarrow> x = y | (None, None) \<Rightarrow> a = b | _ \<Rightarrow> False)"

section \<open>\<open>quickstart.py\<close>\<close>

text \<open>
  What opening a request comes to: an answer with its status and body (\<open>None\<close> when it is not
  JSON), an error status with its body, its text and its reason, or no connection.
\<close>

datatype opened = Opened nat "json option" | Refused nat "json option" string string | NoConnection

datatype turn = Got nat json | Lost | Broke err

definition request_turn :: "opened \<Rightarrow> turn" where
  "request_turn w = (case w of
     Opened status body \<Rightarrow> (case body of Some j \<Rightarrow> Got status j | None \<Rightarrow> Broke ValueError)
   | Refused code body txt reason \<Rightarrow>
       Got code (case body of Some j \<Rightarrow> j
         | None \<Rightarrow> JObj [(''detail'', JStr (if take 500 txt \<noteq> [] then take 500 txt else reason))])
   | NoConnection \<Rightarrow> Lost)"

definition require_status :: "nat \<Rightarrow> nat list \<Rightarrow> nat list \<Rightarrow> bool script" where
  "require_status status success pending =
     (if status \<in> set success then Inr True else if status \<in> set pending then Inr False else Inl (Py RuntimeError))"

text \<open>
  The loop: each turn is a request and the clock after it. \<open>None\<close> while the turns given end before the loop does.
\<close>

fun poll :: "rat \<Rightarrow> (nat \<Rightarrow> json \<Rightarrow> bool script) \<Rightarrow> (opened \<times> rat) list \<Rightarrow> json script option" where
  "poll deadline is_done [] = None"
| "poll deadline is_done ((w, now) # turns) =
     (case request_turn w of
        Broke e \<Rightarrow> Some (Inl (Py e))
      | Lost \<Rightarrow> if now \<ge> deadline then Some (Inl (Py RuntimeError)) else poll deadline is_done turns
      | Got status body \<Rightarrow>
          (case is_done status body of
             Inl e \<Rightarrow> Some (Inl e)
           | Inr True \<Rightarrow> Some (Inr body)
           | Inr False \<Rightarrow> if now \<ge> deadline then Some (Inl (Py RuntimeError)) else poll deadline is_done turns))"

definition quick_event :: "string \<Rightarrow> string \<Rightarrow> (string \<times> json) list" where
  "quick_event event_id customer_id =
     [(''eventId'', JStr event_id), (''customerId'', JStr customer_id), (''modelId'', JStr ''gpt-4o-mini''),
      (''inputTokens'', JInt 1200), (''outputTokens'', JInt 400)]"

definition quick_expected :: "string \<Rightarrow> (string \<times> json) list" where
  "quick_expected customer_id =
     [(''customer_id'', JStr customer_id), (''event_count'', JInt 1), (''input_tokens'', JInt 1200),
      (''output_tokens'', JInt 400), (''total_tokens'', JInt 1600)]"

text \<open>\<open>Decimal(str(value))\<close>.\<close>

definition decimal_of :: "json \<Rightarrow> rat script" where
  "decimal_of j = (case j of JInt i \<Rightarrow> Inr (of_int i) | JFlt q \<Rightarrow> Inr q
     | JStr t \<Rightarrow> (case parse_float t of Some q \<Rightarrow> Inr q | None \<Rightarrow> Inl InvalidOperation)
     | _ \<Rightarrow> Inl InvalidOperation)"

fun all_equal :: "json \<Rightarrow> (string \<times> json) list \<Rightarrow> bool script" where
  "all_equal body [] = Inr True"
| "all_equal body ((k, v) # rest) =
     andThen (lift (json_get body k JNull)) (\<lambda>x. if py_same x v then all_equal body rest else Inr False)"

definition projected :: "string \<Rightarrow> string \<Rightarrow> nat \<Rightarrow> json \<Rightarrow> bool script" where
  "projected customer_id expected_cost status body =
     andThen (require_status status [200] [404, 503]) (\<lambda>ready.
       if \<not> ready then Inr False
       else andThen (all_equal body (quick_expected customer_id)) (\<lambda>eq.
              if \<not> eq then Inr False
              else andThen (lift (json_get body ''cost_usd'' (JInt (- 1)))) (\<lambda>c.
                   andThen (decimal_of c) (\<lambda>cost.
                   andThen (decimal_of (JStr expected_cost)) (\<lambda>wanted. Inr (cost = wanted))))))"

record quick_io =
  qi_customer :: string
  qi_event :: string
  qi_timeout :: rat
  qi_expected_cost :: string
  qi_ready :: "rat \<times> (opened \<times> rat) list"
  qi_custody :: "rat \<times> (opened \<times> rat) list"
  qi_usage :: "rat \<times> (opened \<times> rat) list"

definition receipt_ok :: "string \<Rightarrow> json \<Rightarrow> bool script" where
  "receipt_ok event_id receipt =
     andThen (lift (json_get receipt ''status'' JNull)) (\<lambda>s.
       if s \<noteq> JStr ''accepted'' then Inr False
       else andThen (lift (json_get receipt ''eventId'' JNull)) (\<lambda>e. Inr (e = JStr event_id)))"

definition poll_from :: "quick_io \<Rightarrow> rat \<times> (opened \<times> rat) list \<Rightarrow> (nat \<Rightarrow> json \<Rightarrow> bool script) \<Rightarrow> json script option" where
  "poll_from Q io is_done = poll (fst io + qi_timeout Q) is_done (snd io)"

definition quick_run :: "quick_io \<Rightarrow> json script option" where
  "quick_run Q =
     (case poll_from Q (qi_ready Q) (\<lambda>s b. require_status s [200] [503]) of
        Some (Inr _) \<Rightarrow>
          (case poll_from Q (qi_custody Q) (\<lambda>s b. require_status s [202] [429, 503]) of
             Some (Inr receipt) \<Rightarrow>
               (case receipt_ok (qi_event Q) receipt of
                  Inl e \<Rightarrow> Some (Inl e)
                | Inr False \<Rightarrow> Some (Inl (Py RuntimeError))
                | Inr True \<Rightarrow> poll_from Q (qi_usage Q) (projected (qi_customer Q) (qi_expected_cost Q)))
           | stopped \<Rightarrow> stopped)
      | stopped \<Rightarrow> stopped)"

text \<open>The exit code; an exception that is not caught ends the process with its trace.\<close>

definition quick_main :: "quick_io \<Rightarrow> nat script option" where
  "quick_main Q =
     (case quick_run Q of
        None \<Rightarrow> None
      | Some (Inr _) \<Rightarrow> Some (Inr 0)
      | Some (Inl e) \<Rightarrow> if e \<in> {Py RuntimeError, Py ValueError} then Some (Inr 1) else Some (Inl e))"

section \<open>Quickstart: what a pass means\<close>

lemma poll_accepts:
  assumes "poll deadline is_done turns = Some (Inr body)"
  shows "\<exists>pre w now post status. turns = pre @ (w, now) # post \<and> request_turn w = Got status body
    \<and> is_done status body = Inr True \<and> (\<forall>(v, t) \<in> set pre. t < deadline)"
  using assms
proof (induction turns)
  case (Cons wn turns)
  obtain w now where wn: "wn = (w, now)" by fastforce
  show ?case
  proof (cases "now < deadline \<and> poll deadline is_done turns = Some (Inr body)")
    case True
    then obtain pre v t post status where "turns = pre @ (v, t) # post" "request_turn v = Got status body"
      "is_done status body = Inr True" "\<forall>(v, t) \<in> set pre. t < deadline"
      using Cons.IH by blast
    with True wn show ?thesis by (intro exI [of _ "wn # pre"]) auto
  next
    case False
    with Cons.prems wn obtain status where "request_turn w = Got status body" "is_done status body = Inr True"
      by (auto split: turn.splits sum.splits bool.splits if_splits)
    with wn show ?thesis by (intro exI [of _ "[]"]) auto
  qed
qed simp

lemma poll_ends:
  assumes "(w, now) \<in> set turns" and "now \<ge> deadline"
  shows "poll deadline is_done turns \<noteq> None"
  using assms(1)
proof (induction turns)
  case (Cons x turns)
  then show ?case
    using assms(2) by (cases x) (auto split: turn.splits sum.splits bool.splits)
qed simp

definition usage_exact :: "string \<Rightarrow> string \<Rightarrow> json \<Rightarrow> bool" where
  "usage_exact customer_id expected_cost usage \<longleftrightarrow>
     (\<forall>(k, v) \<in> set (quick_expected customer_id). \<exists>x. json_get usage k JNull = Inr x \<and> py_same x v)
     \<and> (\<exists>c cost. json_get usage ''cost_usd'' (JInt (- 1)) = Inr c \<and> decimal_of c = Inr cost
          \<and> decimal_of (JStr expected_cost) = Inr cost)"

lemma all_equal_True:
  "all_equal body kvs = Inr True \<Longrightarrow> \<forall>(k, v) \<in> set kvs. \<exists>x. json_get body k JNull = Inr x \<and> py_same x v"
proof (induction kvs)
  case (Cons kv kvs)
  then show ?case by (cases kv) (fastforce split: if_splits)
qed simp

lemma projected_True:
  "projected c e status body = Inr True \<Longrightarrow> status = 200 \<and> usage_exact c e body"
  unfolding usage_exact_def
  by (auto simp: projected_def require_status_def split: if_splits dest!: all_equal_True)

lemma require_True: "require_status s ok pend = Inr True \<Longrightarrow> s \<in> set ok"
  by (auto simp: require_status_def split: if_splits)

text \<open>
  What a pass of the quickstart means. If the script returns, a readiness request was answered 200, a
  request with the event was answered 202, accepted under the event's own id, and the usage it returns came with 200 and is exactly one
  event of 1200 and 400 tokens of that customer at the expected cost; no earlier request of a loop was at or
  after its deadline.
\<close>

theorem quickstart_pass_exact:
  assumes "quick_run Q = Some (Inr usage)"
  shows "(\<exists>(w, t) \<in> set (snd (qi_ready Q)). \<exists>b. request_turn w = Got 200 b)
    \<and> (\<exists>(w, t) \<in> set (snd (qi_custody Q)). \<exists>receipt. request_turn w = Got 202 receipt \<and> receipt_ok (qi_event Q) receipt = Inr True)
    \<and> (\<exists>pre w t post. snd (qi_usage Q) = pre @ (w, t) # post \<and> request_turn w = Got 200 usage
         \<and> (\<forall>(v, u) \<in> set pre. u < fst (qi_usage Q) + qi_timeout Q))
    \<and> usage_exact (qi_customer Q) (qi_expected_cost Q) usage"
proof -
  obtain b receipt where ready: "poll_from Q (qi_ready Q) (\<lambda>s b. require_status s [200] [503]) = Some (Inr b)"
    and custody: "poll_from Q (qi_custody Q) (\<lambda>s b. require_status s [202] [429, 503]) = Some (Inr receipt)"
    and ok: "receipt_ok (qi_event Q) receipt = Inr True"
    and usage: "poll_from Q (qi_usage Q) (projected (qi_customer Q) (qi_expected_cost Q)) = Some (Inr usage)"
    using assms by (auto simp: quick_run_def split: option.splits sum.splits bool.splits)
  from poll_accepts [OF ready [unfolded poll_from_def]]
  have 1: "\<exists>(w, t) \<in> set (snd (qi_ready Q)). \<exists>b. request_turn w = Got 200 b"
    by (auto dest!: require_True)
  from poll_accepts [OF custody [unfolded poll_from_def]]
  have 2: "\<exists>(w, t) \<in> set (snd (qi_custody Q)). request_turn w = Got 202 receipt"
    by (auto dest!: require_True)
  from poll_accepts [OF usage [unfolded poll_from_def]]
  obtain pre w t post status where 3: "snd (qi_usage Q) = pre @ (w, t) # post" "request_turn w = Got status usage"
    "projected (qi_customer Q) (qi_expected_cost Q) status usage = Inr True"
    "\<forall>(v, u) \<in> set pre. u < fst (qi_usage Q) + qi_timeout Q" by blast
  from projected_True [OF 3(3)] 1 2 3(1,2,4) ok show ?thesis by (intro conjI) blast+
qed

section \<open>\<open>reserve_meter_kill_audit_demo.py\<close>\<close>

text \<open>The upstream the script itself serves: the second chunk breaks the token limit of the request.\<close>

definition proof_chunk :: "string \<Rightarrow> json" where
  "proof_chunk content =
     JObj [(''id'', JStr ''proof''), (''choices'', JArr [JObj [(''delta'', JObj [(''content'', JStr content)])]])]"

definition mock_upstream :: "(json \<Rightarrow> string) \<Rightarrow> string \<Rightarrow> upstream" where
  "mock_upstream dumps path =
     (if path \<noteq> ''/v1/chat/completions'' then Answered 404 None [] None
      else Answered 200 None (map (\<lambda>c. ''data: '' @ dumps c @ [LF, LF])
             [proof_chunk ''ok'', proof_chunk (replicate 1200 (CHR ''x''))]) None)"

text \<open>The loop: the clock before each turn and what the probe gives then.\<close>

fun wait_for :: "rat \<Rightarrow> ('a \<Rightarrow> bool script) \<Rightarrow> (rat \<times> 'a script) list \<Rightarrow> 'a script option" where
  "wait_for deadline accept [] = None"
| "wait_for deadline accept ((now, probe) # turns) =
     (if \<not> now < deadline then Some (Inl (Py RuntimeError))
      else (case andThen probe (\<lambda>v. andThen (accept v) (\<lambda>b. Inr (v, b))) of
              Inr (v, True) \<Rightarrow> Some (Inr v)
            | Inr (v, False) \<Rightarrow> wait_for deadline accept turns
            | Inl e \<Rightarrow> if e \<in> {HttpTrouble, Py ValueError} then wait_for deadline accept turns else Some (Inl e)))"

text \<open>An answer: its status, its body as JSON and as text; or none.\<close>

datatype web = Web nat "json option" string | NoAnswer

definition web_get :: "web \<Rightarrow> (nat \<times> json option \<times> string) script" where
  "web_get w = (case w of Web s b t \<Rightarrow> Inr (s, b, t) | NoAnswer \<Rightarrow> Inl HttpTrouble)"

definition is_success :: "nat \<Rightarrow> bool" where
  "is_success s \<longleftrightarrow> 200 \<le> s \<and> s \<le> 299"

definition api_json :: "web \<Rightarrow> json script" where
  "api_json w = andThen (web_get w) (\<lambda>(s, b, t).
     if \<not> is_success s then Inl (Py RuntimeError)
     else (case b of Some j \<Rightarrow> Inr j | None \<Rightarrow> Inl (Py ValueError)))"

text \<open>\<open>"error" in payload\<close>.\<close>

definition has_error :: "json \<Rightarrow> bool res" where
  "has_error payload = (case payload of
     JObj kvs \<Rightarrow> Inr (map_of kvs ''error'' \<noteq> None) | JArr xs \<Rightarrow> Inr (JStr ''error'' \<in> set xs)
   | JStr t \<Rightarrow> Inr (sublist ''error'' t) | _ \<Rightarrow> Inl TypeError)"

fun parse_sse_error :: "(string \<Rightarrow> json option) \<Rightarrow> string list \<Rightarrow> json script" where
  "parse_sse_error loads [] = Inl (Py RuntimeError)"
| "parse_sse_error loads (line # lines) =
     (if \<not> startswith line ''data:'' \<or> py_strip line = ''data: [DONE]'' then parse_sse_error loads lines
      else (case loads (py_strip (drop 5 line)) of
              None \<Rightarrow> Inl (Py ValueError)
            | Some payload \<Rightarrow> andThen (lift (has_error payload)) (\<lambda>b.
                if b then lift (json_index payload ''error'') else parse_sse_error loads lines)))"

definition clickhouse_sql :: "string \<Rightarrow> string" where
  "clickhouse_sql customer_id =
     ''SELECT event_id, customer_id, model_id, input_tokens, output_tokens, metadata ''
     @ ''FROM fluxmeter.raw_events FINAL ''
     @ ''WHERE customer_id = '' @ [CHR 0x27] @ customer_id @ [CHR 0x27] @ '' ORDER BY ingested_at DESC LIMIT 1 FORMAT JSONEachRow''"

definition clickhouse_row :: "(string \<Rightarrow> json option) \<Rightarrow> web \<Rightarrow> json script" where
  "clickhouse_row loads w = andThen (web_get w) (\<lambda>(s, b, t).
     if \<not> is_success s then Inl HttpTrouble
     else if py_strip t = [] then Inr JNull
     else (case loads (py_strip t) of Some j \<Rightarrow> Inr j | None \<Rightarrow> Inl (Py ValueError)))"

text \<open>Python's \<open>>\<close> between JSON values, one of them a number; a number shown with six decimals.\<close>

definition py_greater :: "json \<Rightarrow> json \<Rightarrow> bool script" where
  "py_greater a b = (case (py_number a, py_number b) of (Some x, Some y) \<Rightarrow> Inr (y < x) | _ \<Rightarrow> Inl (Py TypeError))"

definition shown :: "json \<Rightarrow> unit script" where
  "shown j = (case j of JStr _ \<Rightarrow> Inl (Py ValueError) | _ \<Rightarrow> if py_number j = None then Inl (Py TypeError) else Inr ())"

text \<open>
  What the script meets: the turns of each loop with its deadline, and the answers of the single requests. The
  stream's headers and lines are there if its status is a success.
\<close>

record proof_io =
  po_customer :: string
  po_loads :: "string \<Rightarrow> json option"
  po_api_ready :: "rat \<times> (rat \<times> web) list"
  po_gateway_ready :: "rat \<times> (rat \<times> web) list"
  po_clickhouse_ready :: "rat \<times> (rat \<times> web) list"
  po_budget :: web
  po_stream_status :: "nat option"
  po_reservation_id :: "string option"
  po_reserved_usd :: string
  po_held :: web
  po_lines :: "string list"
  po_watermark :: web
  po_settled :: "rat \<times> (rat \<times> web) list"
  po_audit :: "rat \<times> (rat \<times> web) list"

definition wait_web :: "(web \<Rightarrow> 'a script) \<Rightarrow> ('a \<Rightarrow> bool script) \<Rightarrow> rat \<times> (rat \<times> web) list \<Rightarrow> 'a script option" where
  "wait_web probe accept io = wait_for (fst io) accept (map (\<lambda>(now, w). (now, probe w)) (snd io))"

definition budget_created :: "json \<Rightarrow> unit script" where
  "budget_created budget = andThen (lift (json_index budget ''held_usd'')) (\<lambda>h. assertE (py_same h (JInt 0)))"

text \<open>The hold of the stream: its headers, and the budget while it runs.\<close>

definition proof_reserved :: "proof_io \<Rightarrow> unit script" where
  "proof_reserved P =
     andThen (case po_stream_status P of None \<Rightarrow> Inl HttpTrouble | Some s \<Rightarrow> if is_success s then Inr () else Inl HttpTrouble) (\<lambda>_.
     andThen (case parse_float (po_reserved_usd P) of None \<Rightarrow> Inl (Py ValueError) | Some q \<Rightarrow> Inr q) (\<lambda>reserved.
     andThen (assertE (truthy (po_reservation_id P) \<noteq> None \<and> reserved > 0)) (\<lambda>_.
     andThen (api_json (po_held P)) (\<lambda>held.
     andThen (lift (json_index held ''held_usd'')) (\<lambda>h.
     andThen (py_greater h (JInt 0)) (\<lambda>b.
     andThen (assertE b) (\<lambda>_. shown h)))))))"

text \<open>The kill: its details, with more metered than held.\<close>

definition proof_killed :: "proof_io \<Rightarrow> json script" where
  "proof_killed P =
     andThen (parse_sse_error (po_loads P) (po_lines P)) (\<lambda>error.
     andThen (lift (json_get error ''fluxmeter'' JNull)) (\<lambda>d.
     andThen (lift (json_get (json_or d (JObj [])) ''output_tokens'' (JInt 0))) (\<lambda>out.
     andThen (py_greater out (JInt 0)) (\<lambda>b1.
     andThen (assertE b1) (\<lambda>_.
     andThen (lift (json_get (json_or d (JObj [])) ''metered_usd'' (JInt 0))) (\<lambda>m.
     andThen (lift (json_get (json_or d (JObj [])) ''reserved_usd'' (JInt 0))) (\<lambda>r.
     andThen (py_greater m r) (\<lambda>b2.
     andThen (assertE b2) (\<lambda>_.
     andThen (lift (json_index (json_or d (JObj [])) ''metered_usd'')) (\<lambda>m'.
     andThen (lift (json_index (json_or d (JObj [])) ''reserved_usd'')) (\<lambda>r'.
     andThen (lift (json_get error ''code'' JNull)) (\<lambda>code.
     andThen (assertE (code = JStr ''stream_killed'')) (\<lambda>_. Inr (json_or d (JObj [])))))))))))))))"

definition is_settled :: "json \<Rightarrow> bool script" where
  "is_settled row =
     andThen (lift (json_index row ''held_usd'')) (\<lambda>h.
       if \<not> py_same h (JInt 0) then Inr False
       else andThen (lift (json_index row ''total_spent_usd'')) (\<lambda>x. py_greater x (JInt 0)))"

definition has_row :: "json \<Rightarrow> bool script" where
  "has_row row = (if \<not> json_true row then Inr False
     else andThen (lift (json_get row ''event_id'' JNull)) (\<lambda>e. Inr (json_true e)))"

text \<open>The audit row: the metadata as JSON text, and the tokens of the kill.\<close>

definition audited :: "(string \<Rightarrow> json option) \<Rightarrow> json \<Rightarrow> json \<Rightarrow> unit script" where
  "audited loads detail audit =
     andThen (lift (json_index audit ''metadata'')) (\<lambda>m.
     andThen (case m of JStr t \<Rightarrow> (case loads t of Some j \<Rightarrow> Inr j | None \<Rightarrow> Inl (Py ValueError)) | _ \<Rightarrow> Inl (Py TypeError)) (\<lambda>meta.
     andThen (lift (json_get meta ''_stream_killed'' JNull)) (\<lambda>k.
     andThen (assertE (k = JStr ''true'')) (\<lambda>_.
     andThen (lift (json_index audit ''output_tokens'')) (\<lambda>a.
     andThen (lift (json_index detail ''output_tokens'')) (\<lambda>d. assertE (py_same a d)))))))"

definition proof_settled :: "json \<Rightarrow> unit script" where
  "proof_settled row =
     andThen (lift (json_index row ''total_spent_usd'')) (\<lambda>x. andThen (shown x) (\<lambda>_.
     andThen (lift (json_index row ''balance_usd'')) shown))"

definition proof_tail :: "proof_io \<Rightarrow> unit script option" where
  "proof_tail P =
     (case andThen (api_json (po_budget P)) (\<lambda>b. andThen (budget_created b) (\<lambda>_. andThen (proof_reserved P) (\<lambda>_. proof_killed P))) of
        Inl e \<Rightarrow> Some (Inl e)
      | Inr detail \<Rightarrow>
          (case api_json (po_watermark P) of
             Inl e \<Rightarrow> Some (Inl e)
           | Inr _ \<Rightarrow>
               (case wait_web api_json is_settled (po_settled P) of
                  None \<Rightarrow> None
                | Some (Inl e) \<Rightarrow> Some (Inl e)
                | Some (Inr row) \<Rightarrow>
                    (case proof_settled row of
                       Inl e \<Rightarrow> Some (Inl e)
                     | Inr _ \<Rightarrow>
                         (case wait_web (clickhouse_row (po_loads P)) has_row (po_audit P) of
                            None \<Rightarrow> None
                          | Some (Inl e) \<Rightarrow> Some (Inl e)
                          | Some (Inr audit) \<Rightarrow> Some (audited (po_loads P) detail audit))))))"

definition proof_run :: "proof_io \<Rightarrow> unit script option" where
  "proof_run P =
     (case wait_web web_get (\<lambda>(s, b, t). Inr (s = 200)) (po_api_ready P) of
        Some (Inr _) \<Rightarrow>
          (case wait_web web_get (\<lambda>(s, b, t). Inr (s = 200)) (po_gateway_ready P) of
             Some (Inr _) \<Rightarrow>
               (case wait_web web_get (\<lambda>(s, b, t). Inr (py_strip t = ''Ok.'')) (po_clickhouse_ready P) of
                  Some (Inr _) \<Rightarrow> proof_tail P
                | Some (Inl e) \<Rightarrow> Some (Inl e)
                | None \<Rightarrow> None)
           | Some (Inl e) \<Rightarrow> Some (Inl e)
           | None \<Rightarrow> None)
      | Some (Inl e) \<Rightarrow> Some (Inl e)
      | None \<Rightarrow> None)"

section \<open>What a proof that passes has seen\<close>

lemma wait_for_accepts:
  assumes "wait_for deadline accept turns = Some (Inr v)"
  shows "\<exists>now. (now, Inr v) \<in> set turns \<and> now < deadline \<and> accept v = Inr True"
  using assms
proof (induction turns)
  case (Cons x turns)
  obtain now p where x: "x = (now, p)" by fastforce
  show ?case
  proof (cases "wait_for deadline accept turns = Some (Inr v)")
    case True
    with Cons.IH show ?thesis by auto
  next
    case False
    with Cons.prems x show ?thesis
      by (cases p) (auto simp: andThen_def split: if_splits sum.splits bool.splits prod.splits)
  qed
qed simp

lemma wait_for_ends:
  assumes "(now, p) \<in> set turns" and "deadline \<le> now"
  shows "wait_for deadline accept turns \<noteq> None"
  using assms(1)
proof (induction turns)
  case (Cons x turns)
  then show ?case
    using assms(2) by (cases x) (auto split: sum.splits bool.splits prod.splits)
qed simp

lemma wait_web_accepts:
  assumes "wait_web probe accept io = Some (Inr v)"
  shows "\<exists>now w. (now, w) \<in> set (snd io) \<and> probe w = Inr v \<and> now < fst io \<and> accept v = Inr True"
proof -
  obtain now where "(now, Inr v) \<in> (\<lambda>(now, w). (now, probe w)) ` set (snd io)" "now < fst io" "accept v = Inr True"
    using wait_for_accepts [OF assms [unfolded wait_web_def]] unfolding set_map by blast
  then show ?thesis by (auto simp: image_iff) metis
qed

text \<open>A number above another, in a field of an object.\<close>

definition field_number :: "json \<Rightarrow> string \<Rightarrow> rat \<Rightarrow> bool" where
  "field_number j f q \<longleftrightarrow> (\<exists>v. json_index j f = Inr v \<and> py_number v = Some q)"

lemma py_greater_True: "py_greater a b = Inr True \<longleftrightarrow> (\<exists>x y. py_number a = Some x \<and> py_number b = Some y \<and> y < x)"
  by (auto simp: py_greater_def split: option.splits)

lemma py_number_simps [simp]: "py_number (JInt i) = Some (of_int i)" "py_number (JFlt q) = Some q"
  by (simp_all add: py_number_def)

lemma get_number:
  assumes "json_get j f (JInt 0) = Inr v" and "py_number v = Some q" and "q \<noteq> 0"
  shows "field_number j f q"
  using assms
  by (cases j) (auto simp: json_get_def json_field_def field_number_def json_index_def split: option.splits)

lemma index_get: "json_index j f = Inr v \<Longrightarrow> json_get j f d = Inr v"
  by (cases j) (auto simp: json_index_def json_get_def json_field_def split: option.splits)

lemma killed_facts:
  assumes "proof_killed P = Inr detail"
  shows "\<exists>error d out m r. parse_sse_error (po_loads P) (po_lines P) = Inr error
    \<and> json_get error ''fluxmeter'' JNull = Inr d \<and> detail = json_or d (JObj [])
    \<and> json_get error ''code'' JNull = Inr (JStr ''stream_killed'')
    \<and> field_number detail ''output_tokens'' out \<and> 0 < out
    \<and> field_number detail ''metered_usd'' m \<and> field_number detail ''reserved_usd'' r \<and> r < m"
proof -
  obtain error d out m r m' r' where E: "parse_sse_error (po_loads P) (po_lines P) = Inr error"
    "json_get error ''fluxmeter'' JNull = Inr d" "detail = json_or d (JObj [])"
    "json_get error ''code'' JNull = Inr (JStr ''stream_killed'')"
    and out: "json_get detail ''output_tokens'' (JInt 0) = Inr out" "py_greater out (JInt 0) = Inr True"
    and mr: "json_get detail ''metered_usd'' (JInt 0) = Inr m" "json_get detail ''reserved_usd'' (JInt 0) = Inr r"
      "py_greater m r = Inr True" "json_index detail ''metered_usd'' = Inr m'" "json_index detail ''reserved_usd'' = Inr r'"
    using assms unfolding proof_killed_def by (elim andThen_InrE) (auto elim!: andThen_InrE)
  have "m' = m" "r' = r" using index_get [OF mr(4)] index_get [OF mr(5)] mr(1,2) by auto
  moreover obtain x where "py_number out = Some x" "0 < x" using out(2) by (auto simp: py_greater_True)
  ultimately show ?thesis
    using E get_number [OF out(1)] mr(3-5) by (auto simp: py_greater_True field_number_def)
qed

text \<open>
  What a pass of the proof demonstration means. If the script passes, the budget showed a positive hold while
  the stream ran, the stream carried a kill with a positive count and more metered than was held, a later
  reading of the budget, before the deadline, showed no hold and a positive spend, and the audit row counts exactly the
  tokens of the kill.
\<close>

theorem proof_pass_exact:
  assumes "proof_run P = Some (Inr u)"
  shows "\<exists>held error d out m r row audit.
    api_json (po_held P) = Inr held \<and> (\<exists>h > 0. field_number held ''held_usd'' h)
    \<and> parse_sse_error (po_loads P) (po_lines P) = Inr error \<and> json_get error ''code'' JNull = Inr (JStr ''stream_killed'')
    \<and> json_get error ''fluxmeter'' JNull = Inr d
    \<and> field_number (json_or d (JObj [])) ''output_tokens'' out \<and> 0 < out
    \<and> field_number (json_or d (JObj [])) ''metered_usd'' m \<and> field_number (json_or d (JObj [])) ''reserved_usd'' r \<and> r < m
    \<and> (\<exists>(now, w) \<in> set (snd (po_settled P)). now < fst (po_settled P) \<and> api_json w = Inr row)
    \<and> field_number row ''held_usd'' 0 \<and> (\<exists>x > 0. field_number row ''total_spent_usd'' x)
    \<and> (\<exists>(now, w) \<in> set (snd (po_audit P)). clickhouse_row (po_loads P) w = Inr audit)
    \<and> field_number audit ''output_tokens'' out"
proof -
  have tail: "proof_tail P = Some (Inr u)"
    using assms by (auto simp: proof_run_def split: option.splits sum.splits)
  obtain detail row audit where res: "proof_reserved P = Inr ()" and kill: "proof_killed P = Inr detail"
    and settled: "wait_web api_json is_settled (po_settled P) = Some (Inr row)"
    and audit: "wait_web (clickhouse_row (po_loads P)) has_row (po_audit P) = Some (Inr audit)"
      "audited (po_loads P) detail audit = Inr u"
    using tail by (auto simp: proof_tail_def split: option.splits sum.splits)
  obtain held h where held: "api_json (po_held P) = Inr held" "json_index held ''held_usd'' = Inr h"
    "py_greater h (JInt 0) = Inr True"
    using res unfolding proof_reserved_def by (elim andThen_InrE) (auto elim!: andThen_InrE)
  have h: "\<exists>h > 0. field_number held ''held_usd'' h"
    using held(2,3) by (auto simp: py_greater_True field_number_def)
  obtain error d out m r where kf: "parse_sse_error (po_loads P) (po_lines P) = Inr error"
    "json_get error ''fluxmeter'' JNull = Inr d" "detail = json_or d (JObj [])"
    "json_get error ''code'' JNull = Inr (JStr ''stream_killed'')" "field_number detail ''output_tokens'' out" "0 < out"
    "field_number detail ''metered_usd'' m" "field_number detail ''reserved_usd'' r" "r < m"
    using killed_facts [OF kill] by blast
  from wait_web_accepts [OF settled] obtain now w where s: "(now, w) \<in> set (snd (po_settled P))"
    "now < fst (po_settled P)" "api_json w = Inr row" "is_settled row = Inr True" by blast
  have row: "field_number row ''held_usd'' 0" "\<exists>x > 0. field_number row ''total_spent_usd'' x"
    using s(4) by (auto simp: is_settled_def field_number_def py_greater_True py_same_def py_number_def
        split: if_splits option.splits)
  from wait_web_accepts [OF audit(1)] have a: "\<exists>(now, w) \<in> set (snd (po_audit P)). clickhouse_row (po_loads P) w = Inr audit"
    by blast
  obtain x y where xy: "json_index audit ''output_tokens'' = Inr x" "json_index detail ''output_tokens'' = Inr y" "py_same x y"
    using audit(2) by (auto simp: audited_def)
  then have "field_number audit ''output_tokens'' out"
    using kf(5) by (auto simp: field_number_def py_same_def split: option.splits)
  with h held(1) kf s row a show ?thesis by blast
qed

section \<open>The kill message reaches the script\<close>

lemma split_on_sep: "split_on d (a @ d # b) = split_on d a @ split_on d b"
proof (induction a)
  case (Cons c a)
  then show ?case by (cases "split_on d a") (auto split: list.splits)
qed simp

definition ends_blank :: "guard_env \<Rightarrow> yielded \<Rightarrow> bool" where
  "ends_blank V outs \<longleftrightarrow> (\<forall>(x, v) \<in> set outs. \<exists>t. x = gv_encode V (t @ [LF, LF]))"

lemma ends_blank_simps [simp]:
  "ends_blank V []" "ends_blank V (xs @ ys) \<longleftrightarrow> ends_blank V xs \<and> ends_blank V ys"
  "ends_blank V ((x, v) # ys) \<longleftrightarrow> (\<exists>t. x = gv_encode V (t @ [LF, LF])) \<and> ends_blank V ys"
  by (auto simp: ends_blank_def)

lemma step_block_blank:
  assumes "step_block V block u = (outs, u1, fin)"
  shows "ends_blank V outs"
proof -
  have "\<exists>t. out = t @ [LF, LF]" if "process_block V block u = (Inr (Some out), u2)" "out \<noteq> []" for out u2
    using that by (auto simp: process_block_def Let_def split: if_splits prod.splits sum.splits option.splits)
  moreover have "\<exists>t. m = gv_encode V (t @ [LF, LF])" if "kill_sse V u2 = Inr m" for m u2
  proof -
    from that obtain d where "m = gv_encode V ((''data: '' @ d @ [LF, LF] @ ''data: [DONE]'') @ [LF, LF])"
      by (auto simp: kill_sse_def Let_def)
    then show ?thesis by blast
  qed
  ultimately show ?thesis
    using assms by (auto simp: step_block_def split: prod.splits sum.splits option.splits if_splits)
qed

lemma drain_blank: "drain V buf u = (outs, buf', u1, fin) \<Longrightarrow> ends_blank V outs"
proof (induction V buf u arbitrary: outs buf' u1 fin rule: drain.induct)
  case (1 V buf u)
  show ?case
  proof (cases "split_block buf")
    case None
    with "1.prems" show ?thesis by (auto simp: drain.simps [of V buf])
  next
    case (Some br)
    obtain block rest where br: "br = (block, rest)" by fastforce
    obtain outs1 v f where S: "step_block V block u = (outs1, v, f)" by (metis prod_cases3)
    note B = step_block_blank [OF S]
    show ?thesis
    proof (cases f)
      case None
      obtain outs2 buf2 u2 f2 where D: "drain V rest v = (outs2, buf2, u2, f2)" by (metis prod_cases4)
      from "1.IH" [OF Some br [symmetric] S [symmetric] refl None D] B None Some br S D "1.prems" show ?thesis
        by (auto simp: drain.simps [of V buf])
    qed (use B Some br S "1.prems" in \<open>auto simp: drain.simps [of V buf]\<close>)
  qed
qed

lemma transform_blank: "transform V broken chunks buf u = (outs, u1, fin) \<Longrightarrow> ends_blank V outs"
proof (induction chunks arbitrary: buf u outs)
  case Nil
  then show ?case
    using step_block_blank by (fastforce simp: last_block_def split: option.splits if_splits prod.splits)
next
  case (Cons part chunks)
  obtain outs1 buf1 v f where D: "drain V (buf @ gv_decode V part) u = (outs1, buf1, v, f)" by (metis prod_cases4)
  with Cons drain_blank [OF D] show ?case by (cases f) (auto split: prod.splits)
qed

text \<open>What the reader has, as text, and a text that stands for itself on a line.\<close>

definition text_of :: "guard_env \<Rightarrow> yielded \<Rightarrow> string" where
  "text_of V outs = concat (map (gv_decode V \<circ> fst) outs)"

definition kill_error :: "stream_usage \<Rightarrow> rat \<Rightarrow> rat \<Rightarrow> json" where
  "kill_error u metered reserved =
     JObj [(''message'', JStr ''stream killed: estimated cost exceeds reserved hold''),
       (''type'', JStr ''fluxmeter_budget''), (''code'', JStr ''stream_killed''),
       (''fluxmeter'', JObj [(''input_tokens'', JInt (su_input u)), (''output_tokens'', JInt (su_output u)),
          (''metered_usd'', JFlt metered), (''reserved_usd'', JFlt reserved)])]"

definition reads_back :: "guard_env \<Rightarrow> json \<Rightarrow> bool" where
  "reads_back V j \<longleftrightarrow> gv_loads V (gv_dumps V j) = Some j \<and> LF \<notin> set (gv_dumps V j)
     \<and> py_strip (gv_dumps V j) = gv_dumps V j \<and> (\<exists>r. gv_dumps V j = CHR 0x7B # r)"

definition harmless :: "(string \<Rightarrow> json option) \<Rightarrow> string \<Rightarrow> bool" where
  "harmless loads line \<longleftrightarrow> \<not> startswith line ''data:'' \<or> py_strip line = ''data: [DONE]''
     \<or> (\<exists>p. loads (py_strip (drop 5 line)) = Some p \<and> has_error p = Inr False)"

lemma parse_skip: "\<forall>l \<in> set pre. harmless loads l \<Longrightarrow> parse_sse_error loads (pre @ lines) = parse_sse_error loads lines"
  by (induction pre) (auto simp: harmless_def)

lemma py_strip_prefix: "\<not> is_space c \<Longrightarrow> prefix (py_strip (c # s)) (c # s)"
proof -
  assume "\<not> is_space c"
  then have "py_strip (c # s) = rev (dropWhile is_space (rev (c # s)))" by (simp add: py_strip_def)
  moreover have "c # s = rev (dropWhile is_space (rev (c # s))) @ rev (takeWhile is_space (rev (c # s)))"
    by (metis rev_append rev_rev_ident takeWhile_dropWhile_id)
  ultimately show ?thesis by (metis prefixI)
qed

lemma data_line:
  assumes "reads_back V j"
  shows "startswith (''data: '' @ gv_dumps V j) ''data:''" and "py_strip (''data: '' @ gv_dumps V j) \<noteq> ''data: [DONE]''"
    and "py_strip (drop 5 (''data: '' @ gv_dumps V j)) = gv_dumps V j"
proof -
  show "startswith (''data: '' @ gv_dumps V j) ''data:''" by (simp add: startswith_def)
  obtain r where r: "gv_dumps V j = CHR 0x7B # r" using assms by (auto simp: reads_back_def)
  show "py_strip (''data: '' @ gv_dumps V j) \<noteq> ''data: [DONE]''"
  proof
    assume "py_strip (''data: '' @ gv_dumps V j) = ''data: [DONE]''"
    moreover have "prefix (py_strip (CHR ''d'' # ''ata: '' @ gv_dumps V j)) (CHR ''d'' # ''ata: '' @ gv_dumps V j)"
      by (rule py_strip_prefix) (simp add: is_space_def)
    ultimately show False by (simp add: r)
  qed
  show "py_strip (drop 5 (''data: '' @ gv_dumps V j)) = gv_dumps V j"
    using assms by (simp add: reads_back_def py_strip_def is_space_def)
qed

lemma kill_lines:
  assumes "reads_back V (JObj [(''error'', kill_error u q r)])"
  shows "parse_sse_error (gv_loads V) (split_on LF (''data: '' @ gv_dumps V (JObj [(''error'', kill_error u q r)])
    @ [LF, LF] @ ''data: [DONE]'' @ [LF, LF])) = Inr (kill_error u q r)"
proof -
  let ?d = "gv_dumps V (JObj [(''error'', kill_error u q r)])"
  have "split_on LF (''data: '' @ ?d @ [LF, LF] @ ''data: [DONE]'' @ [LF, LF]) =
    (''data: '' @ ?d) # split_on LF ([LF] @ ''data: [DONE]'' @ [LF, LF])"
    using split_on_append [of LF "''data: '' @ ?d"] assms by (simp add: reads_back_def)
  then show ?thesis
    using data_line [OF assms] assms by (simp add: reads_back_def has_error_def json_index_def)
qed


section \<open>\<open>path_activation_demo.py\<close>\<close>

text \<open>
  The client of the self-checks, its wrapper with the given hold and price, and what the requests of its stubs come to.
\<close>

definition stub_meter :: meter where
  "stub_meter = new_meter ''http://x'' None JNull 2"

definition stub_wrap :: "rat \<Rightarrow> rat \<Rightarrow> wrap_config" where
  "stub_wrap estimated cost_out = \<lparr>wr_customer = ''cust_demo'', wr_estimated = estimated, wr_fail_open = False,
     wr_parent_span_id = JNull, wr_session_id = JNull, wr_cost_out = cost_out, wr_cost_in = 1 / 400000\<rparr>"

definition stub_outs :: "json \<Rightarrow> json \<Rightarrow> pyobj \<Rightarrow> sdk_env \<Rightarrow> wrap_outs" where
  "stub_outs check reserve reply V =
     \<lparr>wo_check = HttpReply check, wo_reserve = HttpReply reserve, wo_call = Inr reply, wo_track = V\<rparr>"

definition self_check_wrap_deny :: "(string \<Rightarrow> string) \<Rightarrow> pyobj \<Rightarrow> sdk_env \<Rightarrow> unit script" where
  "self_check_wrap_deny quote reply V =
     (case wrapped_call quote (stub_wrap (1 / 20) (1 / 100000)) stub_meter
             (stub_outs (JObj [(''allowed'', JBool False), (''reason'', JStr ''budget_exhausted'')]) JNull reply V)
             False ''gpt-4o-mini'' of
        (Inl (BudgetExceeded gate), called, M, qs) \<Rightarrow>
          andThen (lift (json_index gate ''reason'')) (\<lambda>r.
          andThen (assertE (r = JStr ''budget_exhausted'')) (\<lambda>_. assertE (\<not> called)))
      | (Inl (Failed e), called, M, qs) \<Rightarrow> Inl (Py e)
      | _ \<Rightarrow> Inl AssertionError)"

definition stub_chunk :: pyobj where
  "stub_chunk = Obj [(''choices'', Seq [Obj [(''delta'', Obj [(''content'', Plain (JStr (replicate 80 (CHR ''x''))))])]]),
     (''usage'', Plain JNull)]"

text \<open>The loop over the stream: up to the first step that yields nothing.\<close>

fun read_killable :: "(kill_outcome \<times> kill_state) list \<Rightarrow> (kill_outcome \<times> kill_state) option" where
  "read_killable [] = None"
| "read_killable ((KYield c, k) # steps) = read_killable steps"
| "read_killable ((x, k) # steps) = Some (x, k)"

definition self_check_stream_kill :: "(string \<Rightarrow> string) \<Rightarrow> pyobj \<Rightarrow> http_result \<Rightarrow> sdk_env \<Rightarrow> unit script" where
  "self_check_stream_kill quote reply settled V =
     (case wrapped_call quote (stub_wrap (1 / 100000) 1) stub_meter
             (stub_outs (JObj [(''allowed'', JBool True)])
                (JObj [(''allowed'', JBool True), (''reserved_usd'', JFlt (1 / 100000))]) reply V) True ''m'' of
        (Inr (Streaming K), called, M, qs) \<Rightarrow>
          (case read_killable (killable_run quote K settled V (replicate 20 (Item stub_chunk) @ [Ended]) (new_killable M)) of
             Some (KFail (StreamKilled est held n), k) \<Rightarrow> assertE (filter is_settlement (ks_requests k) \<noteq> [])
           | Some (KFail (Failed e), k) \<Rightarrow> Inl (Py e)
           | _ \<Rightarrow> Inl AssertionError)
      | (Inl (Failed e), called, M, qs) \<Rightarrow> Inl (Py e)
      | _ \<Rightarrow> Inl AssertionError)"

lemma stub_selectors [simp]:
  "me_api_url stub_meter = ''http://x''" "wr_estimated (stub_wrap e c) = e" "wr_fail_open (stub_wrap e c) = False"
  "wr_customer (stub_wrap e c) = ''cust_demo''" "wr_cost_out (stub_wrap e c) = c" "wr_cost_in (stub_wrap e c) = 1 / 400000"
  "wo_check (stub_outs a b p V) = HttpReply a" "wo_reserve (stub_outs a b p V) = HttpReply b" "wo_call (stub_outs a b p V) = Inr p"
  by (simp_all add: stub_meter_def new_meter_def rstrip_slash_def stub_wrap_def stub_outs_def)

lemma stub_chunk_noted:
  "note_stream_chunk stub_chunk k = (None, k\<lparr>ks_output := ks_output k + 20\<rparr>)"
  by (simp add: note_stream_chunk_def stub_chunk_def first_choice_def attr_of_def py_true_def delta_tokens_def getattr_or_def
      text_tokens_def py_length_def json_true_def usage_count_def Let_def)

lemma settles_held:
  assumes "me_api_url (ks_meter k) \<noteq> []" and "0 < ki_reserved K" and "\<not> ks_closed k"
  shows "filter is_settlement (ks_requests (finish_stream quote K settled V b k)) \<noteq> []"
proof -
  have "is_settlement (sdk_reconcile quote (ks_meter k) (ki_customer K) (ki_reserved K) 0 JNull)"
    by (simp add: is_settlement_def sdk_reconcile_def http_json_def)
  then show ?thesis using assms by (auto simp: finish_stream_def Let_def split: prod.splits)
qed

text \<open>
  The demonstration of the SDK passes on the model of the SDK, whatever the provider would have answered and the
  requests of the metering come to: a client whose budget is exhausted is denied before its provider is called, and a
  stream whose first chunk is over its hold is killed and its hold released.
\<close>

theorem path_activation_passes:
  "self_check_wrap_deny quote reply V = Inr () \<and> self_check_stream_kill quote reply settled V = Inr ()"
proof
  show "self_check_wrap_deny quote reply V = Inr ()"
    by (simp add: self_check_wrap_deny_def wrapped_call_def safe_check_def json_true_def json_index_def assertE_def)
  let ?K = "wrap_stream_of (stub_wrap (1 / 100000) 1) ''m'' (1 / 100000)"
  have call: "wrapped_call quote (stub_wrap (1 / 100000) 1) stub_meter
      (stub_outs (JObj [(''allowed'', JBool True)]) (JObj [(''allowed'', JBool True), (''reserved_usd'', JFlt (1 / 100000))]) reply V)
      True ''m'' = (Inr (Streaming ?K), True, stub_meter,
        [sdk_check quote stub_meter ''cust_demo'' (1 / 100000) (wr_parent_span_id (stub_wrap (1 / 100000) 1))
           (wr_session_id (stub_wrap (1 / 100000) 1)), sdk_reserve quote stub_meter ''cust_demo'' (1 / 100000) JNull])"
    by (simp add: wrapped_call_def safe_check_def wrap_reserve_def json_true_def)
  have K: "ki_reserved ?K = 1 / 100000" "ki_cost_out ?K = 1" "ki_cost_in ?K = 1 / 400000"
    by (simp_all add: wrap_stream_of_def)
  let ?k = "(new_killable stub_meter)\<lparr>ks_chunks := 1, ks_output := 20\<rparr>"
  have next': "killable_next quote ?K settled V (Item stub_chunk) (new_killable stub_meter)
      = (KFail (StreamKilled 20 (1 / 100000) 1), finish_stream quote ?K settled V True ?k)"
    by (simp add: killable_next_def stub_chunk_noted K killable_estimate_def new_killable_def Let_def)
  have "filter is_settlement (ks_requests (finish_stream quote ?K settled V True ?k)) \<noteq> []"
    by (rule settles_held) (simp_all add: K new_killable_def)
  then show "self_check_stream_kill quote reply settled V = Inr ()"
    by (simp add: self_check_stream_kill_def call next' numeral_eq_Suc del: replicate.simps(1))
qed

section \<open>Concrete runs\<close>

definition quick_demo :: quick_io where
  "quick_demo = \<lparr>qi_customer = ''demo-1'', qi_event = ''evt-1'', qi_timeout = 180, qi_expected_cost = ''0.00042'',
     qi_ready = (0, [(Refused 503 None ''down'' [], 1), (Opened 200 (Some JNull), 2)]),
     qi_custody = (2, [(NoConnection, 3), (Opened 202 (Some (JObj [(''status'', JStr ''accepted''), (''eventId'', JStr ''evt-1'')])), 4)]),
     qi_usage = (4, [(Refused 404 (Some (JObj [])) [] [], 5),
       (Opened 200 (Some (JObj [(''customer_id'', JStr ''demo-1''), (''event_count'', JInt 1), (''input_tokens'', JInt 1200),
          (''output_tokens'', JInt 400), (''total_tokens'', JInt 1600), (''cost_usd'', JFlt (42 / 100000))])), 6)])\<rparr>"

lemma quick_demo_runs: "\<exists>usage. quick_run quick_demo = Some (Inr usage)"
proof -
  have "case quick_run quick_demo of Some (Inr u) \<Rightarrow> True | _ \<Rightarrow> False" by code_simp
  then show ?thesis by (auto split: option.splits sum.splits)
qed

theorem quickstart_pass_exact_witness:
  "\<exists>usage. quick_run quick_demo = Some (Inr usage) \<and> usage_exact ''demo-1'' ''0.00042'' usage"
proof -
  obtain usage where run: "quick_run quick_demo = Some (Inr usage)" using quick_demo_runs by blast
  with quickstart_pass_exact [OF run] show ?thesis by (auto simp: quick_demo_def)
qed

definition proof_demo :: proof_io where
  "proof_demo =
     (let ok = Web 200 (Some (JObj [])) ''Ok.'';
          kill = kill_error \<lparr>su_input = 0, su_output = 300, su_chunks = 2, su_killed = True\<rparr> (18 / 100000) (15 / 1000000) in
      \<lparr>po_customer = ''proof_1'',
       po_loads = (\<lambda>t. if t = ''K'' then Some (JObj [(''error'', kill)])
          else if t = ''A'' then Some (JObj [(''event_id'', JStr ''res:r1''), (''output_tokens'', JInt 300), (''metadata'', JStr ''M'')])
          else if t = ''M'' then Some (JObj [(''_stream_killed'', JStr ''true'')]) else Some (JObj [])),
       po_api_ready = (45, [(0, NoAnswer), (1, ok)]), po_gateway_ready = (46, [(1, ok)]), po_clickhouse_ready = (47, [(2, ok)]),
       po_budget = Web 200 (Some (JObj [(''held_usd'', JInt 0)])) [],
       po_stream_status = Some 200, po_reservation_id = Some ''r1'', po_reserved_usd = ''0.000015'',
       po_held = Web 200 (Some (JObj [(''held_usd'', JFlt (15 / 1000000))])) [],
       po_lines = [''data: x'', [], ''data: K'', [], ''data: [DONE]''],
       po_watermark = ok,
       po_settled = (40, [(5, Web 200 (Some (JObj [(''held_usd'', JFlt (15 / 1000000)), (''total_spent_usd'', JInt 0)])) []),
         (6, Web 200 (Some (JObj [(''held_usd'', JInt 0), (''total_spent_usd'', JFlt (18 / 100000)), (''balance_usd'', JFlt (82 / 100000))])) [])]),
       po_audit = (60, [(7, Web 200 None []), (8, Web 200 None ''A'')])\<rparr>)"

lemma proof_demo_runs: "proof_run proof_demo = Some (Inr ())"
  by code_simp

theorem proof_pass_exact_witness:
  "\<exists>audit. clickhouse_row (po_loads proof_demo) (Web 200 None ''A'') = Inr audit \<and> (\<exists>out > 0. field_number audit ''output_tokens'' out)"
  using proof_pass_exact [OF proof_demo_runs]
  by (fastforce simp: proof_demo_def Let_def clickhouse_row_def web_get_def is_success_def field_number_def json_index_def)

text \<open>A guard whose printer marks what carries an error, on the stream of the guard's own example.\<close>

definition read_guard :: guard_env where
  "read_guard = demo_guard\<lparr>
     gv_loads := (\<lambda>t. if t = ''2'' then Some (JObj [(''usage'', JObj [(''completion_tokens'', JInt 2)])])
        else if t = ''9'' then Some (JObj [(''usage'', JObj [(''completion_tokens'', JInt 9)])])
        else if t = ''{K}'' then Some (JObj [(''error'', kill_error \<lparr>su_input = 0, su_output = 9, su_chunks = 2, su_killed = True\<rparr>
               (9 / 1000) (1 / 200))])
        else Some (JObj [])),
     gv_dumps := (\<lambda>j. if has_error j = Inr True then ''{K}'' else ''{}'')\<rparr>"

definition read_usage :: stream_usage where
  "read_usage = \<lparr>su_input = 0, su_output = 9, su_chunks = 2, su_killed = True\<rparr>"

lemma read_guard_kills:
  "snd (guard_stream read_guard None demo_stream) = (read_usage, Killed)"
  "map fst (butlast (fst (guard_stream read_guard None demo_stream))) = [''data: {}'' @ [LF, LF]]"
  "stream_quote read_guard read_usage = Inr (9 / 1000)"
  by code_simp+

lemma read_guard_codec [simp]:
  "gv_decode read_guard (gv_encode read_guard t) = t" "gv_decode read_guard = (\<lambda>b. b)" "gv_reserved read_guard = 1 / 200"
  by (simp_all add: read_guard_def demo_guard_def)

lemma read_guard_reads: "reads_back read_guard (JObj [(''error'', kill_error read_usage (9 / 1000) (1 / 200))])"
  by (simp add: reads_back_def read_guard_def read_usage_def has_error_def py_strip_def is_space_def)

lemma read_guard_harmless:
  "\<forall>l \<in> set (split_on LF (''data: {}'' @ [LF, LF])). harmless (gv_loads read_guard) l"
  by (simp add: harmless_def startswith_def read_guard_def has_error_def py_strip_def is_space_def)


end
