(* ===== verification/Gateway_Demos.thy ===== *)
theory Gateway_Demos
  imports Gateway_Runs Reservation_Spec Demos End_To_End
begin

text \<open>
  What a completion writes to Redis, and \<^verbatim>\<open>src/demos/gateway_demo.py\<close>, which runs the gateway on an empty
  database: a completion that the budget denies, and one that is metered.

  The lemmas show that the gateway changes only rate counters, holds, reservation records, the outbox and the
  registry, never a balance or a usage counter; so that the first check of the demonstration passes and the second, which
  looks for such a counter, cannot.
\<close>

section \<open>What a completion writes\<close>

text \<open>The keys a completion may change: its rate counter, holds, reservation records and entries of the outbox.\<close>

definition gateway_key :: "surroundings \<Rightarrow> completion_args \<Rightarrow> key \<Rightarrow> bool" where
  "gateway_key T C k \<longleftrightarrow> k = rate_limit_key (norm_tenant (ca_tenant C)) (ca_customer C) (trunc_int (tu_now T) div 60)
     \<or> is_budget_held k \<or> is_span_held k \<or> (\<exists>rid. k = record_key rid) \<or> (\<exists>e. k = outbox_key e)"

text \<open>The same without the rate counter.\<close>

definition hold_or_outbox :: "key \<Rightarrow> bool" where
  "hold_or_outbox k \<longleftrightarrow> is_budget_held k \<or> is_span_held k \<or> (\<exists>rid. k = record_key rid) \<or> (\<exists>e. k = outbox_key e)"

definition same_but :: "store \<Rightarrow> store \<Rightarrow> bool" where
  "same_but s s' \<longleftrightarrow> (\<forall>k. hold_or_outbox k \<or> rget s' k = rget s k)"

lemma same_but_refl [simp]: "same_but s s"
  by (simp add: same_but_def)

lemma same_but_trans: "same_but s s1 \<Longrightarrow> same_but s1 s2 \<Longrightarrow> same_but s s2"
  by (metis same_but_def)

lemma same_outbox_same: "same_outbox s s' \<Longrightarrow> same_but s s'"
  by (simp add: same_outbox_def same_but_def)

lemma tidy_same: "tidy s s' \<Longrightarrow> same_but s s'"
  by (simp add: tidy_def same_but_def rget_def)

lemma open_same:
  assumes "plain_tenant t" and "hold_open t s now rid c est sp ex = Inr (r, s')"
  shows "same_but s s'"
  using assms(2)
proof (cases rule: hold_open_cases)
  case (opened sk sh ss s1 s2)
  define bk where "bk = budget_prefix_for_read s t c"
  note O = opened_store(8) [OF opened(3) opened(6) opened(7) opened(8), folded bk_def]
  have b: "is_budget_held (bk @ '':held_usd'')" unfolding bk_def by (rule budget_read_held [OF assms(1)])
  have sp: "text_or_empty sp = [] \<or> is_span_held (k_span_held (keys_for bk sk))"
    using span_key_shape [OF assms(1) opened(1)] by (auto split: option.splits)
  have "rget s' k = rget s k" if "\<not> hold_or_outbox k" for k
  proof (rule O)
    show "k \<noteq> bk @ '':held_usd''" using that b by (auto simp: hold_or_outbox_def)
    show "k \<noteq> k_span_held (keys_for bk sk) \<or> text_or_empty sp = []"
      using that sp unfolding hold_or_outbox_def by blast
  qed
  then show ?thesis by (auto simp: same_but_def)
qed simp

lemma close_nameless:
  assumes "record_ok s rid" and "is_open s rid" and "hold_close s rid = Inr (res, s')"
  shows "rget s' [] = rget s []"
proof (cases "rec_span s rid = []")
  case False
  then have "[] \<noteq> rec_span s rid" by simp
  moreover have "[] \<noteq> rec_held s rid" using assms(1) by (auto simp: record_ok_def)
  ultimately show ?thesis using close_present(3) [OF assms, of "[]"] by (simp add: record_key_def)
next
  case True
  have ne: "rec_held s rid \<noteq> []" and num: "is_num (hget s (record_key rid) ''reserved_usd'')"
    and hk: "''noop'' \<noteq> rec_held s rid"
    using assms(1) scoped_def by (auto simp: record_ok_def is_budget_held_def dest: arg_cong [of _ _ length])
  obtain customer where "hget s (record_key rid) ''customer_id'' = Some customer"
    using assms(2) by (auto simp: is_open_def)
  with assms(3) ne num True obtain held rel s1 where
    rel: "release_hold s (rec_held s rid) ''noop'' (rec_amount s rid) = Inr (held, rel, s1)"
    and s': "s' = zrem (rdel s1 (record_key rid)) PENDING_KEY rid"
    by (auto simp: hold_close_def close_script_def Let_def rec_held_def rec_span_def rec_amount_def)
  have "rget s1 [] = rget s []" using release_hold_spec(5) [OF rel hk, of "[]"] ne by simp
  then show ?thesis by (simp add: s' record_key_def)
qed

lemma settle_same:
  assumes "covered s" and "hold_settle s rid = Inr (q, s')"
  shows "same_but s s'"
proof -
  obtain res where cl: "hold_close s rid = Inr (res, s')"
    using assms(2) by (auto simp: hold_settle_def split: list.splits)
  show ?thesis
  proof (cases "is_open s rid")
    case False
    with assms(1) cl show ?thesis by (simp add: close_absent covered_def)
  next
    case True
    note C = covered_released(3) [OF assms(1) True]
    have "rget s' k = rget s k" if "\<not> hold_or_outbox k" for k
    proof (cases "k = []")
      case False
      then show ?thesis
        using close_present(3) [OF C True cl, of k] that C by (auto simp: hold_or_outbox_def record_ok_def)
    qed (use close_nameless [OF C True cl] in simp)
    then show ?thesis by (auto simp: same_but_def)
  qed
qed

lemma refresh_same: "same_but s (snd (hold_refresh s now rid ex))"
  by (simp add: same_but_def hold_refresh_def Let_def)

lemma relay_same: "relay T rid due i ys s = (parts, s', stopped) \<Longrightarrow> same_but s s'"
proof (induction T rid due i ys s arbitrary: parts s' stopped rule: relay.induct)
  case (2 T rid due i part u ys s)
  then show ?case
    using refresh_same same_but_trans by (fastforce split: if_splits prod.splits)
qed simp

lemma publish_same:
  assumes "publish_envelope w now topic env out = (r, w')"
  shows "same_but (reg w) (reg w')"
proof -
  have st: "same_but s (outbox_store s n e env)" for s n e
    by (auto simp: same_but_def hold_or_outbox_def outbox_store_def)
  have rm: "same_but s s1 \<Longrightarrow> same_but s (outbox_remove s1 e)" for s s1 e
    by (auto simp: same_but_def hold_or_outbox_def outbox_remove_def)
  show ?thesis
    using assms st rm
    by (auto simp: publish_envelope_def publish_with_ack_def split: sum.splits prod.splits option.splits)
qed

lemma usage_same:
  assumes "ingest_usage E CE a w = (r, w')"
  shows "same_but (reg w) (reg w')"
proof -
  let ?x = "gateway_context E CE a" and ?ev = "usage_event (ce_now_ms CE) a"
  obtain ra where run: "custody_accept CE ?x ?ev w = (ra, w')"
    using assms by (auto simp: ingest_usage_def split: prod.splits sum.splits)
  have down: "x_on_down ?x = BufferMode (Some (gateway_hook CE))" by (simp add: gateway_context_def)
  show ?thesis
  proof (cases "prepare_payload CE (x_tenant ?x) (x_reservation ?x) ?ev")
    case (Inl e)
    with run show ?thesis by (simp add: custody_accept_def accept_impl_def)
  next
    case (Inr p)
    obtain payload e fp where p: "p = (payload, e, fp)" by (metis prod_cases3)
    obtain rs wc where cl: "claim_ids CE ?x [(e, fp)] w = (rs, wc)" by fastforce
    have c: "same_but (reg w) (reg wc)" by (rule tidy_same [OF claim_tidy [OF cl]])
    have "same_but (reg wc) (reg w')"
    proof (cases "wc = w'")
      case False
      obtain su env where buf: "accept_buffered CE ?x (gateway_hook CE) e fp su env wc = (ra, w')"
        using run Inr p cl down False
        by (auto simp: custody_accept_def accept_impl_def split: sum.splits option.splits)
      obtain b w1 where pub: "gateway_hook CE wc (dest_topic ?x su) env = (b, w1)" by fastforce
      have "same_but (reg wc) (reg w1)" by (rule publish_same) (use pub in \<open>simp add: gateway_hook_def\<close>)
      moreover have "same_but (reg w1) (reg w')" by (rule same_outbox_same [OF buffered_kept(2) [OF buf pub]])
      ultimately show ?thesis by (rule same_but_trans)
    qed simp
    with c show ?thesis by (rule same_but_trans)
  qed
qed

lemma meter_same: "same_but (reg w) (reg (meter_stream E T C model rid reserved u w))"
proof -
  have "same_but (reg w) (reg (snd (proxy_ingest E T C model rid reserved i n m w)))" for i n m
    unfolding proxy_ingest_def by (metis prod.collapse usage_same)
  then show ?thesis by (simp add: meter_stream_def)
qed

lemma settle_step_same:
  assumes "covered (reg w)" and "settle T rid w = (r, w')"
  shows "same_but (reg w) (reg w')"
  using assms settle_same by (auto simp: settle_def split: if_splits sum.splits)

lemma non_stream_same:
  assumes "covered (reg w)" and "non_stream E T C model rid reserved w = (r, w')"
  shows "same_but (reg w) (reg w')"
proof -
  have "same_but (reg w) (reg w1)" if "proxy_ingest E T C model rid reserved i n m w = (x, w1)" for x w1 i n m
    using that usage_same unfolding proxy_ingest_def by blast
  then show ?thesis
    using assms settle_step_same [OF assms(1)]
    by (auto simp: non_stream_def split: upstream.splits if_splits prod.splits sum.splits option.splits)
qed

lemma run_stream_same:
  assumes "covered (reg w)" and "run_stream E T C model rid reserved w = (parts, w')"
  shows "same_but (reg w) (reg w')"
proof (cases "tu_upstream T")
  case (NoReply e)
  with assms(2) meter_same show ?thesis by (auto simp: run_stream_def)
next
  case (Answered code body ps broken)
  show ?thesis
  proof (cases "400 \<le> code")
    case True
    obtain x w1 where se: "settle T rid w = (x, w1)" by fastforce
    have "same_but (reg w1) (reg w')"
      using assms(2) Answered True se meter_same by (auto simp: run_stream_def split: sum.splits if_splits)
    with settle_step_same [OF assms(1) se] show ?thesis by (rule same_but_trans)
  next
    case False
    obtain outs v fin where G: "guard_stream (guard_for E model reserved) broken ps = (outs, v, fin)" by (metis prod_cases3)
    obtain ys x where R: "read_by (tu_reads T) outs v = (ys, x)" by fastforce
    obtain d s st where L: "relay T rid (tu_clock T 0 + 60) 1 ys (reg w) = (d, s, st)" by (metis prod_cases3)
    have w': "w' = meter_stream E T C model rid reserved (case st of Some y \<Rightarrow> y | None \<Rightarrow> x) (w\<lparr>reg := s\<rparr>)"
      using assms(2) Answered False G R L by (auto simp: run_stream_def)
    have "same_but (reg (w\<lparr>reg := s\<rparr>)) (reg w')" unfolding w' by (rule meter_same)
    then have "same_but s (reg w')" by simp
    with relay_same [OF L] show ?thesis by (rule same_but_trans)
  qed
qed

lemma with_hold_same:
  assumes cov: "covered (reg (gw_world g))" and pl: "plain_tenant (norm_tenant (ca_tenant C))"
    and run: "with_hold E T C model stream est g = (r, g')"
  shows "same_but (reg (gw_world g)) (reg (gw_world g'))"
proof (cases "\<exists>h s. tu_open_up T \<and> h_allowed h \<and> hold_open (norm_tenant (ca_tenant C)) (reg (gw_world g)) (tu_now T)
    (tu_uuid T) (ca_customer C) est (ca_span C) None = Inr (h, s)")
  case True
  then obtain h s where up: "tu_open_up T" "h_allowed h"
    and op: "hold_open (norm_tenant (ca_tenant C)) (reg (gw_world g)) (tu_now T) (tu_uuid T) (ca_customer C) est
      (ca_span C) None = Inr (h, s)" by blast
  have "covered (reg ((gw_world g)\<lparr>reg := s\<rparr>))" using open_books(1) [OF cov pl op] by simp
  note S = run_stream_same [OF this] and N = non_stream_same [OF this]
  have "same_but s (reg (gw_world g'))"
    using run up op S N
    by (auto simp: with_hold_def Let_def on_world_def split: if_splits prod.splits)
  with open_same [OF pl op] show ?thesis by (rule same_but_trans)
next
  case False
  then have "gw_world g' = gw_world g"
    using run open_denied by (auto simp: with_hold_def Let_def on_world_def split: if_splits sum.splits)
  then show ?thesis by simp
qed

lemma covered_cong:
  assumes "covered s" and "hget s' = hget s" and "zsets s' = zsets s" and "\<And>hk. is_budget_held hk \<Longrightarrow> rget s' hk = rget s hk"
  shows "covered s'"
proof -
  have p: "pending_ids s' = pending_ids s" using assms(3) by (simp add: pending_ids_def)
  have same: "same_records s s' UNIV" using assms(2) by (simp add: same_records_def)
  then have "same_records s s' (pending_ids s)" by (simp add: same_records_def)
  then have "slack s' hk = slack s hk" if "is_budget_held hk" for hk
    using assms(4) [OF that] open_total_cong [OF p] by (simp add: slack_def)
  then show ?thesis
    using assms(1) p same_records_reads(4,5) [OF same] by (simp add: covered_def records_ok_def)
qed

lemma rate_key_no_hold:
  assumes "plain_tenant t"
  shows "\<not> is_budget_held (rate_limit_key t c m)" "\<not> is_span_held (rate_limit_key t c m)"
proof -
  have "scoped t ''ratelimit'' x \<noteq> scoped t' f y @ z" if "plain_tenant t'" "plain f" "f \<noteq> ''ratelimit''" "f \<noteq> ''tenant''"
    for t' f x y z
    using scoped_inj [of t "''ratelimit''" x t' f "y @ z"] assms that by (auto simp: scoped_append)
  then show "\<not> is_budget_held (rate_limit_key t c m)" "\<not> is_span_held (rate_limit_key t c m)"
    by (auto simp: is_budget_held_def is_span_held_def key_simps)
qed

lemma completion_frame:
  assumes cov: "covered (reg (gw_world g))" and pl: "plain_tenant (norm_tenant (ca_tenant C))"
    and run: "handle_chat_completion E T C g = (r, g')" and "\<not> gateway_key T C k"
  shows "rget (reg (gw_world g')) k = rget (reg (gw_world g)) k"
proof (cases "asked E (ca_body C)")
  case (Inl e)
  with run show ?thesis by (simp add: handle_chat_completion_def)
next
  case (Inr a)
  obtain model stream est where a: "a = (model, stream, est)" by (metis prod_cases3)
  obtain d g1 where chk: "checked E T C est g = (d, g1)" by fastforce
  have one: "rget (reg (gw_world g1)) k = rget (reg (gw_world g)) k"
    using checked_same(3) [OF chk, of k] assms(4) by (simp add: gateway_key_def)
  have cov1: "covered (reg (gw_world g1))"
  proof (rule covered_cong [OF cov checked_same(1,2) [OF chk]])
    fix hk assume "is_budget_held hk"
    then have "hk \<noteq> rate_limit_key (norm_tenant (ca_tenant C)) (ca_customer C) (trunc_int (tu_now T) div 60)"
      using rate_key_no_hold [OF pl] by blast
    then show "rget (reg (gw_world g1)) hk = rget (reg (gw_world g)) hk" by (rule checked_same(3) [OF chk])
  qed
  have "same_but (reg (gw_world g1)) (reg (gw_world g'))"
    using run Inr a chk with_hold_same [OF cov1 pl]
    by (auto simp: handle_chat_completion_def split: sum.splits if_splits)
  moreover have "\<not> hold_or_outbox k" using assms(4) by (simp add: gateway_key_def hold_or_outbox_def)
  ultimately show ?thesis using one by (auto simp: same_but_def)
qed

lemma counter_key_safe:
  assumes pl: "plain_tenant t" "plain_tenant (norm_tenant (ca_tenant C))"
  shows "\<not> gateway_key T C (scoped t ''customer'' x)" and "\<not> gateway_key T C (scoped t ''budget'' c @ '':balance_usd'')"
proof -
  have ne: "scoped t f x \<noteq> scoped t' f' y" if "plain_tenant t'" "plain f" "plain f'" "f \<noteq> f'" "f \<noteq> ''tenant''" "f' \<noteq> ''tenant''"
    for t' f f' x y
    using scoped_inj [of t f x t' f' y] pl(1) that by auto
  have rec: "scoped t ''customer'' x \<noteq> record_key rid" "scoped t ''customer'' x \<noteq> outbox_key e"
    "scoped t ''budget'' x \<noteq> record_key rid" "scoped t ''budget'' x \<noteq> outbox_key e" for rid e x
    by (auto simp: scoped_def record_key_def outbox_key_def split: if_splits)
  show "\<not> gateway_key T C (scoped t ''customer'' x)"
    using ne rec pl(2) by (auto simp: gateway_key_def is_budget_held_def is_span_held_def key_simps scoped_append)
  have "amount_key (scoped t ''budget'' c @ '':balance_usd'')" by (rule amount_key_simps(1) [OF pl(1)])
  from amount_key_other [OF this] show "\<not> gateway_key T C (scoped t ''budget'' c @ '':balance_usd'')"
    using ne rec pl(2) by (auto simp: gateway_key_def key_simps scoped_append)
qed

text \<open>
  C5: a completion spends nothing by itself. Whatever it asks for and however it ends, refused, answered, streamed,
  killed or broken off, a completion leaves every string key of Redis alone but the rate counter of its customer, held
  amounts, reservation records and entries of the outbox; so no balance and no usage counter of any customer of any
  tenant changes: these follow only from the events handed to Kafka. (Event identities are hashes, and have
  properties of their own.)
\<close>

theorem completion_leaves_balances:
  assumes "covered (reg (gw_world g))" and "plain_tenant (norm_tenant (ca_tenant C))"
    and "handle_chat_completion E T C g = (r, g')"
  shows "(\<forall>k. gateway_key T C k \<or> rget (reg (gw_world g')) k = rget (reg (gw_world g)) k)
    \<and> (\<forall>t. plain_tenant t \<longrightarrow>
         (\<forall>c. rget (reg (gw_world g')) (budget_prefix t c @ '':balance_usd'') = rget (reg (gw_world g)) (budget_prefix t c @ '':balance_usd''))
         \<and> (\<forall>x. rget (reg (gw_world g')) (customer_prefix t x) = rget (reg (gw_world g)) (customer_prefix t x)))"
proof -
  note F = completion_frame [OF assms]
  then show ?thesis using counter_key_safe [OF _ assms(2)] by (auto simp: key_simps)
qed

theorem completion_leaves_balances_witness:
  "\<exists>r g'. handle_chat_completion demo_gateway (demo_turn (NoReply RuntimeError)) demo_call demo_state = (Inr r, g')
     \<and> rget (reg (gw_world g')) (budget_prefix None ''acme'' @ '':balance_usd'') = Some (CInt 10)"
proof -
  obtain r g' where run: "handle_chat_completion demo_gateway (demo_turn (NoReply RuntimeError)) demo_call demo_state = (Inr r, g')"
    using demo_streams by blast
  have "covered (reg (gw_world demo_state))" and "plain_tenant (norm_tenant (ca_tenant demo_call))"
    by (simp_all add: demo_covered plain_tenant_def)
  from completion_leaves_balances [OF this run]
  have "rget (reg (gw_world g')) (budget_prefix None ''acme'' @ '':balance_usd'')
      = rget demo_store (budget_prefix None ''acme'' @ '':balance_usd'')"
    by (simp add: plain_tenant_def)
  also have "\<dots> = Some (CInt 10)" by (simp add: budget_prefix_def demo_store_def)
  finally show ?thesis using run by blast
qed

section \<open>\<open>gateway_demo.py\<close>\<close>

text \<open>
  The request of both checks, the database each starts with, and the status the test client reports: an exception that the
  route does not answer reaches the script.
\<close>

definition gateway_request :: json where
  "gateway_request = JObj [(''model'', JStr ''gpt-4o-mini''),
     (''messages'', JArr [JObj [(''role'', JStr ''user''), (''content'', JStr ''hi'')]])]"

definition demo_database :: "int \<Rightarrow> store" where
  "demo_database balance = rset (rset empty_store ''budget:cust_demo:balance_usd'' (CInt balance))
     ''budget:cust_demo:held_usd'' (CInt 0)"

definition demo_post :: "gateway_env \<Rightarrow> surroundings \<Rightarrow> gateway_state \<Rightarrow> nat script \<times> gateway_state" where
  "demo_post E T g =
     (case chat_completions E T None (Some ''cust_demo'') None None (Some ''Bearer sk-x'') (Some gateway_request) g of
        (Inl (HTTPException code), g1) \<Rightarrow> (Inr code, g1)
      | (Inl e, g1) \<Rightarrow> (Inl (Py e), g1)
      | (Inr r, g1) \<Rightarrow> (Inr (gr_code r), g1))"

text \<open>
  The verdict of each check and the balances it leaves cached in the process. The upstream of the first fails whenever it is
  called, so that a status is there only if it was not; the upstream of the second answers.
\<close>

definition self_check_deny ::
  "gateway_env \<Rightarrow> surroundings \<Rightarrow> ((string \<times> string) \<times> cached) list \<Rightarrow> unit script \<times> ((string \<times> string) \<times> cached) list" where
  "self_check_deny E T cached =
     (case demo_post E (T\<lparr>tu_upstream := NoReply RuntimeError\<rparr>)
             \<lparr>gw_world = \<lparr>reg = demo_database 0, sent = []\<rparr>, gw_cache = cached\<rparr> of
        (code, g) \<Rightarrow> (andThen code (\<lambda>n. assertE (n = 402)), gw_cache g))"

definition mock_completion :: json where
  "mock_completion = JObj [(''choices'', JArr [JObj [(''message'', JObj [(''content'', JStr ''ok'')])]]),
     (''usage'', JObj [(''prompt_tokens'', JInt 12), (''completion_tokens'', JInt 8)])]"

definition self_check_ingest ::
  "gateway_env \<Rightarrow> surroundings \<Rightarrow> ((string \<times> string) \<times> cached) list \<Rightarrow> unit script" where
  "self_check_ingest E T cached =
     (case demo_post E (T\<lparr>tu_upstream := Answered 200 (Some mock_completion) [] None\<rparr>)
             \<lparr>gw_world = \<lparr>reg = demo_database 10, sent = []\<rparr>, gw_cache = cached\<rparr> of
        (code, g) \<Rightarrow>
          andThen code (\<lambda>n.
          andThen (assertE (n = 200)) (\<lambda>_.
          assertE (rget (reg (gw_world g)) ''customer:cust_demo:event_count'' \<noteq> None))))"

definition gateway_main :: "gateway_env \<Rightarrow> surroundings \<Rightarrow> surroundings \<Rightarrow> unit script" where
  "gateway_main E T T' = (case self_check_deny E T [] of (r, cached) \<Rightarrow> andThen r (\<lambda>_. self_check_ingest E T' cached))"

lemma demo_database_rget: "rget (demo_database n) k = (if k = ''budget:cust_demo:held_usd'' then Some (CInt 0)
    else if k = ''budget:cust_demo:balance_usd'' then Some (CInt n) else None)"
  by (simp add: demo_database_def empty_store_def rget_def rset_def update_conv')

lemma demo_database_covered:
  assumes "0 \<le> n"
  shows "covered (demo_database n)"
proof -
  have "pending_ids (demo_database n) = {}" by (simp add: demo_database_def pending_ids_def empty_store_def)
  moreover have "\<not> is_open (demo_database n) rid" for rid by (simp add: demo_database_def is_open_def)
  ultimately show ?thesis
    using assms by (auto simp: covered_def records_ok_def slack_def open_total_def demo_database_rget num0_def)
qed

lemma post_frame:
  assumes "0 \<le> n" and "demo_post E T \<lparr>gw_world = \<lparr>reg = demo_database n, sent = []\<rparr>, gw_cache = cached\<rparr> = (code, g)"
  shows "rget (reg (gw_world g)) ''customer:cust_demo:event_count'' = None"
proof -
  let ?g = "\<lparr>gw_world = \<lparr>reg = demo_database n, sent = []\<rparr>, gw_cache = cached\<rparr>"
  have start: "rget (demo_database n) ''customer:cust_demo:event_count'' = None" by (simp add: demo_database_rget)
  obtain x where run: "chat_completions E T None (Some ''cust_demo'') None None (Some ''Bearer sk-x'') (Some gateway_request) ?g = (x, g)"
    using assms(2) by (auto simp: demo_post_def split: prod.splits sum.splits err.splits)
  show ?thesis
  proof (cases "g = ?g")
    case True
    then show ?thesis by (simp add: start)
  next
    case False
    then obtain key where "handle_chat_completion E T \<lparr>ca_customer = ''cust_demo'', ca_body = gateway_request,
        ca_provider = Some ''Bearer sk-x'', ca_span = None, ca_session = None, ca_key = key, ca_tenant = None\<rparr> ?g = (x, g)"
      using run by (auto simp: chat_completions_def Let_def resolve_tenant_from_key_def truthy_def
          split: sum.splits prod.splits option.splits)
    then obtain C where C: "ca_tenant C = None" "handle_chat_completion E T C ?g = (x, g)"
      by (rule that [rotated]) simp
    have "covered (reg (gw_world ?g))" and pl: "plain_tenant (norm_tenant (ca_tenant C))"
      using assms(1) by (simp_all add: demo_database_covered C(1) plain_tenant_def)
    note F = completion_frame [OF this C(2)]
    have "\<not> gateway_key T C (scoped None ''customer'' ''cust_demo:event_count'')"
      by (rule counter_key_safe(1) [OF _ pl]) (simp add: plain_tenant_def)
    then have "\<not> gateway_key T C ''customer:cust_demo:event_count''" by (simp add: scoped_def)
    from F [OF this] show ?thesis by (simp add: start)
  qed
qed

text \<open>The first check passes where the gateway runs without keys, Redis answers and the catalog prices the request.\<close>

lemma demo_exhausted:
  assumes "asked E gateway_request = Inr (model, stream, est)" and "tu_check_up T" and "ca_customer C = ''cust_demo''" and "ca_tenant C = None"
    and "ca_body C = gateway_request"
  shows "\<exists>gate g'. handle_chat_completion E T C \<lparr>gw_world = \<lparr>reg = demo_database 0, sent = []\<rparr>, gw_cache = cached\<rparr>
    = (Inr (budget_denied_response (DeniedByCheck gate)), g')"
proof -
  let ?k = "rate_limit_key None ''cust_demo'' (trunc_int (tu_now T) div 60)"
  have k: "rget (demo_database 0) ?k = None" by (simp add: demo_database_rget rate_limit_key_def)
  have lim: "rate_limits (demo_database 0) None ''cust_demo'' (tu_now T) = Inr (0, 0)"
    using k by (simp add: rate_limits_def Let_def no_tenant_prefix demo_database_rget)
  have snap: "budget_snapshot (demo_database 0) None ''cust_demo'' = Inr (Some \<lparr>s_customer = ''cust_demo'', s_balance = 0,
      s_held = 0, s_effective = 0, s_debt = 0, s_threshold = None, s_exhausted = True\<rparr>)"
    by (simp add: budget_snapshot_def Let_def no_tenant_prefix demo_database_rget float_or_none_def)
  show ?thesis
    using assms lim snap
    by (simp add: handle_chat_completion_def checked_def budget_check_def check_redis_def Let_def plain_decision_def)
      blast
qed

lemma deny_check_passes:
  assumes "open_mode (ge_auth E)" and "asked E gateway_request = Inr a" and "tu_check_up T"
  shows "fst (self_check_deny E T cached) = Inr ()"
proof -
  let ?T = "T\<lparr>tu_upstream := NoReply RuntimeError\<rparr>" and ?g = "\<lparr>gw_world = \<lparr>reg = demo_database 0, sent = []\<rparr>, gw_cache = cached\<rparr>"
  obtain model stream est where a: "a = (model, stream, est)" by (metis prod_cases3)
  define C where "C = \<lparr>ca_customer = ''cust_demo'', ca_body = gateway_request, ca_provider = Some ''Bearer sk-x'', ca_span = None,
    ca_session = None, ca_key = None, ca_tenant = None\<rparr>"
  obtain gate g' where run: "handle_chat_completion E ?T C ?g = (Inr (budget_denied_response (DeniedByCheck gate)), g')"
    using demo_exhausted [OF assms(2) [unfolded a], of ?T C cached] assms(3) by (auto simp: C_def)
  have "require_api_key (ge_auth E) (ge_digest E) s None = Inr ()"
    and "require_customer_access (ge_auth E) (ge_digest E) s c None = Inr ()" for s c
    using assms(1) by (simp_all add: require_api_key_def require_customer_access_def truthy_def resolve_customer_from_key_def
        resolve_key_context_def is_tenant_key_def resolve_tenant_from_key_def)
  with run have "chat_completions E ?T None (Some ''cust_demo'') None None (Some ''Bearer sk-x'') (Some gateway_request) ?g
      = (Inr (budget_denied_response (DeniedByCheck gate)), g')"
    by (simp add: chat_completions_def Let_def resolve_key_context_def resolve_tenant_from_key_def truthy_def C_def)
  then show ?thesis by (simp add: self_check_deny_def demo_post_def budget_denied_response_def assertE_def)
qed

text \<open>The counter that the second check looks for is one that no completion writes, so the demonstration fails.\<close>

lemma ingest_check_fails: "self_check_ingest E T cached \<noteq> Inr ()"
  by (auto simp: self_check_ingest_def dest: post_frame [rotated] split: prod.splits)

lemma gateway_demo_fails: "gateway_main E T T' \<noteq> Inr ()"
  using ingest_check_fails by (auto simp: gateway_main_def split: prod.splits)

end
