(* ===== verification/Shutdown.thy ===== *)
theory Shutdown
  imports Batcher Dispatcher
begin

text \<open>
  The process-wide producer and batcher of \<^verbatim>\<open>src/api/main.py\<close>, made at first use, and the shutdown handler that
  closes them: the batcher first, whose worker it waits for, then the producer's polling thread. What happens in one process is
  a step relation; what \<open>accept_many\<close> answers and the requests are arguments.

  The lemmas show that the polling thread, without which no delivery is reported, outlives every batch that
  is being handed over, and exactly when a shutdown can still end: never once the worker is at its last
  flush and the queue is full.
\<close>

section \<open>State and operations\<close>

record dispatcher =
  kd_inflight :: nat
  kd_polling :: bool

datatype stop_pc = Serving | Closing | Stopped

record 'c process =
  pr_producer :: "dispatcher option"
  pr_batcher :: "'c batcher option"
  pr_stop :: stop_pc

record process_env =
  pe_inflight :: nat
  pe_batch :: int
  pe_wait :: rat
  pe_queue :: int

definition new_process :: "'c process" where
  "new_process = \<lparr>pr_producer = None, pr_batcher = None, pr_stop = Serving\<rparr>"

definition get_kafka_producer :: "process_env \<Rightarrow> 'c process \<Rightarrow> 'c process" where
  "get_kafka_producer S p =
     (if pr_producer p = None then p\<lparr>pr_producer := Some \<lparr>kd_inflight = pe_inflight S, kd_polling = True\<rparr>\<rparr> else p)"

text \<open>The custody that the batcher is made for takes the producer first.\<close>

definition get_custody_batcher :: "process_env \<Rightarrow> 'c process \<Rightarrow> 'c batcher res \<times> 'c process" where
  "get_custody_batcher S p =
     (case pr_batcher p of
        Some b \<Rightarrow> (Inr b, p)
      | None \<Rightarrow>
          let p1 = get_kafka_producer S p in
          (case make_batcher (pe_batch S) (pe_wait S) (pe_queue S) of
             Inl e \<Rightarrow> (Inl e, p1)
           | Inr b \<Rightarrow> (Inr b, p1\<lparr>pr_batcher := Some b\<rparr>)))"

text \<open>A request of \<open>/ingest\<close> up to where it waits.\<close>

definition submit_event :: "process_env \<Rightarrow> event \<Rightarrow> 'c \<Rightarrow> 'c process \<Rightarrow> nat res \<times> 'c process" where
  "submit_event S ev ctx p =
     (case get_custody_batcher S p of
        (Inl e, p1) \<Rightarrow> (Inl e, p1)
      | (Inr b, p1) \<Rightarrow> (case batcher_accept ev ctx b of (r, b') \<Rightarrow> (r, p1\<lparr>pr_batcher := Some b'\<rparr>)))"

definition dispatcher_close :: "dispatcher \<Rightarrow> dispatcher" where
  "dispatcher_close d = d\<lparr>kd_polling := False\<rparr>"

text \<open>
  \<open>stop_kafka_dispatcher\<close> up to its \<open>await\<close>, and from there on: the batcher has let it go when its worker never ran, or
  has taken the stop mark and returned.
\<close>

definition stop_rest :: "'c process \<Rightarrow> 'c process" where
  "stop_rest p = p\<lparr>pr_batcher := None, pr_producer := map_option dispatcher_close (pr_producer p), pr_stop := Stopped\<rparr>"

definition stop_begin :: "'c process \<Rightarrow> 'c process" where
  "stop_begin p =
     (case pr_batcher p of
        None \<Rightarrow> stop_rest p
      | Some b \<Rightarrow> if closed b then stop_rest p else p\<lparr>pr_batcher := Some (batcher_close b), pr_stop := Closing\<rparr>)"

definition let_go :: "'c batcher \<Rightarrow> bool" where
  "let_go b \<longleftrightarrow> (case worker b of NoWorker \<Rightarrow> True | Returned \<Rightarrow> \<not> stop_owed b | _ \<Rightarrow> False)"

text \<open>What the batcher does on its own.\<close>

inductive worker_step ::
  "('c \<Rightarrow> event list \<Rightarrow> custody_reply list res) set \<Rightarrow> 'c batcher \<Rightarrow> 'c batcher \<Rightarrow> bool" for A where
  stop_mark: "worker_step A b (put_stop b)"
| taken: "worker_step A b (take_item b)"
| waited: "worker_step A b (collect_timeout b)"
| flushed: "accept_many \<in> A \<Longrightarrow> worker_step A b (finish_flush accept_many b)"

text \<open>Requests come until the handler has run.\<close>

inductive process_step ::
  "process_env \<Rightarrow> ('c \<Rightarrow> event list \<Rightarrow> custody_reply list res) set \<Rightarrow> 'c process \<Rightarrow> 'c process \<Rightarrow> bool" for S A where
  request: "pr_stop p \<noteq> Stopped \<Longrightarrow> process_step S A p (snd (submit_event S ev ctx p))"
| warm_up: "pr_stop p \<noteq> Stopped \<Longrightarrow> process_step S A p (get_kafka_producer S p)"
| work: "pr_batcher p = Some b \<Longrightarrow> worker_step A b b' \<Longrightarrow> process_step S A p (p\<lparr>pr_batcher := Some b'\<rparr>)"
| stop_start: "pr_stop p = Serving \<Longrightarrow> process_step S A p (stop_begin p)"
| stop_end: "pr_stop p = Closing \<Longrightarrow> pr_batcher p = Some b \<Longrightarrow> let_go b \<Longrightarrow> process_step S A p (stop_rest p)"

section \<open>The batcher of a process\<close>

lemma worker_batcher: "worker_step A b b' \<Longrightarrow> batcher_step A b b'"
  by (induction rule: worker_step.induct) (auto intro: batcher_step.intros)

lemma worker_keeps:
  assumes "worker_step A b b'"
  shows "max_queue b' = max_queue b" and "closed b \<Longrightarrow> closed b'" and "worker b \<noteq> NoWorker \<Longrightarrow> worker b' \<noteq> NoWorker"
    and "\<not> closed b \<Longrightarrow> Stop \<notin> set (queue b) \<Longrightarrow> \<not> closed b'"
  using assms
  by (induction rule: worker_step.induct; auto simp: put_stop_def take_item_def collect_timeout_def finish_flush_def
      split: worker.splits list.splits item.splits)+

text \<open>The worker of a closed batcher that waits for an item will get the stop mark.\<close>

definition mark_coming :: "'c batcher \<Rightarrow> bool" where
  "mark_coming b \<longleftrightarrow> (closed b \<and> worker b = Idle \<longrightarrow> stop_owed b \<or> Stop \<in> set (queue b))"

lemma submit_state:
  assumes "accounted b"
  shows "accounted (snd (batcher_accept ev ctx b))" and "closed (snd (batcher_accept ev ctx b)) = closed b"
    and "max_queue (snd (batcher_accept ev ctx b)) = max_queue b"
    and "closed b \<Longrightarrow> snd (batcher_accept ev ctx b) = b" and "mark_coming b \<Longrightarrow> mark_coming (snd (batcher_accept ev ctx b))"
  using accounted_submit [OF assms] by (auto simp: batcher_accept_def mark_coming_def)

text \<open>
  The invariant: while it serves, an open batcher that accounts for its requests and a polling producer; while it closes, a closed one
  and a polling producer; once stopped, neither.
\<close>

definition process_ok :: "'c process \<Rightarrow> bool" where
  "process_ok p \<longleftrightarrow>
     (case pr_batcher p of
        None \<Rightarrow> pr_stop p \<noteq> Closing
      | Some b \<Rightarrow> accounted b \<and> 1 \<le> max_queue b \<and> pr_stop p \<noteq> Stopped \<and> (closed b \<longleftrightarrow> pr_stop p = Closing)
          \<and> pr_producer p \<noteq> None \<and> mark_coming b)
     \<and> (\<forall>d. pr_producer p = Some d \<longrightarrow> (kd_polling d \<longleftrightarrow> pr_stop p \<noteq> Stopped))"

lemma make_batcher_open: "make_batcher m t q = Inr b \<Longrightarrow> \<not> closed b \<and> 1 \<le> max_queue b"
  by (auto simp: make_batcher_def split: if_splits)

lemma mark_worker: "worker_step A b b' \<Longrightarrow> mark_coming b \<Longrightarrow> mark_coming b'"
  by (induction rule: worker_step.induct)
     (auto simp: mark_coming_def put_stop_def take_item_def collect_timeout_def finish_flush_def
       split: worker.splits list.splits item.splits)

lemma mark_open: "\<not> closed b \<Longrightarrow> mark_coming b"
  by (simp add: mark_coming_def)

lemma producer_ok: "process_ok p \<Longrightarrow> pr_stop p \<noteq> Stopped \<Longrightarrow> process_ok (get_kafka_producer S p)"
  by (auto simp: process_ok_def get_kafka_producer_def split: option.splits)

lemma request_ok:
  assumes "process_ok p" and "pr_stop p \<noteq> Stopped"
  shows "process_ok (snd (submit_event S ev ctx p))"
proof (cases "pr_batcher p")
  case (Some b)
  obtain r b' where r: "batcher_accept ev ctx b = (r, b')" by fastforce
  have "accounted b" using assms(1) Some by (simp add: process_ok_def)
  from submit_state [OF this, of ev ctx] assms show ?thesis
    by (simp add: submit_event_def get_custody_batcher_def process_ok_def Some r)
next
  case None
  define p1 where "p1 = get_kafka_producer S p"
  have p1: "process_ok p1" "pr_stop p1 = pr_stop p" "pr_batcher p1 = None" "pr_producer p1 \<noteq> None"
    using producer_ok [OF assms, of S] None by (auto simp: p1_def get_kafka_producer_def)
  show ?thesis
  proof (cases "make_batcher (pe_batch S) (pe_wait S) (pe_queue S) :: 'a batcher res")
    case (Inl e)
    with p1(1) show ?thesis by (simp add: submit_event_def get_custody_batcher_def None Let_def p1_def)
  next
    case (Inr b)
    obtain r b' where r: "batcher_accept ev ctx b = (r, b')" by fastforce
    note B = make_batcher_open [OF Inr] submit_state [OF make_batcher_accounted [OF Inr], of ev ctx]
    have "pr_stop p \<noteq> Closing" using assms(1) None by (simp add: process_ok_def)
    with B p1 assms(2) mark_open [of b] show ?thesis
      by (simp add: submit_event_def get_custody_batcher_def None Let_def Inr r process_ok_def flip: p1_def)
  qed
qed

lemma worker_open: "worker_step A b b' \<Longrightarrow> accounted b \<Longrightarrow> closed b' = closed b"
  using worker_keeps(2,4) [of A b b'] by (auto simp: accounted_def)

lemma stop_begin_ok:
  assumes "process_ok p" and "pr_stop p = Serving"
  shows "process_ok (stop_begin p)"
proof (cases "pr_batcher p")
  case None
  with assms show ?thesis
    by (auto simp: process_ok_def stop_begin_def stop_rest_def dispatcher_close_def)
next
  case (Some b)
  then have b: "accounted b" "\<not> closed b" using assms by (simp_all add: process_ok_def)
  have "accounted (batcher_close b)" by (rule accounted_step [OF batcher_step.close b(1)])
  with assms Some b(2) show ?thesis
    by (simp add: process_ok_def stop_begin_def) (simp add: batcher_close_def mark_coming_def)
qed

lemma stop_rest_ok: "process_ok p \<Longrightarrow> process_ok (stop_rest p)"
  by (auto simp: process_ok_def stop_rest_def dispatcher_close_def)

lemma process_step_ok: "process_step S A p p' \<Longrightarrow> process_ok p \<Longrightarrow> process_ok p'"
proof (induction rule: process_step.induct)
  case (work p b b')
  have "accounted b" using work.hyps(1) work.prems by (simp add: process_ok_def)
  then have "accounted b'" "closed b' = closed b" "max_queue b' = max_queue b"
    using accounted_step [OF worker_batcher [OF work.hyps(2)]] worker_open [OF work.hyps(2)] worker_keeps(1) [OF work.hyps(2)]
    by simp_all
  with work.hyps(1) work.prems mark_worker [OF work.hyps(2)] show ?case by (simp add: process_ok_def)
qed (simp_all add: request_ok producer_ok stop_begin_ok stop_rest_ok)

lemma process_steps_ok: "rtranclp (process_step S A) new_process p \<Longrightarrow> process_ok p"
proof (induction rule: rtranclp_induct)
  case base
  show ?case by (simp add: new_process_def process_ok_def)
qed (rule process_step_ok)

text \<open>
  C39: the shutdown closes in the right order. Whatever requests, the worker and the shutdown handler do in whatever order,
  while there is a batcher, and so while any batch is collected or handed to custody, there is a producer and its
  polling thread runs, so deliveries are reported; once the handler has ended there is no batcher and the
  thread is told to stop.
\<close>

theorem polling_outlives_batches:
  assumes "rtranclp (process_step S A) new_process p"
  shows "(pr_batcher p \<noteq> None \<longrightarrow> (\<exists>d. pr_producer p = Some d \<and> kd_polling d))
    \<and> (pr_stop p = Stopped \<longrightarrow> pr_batcher p = None \<and> (case pr_producer p of None \<Rightarrow> True | Some d \<Rightarrow> \<not> kd_polling d))"
  using process_steps_ok [OF assms] by (auto simp: process_ok_def split: option.splits)

section \<open>When a shutdown can end\<close>

text \<open>The worker takes no more and there is no room for the stop mark.\<close>

definition wedged :: "'c batcher \<Rightarrow> bool" where
  "wedged b \<longleftrightarrow> stop_owed b \<and> length (queue b) \<ge> max_queue b
     \<and> (case worker b of Flushing rs \<Rightarrow> True | Returned \<Rightarrow> True | _ \<Rightarrow> False)"

lemma wedged_stays:
  assumes "worker_step A b b'" and "wedged b" and "closed b"
  shows "wedged b'"
  using assms
  by (induction rule: worker_step.induct)
     (auto simp: wedged_def put_stop_def take_item_def collect_timeout_def finish_flush_def split: worker.splits)

definition stuck :: "'c process \<Rightarrow> bool" where
  "stuck p \<longleftrightarrow> pr_stop p = Closing \<and> (\<exists>b. pr_batcher p = Some b \<and> closed b \<and> wedged b)"

lemma stuck_step: "process_step S A p p' \<Longrightarrow> stuck p \<Longrightarrow> stuck p'"
proof (induction rule: process_step.induct)
  case (work p b b')
  with wedged_stays [of A b b'] worker_keeps(2) [of A b b'] show ?case by (auto simp: stuck_def)
next
  case (request p ev ctx)
  then show ?case by (auto simp: stuck_def submit_event_def get_custody_batcher_def batcher_accept_def)
next
  case (warm_up p)
  then show ?case by (auto simp: stuck_def get_kafka_producer_def)
qed (auto simp: stuck_def wedged_def let_go_def split: worker.splits)

lemma stuck_steps: "rtranclp (process_step S A) p p' \<Longrightarrow> stuck p \<Longrightarrow> stuck p'"
  by (induction rule: rtranclp_induct) (auto intro: stuck_step)

lemma lift_work:
  assumes "rtranclp (worker_step A) b b'" and "pr_batcher p = Some b"
  shows "rtranclp (process_step S A) p (p\<lparr>pr_batcher := Some b'\<rparr>)"
  using assms(1)
proof (induction rule: rtranclp_induct)
  case base
  have "p\<lparr>pr_batcher := Some b\<rparr> = p" using assms(2) by (cases p) simp
  then show ?case by simp
next
  case (step b1 b2)
  have "process_step S A (p\<lparr>pr_batcher := Some b1\<rparr>) ((p\<lparr>pr_batcher := Some b1\<rparr>)\<lparr>pr_batcher := Some b2\<rparr>)"
    by (rule process_step.work [OF _ step.hyps(2)]) simp
  with step.IH show ?case by simp
qed

text \<open>Once the stop mark is queued or not owed, the worker of a closed batcher gets to its end.\<close>

lemma flush_returns:
  assumes "worker b = Flushing rs" and "closed b" and "acc \<in> A"
  shows "worker_step A b (finish_flush acc b)" and "worker (finish_flush acc b) = Returned"
    and "stop_owed (finish_flush acc b) = stop_owed b" and "queue (finish_flush acc b) = queue b"
  using worker_step.flushed [OF assms(3), of b] assms(1,2) by (simp_all add: finish_flush_def)

lemma ends_flushing:
  assumes "worker b = Flushing rs" and "closed b" and "\<not> wedged b" and "acc \<in> A"
  shows "\<exists>b'. rtranclp (worker_step A) b b' \<and> let_go b'"
proof -
  define b1 where "b1 = put_stop b"
  have b1: "worker b1 = Flushing rs" "closed b1" "\<not> stop_owed b1"
    using assms(1-3) by (auto simp: b1_def put_stop_def wedged_def)
  have "worker_step A b b1" unfolding b1_def by (rule worker_step.stop_mark)
  with flush_returns [OF b1(1,2) assms(4)] b1(3) show ?thesis
    by (intro exI [of _ "finish_flush acc b1"]) (auto simp: let_go_def intro: rtranclp.rtrancl_into_rtrancl)
qed

lemma ends_collecting:
  assumes "worker b = Collecting rs" and "closed b" and "1 \<le> max_queue b" and "length (queue b) \<le> max_queue b" and "acc \<in> A"
  shows "\<exists>b'. rtranclp (worker_step A) b b' \<and> let_go b'"
proof (cases "stop_owed b \<and> length (queue b) \<ge> max_queue b")
  case False
  define b1 where "b1 = collect_timeout b"
  have b1: "worker b1 = Flushing rs" "closed b1" "\<not> wedged b1"
    using assms(1,2) False by (auto simp: b1_def collect_timeout_def wedged_def)
  obtain b' where "rtranclp (worker_step A) b1 b'" "let_go b'" using ends_flushing [OF b1 assms(5)] by blast
  moreover have "worker_step A b b1" unfolding b1_def by (rule worker_step.waited)
  ultimately show ?thesis by (blast intro: converse_rtranclp_into_rtranclp)
next
  case True
  then obtain x rest where q: "queue b = x # rest" using assms(3) by (cases "queue b") auto
  define b1 where "b1 = collect_timeout (take_item b)"
  have "length rest < max_queue b" using q assms(4) by simp
  then have "\<exists>rs'. worker b1 = Flushing rs'" "closed b1" "\<not> wedged b1"
    using assms(1,2) q by (cases x; auto simp: b1_def take_item_def collect_timeout_def wedged_def)+
  then obtain b' where "rtranclp (worker_step A) b1 b'" "let_go b'" using ends_flushing [of b1] assms(5) by blast
  moreover have "worker_step A b (take_item b)" "worker_step A (take_item b) b1"
    unfolding b1_def by (rule worker_step.taken, rule worker_step.waited)
  ultimately show ?thesis by (blast intro: converse_rtranclp_into_rtranclp)
qed

lemma ends_idle:
  assumes "worker b = Idle" and "closed b" and "1 \<le> max_queue b" and "length (queue b) \<le> max_queue b"
    and "stop_owed b \<or> Stop \<in> set (queue b)" and "acc \<in> A"
  shows "\<exists>b'. rtranclp (worker_step A) b b' \<and> let_go b'"
proof -
  define b0 where "b0 = put_stop b"
  have b0: "worker b0 = Idle" "closed b0" "max_queue b0 = max_queue b" "length (queue b0) \<le> max_queue b" "queue b0 \<noteq> []"
    "stop_owed b0 \<longrightarrow> length (queue b0) = max_queue b"
    using assms(1-5) by (auto simp: b0_def put_stop_def)
  have s0: "worker_step A b b0" unfolding b0_def by (rule worker_step.stop_mark)
  obtain x rest where q: "queue b0 = x # rest" using b0(5) by (cases "queue b0") auto
  have s1: "worker_step A b0 (take_item b0)" by (rule worker_step.taken)
  have "\<exists>b'. rtranclp (worker_step A) (take_item b0) b' \<and> let_go b'"
  proof (cases x)
    case Stop
    define b1 where "b1 = put_stop (take_item b0)"
    have "worker_step A (take_item b0) b1" unfolding b1_def by (rule worker_step.stop_mark)
    moreover have "let_go b1"
      using b0(1,3,4) q by (auto simp: b1_def let_go_def put_stop_def take_item_def Stop)
    ultimately show ?thesis by blast
  next
    case (Req r)
    have t: "closed (take_item b0)" "max_queue (take_item b0) = max_queue b" "length (queue (take_item b0)) < max_queue b"
      using b0(1-4) q by (auto simp: take_item_def Req)
    show ?thesis
    proof (cases "max_batch b0 \<le> 1")
      case True
      then have w: "worker (take_item b0) = Flushing [r]" using b0(1) q by (simp add: take_item_def Req)
      show ?thesis by (rule ends_flushing [OF w t(1) _ assms(6)]) (use t(2,3) in \<open>simp add: wedged_def\<close>)
    next
      case False
      then have w: "worker (take_item b0) = Collecting [r]" using b0(1) q by (simp add: take_item_def Req)
      show ?thesis by (rule ends_collecting [OF w t(1) _ _ assms(6)]) (use t assms(3) in auto)
    qed
  qed
  with s0 s1 show ?thesis by (blast intro: converse_rtranclp_into_rtranclp)
qed

lemma closing_ends:
  assumes "process_ok p" and "pr_stop p = Closing" and "pr_batcher p = Some b" and "\<not> wedged b" and "acc \<in> A"
  shows "\<exists>b'. rtranclp (worker_step A) b b' \<and> let_go b'"
proof -
  have ok: "closed b" "1 \<le> max_queue b" "length (queue b) \<le> max_queue b" "mark_coming b"
    using assms(1-3) by (simp_all add: process_ok_def accounted_def)
  show ?thesis
  proof (cases "worker b")
    case NoWorker
    then show ?thesis by (intro exI [of _ b]) (simp add: let_go_def)
  next
    case Idle
    then show ?thesis using ends_idle [OF Idle ok(1-3) _ assms(5)] ok(1,4) by (simp add: mark_coming_def)
  next
    case (Collecting rs)
    then show ?thesis using ends_collecting [OF Collecting ok(1-3) assms(5)] by blast
  next
    case (Flushing rs)
    then show ?thesis using ends_flushing [OF Flushing ok(1) assms(4,5)] by blast
  next
    case Returned
    have "let_go (put_stop b)" using Returned assms(4) by (auto simp: let_go_def put_stop_def wedged_def)
    moreover have "worker_step A b (put_stop b)" by (rule worker_step.stop_mark)
    ultimately show ?thesis by blast
  qed
qed

text \<open>
  C8: when a shutdown can end. From a reachable state in which the handler waits for the batcher, it can still end, whatever
  custody answers, unless the stop mark has no room in the queue and the worker is at its last flush
  or has returned; and in that case, which is possible, it never ends, whatever happens: nobody takes from the queue any more, so the
  producer is not closed and the callers in the queue are not answered.
\<close>

theorem shutdown_ends_unless_wedged:
  assumes "rtranclp (process_step S A) new_process p" and "A \<noteq> {}" and "pr_stop p = Closing" and "pr_batcher p = Some b"
  shows "(\<exists>p'. rtranclp (process_step S A) p p' \<and> pr_stop p' = Stopped) \<longleftrightarrow> \<not> wedged b"
proof
  have ok: "process_ok p" by (rule process_steps_ok [OF assms(1)])
  assume "\<exists>p'. rtranclp (process_step S A) p p' \<and> pr_stop p' = Stopped"
  then show "\<not> wedged b"
    using stuck_steps [of S A p] assms(3,4) ok by (auto simp: stuck_def process_ok_def)
next
  assume w: "\<not> wedged b"
  obtain acc where "acc \<in> A" using assms(2) by blast
  then obtain b' where b': "rtranclp (worker_step A) b b'" "let_go b'"
    using closing_ends [OF process_steps_ok [OF assms(1)] assms(3,4) w] by blast
  let ?p = "p\<lparr>pr_batcher := Some b'\<rparr>"
  have "rtranclp (process_step S A) p ?p" by (rule lift_work [OF b'(1) assms(4)])
  moreover have "process_step S A ?p (stop_rest ?p)"
    by (rule process_step.stop_end [of _ b']) (use assms(3) b'(2) in simp_all)
  moreover have "pr_stop (stop_rest ?p) = Stopped" by (simp add: stop_rest_def)
  ultimately show "\<exists>p'. rtranclp (process_step S A) p p' \<and> pr_stop p' = Stopped"
    by (blast intro: rtranclp.rtrancl_into_rtrancl)
qed

section \<open>A shutdown that hangs\<close>

definition demo_settings :: process_env where
  "demo_settings = \<lparr>pe_inflight = 8, pe_batch = 1, pe_wait = 0, pe_queue = 1\<rparr>"

text \<open>One request is being handed over and another fills the queue when the handler starts.\<close>

definition demo_one :: "nat process" where
  "demo_one = snd (submit_event demo_settings (demo_event ''a'') 0 new_process)"

definition demo_two :: "nat process" where
  "demo_two = snd (submit_event demo_settings (demo_event ''b'') 0
     (demo_one\<lparr>pr_batcher := map_option take_item (pr_batcher demo_one)\<rparr>))"

definition demo_closing :: "nat process" where
  "demo_closing = stop_begin demo_two"

definition demo_made :: "nat batcher" where
  "demo_made = \<lparr>max_batch = 1, max_queue = 1, queue = [], closed = False, stop_owed = False, worker = NoWorker,
     answers = (\<lambda>_. None), next_id = 0\<rparr>"

lemma demo_made_def': "make_batcher 1 0 1 = Inr demo_made"
  by (simp add: make_batcher_def demo_made_def)

lemma demo_one_state: "pr_batcher demo_one = Some (demo_made\<lparr>queue := [Req \<lparr>q_id = 0, q_event = demo_event ''a'', q_ctx = 0\<rparr>],
    next_id := 1, worker := Idle\<rparr>)" "pr_stop demo_one = Serving"
  by (simp_all add: demo_one_def submit_event_def get_custody_batcher_def new_process_def demo_settings_def demo_made_def'
      get_kafka_producer_def batcher_accept_def) (simp_all add: demo_made_def)

lemma demo_two_state: "pr_batcher demo_two = Some (demo_made\<lparr>queue := [Req \<lparr>q_id = 1, q_event = demo_event ''b'', q_ctx = 0\<rparr>],
    next_id := 2, worker := Flushing [\<lparr>q_id = 0, q_event = demo_event ''a'', q_ctx = 0\<rparr>]\<rparr>)" "pr_stop demo_two = Serving"
  by (simp_all add: demo_two_def submit_event_def get_custody_batcher_def demo_one_state take_item_def batcher_accept_def demo_made_def)

lemma demo_closing_state: "pr_stop demo_closing = Closing"
  "\<exists>b. pr_batcher demo_closing = Some b \<and> wedged b"
  by (simp_all add: demo_closing_def stop_begin_def demo_two_state batcher_close_def wedged_def demo_made_def)

lemma demo_closing_reached: "rtranclp (process_step demo_settings A) new_process demo_closing"
proof -
  let ?taken = "demo_one\<lparr>pr_batcher := map_option take_item (pr_batcher demo_one)\<rparr>"
  have "process_step demo_settings A new_process demo_one"
    unfolding demo_one_def by (rule process_step.request) (simp add: new_process_def)
  then have "rtranclp (process_step demo_settings A) new_process demo_one" by (rule r_into_rtranclp)
  moreover have "process_step demo_settings A demo_one ?taken"
    using process_step.work [OF demo_one_state(1) worker_step.taken, of demo_settings A] demo_one_state(1) by simp
  ultimately have "rtranclp (process_step demo_settings A) new_process ?taken" by (rule rtranclp.rtrancl_into_rtrancl)
  moreover have "process_step demo_settings A ?taken demo_two"
    unfolding demo_two_def by (rule process_step.request) (simp add: demo_one_state(2))
  ultimately have "rtranclp (process_step demo_settings A) new_process demo_two" by (rule rtranclp.rtrancl_into_rtrancl)
  moreover have "process_step demo_settings A demo_two demo_closing"
    unfolding demo_closing_def by (rule process_step.stop_start [OF demo_two_state(2)])
  ultimately show ?thesis by (rule rtranclp.rtrancl_into_rtrancl)
qed

lemma shutdown_can_hang:
  "\<exists>p. rtranclp (process_step demo_settings A) (new_process :: nat process) p \<and> pr_stop p = Closing
     \<and> (\<forall>p'. rtranclp (process_step demo_settings A) p p' \<longrightarrow> pr_stop p' = Closing)"
proof (intro exI conjI allI impI)
  show "rtranclp (process_step demo_settings A) new_process demo_closing" by (rule demo_closing_reached)
  show "pr_stop demo_closing = Closing" by (rule demo_closing_state)
  fix p' assume steps: "rtranclp (process_step demo_settings A) demo_closing p'"
  have "process_ok demo_closing" by (rule process_steps_ok [OF demo_closing_reached])
  then have "stuck demo_closing" using demo_closing_state by (auto simp: stuck_def process_ok_def)
  from stuck_steps [OF steps this] show "pr_stop p' = Closing" by (simp add: stuck_def)
qed

theorem polling_outlives_batches_witness:
  "\<exists>d. pr_producer demo_closing = Some d \<and> kd_polling d"
  using polling_outlives_batches [OF demo_closing_reached [of UNIV]] demo_closing_state(2) by auto

theorem shutdown_ends_unless_wedged_witness:
  "\<not> (\<exists>p'. rtranclp (process_step demo_settings UNIV) demo_closing p' \<and> pr_stop p' = Stopped)"
proof -
  obtain b where b: "pr_batcher demo_closing = Some b" "wedged b" using demo_closing_state(2) by blast
  from shutdown_ends_unless_wedged [OF demo_closing_reached [of UNIV] _ demo_closing_state(1) b(1)] b(2)
  show ?thesis by blast
qed

end
