(* ===== verification/Reservation_Holds.thy ===== *)
theory Reservation_Holds
  imports Reservation_Cases
begin

text \<open>
  The holds without a record of \<^verbatim>\<open>src/api/reservation.py\<close>, \<open>reserve\<close> and \<open>reconcile\<close>, which the SDK uses for
  streams.

  The lemmas show that a hold is granted exactly if it fits, that releasing it restores what was held, and
  that a release of more than is held leaves nothing held.
\<close>

section \<open>Granting\<close>

lemma reserve_script_cases:
  assumes "reserve_script s K est sp = Inr (res, s')"
  obtains (denied) "s' = s" and "\<exists>x rest. res = RInt x # rest \<and> x \<le> 0"
  | (reserved) sh ss s1 where "rget s (k_balance K) \<noteq> None"
      and "est \<le> num0 (rget s (k_balance K)) - num0 (rget s (k_held K))"
      and "span_hold s K sp est = Inr (False, sh, ss, s1)" and "incrbyfloat s1 (k_held K) est = Inr s'"
      and "\<exists>rest. res = RInt 1 # rest"
  using assms unfolding reserve_script_def Let_def
  by (auto split: option.splits if_splits dest!: lua_num_InrD span_hold_denied)

lemma hold_reserve_cases:
  assumes "hold_reserve t s c est sp = Inr (r, s')"
  defines "bk \<equiv> budget_prefix_for_read s t c"
  obtains (denied) "s' = s" and "\<not> h_allowed r" and "0 < est"
  | (reserved) sk sh ss s1 where "span_key_of s t sp = Inr sk" and "0 < est" and "h_allowed r" and "h_reserved r = Some est"
      and "rget s (bk @ '':balance_usd'') \<noteq> None"
      and "est \<le> num0 (rget s (bk @ '':balance_usd'')) - num0 (rget s (bk @ '':held_usd''))"
      and "span_hold s (keys_for bk sk) (text_or_empty sp) est = Inr (False, sh, ss, s1)"
      and "incrbyfloat s1 (bk @ '':held_usd'') est = Inr s'"
proof -
  obtain sk res where pos: "0 < est" and sk: "span_key_of s t sp = Inr sk"
    and scr: "reserve_script s (keys_for bk sk) est (text_or_empty sp) = Inr (res, s')"
    and dec: "decode_reserve sp est res = Inr r"
    using assms(1) unfolding hold_reserve_def bk_def by (auto simp: Let_def split: if_splits)
  from scr show thesis
  proof (cases rule: reserve_script_cases)
    case denied
    then have "\<not> h_allowed r"
      using dec by (auto simp: decode_reserve_def denied_reply_def Let_def split: list.splits reply.splits if_splits)
    with denied(1) pos show thesis by (intro that(1))
  next
    case (reserved sh ss s1)
    then have "h_allowed r \<and> h_reserved r = Some est"
      using dec by (auto simp: decode_reserve_def denied_reply_def Let_def split: list.splits reply.splits if_splits)
    with reserved pos sk show thesis by (intro that(2)) simp_all
  qed
qed

lemma reserve_within_balance:
  assumes "plain_tenant t" and "hold_reserve t s c est sp = Inr (r, s')"
  shows "let bal = budget_prefix_for_read s t c @ '':balance_usd'';
             held = budget_prefix_for_read s t c @ '':held_usd''
         in if h_allowed r
            then h_reserved r = Some est \<and> 0 < est \<and> rget s' bal = rget s bal \<and> rget s bal \<noteq> None
              \<and> num0 (rget s' held) = num0 (rget s held) + est \<and> num0 (rget s' held) \<le> num0 (rget s' bal)
            else s' = s"
  using assms(2)
proof (cases rule: hold_reserve_cases)
  case (reserved sk sh ss s1)
  define bk where "bk = budget_prefix_for_read s t c"
  have hk: "is_budget_held (bk @ '':held_usd'')" unfolding bk_def by (rule budget_read_held [OF assms(1)])
  have sp: "text_or_empty sp = [] \<or> is_span_held (k_span_held (keys_for bk sk))"
    using span_key_shape [OF assms(1) reserved(1)] by (auto split: option.splits)
  note S = span_hold_spec(2) [OF reserved(7), folded bk_def] and I = incr_num [OF reserved(8), folded bk_def]
  have "rget s1 (bk @ '':held_usd'') = rget s (bk @ '':held_usd'')"
    by (rule S) (use sp budget_span_disjoint [OF hk] in metis)
  moreover have "rget s1 (bk @ '':balance_usd'') = rget s (bk @ '':balance_usd'')"
    by (rule S) (use sp in \<open>auto simp: is_span_held_def\<close>)
  ultimately show ?thesis
    using reserved(2-6) I(2) I(3) [of "bk @ '':balance_usd''"] by (simp add: Let_def flip: bk_def)
qed (simp add: Let_def)

text \<open>Without a span, on amounts that are numbers, it is granted exactly if it fits.\<close>

lemma reserve_grants:
  assumes "0 < est" and "rget s (budget_prefix_for_read s t c @ '':balance_usd'') = Some v" and "is_num (Some v)"
    and "is_num (rget s (budget_prefix_for_read s t c @ '':held_usd''))"
  shows "\<exists>r s'. hold_reserve t s c est None = Inr (r, s')
    \<and> (h_allowed r \<longleftrightarrow> est \<le> num0 (Some v) - num0 (rget s (budget_prefix_for_read s t c @ '':held_usd'')))"
proof -
  obtain s' where "incrbyfloat s (budget_prefix_for_read s t c @ '':held_usd'') est = Inr s'"
    using incrbyfloat_ok [OF assms(4)] by blast
  with assms show ?thesis
    by (auto simp: hold_reserve_def Let_def span_key_of_def truthy_def reserve_script_def span_hold_def text_or_empty_def
        decode_reserve_def denied_reply_def reply_float_def lua_number_def)
qed

section \<open>Releasing\<close>

lemma reconcile_ok:
  assumes "is_num (rget s (budget_prefix_for_read s t c @ '':held_usd''))"
    and "is_num (rget s (budget_prefix_for_read s t c @ '':balance_usd''))"
  shows "\<exists>r s'. hold_reconcile t s c amount None = Inr (r, s')"
proof -
  let ?hk = "budget_prefix_for_read s t c @ '':held_usd''" and ?bk = "budget_prefix_for_read s t c @ '':balance_usd''"
  define x where "x = min (num0 (rget s ?hk)) (max 0 amount)"
  obtain s0 where "incrbyfloat s ?hk (- x) = Inr s0" using incrbyfloat_ok [OF assms(1)] by blast
  then have "\<exists>s1. (if x > 0 then incrbyfloat s ?hk (- x) else Inr s) = Inr s1" by simp
  then obtain s1 where i: "(if x > 0 then incrbyfloat s ?hk (- x) else Inr s) = Inr s1" by blast
  have "rget s1 ?bk = rget s ?bk"
    using i incr_num(3) [of s ?hk "- x" s1 ?bk] by (simp split: if_splits)
  with assms(2) have "is_num (rget s1 ?bk)" by simp
  moreover have "release_hold s ?hk ''noop'' (max 0 amount) = Inr (num0 (rget s ?hk), x, s1)"
    unfolding release_hold_def Let_def lua_num_simps [OF assms(1)] bindE_simps x_def [symmetric] i by simp
  ultimately have script: "\<exists>b h q. reconcile_script s ?hk ?bk ''noop'' (max 0 amount) = Inr ([lua_number b, lua_number h, lua_number q], s1)"
    by (simp add: reconcile_script_def) blast
  then show ?thesis
    by (fastforce simp: hold_reconcile_def span_key_of_def truthy_def Let_def)
qed

lemma reconcile_releases:
  assumes "plain_tenant t" and "hold_reconcile t s c amount sp = Inr (r, s')"
  shows "let bal = budget_prefix_for_read s t c @ '':balance_usd'';
             held = budget_prefix_for_read s t c @ '':held_usd''
         in rget s' bal = rget s bal
            \<and> num0 (rget s' held) = num0 (rget s held) - max 0 (min (num0 (rget s held)) amount)"
proof -
  define bk where "bk = budget_prefix_for_read s t c"
  obtain sk res held released where sk: "span_key_of s t sp = Inr sk"
    and rel: "release_hold s (bk @ '':held_usd'') (case sk of None \<Rightarrow> ''noop'' | Some p \<Rightarrow> p @ '':held_usd'') (max 0 amount)
      = Inr (held, released, s')"
    using assms(2) unfolding hold_reconcile_def reconcile_script_def bk_def by (auto simp: Let_def)
  have hk: "is_budget_held (bk @ '':held_usd'')" unfolding bk_def by (rule budget_read_held [OF assms(1)])
  have sp: "sk = None \<or> is_span_held (case sk of None \<Rightarrow> ''noop'' | Some p \<Rightarrow> p @ '':held_usd'')"
    using span_key_shape [OF assms(1) sk] by (auto split: option.splits)
  have "(case sk of None \<Rightarrow> ''noop'' | Some p \<Rightarrow> p @ '':held_usd'') \<noteq> bk @ '':held_usd''"
    using sp budget_span_disjoint [OF hk] hk by (auto simp: is_budget_held_def scoped_def split: option.splits)
  note R = release_hold_spec [OF rel this]
  have "rget s' (bk @ '':balance_usd'') = rget s (bk @ '':balance_usd'')"
    by (rule R(5)) (use sp in \<open>auto simp: is_span_held_def split: option.splits\<close>)
  moreover have "num0 (rget s' (bk @ '':held_usd'')) = num0 (rget s (bk @ '':held_usd''))
      - max 0 (min (num0 (rget s (bk @ '':held_usd''))) amount)"
    using R(1,2,4) by (simp add: max_def min_def)
  ultimately show ?thesis by (simp add: Let_def flip: bk_def)
qed

lemma reserve_same_prefix:
  assumes "hold_reserve t s c est None = Inr (r, s')"
  shows "budget_prefix_for_read s' t c = budget_prefix_for_read s t c"
  using assms
proof (cases rule: hold_reserve_cases)
  case (reserved sk sh ss s1)
  define bk where "bk = budget_prefix_for_read s t c"
  have s1: "s1 = s" using reserved(7) by (simp add: span_hold_def text_or_empty_def)
  note inc = reserved(8) [unfolded s1, folded bk_def]
  have bal: "rget s (bk @ '':balance_usd'') \<noteq> None" using reserved(5) by (simp add: bk_def)
  have same: "rexists s' k = rexists s k" if "k \<noteq> bk @ '':held_usd''" for k
    using incr_num(3) [OF inc that] incrbyfloat_frame(1) [OF inc] by (simp add: rexists_def)
  have "budget_present s' p = budget_present s p" for p
  proof (cases "p = bk")
    case True
    have "rexists s' (bk @ '':balance_usd'')" "rexists s (bk @ '':balance_usd'')"
      using bal same [of "bk @ '':balance_usd''"] by (simp_all add: rexists_def)
    with True show ?thesis by (simp add: budget_present_def)
  next
    case False
    then show ?thesis by (simp add: budget_present_def same)
  qed
  then show ?thesis by (simp add: budget_read_fallback)
qed simp

text \<open>
  A hold comes back. If a hold is granted and then released with the same amount, what the budget has held is
  what it was, and its balance never moved.
\<close>

theorem reserve_then_reconcile:
  assumes "plain_tenant t" and "hold_reserve t s c est None = Inr (r, s1)" and "h_allowed r"
    and "hold_reconcile t s1 c est None = Inr (q, s2)" and "0 \<le> num0 (rget s (budget_prefix_for_read s t c @ '':held_usd''))"
  shows "num0 (rget s2 (budget_prefix_for_read s t c @ '':held_usd'')) = num0 (rget s (budget_prefix_for_read s t c @ '':held_usd''))
    \<and> rget s2 (budget_prefix_for_read s t c @ '':balance_usd'') = rget s (budget_prefix_for_read s t c @ '':balance_usd'')"
  using reserve_within_balance [OF assms(1,2)] reconcile_releases [OF assms(1,4)] assms(3,5)
  by (simp add: Let_def reserve_same_prefix [OF assms(2)])

lemma demo_reserve: "\<exists>r s1. hold_reserve None demo_store ''acme'' (7 / 2) None = Inr (r, s1) \<and> h_allowed r"
  using reserve_grants [of "7 / 2" demo_store None "''acme''" "CInt 10"] by (auto simp: demo_store_def num0_def is_num_def)

theorem reserve_then_reconcile_witness:
  "\<exists>r s1 q s2. hold_reserve None demo_store ''acme'' (7 / 2) None = Inr (r, s1)
     \<and> hold_reconcile None s1 ''acme'' (7 / 2) None = Inr (q, s2) \<and> num0 (rget s2 ''budget:acme:held_usd'') = 0"
proof -
  obtain r s1 where res: "hold_reserve None demo_store ''acme'' (7 / 2) None = Inr (r, s1)" "h_allowed r"
    using demo_reserve by blast
  have pl: "plain_tenant None" by (simp add: plain_tenant_def)
  have nums: "rget s1 ''budget:acme:balance_usd'' = Some (CInt 10)"
    using reserve_within_balance [OF pl res(1)] res(2) by (simp add: Let_def demo_store_def)
  from res(1) have "is_num (rget s1 ''budget:acme:held_usd'')"
  proof (cases rule: hold_reserve_cases)
    case (reserved sk sh ss s0)
    from incr_num(2) [OF reserved(8)] show ?thesis by (simp add: is_num_def)
  qed (use res(2) in simp)
  then obtain q s2 where rec: "hold_reconcile None s1 ''acme'' (7 / 2) None = Inr (q, s2)"
    using reconcile_ok [of s1 None "''acme''" "7 / 2"] nums by (auto simp: is_num_def)
  from reserve_then_reconcile [OF pl res rec] res(1) rec show ?thesis
    by (auto simp: demo_store_def num0_def)
qed

end
