(* ===== verification/Api_Answers.thy ===== *)
theory Api_Answers
  imports Api_Endpoints Reservation_Holds Demos
begin

text \<open>
  The answers of \<^verbatim>\<open>src/api/main.py\<close> as the JSON that clients read: its response models, and the dictionaries of the
  check and of a hold (\<^verbatim>\<open>budget.py\<close>, \<^verbatim>\<open>reservation.py\<close>). The order of fields in a dictionary is not kept; an amount is
  a JSON number.

  The lemmas put both sides together: what the quickstart accepts is what the counters hold, what the proof script takes as settled
  is a budget without a hold, and a strict stream of the SDK runs only while its estimate is held in Redis.
\<close>

section \<open>Response models\<close>

definition opt_int :: "int option \<Rightarrow> json" where
  "opt_int v = (case v of None \<Rightarrow> JNull | Some i \<Rightarrow> JInt i)"

definition opt_flt :: "rat option \<Rightarrow> json" where
  "opt_flt v = (case v of None \<Rightarrow> JNull | Some q \<Rightarrow> JFlt q)"

definition global_usage_json :: "global_usage \<Rightarrow> json" where
  "global_usage_json u =
     JObj [(''total_events'', JInt (gu_events u)), (''total_tokens'', JInt (gu_tokens u)), (''input_tokens'', JInt (gu_input u)),
       (''output_tokens'', JInt (gu_output u)), (''total_cost_usd'', JFlt (gu_cost u)), (''last_window_end'', opt_int (gu_window_end u))]"

definition customer_usage_json :: "customer_usage \<Rightarrow> json" where
  "customer_usage_json u =
     JObj [(''customer_id'', JStr (cu_customer u)), (''total_tokens'', JInt (cu_tokens u)), (''input_tokens'', JInt (cu_input u)),
       (''output_tokens'', JInt (cu_output u)), (''cache_read_tokens'', JInt (cu_cache_read u)),
       (''reasoning_tokens'', JInt (cu_reasoning u)), (''event_count'', JInt (cu_events u)), (''cost_usd'', JFlt (cu_cost u))]"

text \<open>A budget is the snapshot with what was spent.\<close>

definition customer_budget_json :: "snapshot \<times> rat \<Rightarrow> json" where
  "customer_budget_json b =
     JObj [(''customer_id'', JStr (s_customer (fst b))), (''balance_usd'', JFlt (s_balance (fst b))), (''held_usd'', JFlt (s_held (fst b))),
       (''effective_balance_usd'', JFlt (s_effective (fst b))), (''debt_usd'', JFlt (s_debt (fst b))),
       (''total_spent_usd'', JFlt (snd b)), (''alert_threshold_usd'', opt_flt (s_threshold (fst b))),
       (''is_exhausted'', JBool (s_exhausted (fst b)))]"

definition model_usage_json :: "model_usage \<Rightarrow> json" where
  "model_usage_json u =
     JObj [(''model_id'', JStr (mu_model u)), (''total_tokens'', JInt (mu_tokens u)), (''input_tokens'', JInt (mu_input u)),
       (''output_tokens'', JInt (mu_output u)), (''cost_usd'', JFlt (mu_cost u))]"

text \<open>The counters that buckets and sessions share.\<close>

definition bucket_fields_json :: "usage_bucket \<Rightarrow> (string \<times> json) list" where
  "bucket_fields_json d =
     [(''total_tokens'', JInt (ub_tokens d)), (''input_tokens'', JInt (ub_input d)), (''output_tokens'', JInt (ub_output d)),
      (''cache_read_tokens'', JInt (ub_cache_read d)), (''reasoning_tokens'', JInt (ub_reasoning d)),
      (''event_count'', JInt (ub_events d)), (''cost_usd'', JFlt (ub_cost d))]"

definition bucket_usage_json :: "bucket_response \<Rightarrow> json" where
  "bucket_usage_json r =
     JObj ([(''customer_id'', JStr (bu_customer r)), (''bucket'', JStr (bu_bucket r))] @ bucket_fields_json (bu_usage r))"

definition session_usage_json :: "string \<Rightarrow> cell option \<times> usage_bucket \<Rightarrow> json" where
  "session_usage_json session_id cd =
     JObj ([(''session_id'', JStr session_id), (''customer_id'', case fst cd of None \<Rightarrow> JNull | Some c \<Rightarrow> JStr (cell_text (Some c)))]
       @ bucket_fields_json (snd cd))"

section \<open>Decisions and holds\<close>

definition when_some :: "string \<Rightarrow> ('a \<Rightarrow> json) \<Rightarrow> 'a option \<Rightarrow> (string \<times> json) list" where
  "when_some f j v = (case v of None \<Rightarrow> [] | Some x \<Rightarrow> [(f, j x)])"

definition scope_fields :: "scope_denial \<Rightarrow> (string \<times> json) list" where
  "scope_fields h = [(''scope'', JStr (sd_scope h)), (''scope_id'', JStr (sd_id h)), (''spent_usd'', JFlt (sd_spent h)),
     (''scope_held_usd'', JFlt (sd_held h)), (''max_cost_usd'', JFlt (sd_max h))]"

definition key_fields :: "key_denial \<Rightarrow> (string \<times> json) list" where
  "key_fields k = [(''key_id'', JStr (kd_key k)), (''spent_usd'', JFlt (kd_spent k)), (''budget_usd'', JFlt (kd_budget k)),
     (''period'', JStr (kd_period k))]"

text \<open>The balance is there, if only as null, in every decision; the other fields where the decision has them.\<close>

definition decision_json :: "decision \<Rightarrow> json" where
  "decision_json d =
     JObj ([(''allowed'', JBool (d_allowed d)), (''reason'', JStr (d_reason d)), (''balance_usd'', opt_flt (d_balance d)),
            (''source'', JStr (d_source d))]
       @ when_some ''held_usd'' JFlt (d_held d) @ when_some ''effective_balance_usd'' JFlt (d_effective d)
       @ when_some ''requests_this_minute'' JInt (d_requests d) @ when_some ''max_rpm'' JInt (d_max_rpm d)
       @ (case d_scope d of None \<Rightarrow> [] | Some h \<Rightarrow> scope_fields h) @ (case d_key d of None \<Rightarrow> [] | Some k \<Rightarrow> key_fields k))"

definition hold_json :: "hold_reply \<Rightarrow> json" where
  "hold_json h =
     JObj ([(''allowed'', JBool (h_allowed h)), (''reason'', JStr (h_reason h))]
       @ when_some ''balance_usd'' JFlt (h_balance h) @ when_some ''held_usd'' JFlt (h_held h)
       @ when_some ''effective_balance_usd'' JFlt (h_effective h) @ when_some ''reserved_usd'' JFlt (h_reserved h)
       @ (case h_scope h of None \<Rightarrow> []
          | Some (kind, i) \<Rightarrow> [(''scope'', JStr kind), (''scope_id'', case i of None \<Rightarrow> JNull | Some t \<Rightarrow> JStr t)]))"

text \<open>An endpoint's answer as the SDK meets it.\<close>

definition http_answer :: "('a \<Rightarrow> json) \<Rightarrow> 'a res \<Rightarrow> http_result" where
  "http_answer f r = (case r of Inr v \<Rightarrow> HttpReply (f v) | Inl (HTTPException n) \<Rightarrow> HttpStatus n | Inl _ \<Rightarrow> HttpStatus 500)"

lemma http_answer_reply: "http_answer f r = HttpReply j \<longleftrightarrow> (\<exists>v. r = Inr v \<and> j = f v)"
  by (auto simp: http_answer_def split: sum.splits err.splits)

lemma allowed_read [simp]:
  "json_get (decision_json d) ''allowed'' x = Inr (JBool (d_allowed d))"
  "json_get (hold_json h) ''allowed'' x = Inr (JBool (h_allowed h))"
  by (simp_all add: decision_json_def hold_json_def json_get_def json_field_def)

lemma reserved_read: "h_reserved h = Some q \<Longrightarrow> json_get (hold_json h) ''reserved_usd'' x = Inr (JFlt q)"
  by (auto simp: hold_json_def json_get_def json_field_def when_some_def split: option.splits)

section \<open>The scripts read the counters\<close>

lemma number_same [simp]:
  "py_same (JInt i) (JInt j) \<longleftrightarrow> i = j" "py_same (JStr a) (JStr b) \<longleftrightarrow> a = b"
  by (simp_all add: py_same_def py_number_def)

lemma projected_reads:
  assumes "parse_float expected = Some q"
  shows "projected cid expected 200 (customer_usage_json u)
    = Inr (cu_customer u = cid \<and> cu_events u = 1 \<and> cu_input u = 1200 \<and> cu_output u = 400 \<and> cu_tokens u = 1600 \<and> cu_cost u = q)"
  using assms
  by (simp add: projected_def require_status_def quick_expected_def customer_usage_json_def json_get_def json_field_def decimal_of_def)

text \<open>
  The quickstart passes on exact counters only. Where the API answers for the usage of a customer, the script takes the answer as final
  exactly if the counters of that customer in Redis are those of its one event: one event, 1200 and 400 tokens, 1600 together, and the
  expected cost.
\<close>

theorem quickstart_reads_counters:
  assumes "get_customer_usage A s key cid = Inr u" and "parse_float expected = Some q"
  defines "k \<equiv> customer_prefix_for_read s (caller_tenant A s key) cid"
  shows "projected cid expected 200 (customer_usage_json u) = Inr True
    \<longleftrightarrow> rget s (k @ '':total_tokens'') = Some (CInt 1600) \<and> counter s k ''event_count'' = Inr 1
      \<and> counter s k ''input_tokens'' = Inr 1200 \<and> counter s k ''output_tokens'' = Inr 400 \<and> amount s k ''cost_usd'' = Inr q"
proof -
  have "get_customer s (caller_tenant A s key) cid = Inr (Some u)"
    using assms(1) by (auto simp: get_customer_usage_def as_reader_def or_404_def split: option.splits)
  then obtain c where c: "rget s (k @ '':total_tokens'') = Some c" "py_int c = Inr (cu_tokens u)"
    "counter s k ''event_count'' = Inr (cu_events u)" "counter s k ''input_tokens'' = Inr (cu_input u)"
    "counter s k ''output_tokens'' = Inr (cu_output u)" "amount s k ''cost_usd'' = Inr (cu_cost u)" "cu_customer u = cid"
    by (auto simp: get_customer_def Let_def k_def split: option.splits)
  have "c = CInt 1600 \<longleftrightarrow> cu_tokens u = 1600" using c(2) by (auto simp: py_int_def split: cell.splits)
  then show ?thesis using c(1,3-7) by (auto simp: projected_reads [OF assms(2)])
qed

lemma settled_reads: "is_settled (customer_budget_json b) = Inr (s_held (fst b) = 0 \<and> 0 < snd b)"
  by (simp add: is_settled_def customer_budget_json_def json_index_def py_same_def py_number_def py_greater_def)

lemma created_reads: "budget_created (customer_budget_json b) = (if s_held (fst b) = 0 then Inr () else Inl AssertionError)"
  by (simp add: budget_created_def customer_budget_json_def json_index_def py_same_def py_number_def assertE_def)

section \<open>A strict stream is held\<close>

lemma strict_wrap_reserve:
  assumes "wrap_reserve C (http_answer hold_json rr) = Inr reserved" and "\<not> wr_fail_open C"
  shows "\<exists>h. rr = Inr h \<and> h_allowed h \<and> (h_reserved h = Some q \<longrightarrow> q \<noteq> 0 \<longrightarrow> reserved = q)"
proof -
  obtain h where h: "rr = Inr h"
    using assms by (auto simp: wrap_reserve_def http_answer_def split: sum.splits err.splits)
  have al: "h_allowed h"
    using assms by (auto simp: wrap_reserve_def h http_answer_def json_true_def split: sum.splits if_splits)
  moreover have "reserved = q" if "h_reserved h = Some q" "q \<noteq> 0"
    using assms al that by (simp add: wrap_reserve_def h http_answer_def json_true_def reserved_read json_float_def)
  ultimately show ?thesis using h by blast
qed

text \<open>
  C7: a strict stream runs on a hold. A client that does not let calls pass when the API fails, whose check and hold are answered by
  the API, calls its provider for a stream only if the check allowed it and the hold was granted: then what its budget has held
  is raised by exactly its estimate, the balance is what it was and covers what is held, and the stream is cut at that
  estimate.
\<close>

theorem strict_stream_is_held:
  assumes "wrapped_call quote C M W True model = (r, True, M', qs)" and "\<not> wr_fail_open C" and "me_api_url M \<noteq> []"
    and "wo_check W = http_answer decision_json (fst (check_budget A key (wr_customer C) (wr_estimated C) sp se st0))"
    and "reserve_budget A key (wr_customer C) (wr_estimated C) None st = (rr, st')" and "wo_reserve W = http_answer hold_json rr"
    and "plain_tenant (norm_tenant (caller_tenant A (ap_db st) key))"
  shows "(\<exists>d. fst (check_budget A key (wr_customer C) (wr_estimated C) sp se st0) = Inr d \<and> d_allowed d)
    \<and> (let p = budget_prefix_for_read (ap_db st) (norm_tenant (caller_tenant A (ap_db st) key)) (wr_customer C) in
         num0 (rget (ap_db st') (p @ '':held_usd'')) = num0 (rget (ap_db st) (p @ '':held_usd'')) + wr_estimated C
         \<and> rget (ap_db st') (p @ '':balance_usd'') = rget (ap_db st) (p @ '':balance_usd'')
         \<and> num0 (rget (ap_db st') (p @ '':held_usd'')) \<le> num0 (rget (ap_db st') (p @ '':balance_usd'')))
    \<and> (case r of Inr (Streaming K) \<Rightarrow> ki_reserved K = wr_estimated C | Inr _ \<Rightarrow> False | Inl e \<Rightarrow> \<exists>x. e = Failed x \<and> wo_call W = Inl x)"
proof -
  obtain al reserved where gate: "json_get (safe_check C (wo_check W)) ''allowed'' (JBool False) = Inr al" "json_true al"
    and held: "wrap_reserve C (wo_reserve W) = Inr reserved"
    and r: "case wo_call W of Inl e \<Rightarrow> r = Inl (Failed e) | Inr v \<Rightarrow> r = Inr (Streaming (wrap_stream_of C model reserved))"
    using assms(1,3) by (auto simp: wrapped_call_def Let_def split: sum.splits if_splits)
  have d: "\<exists>d. fst (check_budget A key (wr_customer C) (wr_estimated C) sp se st0) = Inr d \<and> d_allowed d"
  proof (cases "fst (check_budget A key (wr_customer C) (wr_estimated C) sp se st0)")
    case (Inl e)
    then have "safe_check C (wo_check W) = JObj [(''allowed'', JBool False), (''reason'', JStr ''check_unavailable''), (''source'', JStr ''policy'')]"
      using assms(2,4) by (auto simp: safe_check_def http_answer_def split: err.splits)
    with gate show ?thesis by (auto simp: json_get_def json_field_def json_true_def)
  next
    case (Inr d)
    with gate assms(4) show ?thesis by (auto simp: safe_check_def http_answer_def json_true_def)
  qed
  obtain h where h: "rr = Inr h" "h_allowed h" "\<And>q. h_reserved h = Some q \<Longrightarrow> q \<noteq> 0 \<Longrightarrow> reserved = q"
    using strict_wrap_reserve [OF held [unfolded assms(6)] assms(2)] by blast
  then obtain s' where res: "hold_reserve (norm_tenant (caller_tenant A (ap_db st) key)) (ap_db st) (wr_customer C) (wr_estimated C) None
      = Inr (h, s')" "st' = with_db st s'"
    using assms(5) by (auto simp: reserve_budget_def as_admin_def Let_def split: sum.splits if_splits)
  have db: "ap_db st' = s'" by (simp add: res(2) with_db_def)
  note H = reserve_within_balance [OF assms(7) res(1)]
  have "reserved = wr_estimated C" "0 < wr_estimated C" using H h(2,3) by (auto simp: Let_def)
  with r have "case r of Inr (Streaming K) \<Rightarrow> ki_reserved K = wr_estimated C | Inr _ \<Rightarrow> False | Inl e \<Rightarrow> \<exists>x. e = Failed x \<and> wo_call W = Inl x"
    by (auto simp: wrap_stream_of_def split: sum.splits)
  with d H h(2) show ?thesis by (auto simp: Let_def db)
qed

section \<open>Concrete requests\<close>

definition hold_api :: api_env where
  "hold_api = \<lparr>ae_auth = \<lparr>API_KEY = [], ADMIN_API_KEY = [], AUTH_OPTIONAL = True\<rparr>, ae_digest = id, ae_dims = [],
     ae_fail_policy = ''open'', ae_pricing_file = None, ae_redis_up = False, ae_now = 0, ae_uuid = ''u'', ae_token = ''t''\<rparr>"

definition hold_start :: api_state where
  "hold_start = \<lparr>ap_budget = \<lparr>db = demo_store, cache = []\<rparr>, ap_catalog = None\<rparr>"

definition hold_client :: wrap_config where
  "hold_client = \<lparr>wr_customer = ''acme'', wr_estimated = 7 / 2, wr_fail_open = False, wr_parent_span_id = JNull,
     wr_session_id = JNull, wr_cost_out = 1, wr_cost_in = 1\<rparr>"

definition hold_meter :: meter where
  "hold_meter = new_meter ''http://api'' None JNull 0"

lemma hold_checked:
  "fst (check_budget hold_api None ''acme'' (7 / 2) None None hold_start) = Inr (policy_decision ''open'')"
  by (simp add: check_budget_def hold_api_def hold_start_def as_reader_def as_customer_def require_api_key_def
      require_customer_access_def is_global_api_key_def open_mode_def truthy_def resolve_key_context_def budget_check_def
      check_fallback_def bindE_def resolve_customer_from_key_def is_tenant_key_def Let_def)

lemma hold_reserved:
  "hold_reserve None demo_store ''acme'' (7 / 2) None = Inr (h, s1)
    \<Longrightarrow> reserve_budget hold_api None ''acme'' (7 / 2) None hold_start = (Inr h, with_db hold_start s1)"
  by (simp add: reserve_budget_def as_admin_def hold_api_def hold_start_def require_admin_key_def is_admin_key_def truthy_def
      open_mode_def caller_tenant_def resolve_tenant_from_key_def budget_exists_def norm_tenant_def demo_store_def rexists_def Let_def)

lemma hold_granted:
  "h_allowed h \<Longrightarrow> h_reserved h = Some (7 / 2) \<Longrightarrow> wrap_reserve hold_client (HttpReply (hold_json h)) = Inr (7 / 2)"
  by (simp add: wrap_reserve_def hold_client_def reserved_read [of h "7 / 2"] json_float_def json_true_def)

lemma hold_called:
  assumes "h_allowed h" and "h_reserved h = Some (7 / 2)"
  shows "\<exists>K M' qs. wrapped_call id hold_client hold_meter
      \<lparr>wo_check = HttpReply (decision_json (policy_decision ''open'')), wo_reserve = HttpReply (hold_json h), wo_call = Inr v,
       wo_track = E\<rparr> True model = (Inr (Streaming K), True, M', qs)"
  using hold_granted [OF assms]
  by (simp add: wrapped_call_def safe_check_def policy_decision_def plain_decision_def json_true_def Let_def hold_meter_def
      new_meter_def rstrip_slash_def)

theorem strict_stream_is_held_witness:
  "\<forall>v E. \<exists>h st' K M' qs. reserve_budget hold_api None ''acme'' (7 / 2) None hold_start = (Inr h, st')
     \<and> wrapped_call id hold_client hold_meter
         \<lparr>wo_check = HttpReply (decision_json (policy_decision ''open'')), wo_reserve = HttpReply (hold_json h), wo_call = Inr v,
          wo_track = E\<rparr> True ''gpt-4'' = (Inr (Streaming K), True, M', qs)
     \<and> ki_reserved K = 7 / 2 \<and> num0 (rget (ap_db st') ''budget:acme:held_usd'') = 7 / 2"
proof (intro allI)
  fix v :: pyobj and E :: sdk_env
  obtain h s1 where res: "hold_reserve None demo_store ''acme'' (7 / 2) None = Inr (h, s1)" "h_allowed h"
    using demo_reserve by blast
  have pl: "plain_tenant None" by (simp add: plain_tenant_def)
  have q: "h_reserved h = Some (7 / 2)" using reserve_within_balance [OF pl res(1)] res(2) by (simp add: Let_def)
  let ?W = "\<lparr>wo_check = HttpReply (decision_json (policy_decision ''open'')), wo_reserve = HttpReply (hold_json h), wo_call = Inr v,
     wo_track = E\<rparr>"
  from hold_called [OF res(2) q] obtain K M' qs
    where call: "wrapped_call id hold_client hold_meter ?W True ''gpt-4'' = (Inr (Streaming K), True, M', qs)" by blast
  have tenant: "norm_tenant (caller_tenant hold_api s None) = None" for s
    by (simp add: caller_tenant_def resolve_tenant_from_key_def truthy_def norm_tenant_def)
  have start: "ap_db hold_start = demo_store" "num0 (rget demo_store ''budget:acme:held_usd'') = 0"
    by (simp_all add: hold_start_def demo_store_def num0_def)
  have "ki_reserved K = 7 / 2 \<and> num0 (rget (ap_db (with_db hold_start s1)) ''budget:acme:held_usd'') = 7 / 2"
    using strict_stream_is_held [OF call, where A = hold_api and key = None and sp = None and se = None and ?st0.0 = hold_start
        and st = hold_start and rr = "Inr h" and st' = "with_db hold_start s1"]
      hold_reserved [OF res(1)] hold_checked
    by (simp add: tenant start pl hold_client_def hold_meter_def new_meter_def rstrip_slash_def http_answer_def Let_def)
  with hold_reserved [OF res(1)] call show "\<exists>h st' K M' qs. reserve_budget hold_api None ''acme'' (7 / 2) None hold_start = (Inr h, st')
     \<and> wrapped_call id hold_client hold_meter
         \<lparr>wo_check = HttpReply (decision_json (policy_decision ''open'')), wo_reserve = HttpReply (hold_json h), wo_call = Inr v,
          wo_track = E\<rparr> True ''gpt-4'' = (Inr (Streaming K), True, M', qs)
     \<and> ki_reserved K = 7 / 2 \<and> num0 (rget (ap_db st') ''budget:acme:held_usd'') = 7 / 2" by blast
qed

text \<open>The usage of a customer after the one event of the quickstart.\<close>

definition quick_store :: store where
  "quick_store = rset (rset (rset (rset (rset empty_store ''customer:c:total_tokens'' (CInt 1600)) ''customer:c:input_tokens'' (CInt 1200))
     ''customer:c:output_tokens'' (CInt 400)) ''customer:c:event_count'' (CInt 1)) ''customer:c:cost_usd'' (CFlt (7 / 1000))"

theorem quickstart_reads_counters_witness:
  "\<exists>u. get_customer_usage hold_api quick_store None ''c'' = Inr u
     \<and> projected ''c'' ''0.007'' 200 (customer_usage_json u) = Inr True"
proof -
  let ?u = "\<lparr>cu_customer = ''c'', cu_tokens = 1600, cu_input = 1200, cu_output = 400, cu_cache_read = 0, cu_reasoning = 0,
    cu_events = 1, cu_cost = 7 / 1000\<rparr>"
  have tenant: "caller_tenant hold_api quick_store None = None"
    by (simp add: caller_tenant_def resolve_tenant_from_key_def truthy_def)
  have u: "get_customer_usage hold_api quick_store None ''c'' = Inr ?u"
    unfolding get_customer_usage_def tenant
    by (simp add: as_reader_def require_api_key_def is_global_api_key_def hold_api_def open_mode_def truthy_def bindE_def or_404_def
        get_customer_def customer_prefix_for_read_def has_tenant_def customer_prefix_def Let_def quick_store_def counter_def
        amount_def int_or0_def float_or0_def py_int_def py_float_def)
  have q: "parse_float ''0.007'' = Some (7 / 1000)" by code_simp
  show ?thesis
    using quickstart_reads_counters [OF u q] u unfolding tenant
    by (simp add: customer_prefix_for_read_def has_tenant_def customer_prefix_def Let_def quick_store_def counter_def amount_def
        int_or0_def float_or0_def py_int_def py_float_def)
qed

end
