(* ===== verification/Spec2Isabelle.thy ===== *)
theory Spec2Isabelle
  imports Reservation_Spec Budget_Facts Pricing_Facts Custody_Facts Dispatcher Batcher Api_Ingest Api_Endpoints Gateway_Runs Webhooks Reconcile_Job Control_Plane Intel_Routes Sdk_Streams Dlq_Replay Service Load_Test End_To_End Demos Gateway_Demos Full_Demo Shutdown Reservation_Holds Api_Answers
begin

text \<open>
  FluxMeter meters the tokens that customers of language models use, prices them, and stops customers who
  have spent their budget. This development models its Python code: the API, its gateway, its workers, the
  control plane, the intelligence reports, the Python SDK and the scripts.

  \<^bold>\<open>The parts and how they meet.\<close> A client (the SDK, or the gateway on behalf of a caller) sends usage events to
  \<^verbatim>\<open>/ingest\<close>. Custody claims the id of an event in the identity registry, hands its envelope to Kafka and records
  the id as accepted, in doubt or free again; the gateway hands its events over through an outbox. What Kafka
  holds is aggregated by a Java engine into counters in Redis, which the API reads. Before a completion the
  gateway asks the budget, opens a reservation for the estimated cost, relays the answer of the provider under
  a stream guard that cuts it when the hold is used up, and settles. Workers deliver budget alerts, export usage
  to billing platforms, reconcile balances and drain the outbox. All share one Redis store, modelled in
  \<^verbatim>\<open>Redis_Store\<close> as a record of keys, hashes, sorted sets, lists, sets and lifetimes with the documented effect of
  each command; the store with the messages handed to Kafka is the \<open>world\<close> of \<^verbatim>\<open>Outbox\<close>.

  \<^bold>\<open>Theories and the code they model\<close> (files under \<^verbatim>\<open>src/api\<close> unless another directory is named).
  \<^item> \<^verbatim>\<open>Prelude\<close>, \<^verbatim>\<open>Calendar\<close>, \<^verbatim>\<open>Redis_Store\<close>: errors as values, Python's conversions, texts and JSON values; UTC dates; Redis.
  \<^item> \<^verbatim>\<open>Tenant_Keys\<close>: the names of keys (\<^verbatim>\<open>tenant_keys.py\<close>), and that those of different tenants never coincide.
  \<^item> \<^verbatim>\<open>Reservation\<close>, \<^verbatim>\<open>Reservation_Books\<close>, \<^verbatim>\<open>Reservation_Cases\<close>, \<^verbatim>\<open>Reservation_Spec\<close>, \<^verbatim>\<open>Reservation_Holds\<close>:
    holds (\<^verbatim>\<open>reservation.py\<close>), with the Lua scripts statement by statement; they refine an abstract ledger of open reservations and account
    credits, and its books balance over any interleaving of open, refresh, settle and expiry.
  \<^item> \<^verbatim>\<open>Auth\<close>, \<^verbatim>\<open>Budget\<close>, \<^verbatim>\<open>Budget_Facts\<close>: keys and their caps (\<^verbatim>\<open>auth.py\<close>), balances, limits, top-ups and the check
    (\<^verbatim>\<open>budget.py\<close>); who passes, at most how often, and the balance equation.
  \<^item> \<^verbatim>\<open>Pricing\<close>, \<^verbatim>\<open>Pricing_Facts\<close>: the catalog and its cost modes (\<^verbatim>\<open>pricing_loader.py\<close>); graduated cost agrees with
    charging token by token.
  \<^item> \<^verbatim>\<open>Identity\<close>, \<^verbatim>\<open>Identity_Facts\<close>, \<^verbatim>\<open>Custody\<close>, \<^verbatim>\<open>Custody_Facts\<close>: the registry of event ids and custody (\<^verbatim>\<open>ingestion.py\<close>);
    sharding and batching refine a plain map, an accepted event is not handed over again.
  \<^item> \<^verbatim>\<open>Dispatcher\<close>, \<^verbatim>\<open>Batcher\<close>: the Kafka producer and the custody queue (\<^verbatim>\<open>ingestion.py\<close>) as step relations whose
    threads are interleaved freely; slots are conserved, late reports reconciled once, requests answered once.
  \<^item> \<^verbatim>\<open>Shutdown\<close>: the producer and the batcher of a process (\<^verbatim>\<open>main.py\<close>) and the handler that closes them; the polling
    thread outlives the batches, and exactly when a shutdown can end.
  \<^item> \<^verbatim>\<open>Outbox\<close>: \<^verbatim>\<open>gateway/outbox.py\<close>; an envelope is acknowledged or kept, and the outbox drains in order.
  \<^item> \<^verbatim>\<open>Usage\<close>, \<^verbatim>\<open>Rerate\<close>: counters, buckets and dimensions (\<^verbatim>\<open>usage_query.py\<close>, \<^verbatim>\<open>usage_buckets.py\<close>, \<^verbatim>\<open>rollup_store.py\<close>,
    \<^verbatim>\<open>billing_dims.py\<close>), and re-rating (\<^verbatim>\<open>main.py\<close>), which keeps cost plus balance.
  \<^item> \<^verbatim>\<open>Api_Ingest\<close>, \<^verbatim>\<open>Api_Endpoints\<close>, \<^verbatim>\<open>Service\<close>: the endpoints of \<^verbatim>\<open>main.py\<close>, start-up, readiness, the watermark
    heartbeat and the counters; what an answer promises, and who can change what.
  \<^item> \<^verbatim>\<open>Api_Answers\<close>: the response models of \<^verbatim>\<open>main.py\<close> as JSON, and what the SDK and the scripts read from them; a
    strict stream of the SDK runs on a hold in Redis.
  \<^item> \<^verbatim>\<open>Billing_Export\<close>: \<^verbatim>\<open>billing_export.py\<close>; what is billed is what is recorded as reported.
  \<^item> \<^verbatim>\<open>Stream_Guard\<close>, \<^verbatim>\<open>Gateway\<close>, \<^verbatim>\<open>Gateway_Facts\<close>, \<^verbatim>\<open>Gateway_Runs\<close>: \<^verbatim>\<open>gateway/\<close>; a stream stays within its hold however it is
    cut into chunks, is metered once however it ends, and a refused completion leaves nothing behind.
  \<^item> \<^verbatim>\<open>Webhooks\<close>, \<^verbatim>\<open>Reconcile_Job\<close>, \<^verbatim>\<open>Dlq_Replay\<close>: \<^verbatim>\<open>webhook_worker.py\<close> and \<^verbatim>\<open>webhook_deliver.py\<close>,
    \<^verbatim>\<open>src/jobs/reconcile_balances.py\<close>, \<^verbatim>\<open>src/scripts/dlq_replay.py\<close>.
  \<^item> \<^verbatim>\<open>Control_Plane\<close>: \<^verbatim>\<open>src/services/control-plane\<close>; a tenant's key means the tenant to the API until it is deleted.
  \<^item> \<^verbatim>\<open>Intel_Reader\<close>, \<^verbatim>\<open>Intel_Reports\<close>, \<^verbatim>\<open>Intel_Facts\<close>, \<^verbatim>\<open>Intel_Alerts\<close>, \<^verbatim>\<open>Intel_Routes\<close>: \<^verbatim>\<open>intelligence/\<close>, with the texts of the
    reports; contributions explain the change, forecasts extrapolate, alerts are delivered once.
  \<^item> \<^verbatim>\<open>Sdk_Client\<close>, \<^verbatim>\<open>Sdk_Streams\<close>: \<^verbatim>\<open>src/sdk/python/fluxmeter\<close>; deliveries, wrapped clients and streams.
  \<^item> \<^verbatim>\<open>Load_Test\<close>: \<^verbatim>\<open>src/scripts/http-load-test.py\<close> and \<^verbatim>\<open>benchmark_capacity.py\<close>; what a passing run says of its latencies.
  \<^item> \<^verbatim>\<open>End_To_End\<close>: the client, the endpoint, custody and the registry together; a delivery with its retries leaves
    at most one message that Kafka may hold.
  \<^item> \<^verbatim>\<open>Demos\<close>, \<^verbatim>\<open>Gateway_Demos\<close>, \<^verbatim>\<open>Full_Demo\<close>: the scripts of \<^verbatim>\<open>src/demos\<close> as checks of the program: which pass, which
    cannot, and what one that passes has seen; with what a completion writes to Redis, and never a balance.

  \<^bold>\<open>Conventions.\<close> A function of the code is a definition of the same name where Isabelle has none of it; a method
  has the name of its class in front where it would be ambiguous. An operation takes the state and returns its
  result with the state it leaves, also when it raises: the result is an error on the left or a value on the
  right. A class or model is a record, an enumeration a datatype, a dictionary an association list in the order of insertion
  where the order matters. Python's integers are \<open>int\<close>. Amounts in USD, times and rates are exact rationals: the
  statements are about the arithmetic that is meant, not about its rounding errors; rounding that the code asks
  for (\<open>round\<close>, truncation, the formats of the texts) is modelled. Properties carry a claim id C1, C2 and so on
  in the text before them; a theorem whose name ends in \<open>_witness\<close> applies the property of that name to a
  concrete case. Locales state interfaces (the queue's client, the custody service, steps on one cell, shared
  slots, keys with a fallback, capped counters) and are interpreted on the definitions of the model.

  \<^bold>\<open>What comes from outside\<close> is an argument: SHA-256 and HMAC, the canonical text of JSON, the clock, fresh ids
  and random numbers, environment variables, the catalog file, the outcome of every Kafka publication, HTTP
  call and Stripe call, whether Redis answers at a step that may find it down, pydantic's validation, and the
  order in which Redis or Python visits a set. No property assumes more of an argument than it states.

  \<^bold>\<open>Loops, bounds and fuel.\<close> Loops over data are structural recursion; the graduated cost, the lines of a stream
  and the search for a year are recursive functions with a measure. A loop that takes something from outside at each
  turn (the outcome of a publication, an attempt, a poll, a chunk) recurses over what it is given. Only the loop of
  the outbox worker is cut short when its list of outcomes ends; the property about it shows that one outcome
  for each envelope and one more are enough. Loops of workers are modelled turn by turn, and their runs as lists of turns.
  Retries and batches have the bounds of the code: three attempts to finalize an id and to deliver a webhook, as many
  as configured for the SDK, ten alerts replayed at a time, 64 entries cleaned up by a claim, a thousand
  events in a batch. The lifetimes that matter: an accepted id lives for thirty days, one in doubt for ten minutes, a
  pending one for two.

  \<^bold>\<open>What the properties say.\<close> Money: holds never leak, a settlement releases once, an open fits in the balance, a
  re-rate and a top-up keep the balance equation, usage is billed once. Events: a delivery, a repeat and a
  crash between the steps do not duplicate or lose an event, up to the doubt Kafka leaves. Admission: budgets,
  rate limits, caps and keys are respected, and only the admin key changes what it should. Streams: cut at
  the hold, metered once. Reports: exact sums, exact thresholds. Where the code does something else than it means to
  or than its documents say, the behaviour is proved as it is, and such lemmas say so in the text before them.

  \<^bold>\<open>Not modelled\<close>, with the reason. The Java engine under \<^verbatim>\<open>src/src\<close> and the JavaScript SDK are written in other
  languages; of the engine only the counters it leaves appear. Construction of applications and connection
  pools, the settings of the Kafka client, \<^verbatim>\<open>/health\<close>, \<^verbatim>\<open>/openapi.yaml\<close>, argument parsing and logging are input and output without logic.
  Tests, deployment files and documents are not part of the program; the parts of the demonstrations that talk to a live
  provider or start processes are input and output. The metrics are modelled
  as counters (\<^verbatim>\<open>Service\<close>) and their calls are left out of the operations. In \<^verbatim>\<open>Api_Ingest\<close> the batcher is used as a
  caller alone in its batch sees it, \<^verbatim>\<open>Batcher\<close> has the general case. In \<^verbatim>\<open>End_To_End\<close> no late delivery report
  arrives between two attempts; \<^verbatim>\<open>Dispatcher\<close> and \<^verbatim>\<open>Custody\<close> have what such a report does.
\<close>

end
